(* ===== verification/Prelude.thy ===== *)
theory Prelude
  imports Main "HOL-Library.Word"
begin

text \<open>
  Shared material of the development: the machine integer types of the C sources, the
  outcome of running a piece of C code (it returns, it leaves the process through
  \<^verbatim>\<open>exit\<close>, it reaches undefined behaviour, or a bounded model of a loop or of a
  re-entrant call runs out of fuel), sequencing of statements, Hoare triples over outcomes,
  the C \<^verbatim>\<open>switch\<close> statement as a table, and the bit and bound lemmas the
  components use.
\<close>

unbundle bit_operations_syntax

section \<open>Machine integers\<close>

type_synonym u8 = "8 word"
type_synonym u16 = "16 word"
type_synonym u32 = "32 word"
type_synonym u64 = "64 word"

text \<open>The casts \<^verbatim>\<open>(INT8) x\<close> and \<^verbatim>\<open>(INT16) x\<close> of an unsigned value, widened back
  to \<^verbatim>\<open>unsigned\<close> as C does when the result takes part in unsigned arithmetic.\<close>

definition INT8 :: "u32 \<Rightarrow> u32" where
  "INT8 x = scast (ucast x :: u8)"

definition INT16 :: "u32 \<Rightarrow> u32" where
  "INT16 x = scast (ucast x :: u16)"

section \<open>Outcomes and sequencing\<close>

datatype (dead 'a, dead 's) outcome =
    Ret 'a 's
  | Exit int 's
  | UB
  | NoFuel

text \<open>\<open>stmt\<close> is a C statement over the state \<open>'s\<close>; \<open>expr\<close> a C expression with effects.\<close>

type_synonym ('s, 'a) expr = "'s \<Rightarrow> ('a, 's) outcome"
type_synonym 's stmt = "('s, unit) expr"

fun bindR :: "('a, 's) outcome \<Rightarrow> ('a \<Rightarrow> 's \<Rightarrow> ('b, 's) outcome) \<Rightarrow> ('b, 's) outcome" where
  "bindR (Ret x s) f = f x s"
| "bindR (Exit c s) f = Exit c s"
| "bindR UB f = UB"
| "bindR NoFuel f = NoFuel"

primrec block :: "'s stmt list \<Rightarrow> 's stmt" where
  "block [] s = Ret () s"
| "block (m # ms) s = bindR (m s) (\<lambda>_ s'. block ms s')"

text \<open>An expression whose value the rest of the statement uses.\<close>

definition bindE :: "('s, 'a) expr \<Rightarrow> ('a \<Rightarrow> ('s, 'b) expr) \<Rightarrow> ('s, 'b) expr" where
  "bindE m f s = bindR (m s) f"

text \<open>Assignment to state components, and a guarded statement.\<close>

definition assign :: "('s \<Rightarrow> 's) \<Rightarrow> 's stmt" where
  "assign f s = Ret () (f s)"

definition doif :: "bool \<Rightarrow> 's stmt \<Rightarrow> 's stmt" where
  "doif b m s = (if b then m s else Ret () s)"

text \<open>A C \<^verbatim>\<open>switch\<close>: a table of cases and a default.\<close>

definition switch :: "('k \<times> 's stmt) list \<Rightarrow> 's stmt \<Rightarrow> 'k \<Rightarrow> 's stmt" where
  "switch tab dflt k = (case map_of tab k of Some m \<Rightarrow> m | None \<Rightarrow> dflt)"

lemma bindR_assoc: "bindR (bindR m f) g = bindR m (\<lambda>x s. bindR (f x s) g)"
  by (cases m) auto

lemma bindR_Ret: "bindR m Ret = m"
  by (cases m) simp_all

lemma bindR_Ret_iff:
  "bindR m f = Ret y t \<longleftrightarrow> (\<exists>x s. m = Ret x s \<and> f x s = Ret y t)"
  by (cases m) auto

lemma bindE_RetE:
  assumes "bindE m f s = Ret y t"
  obtains x u where "m s = Ret x u" "f x u = Ret y t"
  using assms by (auto simp: bindE_def bindR_Ret_iff)

lemma block_ConsE:
  assumes "block (m # ms) s = Ret y t"
  obtains u where "m s = Ret () u" "block ms u = Ret y t"
  using assms by (auto simp: bindR_Ret_iff)

lemma block_append: "block (xs @ ys) s = bindR (block xs s) (\<lambda>_. block ys)"
  by (induction xs arbitrary: s) (auto simp: bindR_assoc)

lemma switch_cases:
  assumes "\<forall>p \<in> set tab. P (snd p)" and "P dflt"
  shows "P (switch tab dflt k)"
  using assms by (force simp: switch_def dest: map_of_SomeD split: option.split)

section \<open>Hoare triples over outcomes\<close>

text \<open>Partial correctness: a run that returns ends in the postcondition.\<close>

definition triple :: "('s \<Rightarrow> bool) \<Rightarrow> ('s, 'a) expr \<Rightarrow> ('a \<Rightarrow> 's \<Rightarrow> bool) \<Rightarrow> bool" where
  "triple P m Q \<longleftrightarrow> (\<forall>s x t. P s \<longrightarrow> m s = Ret x t \<longrightarrow> Q x t)"

lemma tripleI: "(\<And>s x t. P s \<Longrightarrow> m s = Ret x t \<Longrightarrow> Q x t) \<Longrightarrow> triple P m Q"
  by (simp add: triple_def)

lemma tripleD: "triple P m Q \<Longrightarrow> P s \<Longrightarrow> m s = Ret x t \<Longrightarrow> Q x t"
  by (simp add: triple_def)

lemma triple_bind:
  assumes "triple P m Q" and "\<And>x. triple (Q x) (f x) R"
  shows "triple P (\<lambda>s. bindR (m s) f) R"
  using assms by (auto simp: triple_def bindR_Ret_iff)

lemma triple_block_Nil: "(\<And>s. P s \<Longrightarrow> Q s) \<Longrightarrow> triple P (block []) (\<lambda>_. Q)"
  by (simp add: triple_def)

lemma triple_block_Cons:
  assumes "triple P m (\<lambda>_. Q)" and "triple Q (block ms) R"
  shows "triple P (block (m # ms)) R"
  using assms by (auto simp: triple_def bindR_Ret_iff)

lemma triple_weaken:
  assumes "triple P m Q" and "\<And>s. P' s \<Longrightarrow> P s" and "\<And>x s. Q x s \<Longrightarrow> Q' x s"
  shows "triple P' m Q'"
  using assms unfolding triple_def by blast

lemma triple_assign: "(\<And>s. P s \<Longrightarrow> Q () (f s)) \<Longrightarrow> triple P (assign f) Q"
  by (auto simp: triple_def assign_def)

lemma triple_doif:
  "(b \<Longrightarrow> triple P m (\<lambda>_. Q)) \<Longrightarrow> (\<And>s. \<not> b \<Longrightarrow> P s \<Longrightarrow> Q s) \<Longrightarrow> triple P (doif b m) (\<lambda>_. Q)"
  by (auto simp: triple_def doif_def split: if_splits)

lemma triple_if:
  "triple P m1 Q \<Longrightarrow> triple P m2 Q \<Longrightarrow> triple P (\<lambda>s. if b s then m1 s else m2 s) Q"
  by (simp add: triple_def)

lemma triple_of_state: "(\<And>u. triple P (m u) Q) \<Longrightarrow> triple P (\<lambda>s. m (f s) s) Q"
  by (simp add: triple_def)

section \<open>Relational contracts\<close>

text \<open>From a state in \<open>P\<close> the code does not run out of fuel, and where it returns the old and
  the new state are related by \<open>R\<close>.\<close>

definition obeys :: "('s \<Rightarrow> bool) \<Rightarrow> ('s \<Rightarrow> 's \<Rightarrow> bool) \<Rightarrow> ('s, 'a) expr \<Rightarrow> bool" where
  "obeys P R m \<longleftrightarrow> (\<forall>s. P s \<longrightarrow> m s \<noteq> NoFuel \<and> (\<forall>x t. m s = Ret x t \<longrightarrow> R s t))"

lemma obeysI: "(\<And>s. P s \<Longrightarrow> m s \<noteq> NoFuel) \<Longrightarrow> (\<And>s x t. P s \<Longrightarrow> m s = Ret x t \<Longrightarrow> R s t) \<Longrightarrow> obeys P R m"
  by (simp add: obeys_def)

lemma obeysD: "obeys P R m \<Longrightarrow> P s \<Longrightarrow> m s = Ret x t \<Longrightarrow> R s t"
  by (simp add: obeys_def)

lemma obeys_NoFuel: "obeys P R m \<Longrightarrow> P s \<Longrightarrow> m s \<noteq> NoFuel"
  by (simp add: obeys_def)

lemma obeys_weaken: "obeys P R m \<Longrightarrow> (\<And>s t. P s \<Longrightarrow> R s t \<Longrightarrow> R' s t) \<Longrightarrow> obeys P R' m"
  unfolding obeys_def by blast

lemma obeys_bindE:
  assumes "obeys P R m" "\<And>x. obeys P R' (f x)"
    and "\<And>s t. P s \<Longrightarrow> R s t \<Longrightarrow> P t" "\<And>s t u. P s \<Longrightarrow> R s t \<Longrightarrow> R' t u \<Longrightarrow> R'' s u"
  shows "obeys P R'' (bindE m f)"
proof (rule obeysI)
  fix s
  assume "P s"
  then show "bindE m f s \<noteq> NoFuel"
    using assms(1-3) by (cases "m s") (auto simp: bindE_def obeys_def)
next
  fix s x u
  assume "P s" "bindE m f s = Ret x u"
  moreover from this obtain y t where "m s = Ret y t" "f y t = Ret x u"
    by (auto simp: bindE_def bindR_Ret_iff)
  ultimately show "R'' s u"
    using assms by (meson obeysD)
qed

lemma obeys_if:
  "obeys P R m1 \<Longrightarrow> obeys P R m2 \<Longrightarrow> obeys P R (\<lambda>s. if b s then m1 s else m2 s)"
  by (simp add: obeys_def)

lemma obeys_of_state: "(\<And>u. obeys P R (m u)) \<Longrightarrow> obeys P R (\<lambda>s. m (f s) s)"
  by (simp add: obeys_def)

lemma bindE_eta: "(\<lambda>s. bindR (m s) f) = bindE m f"
  by (simp add: fun_eq_iff bindE_def)

lemma block_Cons_bindE: "block (m # ms) = bindE m (\<lambda>_. block ms)"
  by (simp add: fun_eq_iff bindE_def)

section \<open>Bits and bounds\<close>

lemma and_flag [simp]:
  fixes w :: u32
  shows "w AND 0x80 = 0 \<longleftrightarrow> \<not> bit w 7" and "w AND 0x40 = 0 \<longleftrightarrow> \<not> bit w 6"
    and "w AND 0x20 = 0 \<longleftrightarrow> \<not> bit w 5" and "w AND 0x10 = 0 \<longleftrightarrow> \<not> bit w 4"
    and "w AND 8 = 0 \<longleftrightarrow> \<not> bit w 3" and "w AND 4 = 0 \<longleftrightarrow> \<not> bit w 2"
    and "w AND 2 = 0 \<longleftrightarrow> \<not> bit w 1" and "w AND 1 = 0 \<longleftrightarrow> \<not> bit w 0"
    and "w AND 0x100 = 0 \<longleftrightarrow> \<not> bit w 8" and "w AND 0x10000 = 0 \<longleftrightarrow> \<not> bit w 16"
  using and_exp_eq_0_iff_not_bit [of w 7] and_exp_eq_0_iff_not_bit [of w 6]
    and_exp_eq_0_iff_not_bit [of w 5] and_exp_eq_0_iff_not_bit [of w 4]
    and_exp_eq_0_iff_not_bit [of w 3] and_exp_eq_0_iff_not_bit [of w 2]
    and_exp_eq_0_iff_not_bit [of w 1] and_exp_eq_0_iff_not_bit [of w 0]
    and_exp_eq_0_iff_not_bit [of w 8] and_exp_eq_0_iff_not_bit [of w 16]
  by simp_all

lemma bit_unat: "bit (w :: 'a::len word) n \<longleftrightarrow> odd (unat w div 2 ^ n)"
proof -
  have "bit (unat w) n \<longleftrightarrow> bit w n"
    by (simp add: bit_unsigned_iff)
  then show ?thesis by (simp add: bit_iff_odd)
qed

lemma odd_div_top: "n < 2 * k \<Longrightarrow> odd (n div k) \<longleftrightarrow> k \<le> n" for n k :: nat
  by (cases "k \<le> n") (auto simp: le_div_geq)

lemma top_bit:
  "unat (w :: 'a::len word) < 2 * 2 ^ n \<Longrightarrow> bit w n \<longleftrightarrow> 2 ^ n \<le> unat w"
  by (simp add: bit_unat odd_div_top)

lemma unat_mask: "unat ((w :: 'a::len word) AND mask n) = unat w mod 2 ^ n"
  by (simp flip: take_bit_eq_mask take_bit_eq_mod add: unsigned_take_bit_eq)

lemma unat_and_ff [simp]: "unat ((w :: u32) AND 0xff) = unat w mod 256"
  using unat_mask [of w 8] by (simp add: mask_eq_exp_minus_1)

lemma unat_and_ffff [simp]: "unat ((w :: u32) AND 0xffff) = unat w mod 65536"
  using unat_mask [of w 16] by (simp add: mask_eq_exp_minus_1)

lemma unat_shr: "unat (drop_bit n (w :: 'a::len word)) = unat w div 2 ^ n"
  unfolding unat_drop_bit_eq by (simp add: drop_bit_eq_div)

text \<open>Register values are kept in 32-bit variables but stay within 8 or 16 bits.\<close>

definition byte :: "u32 \<Rightarrow> bool" where
  "byte w \<longleftrightarrow> unat w < 256"

definition half :: "u32 \<Rightarrow> bool" where
  "half w \<longleftrightarrow> unat w < 65536"

lemma byte_take_bit: "byte w \<longleftrightarrow> take_bit 8 w = w"
  using mod_less_divisor [of 256 "unat w"]
  by (auto simp: byte_def take_bit_eq_mask mask_eq_exp_minus_1 word_unat_eq_iff)

lemma half_take_bit: "half w \<longleftrightarrow> take_bit 16 w = w"
  using mod_less_divisor [of 65536 "unat w"]
  by (auto simp: half_def take_bit_eq_mask mask_eq_exp_minus_1 word_unat_eq_iff)

lemma byte_half: "byte w \<Longrightarrow> half w"
  by (simp add: byte_def half_def)

lemma byte_mask [simp]: "byte (w AND 0xff)"
  by (simp add: byte_def)

lemma half_mask [simp]: "half (w AND 0xffff)"
  by (simp add: half_def)

lemma byte_bitwise [simp]:
  "byte a \<Longrightarrow> byte (a AND b)" "byte b \<Longrightarrow> byte (a AND b)"
  "byte a \<Longrightarrow> byte b \<Longrightarrow> byte (a OR b)" "byte a \<Longrightarrow> byte b \<Longrightarrow> byte (a XOR b)"
  by (auto simp: byte_take_bit bit_eq_iff bit_take_bit_iff bit_and_iff bit_or_iff bit_xor_iff)

lemma half_bitwise [simp]:
  "half a \<Longrightarrow> half (a AND b)" "half b \<Longrightarrow> half (a AND b)"
  "half a \<Longrightarrow> half b \<Longrightarrow> half (a OR b)" "half a \<Longrightarrow> half b \<Longrightarrow> half (a XOR b)"
  by (auto simp: half_take_bit bit_eq_iff bit_take_bit_iff bit_and_iff bit_or_iff bit_xor_iff)

lemma unat_u8: "unat (x :: u8) < 256"
  by (rule order_less_le_trans [OF unsigned_less]) simp

lemma unat_u16: "unat (x :: u16) < 65536"
  by (rule order_less_le_trans [OF unsigned_less]) simp

lemma unat_ucast8 [simp]: "unat (ucast (x :: u8) :: u32) = unat x"
  using unat_u8 [of x] by (simp add: unsigned_ucast_eq take_bit_nat_eq_self_iff)

lemma unat_ucast16 [simp]: "unat (ucast (x :: u16) :: u32) = unat x"
  using unat_u16 [of x] by (simp add: unsigned_ucast_eq take_bit_nat_eq_self_iff)

lemma byte_ucast [simp]: "byte (ucast (x :: u8))"
  using unat_u8 [of x] by (simp add: byte_def)

lemma half_ucast [simp]: "half (ucast (x :: u16))" "half (ucast (y :: u8))"
  using unat_u16 [of x] unat_u8 [of y] by (simp_all add: half_def)

text \<open>The two's complement reading of an 8-bit or 16-bit register value.\<close>

definition s8 :: "u32 \<Rightarrow> int" where
  "s8 w = sint (ucast w :: u8)"

definition s16 :: "u32 \<Rightarrow> int" where
  "s16 w = sint (ucast w :: u16)"

lemma sint_u8: "sint (x :: u8) = (if 128 \<le> unat x then int (unat x) - 256 else int (unat x))"
proof -
  have "bit (uint x) 7 \<longleftrightarrow> 128 \<le> unat x"
    using top_bit [of x 7] unat_u8 [of x] by (simp add: bit_unsigned_iff)
  moreover have "take_bit 8 (uint x) = uint x"
    by (simp add: take_bit_int_eq_self_iff) (rule order_less_le_trans [OF unsigned_less], simp)
  ultimately show ?thesis by (simp add: sint_uint signed_take_bit_eq_take_bit_minus)
qed

lemma sint_u16: "sint (x :: u16) = (if 32768 \<le> unat x then int (unat x) - 65536 else int (unat x))"
proof -
  have "bit (uint x) 15 \<longleftrightarrow> 32768 \<le> unat x"
    using top_bit [of x 15] unat_u16 [of x] by (simp add: bit_unsigned_iff)
  moreover have "take_bit 16 (uint x) = uint x"
    by (simp add: take_bit_int_eq_self_iff) (rule order_less_le_trans [OF unsigned_less], simp)
  ultimately show ?thesis by (simp add: sint_uint signed_take_bit_eq_take_bit_minus)
qed

lemma s8_byte: "byte w \<Longrightarrow> s8 w = (if 128 \<le> unat w then int (unat w) - 256 else int (unat w))"
  by (simp add: s8_def sint_u8 byte_def unsigned_ucast_eq take_bit_nat_eq_self)

lemma s16_half: "half w \<Longrightarrow> s16 w = (if 32768 \<le> unat w then int (unat w) - 65536 else int (unat w))"
  by (simp add: s16_def sint_u16 half_def unsigned_ucast_eq take_bit_nat_eq_self)

end
