(* ===== verification/Cpu_State.thy ===== *)
theory Cpu_State
  imports Prelude
begin

text \<open>
  The processor state of \<^verbatim>\<open>src/src/6809.c\<close>: its global variables as a record, the
  interface through which the processor reaches the bus and the debugger, the register
  accessors, the condition code register and the register numbering of TFR and EXG.
  Registers are C \<^verbatim>\<open>unsigned\<close> variables, so they are 32-bit words here and stay within
  8 or 16 bits only because the code masks them. The condition flags are kept lazily, as in
  the code: N and OV in bit 7, H in bit 4, Z as a value that is zero when the flag is set,
  C as a value that is nonzero when the flag is set. The build without H6309 is modelled.
\<close>

section \<open>State\<close>

definition CWAI_STATE_IDLE :: int where "CWAI_STATE_IDLE = 0"
definition CWAI_STATE_WAIT :: int where "CWAI_STATE_WAIT = 1"

record cpu =
  rX :: u32
  rY :: u32
  rS :: u32
  rU :: u32
  rPC :: u32
  rA :: u32
  rB :: u32
  rDP :: u32
  fH :: u32
  fN :: u32
  fZ :: u32
  fOV :: u32
  fC :: u32
  EFI :: u32
  iPC :: u32
  irq_start_time :: u64
  ea :: u32
  cpu_clk :: int
  cpu_period :: int
  irqs_pending :: u32
  firqs_pending :: u32
  cc_changed :: bool
  cwai_state :: int
  total :: u64
  debug_enabled :: bool
  monitor_on :: bool
  irq_cycle_tab :: "u32 list"
  irq_cycle_entry :: nat
  irq_cycles :: u64

definition IRQ_CYCLE_COUNTS :: nat where "IRQ_CYCLE_COUNTS = 128"

text \<open>The values the variables have when the process starts.\<close>

definition power_on :: "'x \<Rightarrow> 'x cpu_scheme" where
  "power_on m = \<lparr>rX = 0, rY = 0, rS = 0, rU = 0, rPC = 0, rA = 0, rB = 0, rDP = 0,
     fH = 0, fN = 0, fZ = 0, fOV = 0, fC = 0, EFI = 0, iPC = 0, irq_start_time = 0, ea = 0,
     cpu_clk = 0, cpu_period = 0, irqs_pending = 0, firqs_pending = 0, cc_changed = False,
     cwai_state = CWAI_STATE_IDLE, total = 0, debug_enabled = False, monitor_on = False,
     irq_cycle_tab = replicate IRQ_CYCLE_COUNTS 0, irq_cycle_entry = 0, irq_cycles = 0, \<dots> = m\<rparr>"

text \<open>What the processor calls outside \<^verbatim>\<open>6809.c\<close>: the bus (\<^verbatim>\<open>cpu_read8\<close>,
  \<^verbatim>\<open>cpu_read16\<close>, \<^verbatim>\<open>cpu_write8\<close> of \<^verbatim>\<open>machine.c\<close>) and the debugger hooks of the main
  loop (\<^verbatim>\<open>command_insn_hook\<close>, \<^verbatim>\<open>check_break\<close>, \<^verbatim>\<open>monitor6809\<close>), and \<^verbatim>\<open>cpu_is_running\<close>.\<close>

record 's iface =
  read8 :: "u32 \<Rightarrow> ('s, u8) expr"
  read16 :: "u32 \<Rightarrow> ('s, u16) expr"
  write8 :: "u32 \<Rightarrow> u8 \<Rightarrow> 's stmt"
  insn_hook :: "'s stmt"
  check_break :: "('s, bool) expr"
  monitor6809 :: "('s, int) expr"
  cpu_is_running :: "'s stmt"

definition E_FLAG :: u32 where "E_FLAG = 0x80"
definition F_FLAG :: u32 where "F_FLAG = 0x40"
definition H_FLAG :: u32 where "H_FLAG = 0x20"
definition I_FLAG :: u32 where "I_FLAG = 0x10"
definition N_FLAG :: u32 where "N_FLAG = 0x08"
definition Z_FLAG :: u32 where "Z_FLAG = 0x04"
definition V_FLAG :: u32 where "V_FLAG = 0x02"
definition C_FLAG :: u32 where "C_FLAG = 0x01"

lemmas flag_defs = E_FLAG_def F_FLAG_def H_FLAG_def I_FLAG_def N_FLAG_def Z_FLAG_def
  V_FLAG_def C_FLAG_def

section \<open>Registers\<close>

definition clk :: "int \<Rightarrow> 'x cpu_scheme stmt" where
  "clk n s = Ret () (s\<lparr>cpu_clk := cpu_clk s - n\<rparr>)"

definition get_cycles :: "'x cpu_scheme \<Rightarrow> u64" where
  "get_cycles s = total s + of_int (cpu_period s) - of_int (cpu_clk s)"

definition sim_error :: "'x cpu_scheme stmt" where
  "sim_error s = (if debug_enabled s then Ret () (s\<lparr>monitor_on := True\<rparr>) else Exit 2 s)"

definition change_pc :: "u32 \<Rightarrow> 'x cpu_scheme stmt" where
  "change_pc newPC s = Ret () (s\<lparr>rPC := newPC AND 0xffff\<rparr>)"

definition get_a :: "'x cpu_scheme \<Rightarrow> u32" where "get_a s = rA s"
definition get_b :: "'x cpu_scheme \<Rightarrow> u32" where "get_b s = rB s"
definition get_dp :: "'x cpu_scheme \<Rightarrow> u32" where "get_dp s = drop_bit 8 (rDP s)"
definition get_x :: "'x cpu_scheme \<Rightarrow> u32" where "get_x s = rX s"
definition get_y :: "'x cpu_scheme \<Rightarrow> u32" where "get_y s = rY s"
definition get_s :: "'x cpu_scheme \<Rightarrow> u32" where "get_s s = rS s"
definition get_u :: "'x cpu_scheme \<Rightarrow> u32" where "get_u s = rU s"
definition get_pc :: "'x cpu_scheme \<Rightarrow> u32" where "get_pc s = rPC s AND 0xffff"
definition get_d :: "'x cpu_scheme \<Rightarrow> u32" where "get_d s = push_bit 8 (rA s) OR rB s"
definition get_flags :: "'x cpu_scheme \<Rightarrow> u32" where "get_flags s = EFI s"

definition set_a :: "u32 \<Rightarrow> 'x cpu_scheme \<Rightarrow> 'x cpu_scheme" where
  "set_a val s = s\<lparr>rA := val AND 0xff\<rparr>"
definition set_b :: "u32 \<Rightarrow> 'x cpu_scheme \<Rightarrow> 'x cpu_scheme" where
  "set_b val s = s\<lparr>rB := val AND 0xff\<rparr>"
definition set_dp :: "u32 \<Rightarrow> 'x cpu_scheme \<Rightarrow> 'x cpu_scheme" where
  "set_dp val s = s\<lparr>rDP := push_bit 8 (val AND 0xff)\<rparr>"
definition set_x :: "u32 \<Rightarrow> 'x cpu_scheme \<Rightarrow> 'x cpu_scheme" where
  "set_x val s = s\<lparr>rX := val AND 0xffff\<rparr>"
definition set_y :: "u32 \<Rightarrow> 'x cpu_scheme \<Rightarrow> 'x cpu_scheme" where
  "set_y val s = s\<lparr>rY := val AND 0xffff\<rparr>"
definition set_s :: "u32 \<Rightarrow> 'x cpu_scheme \<Rightarrow> 'x cpu_scheme" where
  "set_s val s = s\<lparr>rS := val AND 0xffff\<rparr>"
definition set_u :: "u32 \<Rightarrow> 'x cpu_scheme \<Rightarrow> 'x cpu_scheme" where
  "set_u val s = s\<lparr>rU := val AND 0xffff\<rparr>"
definition set_pc :: "u32 \<Rightarrow> 'x cpu_scheme \<Rightarrow> 'x cpu_scheme" where
  "set_pc val s = s\<lparr>rPC := val AND 0xffff\<rparr>"
definition set_d :: "u32 \<Rightarrow> 'x cpu_scheme \<Rightarrow> 'x cpu_scheme" where
  "set_d val s = s\<lparr>rA := drop_bit 8 val AND 0xff, rB := val AND 0xff\<rparr>"

section \<open>The condition code register\<close>

definition get_cc :: "'x cpu_scheme \<Rightarrow> u32" where
  "get_cc s =
     (EFI s AND (E_FLAG OR F_FLAG OR I_FLAG))
     OR (if fH s AND 0x10 \<noteq> 0 then H_FLAG else 0)
     OR (if fN s AND 0x80 \<noteq> 0 then N_FLAG else 0)
     OR (if fZ s = 0 then Z_FLAG else 0)
     OR (if fOV s AND 0x80 \<noteq> 0 then V_FLAG else 0)
     OR (if fC s \<noteq> 0 then C_FLAG else 0)"

definition set_cc :: "u32 \<Rightarrow> 'x cpu_scheme \<Rightarrow> 'x cpu_scheme" where
  "set_cc arg s = s\<lparr>
     EFI := arg AND (E_FLAG OR F_FLAG OR I_FLAG),
     fH := (if arg AND H_FLAG \<noteq> 0 then 0x10 else 0),
     fN := (if arg AND N_FLAG \<noteq> 0 then 0x80 else 0),
     fZ := NOT arg AND Z_FLAG,
     fOV := (if arg AND V_FLAG \<noteq> 0 then 0x80 else 0),
     fC := arg AND C_FLAG,
     cc_changed := True\<rparr>"

section \<open>Register numbers of TFR and EXG\<close>

definition get_reg :: "u32 \<Rightarrow> 'x cpu_scheme \<Rightarrow> u32" where
  "get_reg nro s =
     (if nro = 0 then push_bit 8 (rA s) OR rB s
      else if nro = 1 then rX s
      else if nro = 2 then rY s
      else if nro = 3 then rU s
      else if nro = 4 then rS s
      else if nro = 5 then rPC s AND 0xffff
      else if nro = 8 then rA s
      else if nro = 9 then rB s
      else if nro = 10 then get_cc s
      else if nro = 11 then drop_bit 8 (rDP s)
      else 0xff)"

definition set_reg :: "u32 \<Rightarrow> u32 \<Rightarrow> 'x cpu_scheme \<Rightarrow> 'x cpu_scheme" where
  "set_reg nro val s =
     (if nro = 0 then s\<lparr>rA := drop_bit 8 val, rB := val AND 0xff\<rparr>
      else if nro = 1 then s\<lparr>rX := val\<rparr>
      else if nro = 2 then s\<lparr>rY := val\<rparr>
      else if nro = 3 then s\<lparr>rU := val\<rparr>
      else if nro = 4 then s\<lparr>rS := val\<rparr>
      else if nro = 5 then s\<lparr>rPC := val\<rparr>
      else if nro = 8 then s\<lparr>rA := val\<rparr>
      else if nro = 9 then s\<lparr>rB := val\<rparr>
      else if nro = 10 then set_cc val s
      else if nro = 11 then s\<lparr>rDP := push_bit 8 val\<rparr>
      else s)"

section \<open>Lemmas\<close>

lemma bit_flags [simp]:
  "bit E_FLAG n \<longleftrightarrow> n = 7" "bit F_FLAG n \<longleftrightarrow> n = 6" "bit H_FLAG n \<longleftrightarrow> n = 5" "bit I_FLAG n \<longleftrightarrow> n = 4"
  "bit N_FLAG n \<longleftrightarrow> n = 3" "bit Z_FLAG n \<longleftrightarrow> n = 2" "bit V_FLAG n \<longleftrightarrow> n = 1" "bit C_FLAG n \<longleftrightarrow> n = 0"
proof -
  have *: "bit (2 ^ k :: u32) n \<longleftrightarrow> n = k" if "k < 32" for k
    using that by (auto simp: bit_exp_iff)
  show "bit E_FLAG n \<longleftrightarrow> n = 7" "bit F_FLAG n \<longleftrightarrow> n = 6" "bit H_FLAG n \<longleftrightarrow> n = 5" "bit I_FLAG n \<longleftrightarrow> n = 4"
    "bit N_FLAG n \<longleftrightarrow> n = 3" "bit Z_FLAG n \<longleftrightarrow> n = 2" "bit V_FLAG n \<longleftrightarrow> n = 1" "bit C_FLAG n \<longleftrightarrow> n = 0"
    using * [of 7] * [of 6] * [of 5] * [of 4] * [of 3] * [of 2] * [of 1] * [of 0]
    by (simp_all add: flag_defs)
qed

lemma and_flag_consts [simp]:
  "w AND E_FLAG = 0 \<longleftrightarrow> \<not> bit w 7" "w AND F_FLAG = 0 \<longleftrightarrow> \<not> bit w 6"
  "w AND H_FLAG = 0 \<longleftrightarrow> \<not> bit w 5" "w AND I_FLAG = 0 \<longleftrightarrow> \<not> bit w 4"
  "w AND N_FLAG = 0 \<longleftrightarrow> \<not> bit w 3" "w AND Z_FLAG = 0 \<longleftrightarrow> \<not> bit w 2"
  "w AND V_FLAG = 0 \<longleftrightarrow> \<not> bit w 1" "w AND C_FLAG = 0 \<longleftrightarrow> \<not> bit w 0"
  unfolding flag_defs by simp_all

lemma bit_get_cc:
  "bit (get_cc s) n \<longleftrightarrow>
     (n = 7 \<and> bit (EFI s) 7) \<or> (n = 6 \<and> bit (EFI s) 6) \<or> (n = 5 \<and> bit (fH s) 4)
     \<or> (n = 4 \<and> bit (EFI s) 4) \<or> (n = 3 \<and> bit (fN s) 7) \<or> (n = 2 \<and> fZ s = 0)
     \<or> (n = 1 \<and> bit (fOV s) 7) \<or> (n = 0 \<and> fC s \<noteq> 0)"
  by (auto simp: get_cc_def bit_or_iff bit_and_iff)

lemma less_8_cases: "n < (8::nat) \<longleftrightarrow> n = 0 \<or> n = 1 \<or> n = 2 \<or> n = 3 \<or> n = 4 \<or> n = 5 \<or> n = 6 \<or> n = 7"
  by arith

lemma get_cc_set_cc: "get_cc (set_cc v s) = v AND 0xff"
proof (rule bit_eqI)
  fix n
  have "bit (0xff :: u32) n \<longleftrightarrow> n < 8"
    using bit_mask_iff [of 8 n, where ?'a = u32] by (auto simp: mask_eq_exp_minus_1)
  then show "bit (get_cc (set_cc v s)) n \<longleftrightarrow> bit (v AND 0xff) n"
    by (auto simp: bit_get_cc set_cc_def bit_and_iff bit_or_iff bit_not_iff less_8_cases)
qed

lemma byte_flags [simp]:
  "byte E_FLAG" "byte F_FLAG" "byte H_FLAG" "byte I_FLAG" "byte N_FLAG" "byte Z_FLAG" "byte V_FLAG" "byte C_FLAG" "byte 0"
  by (simp_all add: byte_def flag_defs)

lemma byte_get_cc [simp]: "byte (get_cc s)"
  by (simp add: get_cc_def)

end
