(* ===== verification/Cpu_Alu.thy ===== *)
theory Cpu_Alu
  imports Cpu_State
begin

text \<open>
  The arithmetic and logic of \<^verbatim>\<open>6809.c\<close>: the 8-bit accumulator and memory operations and
  the 16-bit accumulator operations, each with the flag computation of the code. A C function
  that returns a value and sets flags is a function from the state to the result and the new
  state. The lemmas give the meaning of the lazily kept flags: results modulo 256 or 65536,
  carry, half carry and signed overflow, for every operand in range.
\<close>

section \<open>8-bit accumulator and memory operations\<close>

definition adc :: "u32 \<Rightarrow> u32 \<Rightarrow> 'x cpu_scheme \<Rightarrow> u32 \<times> 'x cpu_scheme" where
  "adc arg val s =
     (let res = arg + val + (if fC s \<noteq> 0 then 1 else 0);
          c = drop_bit 1 res AND 0x80;
          res = res AND 0xff;
          v = arg XOR val XOR res XOR c
      in (res, s\<lparr>fC := c, fZ := res, fN := res, fH := v, fOV := v\<rparr>))"

definition add :: "u32 \<Rightarrow> u32 \<Rightarrow> 'x cpu_scheme \<Rightarrow> u32 \<times> 'x cpu_scheme" where
  "add arg val s =
     (let res = arg + val;
          c = drop_bit 1 res AND 0x80;
          res = res AND 0xff;
          v = arg XOR val XOR res XOR c
      in (res, s\<lparr>fC := c, fZ := res, fN := res, fH := v, fOV := v\<rparr>))"

definition and8 :: "u32 \<Rightarrow> u32 \<Rightarrow> 'x cpu_scheme \<Rightarrow> u32 \<times> 'x cpu_scheme" where
  "and8 arg val s = (let res = arg AND val in (res, s\<lparr>fZ := res, fN := res, fOV := 0\<rparr>))"

definition asl :: "u32 \<Rightarrow> 'x cpu_scheme \<Rightarrow> u32 \<times> 'x cpu_scheme" where
  "asl arg s =
     (let res = push_bit 1 arg;
          c = res AND 0x100;
          res = res AND 0xff
      in (res, s\<lparr>fC := c, fZ := res, fN := res, fOV := arg XOR res, cpu_clk := cpu_clk s - 2\<rparr>))"

definition asr :: "u32 \<Rightarrow> 'x cpu_scheme \<Rightarrow> u32 \<times> 'x cpu_scheme" where
  "asr arg s =
     (let res = INT8 arg;
          c = res AND 1;
          res = drop_bit 1 res AND 0xff
      in (res, s\<lparr>fC := c, fZ := res, fN := res, cpu_clk := cpu_clk s - 2\<rparr>))"

definition bit8 :: "u32 \<Rightarrow> u32 \<Rightarrow> 'x cpu_scheme \<Rightarrow> 'x cpu_scheme" where
  "bit8 arg val s = (let res = arg AND val in s\<lparr>fZ := res, fN := res, fOV := 0\<rparr>)"

definition clr :: "u32 \<Rightarrow> 'x cpu_scheme \<Rightarrow> u32 \<times> 'x cpu_scheme" where
  "clr arg s = (0, s\<lparr>fOV := 0, fZ := 0, fN := 0, fC := 0, cpu_clk := cpu_clk s - 2\<rparr>)"

definition cmp :: "u32 \<Rightarrow> u32 \<Rightarrow> 'x cpu_scheme \<Rightarrow> 'x cpu_scheme" where
  "cmp arg val s =
     (let res = arg - val;
          c = res AND 0x100;
          res = res AND 0xff
      in s\<lparr>fC := c, fZ := res, fN := res, fOV := (arg XOR val) AND (arg XOR res)\<rparr>)"

definition com :: "u32 \<Rightarrow> 'x cpu_scheme \<Rightarrow> u32 \<times> 'x cpu_scheme" where
  "com arg s =
     (let res = arg XOR 0xff
      in (res, s\<lparr>fZ := res, fN := res, fOV := 0, fC := 1, cpu_clk := cpu_clk s - 2\<rparr>))"

definition daa :: "'x cpu_scheme stmt" where
  "daa s =
     (let res = rA s;
          msn = res AND 0xf0;
          lsn = res AND 0x0f;
          res = (if lsn > 0x09 \<or> fH s AND 0x10 \<noteq> 0 then res + 0x06 else res);
          res = (if msn > 0x80 \<and> lsn > 0x09 then res + 0x60 else res);
          res = (if msn > 0x90 \<or> fC s \<noteq> 0 then res + 0x60 else res);
          c = fC s OR (res AND 0x100);
          res = res AND 0xff
      in Ret () (s\<lparr>fC := c, fZ := res, fN := res, rA := res, fOV := 0, cpu_clk := cpu_clk s - 2\<rparr>))"

definition dec :: "u32 \<Rightarrow> 'x cpu_scheme \<Rightarrow> u32 \<times> 'x cpu_scheme" where
  "dec arg s =
     (let res = (arg - 1) AND 0xff
      in (res, s\<lparr>fZ := res, fN := res, fOV := arg AND NOT res, cpu_clk := cpu_clk s - 2\<rparr>))"

definition eor :: "u32 \<Rightarrow> u32 \<Rightarrow> 'x cpu_scheme \<Rightarrow> u32 \<times> 'x cpu_scheme" where
  "eor arg val s = (let res = arg XOR val in (res, s\<lparr>fZ := res, fN := res, fOV := 0\<rparr>))"

definition inc :: "u32 \<Rightarrow> 'x cpu_scheme \<Rightarrow> u32 \<times> 'x cpu_scheme" where
  "inc arg s =
     (let res = (arg + 1) AND 0xff
      in (res, s\<lparr>fZ := res, fN := res, fOV := NOT arg AND res, cpu_clk := cpu_clk s - 2\<rparr>))"

definition ld :: "u32 \<Rightarrow> 'x cpu_scheme \<Rightarrow> u32 \<times> 'x cpu_scheme" where
  "ld arg s = (arg, s\<lparr>fZ := arg, fN := arg, fOV := 0\<rparr>)"

definition lsr :: "u32 \<Rightarrow> 'x cpu_scheme \<Rightarrow> u32 \<times> 'x cpu_scheme" where
  "lsr arg s =
     (let res = drop_bit 1 arg
      in (res, s\<lparr>fN := 0, fZ := res, fC := arg AND 1, cpu_clk := cpu_clk s - 2\<rparr>))"

definition mul :: "'x cpu_scheme stmt" where
  "mul s =
     (let res = (rA s * rB s) AND 0xffff
      in Ret () (s\<lparr>fZ := res, fC := res AND 0x80, rA := drop_bit 8 res, rB := res AND 0xff,
           cpu_clk := cpu_clk s - 11\<rparr>))"

definition neg :: "u32 \<Rightarrow> 'x cpu_scheme \<Rightarrow> u32 \<times> 'x cpu_scheme" where
  "neg arg s =
     (let res = (- arg) AND 0xff
      in (res, s\<lparr>fZ := res, fN := res, fC := res, fOV := res AND arg, cpu_clk := cpu_clk s - 2\<rparr>))"

definition or8 :: "u32 \<Rightarrow> u32 \<Rightarrow> 'x cpu_scheme \<Rightarrow> u32 \<times> 'x cpu_scheme" where
  "or8 arg val s = (let res = arg OR val in (res, s\<lparr>fZ := res, fN := res, fOV := 0\<rparr>))"

definition rol :: "u32 \<Rightarrow> 'x cpu_scheme \<Rightarrow> u32 \<times> 'x cpu_scheme" where
  "rol arg s =
     (let res = push_bit 1 arg + (if fC s \<noteq> 0 then 1 else 0);
          c = res AND 0x100;
          res = res AND 0xff
      in (res, s\<lparr>fC := c, fZ := res, fN := res, fOV := arg XOR res, cpu_clk := cpu_clk s - 2\<rparr>))"

definition ror :: "u32 \<Rightarrow> 'x cpu_scheme \<Rightarrow> u32 \<times> 'x cpu_scheme" where
  "ror arg s =
     (let res = (if fC s \<noteq> 0 then arg OR 0x100 else arg);
          c = res AND 1;
          res = drop_bit 1 res
      in (res, s\<lparr>fC := c, fZ := res, fN := res, cpu_clk := cpu_clk s - 2\<rparr>))"

definition sbc :: "u32 \<Rightarrow> u32 \<Rightarrow> 'x cpu_scheme \<Rightarrow> u32 \<times> 'x cpu_scheme" where
  "sbc arg val s =
     (let res = arg - val - (if fC s \<noteq> 0 then 1 else 0);
          c = res AND 0x100;
          res = res AND 0xff
      in (res, s\<lparr>fC := c, fZ := res, fN := res, fOV := (arg XOR val) AND (arg XOR res)\<rparr>))"

definition sub8 :: "u32 \<Rightarrow> u32 \<Rightarrow> 'x cpu_scheme \<Rightarrow> u32 \<times> 'x cpu_scheme" where
  "sub8 arg val s =
     (let res = arg - val;
          c = res AND 0x100;
          res = res AND 0xff
      in (res, s\<lparr>fC := c, fZ := res, fN := res, fOV := (arg XOR val) AND (arg XOR res)\<rparr>))"

definition tst :: "u32 \<Rightarrow> 'x cpu_scheme \<Rightarrow> 'x cpu_scheme" where
  "tst arg s = s\<lparr>fZ := arg, fN := arg, fOV := 0, cpu_clk := cpu_clk s - 2\<rparr>"

section \<open>16-bit accumulator operations\<close>

definition abx :: "'x cpu_scheme stmt" where
  "abx s = Ret () (s\<lparr>rX := (rX s + rB s) AND 0xffff, cpu_clk := cpu_clk s - 3\<rparr>)"

definition addd :: "u32 \<Rightarrow> 'x cpu_scheme \<Rightarrow> 'x cpu_scheme" where
  "addd val s =
     (let arg = push_bit 8 (rA s) OR rB s;
          res = arg + val;
          c = res AND 0x10000;
          res = res AND 0xffff
      in s\<lparr>fC := c, fZ := res, fOV := drop_bit 8 ((arg XOR res) AND (val XOR res)),
           fN := drop_bit 8 res, rA := drop_bit 8 res, rB := res AND 0xff\<rparr>)"

definition cmp16 :: "u32 \<Rightarrow> u32 \<Rightarrow> 'x cpu_scheme \<Rightarrow> 'x cpu_scheme" where
  "cmp16 arg val s =
     (let res = arg - val;
          c = res AND 0x10000;
          res = res AND 0xffff
      in s\<lparr>fC := c, fZ := res, fN := drop_bit 8 res,
           fOV := drop_bit 8 ((arg XOR val) AND (arg XOR res))\<rparr>)"

definition ldd :: "u32 \<Rightarrow> 'x cpu_scheme \<Rightarrow> 'x cpu_scheme" where
  "ldd arg s = s\<lparr>fZ := arg, fN := drop_bit 8 arg, rA := drop_bit 8 arg, rB := arg AND 0xff, fOV := 0\<rparr>"

definition ld16 :: "u32 \<Rightarrow> 'x cpu_scheme \<Rightarrow> u32 \<times> 'x cpu_scheme" where
  "ld16 arg s = (arg, s\<lparr>fZ := arg, fN := drop_bit 8 arg, fOV := 0\<rparr>)"

definition sex :: "'x cpu_scheme stmt" where
  "sex s =
     (let res = rB s;
          n = res AND 0x80
      in Ret () (s\<lparr>fZ := res, fN := n, rA := (if n \<noteq> 0 then 0xff else n), cpu_clk := cpu_clk s - 2\<rparr>))"

definition subd :: "u32 \<Rightarrow> 'x cpu_scheme \<Rightarrow> 'x cpu_scheme" where
  "subd val s =
     (let arg = push_bit 8 (rA s) OR rB s;
          res = arg - val;
          c = res AND 0x10000;
          res = res AND 0xffff
      in s\<lparr>fC := c, fZ := res, fOV := drop_bit 8 ((arg XOR val) AND (arg XOR res)),
           fN := drop_bit 8 res, rA := drop_bit 8 res, rB := res AND 0xff\<rparr>)"

section \<open>Branch conditions\<close>

definition cond_HI :: "'x cpu_scheme \<Rightarrow> bool" where "cond_HI s \<longleftrightarrow> fZ s \<noteq> 0 \<and> fC s = 0"
definition cond_LS :: "'x cpu_scheme \<Rightarrow> bool" where "cond_LS s \<longleftrightarrow> fZ s = 0 \<or> fC s \<noteq> 0"
definition cond_HS :: "'x cpu_scheme \<Rightarrow> bool" where "cond_HS s \<longleftrightarrow> fC s = 0"
definition cond_LO :: "'x cpu_scheme \<Rightarrow> bool" where "cond_LO s \<longleftrightarrow> fC s \<noteq> 0"
definition cond_NE :: "'x cpu_scheme \<Rightarrow> bool" where "cond_NE s \<longleftrightarrow> fZ s \<noteq> 0"
definition cond_EQ :: "'x cpu_scheme \<Rightarrow> bool" where "cond_EQ s \<longleftrightarrow> fZ s = 0"
definition cond_VC :: "'x cpu_scheme \<Rightarrow> bool" where "cond_VC s \<longleftrightarrow> fOV s AND 0x80 = 0"
definition cond_VS :: "'x cpu_scheme \<Rightarrow> bool" where "cond_VS s \<longleftrightarrow> fOV s AND 0x80 \<noteq> 0"
definition cond_PL :: "'x cpu_scheme \<Rightarrow> bool" where "cond_PL s \<longleftrightarrow> fN s AND 0x80 = 0"
definition cond_MI :: "'x cpu_scheme \<Rightarrow> bool" where "cond_MI s \<longleftrightarrow> fN s AND 0x80 \<noteq> 0"
definition cond_GE :: "'x cpu_scheme \<Rightarrow> bool" where "cond_GE s \<longleftrightarrow> (fN s XOR fOV s) AND 0x80 = 0"
definition cond_LT :: "'x cpu_scheme \<Rightarrow> bool" where "cond_LT s \<longleftrightarrow> (fN s XOR fOV s) AND 0x80 \<noteq> 0"
definition cond_GT :: "'x cpu_scheme \<Rightarrow> bool" where
  "cond_GT s \<longleftrightarrow> (fN s XOR fOV s) AND 0x80 = 0 \<and> fZ s \<noteq> 0"
definition cond_LE :: "'x cpu_scheme \<Rightarrow> bool" where
  "cond_LE s \<longleftrightarrow> (fN s XOR fOV s) AND 0x80 \<noteq> 0 \<or> fZ s = 0"

lemmas cond_defs = cond_HI_def cond_LS_def cond_HS_def cond_LO_def cond_NE_def cond_EQ_def
  cond_VC_def cond_VS_def cond_PL_def cond_MI_def cond_GE_def cond_LT_def cond_GT_def cond_LE_def

section \<open>The architectural condition codes\<close>

definition ccH :: "'x cpu_scheme \<Rightarrow> bool" where "ccH s \<longleftrightarrow> bit (get_cc s) 5"
definition ccN :: "'x cpu_scheme \<Rightarrow> bool" where "ccN s \<longleftrightarrow> bit (get_cc s) 3"
definition ccZ :: "'x cpu_scheme \<Rightarrow> bool" where "ccZ s \<longleftrightarrow> bit (get_cc s) 2"
definition ccV :: "'x cpu_scheme \<Rightarrow> bool" where "ccV s \<longleftrightarrow> bit (get_cc s) 1"
definition ccC :: "'x cpu_scheme \<Rightarrow> bool" where "ccC s \<longleftrightarrow> bit (get_cc s) 0"

lemma cc_lazy [simp]:
  "ccH s \<longleftrightarrow> bit (fH s) 4" "ccN s \<longleftrightarrow> bit (fN s) 7" "ccZ s \<longleftrightarrow> fZ s = 0"
  "ccV s \<longleftrightarrow> bit (fOV s) 7" "ccC s \<longleftrightarrow> fC s \<noteq> 0"
  by (simp_all add: ccH_def ccN_def ccZ_def ccV_def ccC_def bit_get_cc)

text \<open>A signed result that does not fit in 8 or 16 bits.\<close>

definition ovf8 :: "int \<Rightarrow> bool" where "ovf8 x \<longleftrightarrow> x < -128 \<or> 127 < x"
definition ovf16 :: "int \<Rightarrow> bool" where "ovf16 x \<longleftrightarrow> x < -32768 \<or> 32767 < x"

section \<open>Carry and borrow chains\<close>

text \<open>The two's complement reading and the overflow condition for a sign weight \<open>h\<close> (128 or
  32768), on natural numbers, where the arithmetic is done.\<close>

definition sg :: "nat \<Rightarrow> nat \<Rightarrow> int" where
  "sg h n = (if h \<le> n then int n - 2 * int h else int n)"

definition outside :: "nat \<Rightarrow> int \<Rightarrow> bool" where
  "outside h x \<longleftrightarrow> x < - int h \<or> int h \<le> x"

lemma s8_sg: "byte w \<Longrightarrow> s8 w = sg 128 (unat w)"
  by (simp add: s8_byte sg_def)

lemma s16_sg: "half w \<Longrightarrow> s16 w = sg 32768 (unat w)"
  by (simp add: s16_half sg_def)

lemma ovf_outside: "ovf8 x \<longleftrightarrow> outside 128 x" "ovf16 x \<longleftrightarrow> outside 32768 x"
  by (auto simp: ovf8_def ovf16_def outside_def)

lemma add_overflow_arith:
  fixes x y c h :: nat
  assumes "x < 2 * h" "y < 2 * h" "c \<le> 1"
  shows "(((h \<le> x) \<noteq> (h \<le> y)) \<noteq> (h \<le> (x + y + c) mod (2 * h))) \<noteq> (2 * h \<le> x + y + c)
           \<longleftrightarrow> outside h (sg h x + sg h y + int c)"
proof -
  have "(x + y + c) mod (2 * h) = (if 2 * h \<le> x + y + c then x + y + c - 2 * h else x + y + c)"
    using assms by (simp add: le_mod_geq)
  then show ?thesis using assms by (auto simp: outside_def sg_def)
qed

lemma add_overflow_arith2:
  fixes x y h :: nat
  assumes "x < 2 * h" "y < 2 * h"
  shows "((h \<le> x) \<noteq> (h \<le> (x + y) mod (2 * h))) \<and> ((h \<le> y) \<noteq> (h \<le> (x + y) mod (2 * h)))
           \<longleftrightarrow> outside h (sg h x + sg h y)"
proof -
  have "(x + y) mod (2 * h) = (if 2 * h \<le> x + y then x + y - 2 * h else x + y)"
    using assms by (simp add: le_mod_geq)
  then show ?thesis using assms by (auto simp: outside_def sg_def)
qed

lemma sub_overflow_arith:
  fixes x y c h :: nat
  assumes "x < 2 * h" "y < 2 * h" "c \<le> 1"
  shows "((h \<le> x) \<noteq> (h \<le> y)) \<and> ((h \<le> x) \<noteq> (h \<le> (x + 2 * h - (y + c)) mod (2 * h)))
           \<longleftrightarrow> outside h (sg h x - sg h y - int c)"
proof -
  have "(x + 2 * h - (y + c)) mod (2 * h) = (if y + c \<le> x then x - (y + c) else x + 2 * h - (y + c))"
    using assms by (auto simp: le_mod_geq)
  then show ?thesis using assms by (auto simp: outside_def sg_def)
qed

lemma add_half_arith:
  fixes x y c :: nat
  assumes "c \<le> 1"
  shows "(odd (x div 16) \<noteq> odd (y div 16)) \<noteq> odd ((x + y + c) div 16)
           \<longleftrightarrow> 16 \<le> x mod 16 + y mod 16 + c"
proof -
  let ?m = "x mod 16 + y mod 16 + c"
  have "x + y + c = ?m + 16 * (x div 16 + y div 16)" by simp
  then have "(x + y + c) div 16 = x div 16 + y div 16 + ?m div 16"
    by (metis add.commute div_mult_self2 zero_neq_numeral)
  moreover have "?m < 32" using assms mod_less_divisor [of 16 x] mod_less_divisor [of 16 y] by linarith
  then have "odd (?m div 16) \<longleftrightarrow> 16 \<le> ?m" by (simp add: odd_div_top)
  ultimately show ?thesis by auto
qed

lemma byte_bit7: "byte w \<Longrightarrow> bit w 7 \<longleftrightarrow> 128 \<le> unat w"
  using top_bit [of w 7] by (simp add: byte_def)

lemma half_bit15: "half w \<Longrightarrow> bit w 15 \<longleftrightarrow> 32768 \<le> unat w"
  using top_bit [of w 15] by (simp add: half_def)

lemma unat_of_nat_u32: "n < 2 ^ 32 \<Longrightarrow> unat (of_nat n :: u32) = n"
  by (simp add: unat_of_nat)

lemma unat_add3:
  assumes "half a" "half b" "c \<le> 1"
  shows "unat (a + b + of_nat c :: u32) = unat a + unat b + c"
  using assms by (simp add: half_def unat_word_ariths unat_of_nat)

lemma unat_sub3:
  assumes "half a" "half b" "c \<le> 1"
  shows "unat (a - b - of_nat c :: u32) =
    (if unat b + c \<le> unat a then unat a - (unat b + c) else 2 ^ 32 + unat a - (unat b + c))"
proof (cases "unat b + c \<le> unat a")
  case True
  then have eq: "a - b - of_nat c = of_nat (unat a - (unat b + c))"
    by (simp add: of_nat_diff)
  have un: "unat (of_nat (unat a - (unat b + c)) :: u32) = unat a - (unat b + c)"
    using assms by (intro unat_of_nat_u32) (simp add: half_def)
  show ?thesis using True by (simp only: eq un if_True)
next
  case False
  have eq: "a - b - of_nat c = of_nat (2 ^ 32 + unat a - (unat b + c))"
    using assms by (simp add: of_nat_diff half_def)
  have un: "unat (of_nat (2 ^ 32 + unat a - (unat b + c)) :: u32) = 2 ^ 32 + unat a - (unat b + c)"
    using assms False by (intro unat_of_nat_u32) (simp add: half_def)
  show ?thesis using False by (simp only: eq un if_False)
qed

lemma wrap_below:
  fixes x d K M :: nat
  assumes "d \<le> x + K" "2 ^ 32 = K + K * M" "odd M" "0 < K"
  shows "(2 ^ 32 + x - d) mod K = (x + K - d) mod K"
    and "x < d \<Longrightarrow> odd ((2 ^ 32 + x - d) div K)"
proof -
  have *: "2 ^ 32 + x - d = (x + K - d) + K * M"
    using assms(1,2) by simp
  show "(2 ^ 32 + x - d) mod K = (x + K - d) mod K"
    unfolding * by (rule mod_mult_self2)
  show "odd ((2 ^ 32 + x - d) div K)" if "x < d"
    unfolding * using that assms(3,4) by (subst div_mult_self2) auto
qed

lemma carry_chain:
  fixes a b :: u32
  assumes "byte a" "byte b" "c \<le> 1"
  defines "res \<equiv> a + b + of_nat c"
  defines "cy \<equiv> drop_bit 1 res AND 0x80"
  defines "v \<equiv> a XOR b XOR (res AND 0xff) XOR cy"
  shows "unat (res AND 0xff) = (unat a + unat b + c) mod 256"
    and "cy \<noteq> 0 \<longleftrightarrow> 256 \<le> unat a + unat b + c"
    and "bit v 7 \<longleftrightarrow> ovf8 (s8 a + s8 b + int c)"
    and "bit v 4 \<longleftrightarrow> 16 \<le> unat a mod 16 + unat b mod 16 + c"
proof -
  let ?n = "unat a + unat b + c"
  have n: "unat res = ?n" using assms(1-3) unfolding res_def by (intro unat_add3 byte_half)
  have le: "unat a < 256" "unat b < 256" using assms(1,2) by (auto simp: byte_def)
  show r: "unat (res AND 0xff) = ?n mod 256" by (simp add: n)
  have b8: "bit res 8 \<longleftrightarrow> 256 \<le> ?n"
    using top_bit [of res 8] le assms(3) n by simp
  then show cy: "cy \<noteq> 0 \<longleftrightarrow> 256 \<le> ?n"
    by (simp add: cy_def bit_drop_bit_eq)
  have cyb: "bit cy 7 \<longleftrightarrow> 256 \<le> ?n" "\<not> bit cy 4"
    using b8 by (simp_all add: cy_def bit_and_iff bit_drop_bit_eq)
  have "bit (res AND 0xff) 7 \<longleftrightarrow> 128 \<le> ?n mod 256"
    using byte_bit7 [of "res AND 0xff"] by (simp add: n)
  then show "bit v 7 \<longleftrightarrow> ovf8 (s8 a + s8 b + int c)"
    using add_overflow_arith [of "unat a" 128 "unat b" c] le assms(3)
    by (simp add: v_def bit_xor_iff cyb byte_bit7 assms(1,2) s8_sg ovf_outside) blast
  have "bit (res AND 0xff) 4 \<longleftrightarrow> bit res 4" by (simp add: bit_and_iff)
  also have "\<dots> \<longleftrightarrow> odd (?n div 16)" by (simp add: bit_unat n)
  finally have "bit (res AND 0xff) 4 \<longleftrightarrow> odd (?n div 16)" .
  then show "bit v 4 \<longleftrightarrow> 16 \<le> unat a mod 16 + unat b mod 16 + c"
    using add_half_arith [OF assms(3), of "unat a" "unat b"]
    by (simp add: v_def bit_xor_iff cyb bit_unat [of a] bit_unat [of b]) blast
qed

lemma borrow_chain:
  fixes a b :: u32
  assumes "byte a" "byte b" "c \<le> 1"
  defines "res \<equiv> a - b - of_nat c"
  shows "unat (res AND 0xff) = (unat a + 256 - (unat b + c)) mod 256"
    and "res AND 0x100 \<noteq> 0 \<longleftrightarrow> unat a < unat b + c"
    and "bit ((a XOR b) AND (a XOR (res AND 0xff))) 7 \<longleftrightarrow> ovf8 (s8 a - s8 b - int c)"
proof -
  have le: "unat a < 256" "unat b < 256" using assms(1,2) by (auto simp: byte_def)
  have le2: "unat b + c \<le> unat a + 256" using le assms(3) by simp
  note wrap = wrap_below [OF le2, of 16777215, simplified]
  have u: "unat res = (if unat b + c \<le> unat a then unat a - (unat b + c) else 2 ^ 32 + unat a - (unat b + c))"
    unfolding res_def using assms(1-3) by (intro unat_sub3 byte_half)
  show r: "unat (res AND 0xff) = (unat a + 256 - (unat b + c)) mod 256"
  proof (cases "unat b + c \<le> unat a")
    case True
    then have "unat a + 256 - (unat b + c) = unat a - (unat b + c) + 256" by simp
    then have "(unat a + 256 - (unat b + c)) mod 256 = (unat a - (unat b + c)) mod 256"
      by (simp only: mod_add_self2)
    then show ?thesis using True by (simp add: u)
  next
    case False
    then show ?thesis using wrap(1) by (simp add: u)
  qed
  show "res AND 0x100 \<noteq> 0 \<longleftrightarrow> unat a < unat b + c"
    using le wrap(2) by (auto simp: bit_unat u)
  have "bit (res AND 0xff) 7 \<longleftrightarrow> 128 \<le> (unat a + 256 - (unat b + c)) mod 256"
    using byte_bit7 [of "res AND 0xff"] r by simp
  then show "bit ((a XOR b) AND (a XOR (res AND 0xff))) 7 \<longleftrightarrow> ovf8 (s8 a - s8 b - int c)"
    using sub_overflow_arith [of "unat a" 128 "unat b" c] le assms(3)
    by (simp add: bit_xor_iff bit_and_iff byte_bit7 assms(1,2) s8_sg ovf_outside)
qed

lemma borrow_chain16:
  fixes a b :: u32
  assumes "half a" "half b"
  defines "res \<equiv> a - b"
  shows "unat (res AND 0xffff) = (unat a + 65536 - unat b) mod 65536"
    and "res AND 0x10000 \<noteq> 0 \<longleftrightarrow> unat a < unat b"
    and "bit ((a XOR b) AND (a XOR (res AND 0xffff))) 15 \<longleftrightarrow> ovf16 (s16 a - s16 b)"
proof -
  have le: "unat a < 65536" "unat b < 65536" using assms(1,2) by (auto simp: half_def)
  have le2: "unat b \<le> unat a + 65536" using le by simp
  note wrap = wrap_below [OF le2, of 65535, simplified]
  have u: "unat res = (if unat b \<le> unat a then unat a - unat b else 2 ^ 32 + unat a - unat b)"
    unfolding res_def using unat_sub3 [OF assms(1,2), of 0] by simp
  show r: "unat (res AND 0xffff) = (unat a + 65536 - unat b) mod 65536"
  proof (cases "unat b \<le> unat a")
    case True
    then have "unat a + 65536 - unat b = unat a - unat b + 65536" by simp
    then have "(unat a + 65536 - unat b) mod 65536 = (unat a - unat b) mod 65536"
      by (simp only: mod_add_self2)
    then show ?thesis using True by (simp add: u)
  next
    case False
    then show ?thesis using wrap(1) by (simp add: u)
  qed
  show "res AND 0x10000 \<noteq> 0 \<longleftrightarrow> unat a < unat b"
    using le wrap(2) by (auto simp: bit_unat u)
  have "bit (res AND 0xffff) 15 \<longleftrightarrow> 32768 \<le> (unat a + 65536 - unat b) mod 65536"
    using half_bit15 [of "res AND 0xffff"] r by simp
  then show "bit ((a XOR b) AND (a XOR (res AND 0xffff))) 15 \<longleftrightarrow> ovf16 (s16 a - s16 b)"
    using sub_overflow_arith [of "unat a" 32768 "unat b" 0] le
    by (simp add: bit_xor_iff bit_and_iff half_bit15 assms(1,2) s16_sg ovf_outside)
qed

lemma carry_chain16:
  fixes a b :: u32
  assumes "half a" "half b"
  defines "res \<equiv> a + b"
  shows "unat (res AND 0xffff) = (unat a + unat b) mod 65536"
    and "res AND 0x10000 \<noteq> 0 \<longleftrightarrow> 65536 \<le> unat a + unat b"
    and "bit ((a XOR (res AND 0xffff)) AND (b XOR (res AND 0xffff))) 15 \<longleftrightarrow> ovf16 (s16 a + s16 b)"
proof -
  have n: "unat res = unat a + unat b" unfolding res_def using unat_add3 [OF assms(1,2), of 0] by simp
  have le: "unat a < 65536" "unat b < 65536" using assms(1,2) by (auto simp: half_def)
  show r: "unat (res AND 0xffff) = (unat a + unat b) mod 65536" by (simp add: n)
  show "res AND 0x10000 \<noteq> 0 \<longleftrightarrow> 65536 \<le> unat a + unat b"
    using top_bit [of res 16] le n by simp
  have "bit (res AND 0xffff) 15 \<longleftrightarrow> 32768 \<le> (unat a + unat b) mod 65536"
    using half_bit15 [of "res AND 0xffff"] r by simp
  then show "bit ((a XOR (res AND 0xffff)) AND (b XOR (res AND 0xffff))) 15 \<longleftrightarrow> ovf16 (s16 a + s16 b)"
    using add_overflow_arith2 [of "unat a" 32768 "unat b"] le
    by (simp add: bit_xor_iff bit_and_iff half_bit15 assms(1,2) s16_sg ovf_outside)
qed

section \<open>Specifications of the operations\<close>

lemma adc_spec:
  assumes "byte a" "byte b" "adc a b s = (r, t)"
  shows "unat r = (unat a + unat b + of_bool (ccC s)) mod 256"
    and "ccC t \<longleftrightarrow> 256 \<le> unat a + unat b + of_bool (ccC s)"
    and "ccV t \<longleftrightarrow> ovf8 (s8 a + s8 b + of_bool (ccC s))"
    and "ccH t \<longleftrightarrow> 16 \<le> unat a mod 16 + unat b mod 16 + of_bool (ccC s)"
    and "fZ t = r" and "fN t = r" and "byte r"
  using carry_chain [of a b "of_bool (ccC s)"] assms
  by (auto simp: adc_def Let_def)

lemma add_adc: "add a b s = adc a b (s\<lparr>fC := 0\<rparr>)"
  by (simp add: add_def adc_def Let_def)

lemma sbc_spec:
  assumes "byte a" "byte b" "sbc a b s = (r, t)"
  shows "unat r = (unat a + 256 - (unat b + of_bool (ccC s))) mod 256"
    and "ccC t \<longleftrightarrow> unat a < unat b + of_bool (ccC s)"
    and "ccV t \<longleftrightarrow> ovf8 (s8 a - s8 b - of_bool (ccC s))"
    and "fZ t = r" and "fN t = r" and "byte r"
  using borrow_chain [of a b "of_bool (ccC s)"] assms
  by (auto simp: sbc_def Let_def)

lemma sub8_sbc: "sub8 a b s = sbc a b (s\<lparr>fC := 0\<rparr>)"
  by (simp add: sub8_def sbc_def Let_def)

lemma cmp_sub8: "cmp a b s = snd (sub8 a b s)"
  by (simp add: cmp_def sub8_def Let_def)


lemma compare_arith:
  fixes x y h :: nat
  assumes "x < 2 * h" "y < 2 * h"
  shows "(x + 2 * h - y) mod (2 * h) = 0 \<longleftrightarrow> x = y"
    and "(h \<le> (x + 2 * h - y) mod (2 * h)) \<noteq> outside h (sg h x - sg h y) \<longleftrightarrow> sg h x < sg h y"
proof -
  have *: "(x + 2 * h - y) mod (2 * h) = (if y \<le> x then x - y else x + 2 * h - y)"
    using assms by (auto simp: le_mod_geq)
  show "(x + 2 * h - y) mod (2 * h) = 0 \<longleftrightarrow> x = y"
    using * assms by auto
  show "(h \<le> (x + 2 * h - y) mod (2 * h)) \<noteq> outside h (sg h x - sg h y) \<longleftrightarrow> sg h x < sg h y"
    using * assms by (auto simp: outside_def sg_def)
qed

lemma cmp_spec:
  assumes "byte a" "byte b"
  shows "fC (cmp a b s) = 0 \<longleftrightarrow> unat b \<le> unat a"
    and "fZ (cmp a b s) = 0 \<longleftrightarrow> a = b"
    and "bit (fN (cmp a b s) XOR fOV (cmp a b s)) 7 \<longleftrightarrow> s8 a < s8 b"
proof -
  obtain r t where rt: "sbc a b (s\<lparr>fC := 0\<rparr>) = (r, t)" by fastforce
  note spec = sbc_spec [OF assms rt, simplified]
  have t: "cmp a b s = t" by (simp add: cmp_sub8 sub8_sbc rt)
  have le: "unat a < 256" "unat b < 256" using assms by (auto simp: byte_def)
  show "fC (cmp a b s) = 0 \<longleftrightarrow> unat b \<le> unat a" using spec(2) t by auto
  have "r = 0 \<longleftrightarrow> unat r = 0" by (simp add: unat_eq_zero)
  then show "fZ (cmp a b s) = 0 \<longleftrightarrow> a = b"
    using compare_arith(1) [of "unat a" 128 "unat b"] le by (simp add: t spec(1,4) word_unat_eq_iff)
  have "bit r 7 \<longleftrightarrow> 128 \<le> (unat a + 256 - unat b) mod 256"
    using byte_bit7 [OF spec(6)] spec(1) by simp
  then show "bit (fN (cmp a b s) XOR fOV (cmp a b s)) 7 \<longleftrightarrow> s8 a < s8 b"
    using compare_arith(2) [of "unat a" 128 "unat b"] le
    by (simp add: t spec(5) bit_xor_iff spec(3) ovf_outside s8_sg assms)
qed

lemma bit_drop_bit_8: "bit (drop_bit 8 (w :: u32)) 7 \<longleftrightarrow> bit w 15"
  by (simp add: bit_drop_bit_eq)

lemma cmp16_spec:
  assumes "half a" "half b"
  shows "fC (cmp16 a b s) = 0 \<longleftrightarrow> unat b \<le> unat a"
    and "fZ (cmp16 a b s) = 0 \<longleftrightarrow> a = b"
    and "bit (fN (cmp16 a b s) XOR fOV (cmp16 a b s)) 7 \<longleftrightarrow> s16 a < s16 b"
proof -
  let ?r = "(a - b) AND 0xffff"
  note spec = borrow_chain16 [OF assms]
  have le: "unat a < 65536" "unat b < 65536" using assms by (auto simp: half_def)
  show "fC (cmp16 a b s) = 0 \<longleftrightarrow> unat b \<le> unat a" using spec(2) by (auto simp: cmp16_def Let_def)
  have "?r = 0 \<longleftrightarrow> unat ?r = 0" by (rule unat_eq_zero [symmetric])
  then show "fZ (cmp16 a b s) = 0 \<longleftrightarrow> a = b"
    using compare_arith(1) [of "unat a" 32768 "unat b"] le spec(1) by (simp add: cmp16_def Let_def word_unat_eq_iff [of a])
  have "bit ?r 15 \<longleftrightarrow> 32768 \<le> (unat a + 65536 - unat b) mod 65536"
    using half_bit15 [of ?r] spec(1) by simp
  moreover have "fN (cmp16 a b s) = drop_bit 8 ?r"
    and "fOV (cmp16 a b s) = drop_bit 8 ((a XOR b) AND (a XOR ?r))"
    by (simp_all add: cmp16_def Let_def)
  then have "bit (fN (cmp16 a b s)) 7 \<longleftrightarrow> bit ?r 15"
    and "bit (fOV (cmp16 a b s)) 7 \<longleftrightarrow> ovf16 (s16 a - s16 b)"
    using spec(3) by (simp_all only: bit_drop_bit_8)
  ultimately show "bit (fN (cmp16 a b s) XOR fOV (cmp16 a b s)) 7 \<longleftrightarrow> s16 a < s16 b"
    using compare_arith(2) [of "unat a" 32768 "unat b"] le
    by (simp add: bit_xor_iff ovf_outside s16_sg assms)
qed

lemma inc_spec:
  assumes "byte a" "inc a s = (r, t)"
  shows "unat r = (unat a + 1) mod 256" and "ccV t \<longleftrightarrow> unat a = 127" and "fC t = fC s"
    and "fZ t = r" and "fN t = r" and "byte r"
proof -
  have le: "unat a < 256" using assms(1) by (simp add: byte_def)
  have r: "r = (a + 1) AND 0xff" using assms(2) by (simp add: inc_def Let_def)
  have u: "unat (a + 1) = unat a + 1" using le by (simp add: unat_word_ariths)
  show *: "unat r = (unat a + 1) mod 256" by (simp add: r u)
  show b: "byte r" by (simp add: r)
  have "fOV t = NOT a AND r" using assms(2) by (auto simp: inc_def Let_def)
  then have "ccV t \<longleftrightarrow> \<not> 128 \<le> unat a \<and> 128 \<le> unat r"
    by (simp add: bit_and_iff bit_not_iff byte_bit7 [OF assms(1)] byte_bit7 [OF b])
  then show "ccV t \<longleftrightarrow> unat a = 127" using * le by (auto simp: mod_if)
  show "fC t = fC s" "fZ t = r" "fN t = r" using assms(2) by (auto simp: inc_def Let_def)
qed

lemma dec_spec:
  assumes "byte a" "dec a s = (r, t)"
  shows "unat r = (unat a + 255) mod 256" and "ccV t \<longleftrightarrow> unat a = 128" and "fC t = fC s"
    and "fZ t = r" and "fN t = r" and "byte r"
proof -
  have le: "unat a < 256" using assms(1) by (simp add: byte_def)
  have r: "r = (a - 1) AND 0xff" using assms(2) by (simp add: dec_def Let_def)
  have "byte 1" by (simp add: byte_def)
  show *: "unat r = (unat a + 255) mod 256"
    using borrow_chain(1) [OF assms(1) \<open>byte 1\<close>, of 0] by (simp add: r add.commute)
  show b: "byte r" by (simp add: r)
  have "fOV t = a AND NOT r" using assms(2) by (auto simp: dec_def Let_def)
  then have "ccV t \<longleftrightarrow> 128 \<le> unat a \<and> \<not> 128 \<le> unat r"
    by (simp add: bit_and_iff bit_not_iff byte_bit7 [OF assms(1)] byte_bit7 [OF b])
  then show "ccV t \<longleftrightarrow> unat a = 128" using * le by (auto simp: mod_if)
  show "fC t = fC s" "fZ t = r" "fN t = r" using assms(2) by (auto simp: dec_def Let_def)
qed

lemma unat_neg_mask: "byte a \<Longrightarrow> unat (- a AND 0xff) = (256 - unat a) mod 256"
  using borrow_chain(1) [of 0 a 0] by (simp add: byte_def)

lemma neg_spec:
  assumes "byte a" "neg a s = (r, t)"
  shows "unat r = (256 - unat a) mod 256" and "ccC t \<longleftrightarrow> a \<noteq> 0" and "ccV t \<longleftrightarrow> unat a = 128"
    and "fZ t = r" and "fN t = r" and "byte r"
proof -
  have le: "unat a < 256" using assms(1) by (simp add: byte_def)
  have r: "r = (- a) AND 0xff" using assms(2) by (simp add: neg_def Let_def)
  show *: "unat r = (256 - unat a) mod 256" using unat_neg_mask [OF assms(1)] by (simp add: r)
  show b: "byte r" by (simp add: r)
  have "unat r = 0 \<longleftrightarrow> unat a = 0" using * le by (auto simp: mod_if)
  then have "r = 0 \<longleftrightarrow> a = 0" by (simp add: word_unat_eq_iff)
  then show "ccC t \<longleftrightarrow> a \<noteq> 0" using assms(2) r by (auto simp: neg_def Let_def)
  have "fOV t = r AND a" using assms(2) by (auto simp: neg_def Let_def)
  then have "ccV t \<longleftrightarrow> 128 \<le> unat r \<and> 128 \<le> unat a"
    by (simp add: bit_and_iff byte_bit7 [OF assms(1)] byte_bit7 [OF b])
  then show "ccV t \<longleftrightarrow> unat a = 128" using * le by (auto simp: mod_if)
  show "fZ t = r" "fN t = r" using assms(2) by (auto simp: neg_def Let_def)
qed

section \<open>16-bit operations, multiplication, shifts\<close>

text \<open>Two bytes joined to a 16-bit value, as the code joins A and B to D.\<close>

lemma push_or_unat:
  assumes "byte a" "byte b"
  shows "unat (push_bit 8 a OR b) = 256 * unat a + unat b"
proof -
  have "bit b n \<Longrightarrow> n < 8" for n
    using assms(2) by (metis byte_take_bit bit_take_bit_iff)
  then have "push_bit 8 a AND b = 0"
    by (auto simp: bit_eq_iff bit_and_iff bit_push_bit_iff dest: leD)
  then have "push_bit 8 a OR b = push_bit 8 a + b"
    by (simp add: disjunctive_add_eq_or)
  then show ?thesis
    using assms by (simp add: push_bit_eq_mult unat_word_ariths byte_def)
qed

lemma half_push_or: "byte a \<Longrightarrow> byte b \<Longrightarrow> half (push_bit 8 a OR b)"
  by (simp add: half_def push_or_unat byte_def)

lemma get_d_unat: "byte (rA s) \<Longrightarrow> byte (rB s) \<Longrightarrow> unat (get_d s) = 256 * unat (rA s) + unat (rB s)"
  by (simp add: get_d_def push_or_unat)

lemma byte_shr8: "half w \<Longrightarrow> byte (drop_bit 8 w)"
  by (simp add: byte_def half_def unat_shr less_mult_imp_div_less)

lemma split_half: "half w \<Longrightarrow> push_bit 8 (drop_bit 8 w) OR (w AND 0xff) = w"
proof -
  have "(0xff :: u32) = mask 8" by (simp add: mask_eq_exp_minus_1)
  then show ?thesis
    by (auto simp: bit_eq_iff bit_or_iff bit_and_iff bit_push_bit_iff bit_drop_bit_eq bit_mask_iff)
qed

lemma mul_spec:
  assumes "byte (rA s)" "byte (rB s)" "mul s = Ret () t"
  shows "unat (get_d t) = unat (rA s) * unat (rB s)" and "ccC t \<longleftrightarrow> bit (rB t) 7"
    and "ccZ t \<longleftrightarrow> rA s = 0 \<or> rB s = 0" and "byte (rA t)" and "byte (rB t)"
proof -
  let ?r = "(rA s * rB s) AND 0xffff"
  have le: "unat (rA s) * unat (rB s) \<le> 255 * 255"
    using assms(1,2) by (intro mult_mono) (auto simp: byte_def)
  then have "unat (rA s * rB s) = unat (rA s) * unat (rB s)" and lt: "unat (rA s) * unat (rB s) < 65536"
    by (simp_all add: unat_word_ariths)
  then have r: "unat ?r = unat (rA s) * unat (rB s)" by (simp only: unat_and_ffff mod_less)
  have d: "get_d t = ?r"
    using assms(3) split_half [of ?r] by (auto simp: mul_def Let_def get_d_def)
  show "unat (get_d t) = unat (rA s) * unat (rB s)" by (simp only: d r)
  show "ccC t \<longleftrightarrow> bit (rB t) 7" using assms(3) by (auto simp: mul_def Let_def bit_and_iff)
  have "fZ t = ?r" using assms(3) by (auto simp: mul_def Let_def)
  then have "ccZ t \<longleftrightarrow> unat ?r = 0" by (simp only: cc_lazy unat_eq_zero)
  then show "ccZ t \<longleftrightarrow> rA s = 0 \<or> rB s = 0" by (simp only: r) (simp add: unat_eq_zero)
  have "rA t = drop_bit 8 ?r" and b: "rB t = ?r AND 0xff"
    using assms(3) by (auto simp: mul_def Let_def)
  then show "byte (rA t)" using byte_shr8 [of ?r] by (simp only: half_mask)
  show "byte (rB t)" by (simp only: b byte_mask)
qed

lemma sex_spec:
  assumes "byte (rB s)" "sex s = Ret () t"
  shows "s16 (get_d t) = s8 (rB s)" and "rB t = rB s" and "ccN t \<longleftrightarrow> s8 (rB s) < 0" and "ccZ t \<longleftrightarrow> rB s = 0"
    and "byte (rA t)"
proof -
  have b: "rB t = rB s" and a: "rA t = (if bit (rB s) 7 then 0xff else 0)"
    and n: "fN t = rB s AND 0x80" and z: "fZ t = rB s"
    using assms(2) by (auto simp: sex_def Let_def)
  show "rB t = rB s" by (rule b)
  show ba: "byte (rA t)" by (simp add: a byte_def)
  have d: "unat (get_d t) = 256 * unat (rA t) + unat (rB s)"
    using get_d_unat [of t] ba b assms(1) by simp
  have h: "half (get_d t)" using half_push_or [of "rA t" "rB t"] ba assms(1) b by (simp add: get_d_def)
  show "s16 (get_d t) = s8 (rB s)"
    using assms(1) by (simp add: s16_half [OF h] s8_byte [OF assms(1)] d a byte_bit7 byte_def)
  have "int (unat (rB s)) < 256" using assms(1) unfolding byte_def by linarith
  then show "ccN t \<longleftrightarrow> s8 (rB s) < 0"
    using assms(1) by (auto simp: n bit_and_iff byte_bit7 s8_byte byte_def)
  show "ccZ t \<longleftrightarrow> rB s = 0" by (simp add: z)
qed

lemma addd_spec:
  assumes "byte (rA s)" "byte (rB s)" "half v" "t = addd v s"
  shows "unat (get_d t) = (unat (get_d s) + unat v) mod 65536"
    and "ccC t \<longleftrightarrow> 65536 \<le> unat (get_d s) + unat v"
    and "ccV t \<longleftrightarrow> ovf16 (s16 (get_d s) + s16 v)"
    and "ccN t \<longleftrightarrow> bit (get_d t) 15" and "ccZ t \<longleftrightarrow> get_d t = 0"
    and "byte (rA t)" and "byte (rB t)"
proof -
  let ?r = "(get_d s + v) AND 0xffff"
  have h: "half (get_d s)" using assms(1,2) by (simp add: get_d_def half_push_or)
  note ch = carry_chain16 [OF h assms(3)]
  have f: "rA t = drop_bit 8 ?r" "rB t = ?r AND 0xff" "fZ t = ?r" "fN t = drop_bit 8 ?r"
    "fC t = (get_d s + v) AND 0x10000" "fOV t = drop_bit 8 ((get_d s XOR ?r) AND (v XOR ?r))"
    by (simp_all add: assms(4) addd_def get_d_def Let_def)
  have d: "get_d t = ?r" using split_half [of ?r] by (simp only: get_d_def [of t] f half_mask)
  show "unat (get_d t) = (unat (get_d s) + unat v) mod 65536" using ch(1) by (simp only: d)
  show "ccC t \<longleftrightarrow> 65536 \<le> unat (get_d s) + unat v" using ch(2) by (simp only: cc_lazy f)
  show "ccV t \<longleftrightarrow> ovf16 (s16 (get_d s) + s16 v)" using ch(3) by (simp only: cc_lazy f bit_drop_bit_8)
  show "ccN t \<longleftrightarrow> bit (get_d t) 15" by (simp only: cc_lazy f bit_drop_bit_8 d)
  show "ccZ t \<longleftrightarrow> get_d t = 0" by (simp only: cc_lazy f d)
  show "byte (rA t)" using byte_shr8 [of ?r] by (simp only: f half_mask)
  show "byte (rB t)" by (simp only: f byte_mask)
qed

lemma subd_spec:
  assumes "byte (rA s)" "byte (rB s)" "half v" "t = subd v s"
  shows "unat (get_d t) = (unat (get_d s) + 65536 - unat v) mod 65536"
    and "ccC t \<longleftrightarrow> unat (get_d s) < unat v"
    and "ccV t \<longleftrightarrow> ovf16 (s16 (get_d s) - s16 v)"
    and "ccN t \<longleftrightarrow> bit (get_d t) 15" and "ccZ t \<longleftrightarrow> get_d t = 0"
    and "byte (rA t)" and "byte (rB t)"
proof -
  let ?r = "(get_d s - v) AND 0xffff"
  have h: "half (get_d s)" using assms(1,2) by (simp add: get_d_def half_push_or)
  note ch = borrow_chain16 [OF h assms(3)]
  have f: "rA t = drop_bit 8 ?r" "rB t = ?r AND 0xff" "fZ t = ?r" "fN t = drop_bit 8 ?r"
    "fC t = (get_d s - v) AND 0x10000" "fOV t = drop_bit 8 ((get_d s XOR v) AND (get_d s XOR ?r))"
    by (simp_all add: assms(4) subd_def get_d_def Let_def)
  have d: "get_d t = ?r" using split_half [of ?r] by (simp only: get_d_def [of t] f half_mask)
  show "unat (get_d t) = (unat (get_d s) + 65536 - unat v) mod 65536" using ch(1) by (simp only: d)
  show "ccC t \<longleftrightarrow> unat (get_d s) < unat v" using ch(2) by (simp only: cc_lazy f)
  show "ccV t \<longleftrightarrow> ovf16 (s16 (get_d s) - s16 v)" using ch(3) by (simp only: cc_lazy f bit_drop_bit_8)
  show "ccN t \<longleftrightarrow> bit (get_d t) 15" by (simp only: cc_lazy f bit_drop_bit_8 d)
  show "ccZ t \<longleftrightarrow> get_d t = 0" by (simp only: cc_lazy f d)
  show "byte (rA t)" using byte_shr8 [of ?r] by (simp only: f half_mask)
  show "byte (rB t)" by (simp only: f byte_mask)
qed


text \<open>Shifts and rotates.\<close>

lemma byte_mask_self: "byte w \<Longrightarrow> w AND 0xff = w"
  by (simp add: word_unat_eq_iff byte_def)

lemma half_mask_self: "half w \<Longrightarrow> w AND 0xffff = w"
  by (simp add: word_unat_eq_iff half_def)

lemma unat_shl1: "half w \<Longrightarrow> unat (push_bit 1 w) = 2 * unat w"
  by (simp add: push_bit_eq_mult unat_word_ariths half_def)

lemma bit_ff: "bit (0xff :: int) n \<longleftrightarrow> n < 8"
  using bit_mask_iff [of 8 n, where ?'a = int] by (auto simp: mask_eq_exp_minus_1)

lemma bit_80: "bit (0x80 :: int) n \<longleftrightarrow> n = 7"
  using bit_exp_iff [of 7 n, where ?'a = int] by auto

lemma rol_spec:
  assumes "byte a" "rol a s = (r, t)"
  shows "unat r = (2 * unat a + of_bool (ccC s)) mod 256" and "ccC t \<longleftrightarrow> 128 \<le> unat a"
    and "ccV t \<longleftrightarrow> (bit a 7 \<noteq> bit a 6)" and "fZ t = r" and "fN t = r" and "byte r"
proof -
  let ?n = "2 * unat a + of_bool (ccC s)"
  let ?w = "push_bit 1 a + (if fC s \<noteq> 0 then 1 else 0)"
  have le: "unat a < 256" using assms(1) by (simp add: byte_def)
  have w: "unat ?w = ?n"
    using le unat_shl1 [OF byte_half [OF assms(1)]] by (simp add: unat_word_ariths)
  have r: "r = ?w AND 0xff" and t: "fC t = ?w AND 0x100" "fOV t = a XOR r" "fZ t = r" "fN t = r"
    using assms(2) by (auto simp: rol_def Let_def)
  show u: "unat r = ?n mod 256" by (simp only: r unat_and_ff w)
  show b: "byte r" by (simp only: r byte_mask)
  show "ccC t \<longleftrightarrow> 128 \<le> unat a"
    using top_bit [of ?w 8] le w by (simp add: t) presburger
  have "?n div 128 = unat a div 64" by (simp add: div_mult2_eq [of _ 2 64, simplified])
  then have "bit ?w 7 \<longleftrightarrow> bit a 6" unfolding bit_unat w by simp
  then have "bit r 7 \<longleftrightarrow> bit a 6" by (simp add: r bit_and_iff)
  then show "ccV t \<longleftrightarrow> (bit a 7 \<noteq> bit a 6)" by (simp add: t bit_xor_iff)
  show "fZ t = r" "fN t = r" by (fact t)+
qed

lemma asl_rol: "asl a s = rol a (s\<lparr>fC := 0\<rparr>)"
  by (simp add: asl_def rol_def Let_def)

lemma ror_spec:
  assumes "byte a" "ror a s = (r, t)"
  shows "unat r = unat a div 2 + 128 * of_bool (ccC s)" and "ccC t \<longleftrightarrow> odd (unat a)"
    and "fZ t = r" and "fN t = r" and "byte r" and "fOV t = fOV s"
proof -
  let ?w = "if fC s \<noteq> 0 then a OR 0x100 else a"
  have le: "unat a < 256" using assms(1) by (simp add: byte_def)
  have "unat (a OR 0x100) = unat a + 256"
    using push_or_unat [of 1 a] assms(1) by (simp add: byte_def or.commute)
  then have w: "unat ?w = unat a + 256 * of_bool (ccC s)" by simp
  have r: "r = drop_bit 1 ?w" and t: "fC t = ?w AND 1" "fZ t = r" "fN t = r" "fOV t = fOV s"
    using assms(2) by (auto simp: ror_def Let_def)
  show u: "unat r = unat a div 2 + 128 * of_bool (ccC s)" by (simp add: r unat_shr w)
  have "unat a div 2 < 128" using le by (simp add: less_mult_imp_div_less)
  then show "byte r" by (simp add: byte_def u)
  show "ccC t \<longleftrightarrow> odd (unat a)" by (simp add: t bit_unat w)
  show "fZ t = r" "fN t = r" "fOV t = fOV s" by (fact t)+
qed

lemma lsr_ror: "fst (lsr a s) = fst (ror a (s\<lparr>fC := 0\<rparr>))" "fC (snd (lsr a s)) = fC (snd (ror a (s\<lparr>fC := 0\<rparr>)))"
  by (simp_all add: lsr_def ror_def Let_def)

lemma asr_spec:
  assumes "byte a" "asr a s = (r, t)"
  shows "s8 r = s8 a div 2" and "ccC t \<longleftrightarrow> odd (s8 a)" and "fZ t = r" and "fN t = r" and "byte r"
proof -
  have r: "r = drop_bit 1 (INT8 a) AND 0xff" and t: "fC t = INT8 a AND 1" "fZ t = r" "fN t = r"
    using assms(2) by (auto simp: asr_def Let_def)
  show b: "byte r" by (simp only: r byte_mask)
  show "fZ t = r" "fN t = r" by (fact t)+
  have w: "bit (INT8 a) n \<longleftrightarrow> n < 32 \<and> bit a (min n 7)" for n
    by (simp add: INT8_def bit_signed_iff bit_unsigned_iff min_def)
  have a7: "\<not> bit a n" if "8 \<le> n" for n
    using assms(1) that by (metis byte_take_bit bit_take_bit_iff leD)
  have "bit (drop_bit 1 (INT8 a) AND 0xff) n \<longleftrightarrow> bit (drop_bit 1 (if bit a 7 then a OR 0x100 else a)) n" for n
    using a7 [of "Suc n"] by (cases "n < 7"; cases "n = 7")
      (auto simp: bit_and_iff bit_drop_bit_eq bit_or_iff w bit_ff bit_80)
  then have "r = drop_bit 1 (if bit a 7 then a OR 0x100 else a)"
    unfolding r by (rule bit_eqI)
  then have "r = fst (ror a (s\<lparr>fC := a AND 0x80\<rparr>))" by (simp add: ror_def Let_def)
  then have u: "unat r = unat a div 2 + 128 * of_bool (128 \<le> unat a)"
    using ror_spec(1) [OF assms(1) surjective_pairing, of "s\<lparr>fC := a AND 0x80\<rparr>"] assms(1)
    by (simp add: byte_bit7)
  have "ccC t \<longleftrightarrow> bit a 0" by (simp add: t w)
  also have "\<dots> \<longleftrightarrow> odd (int (unat a))" by (simp only: bit_unat even_of_nat) simp
  also have "\<dots> \<longleftrightarrow> odd (s8 a)" using assms(1) by (simp add: s8_byte)
  finally show "ccC t \<longleftrightarrow> odd (s8 a)" .
  have "unat a < 256" using assms(1) by (simp add: byte_def)
  then show "s8 r = s8 a div 2"
    unfolding s8_byte [OF b] s8_byte [OF assms(1)] u by (auto simp: zdiv_int)
qed

lemma s8_neg: "byte r \<Longrightarrow> s8 r < 0 \<longleftrightarrow> bit r 7"
proof -
  assume r: "byte r"
  then have "int (unat r) < 256" unfolding byte_def by linarith
  then show "s8 r < 0 \<longleftrightarrow> bit r 7" using r by (auto simp: s8_byte byte_bit7)
qed

lemma sg_inj: "x < 2 * h \<Longrightarrow> y < 2 * h \<Longrightarrow> sg h x = sg h y \<longleftrightarrow> x = y"
  by (auto simp: sg_def)

lemma s8_inj: "byte a \<Longrightarrow> byte b \<Longrightarrow> s8 a = s8 b \<longleftrightarrow> a = b"
  using sg_inj [of "unat a" 128 "unat b"] by (simp add: s8_sg byte_def word_unat_eq_iff)

lemma s16_inj: "half a \<Longrightarrow> half b \<Longrightarrow> s16 a = s16 b \<longleftrightarrow> a = b"
  using sg_inj [of "unat a" 32768 "unat b"] by (simp add: s16_sg half_def word_unat_eq_iff)

lemma rol_nat:
  fixes n :: nat assumes "n < 256" 
  shows "(2 * n + of_bool c) mod 256 div 2 + 128 * of_bool (128 \<le> n) = n"
    and "odd ((2 * n + of_bool c) mod 256) \<longleftrightarrow> c"
proof -
  have "(2 * n + of_bool c) mod 256 = 2 * n + of_bool c - 256 * of_bool (128 \<le> n)"
    using assms by (cases c; cases "128 \<le> n") (simp_all add: mod_if)
  moreover have "256 * of_bool (128 \<le> n) \<le> 2 * n" by simp
  ultimately show "(2 * n + of_bool c) mod 256 div 2 + 128 * of_bool (128 \<le> n) = n" "odd ((2 * n + of_bool c) mod 256) \<longleftrightarrow> c" by (cases c; cases "128 \<le> n"; simp)+
qed

lemma ror_nat:
  fixes n :: nat assumes "n < 256" 
  shows "(2 * (n div 2 + 128 * of_bool c) + of_bool (odd n)) mod 256 = n"
    and "128 \<le> n div 2 + 128 * of_bool c \<longleftrightarrow> c"
proof -
  have "2 * (n div 2) + of_bool (odd n) = n" by (cases "odd n") auto
  then have "2 * (n div 2 + 128 * of_bool c) + of_bool (odd n) = n + 256 * of_bool c" by simp
  then show "(2 * (n div 2 + 128 * of_bool c) + of_bool (odd n)) mod 256 = n" using assms by simp
  show "128 \<le> n div 2 + 128 * of_bool c \<longleftrightarrow> c" using assms by (cases c) simp_all
qed
section \<open>Correctness of the operations\<close>

text \<open>(C14) ADC: for byte operands the result is the sum with the carry modulo 256, and the carry,
  overflow, half carry, zero and sign flags of the condition code register are those of the
  unsigned, signed, low-nibble and result values.\<close>

theorem adc_correct:
  assumes "byte a" "byte b" "adc a b s = (r, t)"
  shows "unat r = (unat a + unat b + of_bool (ccC s)) mod 256
    \<and> (ccC t \<longleftrightarrow> 256 \<le> unat a + unat b + of_bool (ccC s))
    \<and> (ccV t \<longleftrightarrow> ovf8 (s8 a + s8 b + of_bool (ccC s)))
    \<and> (ccH t \<longleftrightarrow> 16 \<le> unat a mod 16 + unat b mod 16 + of_bool (ccC s))
    \<and> (ccZ t \<longleftrightarrow> r = 0) \<and> (ccN t \<longleftrightarrow> s8 r < 0)"
proof -
  note spec = adc_spec [OF assms]
  show ?thesis using spec(1-6) s8_neg [OF spec(7)] by simp
qed

theorem adc_correct_witness:
  "byte 200 \<and> byte 100 \<and> unat (fst (adc 200 100 (power_on ()))) = 44 \<and> ccC (snd (adc 200 100 (power_on ())))"
  using adc_correct [of 200 100 "power_on ()" "fst (adc 200 100 (power_on ()))" "snd (adc 200 100 (power_on ()))"]
  by (simp add: byte_def power_on_def)

text \<open>SBC: the difference with borrow modulo 256, and borrow, overflow, zero and sign.\<close>

theorem sbc_correct:
  assumes "byte a" "byte b" "sbc a b s = (r, t)"
  shows "unat r = (unat a + 256 - (unat b + of_bool (ccC s))) mod 256
    \<and> (ccC t \<longleftrightarrow> unat a < unat b + of_bool (ccC s))
    \<and> (ccV t \<longleftrightarrow> ovf8 (s8 a - s8 b - of_bool (ccC s)))
    \<and> (ccZ t \<longleftrightarrow> r = 0) \<and> (ccN t \<longleftrightarrow> s8 r < 0)"
proof -
  note spec = sbc_spec [OF assms]
  show ?thesis using spec(1-5) s8_neg [OF spec(6)] by simp
qed

theorem sbc_correct_witness:
  "byte 5 \<and> byte 7 \<and> unat (fst (sbc 5 7 (power_on ()))) = 254 \<and> ccC (snd (sbc 5 7 (power_on ())))"
  using sbc_correct [of 5 7 "power_on ()" "fst (sbc 5 7 (power_on ()))" "snd (sbc 5 7 (power_on ()))"]
  by (simp add: byte_def power_on_def)

text \<open>ADD and SUB ignore the incoming carry: the results are the sum and the difference modulo
  256, carry and borrow are exact, and CMP leaves the flags of SUB.\<close>

theorem add_sub_cmp_correct:
  assumes "byte a" "byte b"
  shows "unat (fst (add a b s)) = (unat a + unat b) mod 256 \<and> (ccC (snd (add a b s)) \<longleftrightarrow> 256 \<le> unat a + unat b)
    \<and> (ccV (snd (add a b s)) \<longleftrightarrow> ovf8 (s8 a + s8 b))
    \<and> unat (fst (sub8 a b s)) = (unat a + 256 - unat b) mod 256 \<and> (ccC (snd (sub8 a b s)) \<longleftrightarrow> unat a < unat b)
    \<and> (ccV (snd (sub8 a b s)) \<longleftrightarrow> ovf8 (s8 a - s8 b)) \<and> cmp a b s = snd (sub8 a b s)"
proof -
  have "adc a b (s\<lparr>fC := 0\<rparr>) = (fst (add a b s), snd (add a b s))"
    "sbc a b (s\<lparr>fC := 0\<rparr>) = (fst (sub8 a b s), snd (sub8 a b s))"
    by (simp_all add: add_adc sub8_sbc)
  from adc_spec(1-3) [OF assms this(1)] sbc_spec(1-3) [OF assms this(2)] show ?thesis
    by (simp add: cmp_sub8)
qed

theorem add_sub_cmp_correct_witness:
  "byte 5 \<and> byte 7 \<and> unat (fst (add 5 7 (power_on ()))) = 12 \<and> unat (fst (sub8 5 7 (power_on ()))) = 254"
  using add_sub_cmp_correct [of 5 7 "power_on ()"] by (simp add: byte_def)

text \<open>(C15) The ten comparison branches after CMP decide the unsigned and the signed order of the
  two bytes.\<close>

theorem branches_after_cmp:
  assumes "byte a" "byte b"
  shows "(cond_HI (cmp a b s) \<longleftrightarrow> unat b < unat a) \<and> (cond_LS (cmp a b s) \<longleftrightarrow> unat a \<le> unat b)
    \<and> (cond_HS (cmp a b s) \<longleftrightarrow> unat b \<le> unat a) \<and> (cond_LO (cmp a b s) \<longleftrightarrow> unat a < unat b)
    \<and> (cond_EQ (cmp a b s) \<longleftrightarrow> a = b) \<and> (cond_NE (cmp a b s) \<longleftrightarrow> a \<noteq> b)
    \<and> (cond_GE (cmp a b s) \<longleftrightarrow> s8 b \<le> s8 a) \<and> (cond_LT (cmp a b s) \<longleftrightarrow> s8 a < s8 b)
    \<and> (cond_GT (cmp a b s) \<longleftrightarrow> s8 b < s8 a) \<and> (cond_LE (cmp a b s) \<longleftrightarrow> s8 a \<le> s8 b)"
proof -
  have "unat a = unat b \<longleftrightarrow> a = b" by (simp add: word_unat_eq_iff)
  moreover have "s8 a = s8 b \<longleftrightarrow> a = b"
    using s8_inj assms by blast
  ultimately show ?thesis
    using cmp_spec [OF assms, of s] by (auto simp: cond_defs)
qed

theorem branches_after_cmp_witness:
  "byte 200 \<and> byte 100 \<and> cond_HI (cmp 200 100 (power_on ())) \<and> cond_LT (cmp 200 100 (power_on ()))"
  using branches_after_cmp [of 200 100 "power_on ()"] by (simp add: byte_def s8_byte)

text \<open>The same branches after a 16-bit compare decide the order of the two words.\<close>

theorem branches_after_cmp16:
  assumes "half a" "half b"
  shows "(cond_HI (cmp16 a b s) \<longleftrightarrow> unat b < unat a) \<and> (cond_LS (cmp16 a b s) \<longleftrightarrow> unat a \<le> unat b)
    \<and> (cond_HS (cmp16 a b s) \<longleftrightarrow> unat b \<le> unat a) \<and> (cond_LO (cmp16 a b s) \<longleftrightarrow> unat a < unat b)
    \<and> (cond_EQ (cmp16 a b s) \<longleftrightarrow> a = b) \<and> (cond_NE (cmp16 a b s) \<longleftrightarrow> a \<noteq> b)
    \<and> (cond_GE (cmp16 a b s) \<longleftrightarrow> s16 b \<le> s16 a) \<and> (cond_LT (cmp16 a b s) \<longleftrightarrow> s16 a < s16 b)
    \<and> (cond_GT (cmp16 a b s) \<longleftrightarrow> s16 b < s16 a) \<and> (cond_LE (cmp16 a b s) \<longleftrightarrow> s16 a \<le> s16 b)"
proof -
  have "unat a = unat b \<longleftrightarrow> a = b" by (simp add: word_unat_eq_iff)
  moreover have "s16 a = s16 b \<longleftrightarrow> a = b"
    using s16_inj assms by blast
  ultimately show ?thesis
    using cmp16_spec [OF assms, of s] by (auto simp: cond_defs)
qed

theorem branches_after_cmp16_witness:
  "half 0x9000 \<and> half 100 \<and> cond_HI (cmp16 0x9000 100 (power_on ())) \<and> cond_LT (cmp16 0x9000 100 (power_on ()))"
  using branches_after_cmp16 [of "0x9000" 100 "power_on ()"] by (simp add: half_def s16_half)

text \<open>INC, DEC and NEG: the result modulo 256, overflow exactly at 0x7f, 0x80 and 0x80; INC and DEC
  keep the carry, which lets them count inside multi-byte arithmetic, and NEG sets it unless the operand is 0.\<close>

theorem inc_dec_neg_correct:
  assumes "byte a"
  shows "unat (fst (inc a s)) = (unat a + 1) mod 256 \<and> (ccV (snd (inc a s)) \<longleftrightarrow> unat a = 0x7f) \<and> ccC (snd (inc a s)) = ccC s
    \<and> unat (fst (dec a s)) = (unat a + 255) mod 256 \<and> (ccV (snd (dec a s)) \<longleftrightarrow> unat a = 0x80) \<and> ccC (snd (dec a s)) = ccC s
    \<and> unat (fst (neg a s)) = (256 - unat a) mod 256 \<and> (ccV (snd (neg a s)) \<longleftrightarrow> unat a = 0x80) \<and> (ccC (snd (neg a s)) \<longleftrightarrow> a \<noteq> 0)"
proof -
  note i = inc_spec [OF assms surjective_pairing, of s] and d = dec_spec [OF assms surjective_pairing, of s]
    and n = neg_spec [OF assms surjective_pairing, of s]
  show ?thesis using i(1,2,3) d(1,2,3) n(1,2,3) by simp
qed

theorem inc_dec_neg_correct_witness:
  "byte 0x7f \<and> ccV (snd (inc 0x7f (power_on ()))) \<and> unat (fst (neg 0x7f (power_on ()))) = 0x81"
  using inc_dec_neg_correct [of "0x7f" "power_on ()"] by (simp add: byte_def)

text \<open>A rotate left followed by a rotate right restores both the byte and the carry, and the other
  way round: the nine bits travel in a circle.\<close>

theorem rotate_inverse:
  assumes "byte a" "rol a s = (r, t)" "ror r t = (b, u)" "ror a s = (r', t')" "rol r' t' = (b', u')"
  shows "b = a \<and> ccC u = ccC s \<and> b' = a \<and> ccC u' = ccC s"
proof -
  note l = rol_spec [OF assms(1,2)] and l' = ror_spec [OF assms(1,4)]
  note r = ror_spec [OF l(6) assms(3)] and r' = rol_spec [OF l'(5) assms(5)]
  have le: "unat a < 256" using assms(1) by (simp add: byte_def)
  have "unat b = unat a" "ccC u \<longleftrightarrow> ccC s" using r(1,2) l(1,2) rol_nat [OF le] by simp_all
  moreover have "unat b' = unat a" "ccC u' \<longleftrightarrow> ccC s" using r'(1,2) l'(1,2) ror_nat [OF le] by simp_all
  ultimately show ?thesis by (simp add: word_unat_eq_iff)
qed

theorem rotate_inverse_witness:
  "byte 0x81 \<and> fst (ror (fst (rol 0x81 (power_on ()))) (snd (rol 0x81 (power_on ())))) = 0x81"
proof -
  let ?p = "rol 0x81 (power_on ())" and ?q = "ror 0x81 (power_on ())"
  have "byte 0x81" by (simp add: byte_def)
  from rotate_inverse [OF this surjective_pairing surjective_pairing surjective_pairing surjective_pairing, of "power_on ()"]
  show ?thesis using \<open>byte 0x81\<close> by simp
qed

text \<open>ASR halves the signed value, rounding down, and the carry is the bit shifted out; LSR halves the
  unsigned value; ASL doubles it and the overflow flag says that the sign changed.\<close>

theorem shifts_correct:
  assumes "byte a"
  shows "s8 (fst (asr a s)) = s8 a div 2 \<and> (ccC (snd (asr a s)) \<longleftrightarrow> odd (s8 a))
    \<and> unat (fst (lsr a s)) = unat a div 2 \<and> (ccC (snd (lsr a s)) \<longleftrightarrow> odd (unat a))
    \<and> unat (fst (asl a s)) = 2 * unat a mod 256 \<and> (ccC (snd (asl a s)) \<longleftrightarrow> 128 \<le> unat a)
    \<and> (ccV (snd (asl a s)) \<longleftrightarrow> bit a 7 \<noteq> bit a 6)"
proof -
  have "ror a (s\<lparr>fC := 0\<rparr>) = (fst (lsr a s), snd (ror a (s\<lparr>fC := 0\<rparr>)))" by (simp add: lsr_ror)
  note l = ror_spec(1,2) [OF assms this]
  have "rol a (s\<lparr>fC := 0\<rparr>) = (fst (asl a s), snd (asl a s))" by (simp add: asl_rol)
  from rol_spec(1-3) [OF assms this] l asr_spec(1,2) [OF assms surjective_pairing, of s] show ?thesis
    by (simp add: lsr_ror)
qed

theorem shifts_correct_witness:
  "byte 0x81 \<and> s8 (fst (asr 0x81 (power_on ()))) = - 64 \<and> unat (fst (lsr 0x81 (power_on ()))) = 64"
  using shifts_correct [of "0x81" "power_on ()"] by (simp add: byte_def s8_byte)

text \<open>MUL leaves the full 16-bit product of A and B in D, zero exactly when a factor is zero, and the
  carry is bit 7 of B, for rounding.\<close>

theorem mul_correct:
  assumes "byte (rA s)" "byte (rB s)"
  shows "\<exists>t. mul s = Ret () t \<and> unat (get_d t) = unat (rA s) * unat (rB s) \<and> (ccC t \<longleftrightarrow> bit (rB t) 7)
    \<and> (ccZ t \<longleftrightarrow> rA s = 0 \<or> rB s = 0)"
proof -
  obtain t where "mul s = Ret () t" by (simp add: mul_def Let_def)
  with mul_spec(1-3) [OF assms this] show ?thesis by blast
qed

theorem mul_correct_witness:
  "\<exists>t. mul (set_a 200 (set_b 100 (power_on ()))) = Ret () t \<and> unat (get_d t) = 20000"
proof -
  let ?s = "set_a 200 (set_b 100 (power_on ()))"
  have "unat (rA ?s) = 200" "unat (rB ?s) = 100" by (simp_all add: set_a_def set_b_def)
  then show ?thesis using mul_correct [of ?s] by (auto simp: byte_def)
qed

text \<open>SEX extends the sign of B over D.\<close>

theorem sex_correct:
  assumes "byte (rB s)"
  shows "\<exists>t. sex s = Ret () t \<and> s16 (get_d t) = s8 (rB s) \<and> rB t = rB s \<and> (ccN t \<longleftrightarrow> s8 (rB s) < 0)
    \<and> (ccZ t \<longleftrightarrow> rB s = 0)"
proof -
  obtain t where "sex s = Ret () t" by (simp add: sex_def Let_def)
  with sex_spec(1-4) [OF assms this] show ?thesis by blast
qed

theorem sex_correct_witness:
  "\<exists>t. sex (set_b 0xfe (power_on ())) = Ret () t \<and> s16 (get_d t) = - 2"
proof -
  let ?s = "set_b 0xfe (power_on ())"
  have "unat (rB ?s) = 0xfe" by (simp add: set_b_def)
  then have "byte (rB ?s)" "s8 (rB ?s) = - 2" by (simp_all add: byte_def s8_byte)
  then show ?thesis using sex_correct [of ?s] by auto
qed

text \<open>ADDD and SUBD: D becomes the sum or the difference modulo 65536, with exact carry, borrow, signed
  overflow, sign and zero flags.\<close>

theorem addd_subd_correct:
  assumes "byte (rA s)" "byte (rB s)" "half v"
  shows "unat (get_d (addd v s)) = (unat (get_d s) + unat v) mod 65536
    \<and> (ccC (addd v s) \<longleftrightarrow> 65536 \<le> unat (get_d s) + unat v) \<and> (ccV (addd v s) \<longleftrightarrow> ovf16 (s16 (get_d s) + s16 v))
    \<and> (ccN (addd v s) \<longleftrightarrow> bit (get_d (addd v s)) 15) \<and> (ccZ (addd v s) \<longleftrightarrow> get_d (addd v s) = 0)
    \<and> unat (get_d (subd v s)) = (unat (get_d s) + 65536 - unat v) mod 65536
    \<and> (ccC (subd v s) \<longleftrightarrow> unat (get_d s) < unat v) \<and> (ccV (subd v s) \<longleftrightarrow> ovf16 (s16 (get_d s) - s16 v))
    \<and> (ccN (subd v s) \<longleftrightarrow> bit (get_d (subd v s)) 15) \<and> (ccZ (subd v s) \<longleftrightarrow> get_d (subd v s) = 0)"
  using addd_spec(1-5) [OF assms refl] subd_spec(1-5) [OF assms refl] by blast

theorem addd_subd_correct_witness:
  "half 3 \<and> unat (get_d (subd 3 (power_on ()))) = 65533"
  using addd_subd_correct [of "power_on ()" 3] by (simp add: byte_def half_def power_on_def get_d_def)

end
