(* ===== verification/Cpu_Memory.thy ===== *)
theory Cpu_Memory
  imports Cpu_Alu
begin

text \<open>
  Operand fetch and addressing modes of \<^verbatim>\<open>6809.c\<close>: immediate operands, memory and stack
  accesses, and the direct, indexed and extended modes, which leave the effective address in
  the global \<^verbatim>\<open>ea\<close>. The bus is the parameter \<open>io\<close>; \<^verbatim>\<open>machine.c\<close> provides it. Where C
  leaves the order of two operands open (\<^verbatim>\<open>read_stack16\<close>), the left one is read first.
\<close>

section \<open>Operands\<close>

definition rd8 :: "'x cpu_scheme iface \<Rightarrow> u32 \<Rightarrow> ('x cpu_scheme, u32) expr" where
  "rd8 io addr = bindE (read8 io addr) (\<lambda>v. Ret (ucast v))"

definition rd16 :: "'x cpu_scheme iface \<Rightarrow> u32 \<Rightarrow> ('x cpu_scheme, u32) expr" where
  "rd16 io addr = bindE (read16 io addr) (\<lambda>v. Ret (ucast v))"

definition imm_byte :: "'x cpu_scheme iface \<Rightarrow> ('x cpu_scheme, u32) expr" where
  "imm_byte io = (\<lambda>s. bindE (rd8 io (rPC s)) (\<lambda>val s. Ret val (s\<lparr>rPC := rPC s + 1\<rparr>)) s)"

definition imm_word :: "'x cpu_scheme iface \<Rightarrow> ('x cpu_scheme, u32) expr" where
  "imm_word io = (\<lambda>s. bindE (rd16 io (rPC s)) (\<lambda>val s. Ret val (s\<lparr>rPC := rPC s + 2\<rparr>)) s)"

section \<open>Memory and stack\<close>

definition WRMEM :: "'x cpu_scheme iface \<Rightarrow> u32 \<Rightarrow> u32 \<Rightarrow> 'x cpu_scheme stmt" where
  "WRMEM io addr data = write8 io addr (ucast data)"

definition WRMEM16 :: "'x cpu_scheme iface \<Rightarrow> u32 \<Rightarrow> u32 \<Rightarrow> 'x cpu_scheme stmt" where
  "WRMEM16 io addr data = block [
     WRMEM io addr (drop_bit 8 data),
     clk 1,
     WRMEM io ((addr + 1) AND 0xffff) (data AND 0xff)]"

definition RDMEM :: "'x cpu_scheme iface \<Rightarrow> u32 \<Rightarrow> ('x cpu_scheme, u32) expr" where
  "RDMEM io addr = rd8 io addr"

definition RDMEM16 :: "'x cpu_scheme iface \<Rightarrow> u32 \<Rightarrow> ('x cpu_scheme, u32) expr" where
  "RDMEM16 io addr =
     bindE (RDMEM io addr) (\<lambda>hi.
     bindE (clk 1) (\<lambda>_.
     bindE (RDMEM io ((addr + 1) AND 0xffff)) (\<lambda>lo.
     Ret (push_bit 8 hi OR lo))))"

definition write_stack :: "'x cpu_scheme iface \<Rightarrow> u32 \<Rightarrow> u32 \<Rightarrow> 'x cpu_scheme stmt" where
  "write_stack = WRMEM"

definition read_stack :: "'x cpu_scheme iface \<Rightarrow> u32 \<Rightarrow> ('x cpu_scheme, u32) expr" where
  "read_stack = RDMEM"

definition write_stack16 :: "'x cpu_scheme iface \<Rightarrow> u32 \<Rightarrow> u32 \<Rightarrow> 'x cpu_scheme stmt" where
  "write_stack16 io addr data = block [
     write_stack io ((addr + 1) AND 0xffff) (data AND 0xff),
     write_stack io addr (drop_bit 8 data)]"

definition read_stack16 :: "'x cpu_scheme iface \<Rightarrow> u32 \<Rightarrow> ('x cpu_scheme, u32) expr" where
  "read_stack16 io addr =
     bindE (read_stack io addr) (\<lambda>hi.
     bindE (read_stack io ((addr + 1) AND 0xffff)) (\<lambda>lo.
     Ret (push_bit 8 hi OR lo)))"

section \<open>Addressing modes\<close>

definition direct :: "'x cpu_scheme iface \<Rightarrow> 'x cpu_scheme stmt" where
  "direct io = (\<lambda>s. bindE (rd8 io (rPC s)) (\<lambda>v.
     assign (\<lambda>s. s\<lparr>ea := v OR rDP s, rPC := rPC s + 1\<rparr>)) s)"

definition extended :: "'x cpu_scheme iface \<Rightarrow> 'x cpu_scheme stmt" where
  "extended io = (\<lambda>s. bindE (rd16 io (rPC s)) (\<lambda>v.
     assign (\<lambda>s. s\<lparr>ea := v, rPC := rPC s + 2\<rparr>)) s)"

text \<open>\<^verbatim>\<open>index_regs\<close>, the array of pointers to X, Y, U and S: reading and writing through
  the pointer selected by two bits of the postbyte.\<close>

definition index_reg :: "u32 \<Rightarrow> 'x cpu_scheme \<Rightarrow> u32" where
  "index_reg r s = (if r = 0 then rX s else if r = 1 then rY s else if r = 2 then rU s else rS s)"

definition set_index_reg :: "u32 \<Rightarrow> u32 \<Rightarrow> 'x cpu_scheme \<Rightarrow> 'x cpu_scheme" where
  "set_index_reg r v s =
     (if r = 0 then s\<lparr>rX := v\<rparr> else if r = 1 then s\<lparr>rY := v\<rparr>
      else if r = 2 then s\<lparr>rU := v\<rparr> else s\<lparr>rS := v\<rparr>)"

definition set_ea :: "('x cpu_scheme \<Rightarrow> u32) \<Rightarrow> 'x cpu_scheme stmt" where
  "set_ea f s = Ret () (s\<lparr>ea := f s\<rparr>)"

definition step_index :: "u32 \<Rightarrow> u32 \<Rightarrow> 'x cpu_scheme stmt" where
  "step_index r d s = Ret () (set_index_reg r ((index_reg r s + d) AND 0xffff) s)"

text \<open>The indirect postbytes end with these two statements.\<close>

definition indirect :: "'x cpu_scheme iface \<Rightarrow> 'x cpu_scheme stmt" where
  "indirect io = block [\<lambda>s. bindE (RDMEM16 io (ea s)) (\<lambda>v. set_ea (\<lambda>s. v)) s, clk 2]"

text \<open>The postbytes 0x80 to 0xff: the inner switch on the low five bits, \<open>r\<close> being the index
  register.\<close>

definition index_offset8 :: "'x cpu_scheme iface \<Rightarrow> u32 \<Rightarrow> 'x cpu_scheme stmt" where
  "index_offset8 io r = bindE (imm_byte io) (\<lambda>v. set_ea (\<lambda>s. (index_reg r s + INT8 v) AND 0xffff))"

definition index_offset16 :: "'x cpu_scheme iface \<Rightarrow> u32 \<Rightarrow> 'x cpu_scheme stmt" where
  "index_offset16 io r = bindE (imm_word io) (\<lambda>v. set_ea (\<lambda>s. (index_reg r s + v) AND 0xffff))"

definition index_pc8 :: "'x cpu_scheme iface \<Rightarrow> 'x cpu_scheme stmt" where
  "index_pc8 io = block [
     bindE (imm_byte io) (\<lambda>v. set_ea (\<lambda>s. INT8 v)),
     set_ea (\<lambda>s. (ea s + rPC s) AND 0xffff)]"

definition index_pc16 :: "'x cpu_scheme iface \<Rightarrow> 'x cpu_scheme stmt" where
  "index_pc16 io = block [
     bindE (imm_word io) (\<lambda>v. set_ea (\<lambda>s. v)),
     set_ea (\<lambda>s. (ea s + rPC s) AND 0xffff)]"

definition index_table :: "'x cpu_scheme iface \<Rightarrow> u32 \<Rightarrow> (u32 \<times> 'x cpu_scheme stmt) list" where
  "index_table io r = [
     (0x00, block [set_ea (index_reg r), step_index r 1, clk 6]),
     (0x01, block [set_ea (index_reg r), step_index r 2, clk 7]),
     (0x02, block [step_index r (- 1), set_ea (index_reg r), clk 6]),
     (0x03, block [step_index r (- 2), set_ea (index_reg r), clk 7]),
     (0x04, block [set_ea (index_reg r), clk 4]),
     (0x05, block [set_ea (\<lambda>s. (index_reg r s + INT8 (rB s)) AND 0xffff), clk 5]),
     (0x06, block [set_ea (\<lambda>s. (index_reg r s + INT8 (rA s)) AND 0xffff), clk 5]),
     (0x08, block [index_offset8 io r, clk 5]),
     (0x09, block [index_offset16 io r, clk 8]),
     (0x0b, block [set_ea (\<lambda>s. (index_reg r s + get_d s) AND 0xffff), clk 8]),
     (0x0c, block [index_pc8 io, clk 5]),
     (0x0d, block [index_pc16 io, clk 9]),
     (0x11, block [set_ea (index_reg r), step_index r 2, clk 7, indirect io]),
     (0x13, block [step_index r (- 2), set_ea (index_reg r), clk 7, indirect io]),
     (0x14, block [set_ea (index_reg r), clk 4, indirect io]),
     (0x15, block [set_ea (\<lambda>s. (index_reg r s + INT8 (rB s)) AND 0xffff), clk 5, indirect io]),
     (0x16, block [set_ea (\<lambda>s. (index_reg r s + INT8 (rA s)) AND 0xffff), clk 5, indirect io]),
     (0x18, block [index_offset8 io r, clk 5, indirect io]),
     (0x19, block [index_offset16 io r, clk 8, indirect io]),
     (0x1b, block [set_ea (\<lambda>s. (index_reg r s + get_d s) AND 0xffff), clk 8, indirect io]),
     (0x1c, block [index_pc8 io, clk 5, indirect io]),
     (0x1d, block [index_pc16 io, clk 9, indirect io]),
     (0x1f, block [bindE (imm_word io) (\<lambda>v. set_ea (\<lambda>s. v)), clk 6, indirect io])]"

text \<open>The whole mode. A postbyte below 0x80 carries a signed five-bit offset.\<close>

definition indexed :: "'x cpu_scheme iface \<Rightarrow> 'x cpu_scheme stmt" where
  "indexed io = bindE (imm_byte io) (\<lambda>post.
     let r = drop_bit 5 post AND 0x3 in
     if post AND 0x80 \<noteq> 0 then
       switch (index_table io r) (block [set_ea (\<lambda>s. 0), sim_error]) (post AND 0x1f)
     else
       let off = (if post AND 0x10 \<noteq> 0 then post OR 0xfff0 else post AND 0x000f)
       in block [set_ea (\<lambda>s. (index_reg r s + off) AND 0xffff), clk 5])"

end
