(* ===== verification/Cpu_Stack.thy ===== *)
theory Cpu_Stack
  imports Cpu_Memory
begin

text \<open>
  Register transfers, the stack instructions, the interrupt entry and return sequences, the
  two-phase CWAI instruction, the condition code instructions, branches and the interrupt
  request lines of \<^verbatim>\<open>6809.c\<close>. The functions \<^verbatim>\<open>check_pc\<close>, \<^verbatim>\<open>check_stack\<close>,
  \<^verbatim>\<open>monitor_call\<close> and \<^verbatim>\<open>monitor_return\<close> have empty bodies in the modelled build and are
  left out.
\<close>

section \<open>Register transfers\<close>

definition exg :: "'x cpu_scheme iface \<Rightarrow> 'x cpu_scheme stmt" where
  "exg io = bindE (imm_byte io) (\<lambda>post s.
     let same = ((post XOR push_bit 4 post) AND 0x80 = 0);
         tmp1 = (if same then get_reg (drop_bit 4 post) s else 0xff);
         tmp2 = (if same then get_reg (post AND 15) s else 0xff)
     in block [assign (set_reg (post AND 15) tmp1), assign (set_reg (drop_bit 4 post) tmp2), clk 8] s)"

definition tfr :: "'x cpu_scheme iface \<Rightarrow> 'x cpu_scheme stmt" where
  "tfr io = bindE (imm_byte io) (\<lambda>post s.
     let tmp1 = (if (post XOR push_bit 4 post) AND 0x80 = 0 then get_reg (drop_bit 4 post) s else 0xff)
     in block [assign (set_reg (post AND 15) tmp1), clk 6] s)"

section \<open>Stores\<close>

definition st :: "'x cpu_scheme iface \<Rightarrow> u32 \<Rightarrow> 'x cpu_scheme stmt" where
  "st io arg = block [
     assign (\<lambda>s. s\<lparr>fN := arg, fZ := arg, fOV := 0\<rparr>),
     \<lambda>s. WRMEM io (ea s) arg s]"

definition std :: "'x cpu_scheme iface \<Rightarrow> 'x cpu_scheme stmt" where
  "std io = (\<lambda>s.
     let res = push_bit 8 (rA s) OR rB s
      in block [
        assign (\<lambda>s. s\<lparr>fZ := res, fN := rA s, fOV := 0\<rparr>),
        \<lambda>s. WRMEM16 io (ea s) res s] s)"

definition st16 :: "'x cpu_scheme iface \<Rightarrow> u32 \<Rightarrow> 'x cpu_scheme stmt" where
  "st16 io arg = block [
     assign (\<lambda>s. s\<lparr>fZ := arg, fN := drop_bit 8 arg, fOV := 0\<rparr>),
     \<lambda>s. WRMEM16 io (ea s) arg s]"

section \<open>Stack instructions\<close>

text \<open>One push or pull of the code on the S or the U stack: the pointer moves and the value is
  written below it, or the value is read and the pointer moves past it.\<close>

definition push_s8 :: "'x cpu_scheme iface \<Rightarrow> ('x cpu_scheme \<Rightarrow> u32) \<Rightarrow> 'x cpu_scheme stmt" where
  "push_s8 io f = block [
     assign (\<lambda>s. s\<lparr>rS := (rS s - 1) AND 0xffff\<rparr>),
     \<lambda>s. write_stack io (rS s) (f s) s]"

definition push_s16 :: "'x cpu_scheme iface \<Rightarrow> ('x cpu_scheme \<Rightarrow> u32) \<Rightarrow> 'x cpu_scheme stmt" where
  "push_s16 io f = block [
     assign (\<lambda>s. s\<lparr>rS := (rS s - 2) AND 0xffff\<rparr>),
     \<lambda>s. write_stack16 io (rS s) (f s) s]"

definition push_u8 :: "'x cpu_scheme iface \<Rightarrow> ('x cpu_scheme \<Rightarrow> u32) \<Rightarrow> 'x cpu_scheme stmt" where
  "push_u8 io f = block [
     assign (\<lambda>s. s\<lparr>rU := (rU s - 1) AND 0xffff\<rparr>),
     \<lambda>s. write_stack io (rU s) (f s) s]"

definition push_u16 :: "'x cpu_scheme iface \<Rightarrow> ('x cpu_scheme \<Rightarrow> u32) \<Rightarrow> 'x cpu_scheme stmt" where
  "push_u16 io f = block [
     assign (\<lambda>s. s\<lparr>rU := (rU s - 2) AND 0xffff\<rparr>),
     \<lambda>s. write_stack16 io (rU s) (f s) s]"

definition pull_s8 :: "'x cpu_scheme iface \<Rightarrow> (u32 \<Rightarrow> 'x cpu_scheme \<Rightarrow> 'x cpu_scheme) \<Rightarrow> 'x cpu_scheme stmt" where
  "pull_s8 io f = block [
     \<lambda>s. bindE (read_stack io (rS s)) (\<lambda>v. assign (f v)) s,
     assign (\<lambda>s. s\<lparr>rS := (rS s + 1) AND 0xffff\<rparr>)]"

definition pull_s16 :: "'x cpu_scheme iface \<Rightarrow> (u32 \<Rightarrow> 'x cpu_scheme \<Rightarrow> 'x cpu_scheme) \<Rightarrow> 'x cpu_scheme stmt" where
  "pull_s16 io f = block [
     \<lambda>s. bindE (read_stack16 io (rS s)) (\<lambda>v. assign (f v)) s,
     assign (\<lambda>s. s\<lparr>rS := (rS s + 2) AND 0xffff\<rparr>)]"

definition pull_u8 :: "'x cpu_scheme iface \<Rightarrow> (u32 \<Rightarrow> 'x cpu_scheme \<Rightarrow> 'x cpu_scheme) \<Rightarrow> 'x cpu_scheme stmt" where
  "pull_u8 io f = block [
     \<lambda>s. bindE (read_stack io (rU s)) (\<lambda>v. assign (f v)) s,
     assign (\<lambda>s. s\<lparr>rU := (rU s + 1) AND 0xffff\<rparr>)]"

definition pull_u16 :: "'x cpu_scheme iface \<Rightarrow> (u32 \<Rightarrow> 'x cpu_scheme \<Rightarrow> 'x cpu_scheme) \<Rightarrow> 'x cpu_scheme stmt" where
  "pull_u16 io f = block [
     \<lambda>s. bindE (read_stack16 io (rU s)) (\<lambda>v. assign (f v)) s,
     assign (\<lambda>s. s\<lparr>rU := (rU s + 2) AND 0xffff\<rparr>)]"

definition pshs :: "'x cpu_scheme iface \<Rightarrow> 'x cpu_scheme stmt" where
  "pshs io = bindE (imm_byte io) (\<lambda>post. block [
     clk 5,
     doif (post AND 0x80 \<noteq> 0) (block [clk 2, push_s16 io (\<lambda>s. rPC s AND 0xffff)]),
     doif (post AND 0x40 \<noteq> 0) (block [clk 2, push_s16 io rU]),
     doif (post AND 0x20 \<noteq> 0) (block [clk 2, push_s16 io rY]),
     doif (post AND 0x10 \<noteq> 0) (block [clk 2, push_s16 io rX]),
     doif (post AND 0x08 \<noteq> 0) (block [clk 1, push_s8 io (\<lambda>s. drop_bit 8 (rDP s))]),
     doif (post AND 0x04 \<noteq> 0) (block [clk 1, push_s8 io rB]),
     doif (post AND 0x02 \<noteq> 0) (block [clk 1, push_s8 io rA]),
     doif (post AND 0x01 \<noteq> 0) (block [clk 1, push_s8 io get_cc])])"

definition pshu :: "'x cpu_scheme iface \<Rightarrow> 'x cpu_scheme stmt" where
  "pshu io = bindE (imm_byte io) (\<lambda>post. block [
     clk 5,
     doif (post AND 0x80 \<noteq> 0) (block [clk 2, push_u16 io (\<lambda>s. rPC s AND 0xffff)]),
     doif (post AND 0x40 \<noteq> 0) (block [clk 2, push_u16 io rS]),
     doif (post AND 0x20 \<noteq> 0) (block [clk 2, push_u16 io rY]),
     doif (post AND 0x10 \<noteq> 0) (block [clk 2, push_u16 io rX]),
     doif (post AND 0x08 \<noteq> 0) (block [clk 1, push_u8 io (\<lambda>s. drop_bit 8 (rDP s))]),
     doif (post AND 0x04 \<noteq> 0) (block [clk 1, push_u8 io rB]),
     doif (post AND 0x02 \<noteq> 0) (block [clk 1, push_u8 io rA]),
     doif (post AND 0x01 \<noteq> 0) (block [clk 1, push_u8 io get_cc])])"

definition puls :: "'x cpu_scheme iface \<Rightarrow> 'x cpu_scheme stmt" where
  "puls io = bindE (imm_byte io) (\<lambda>post. block [
     clk 5,
     doif (post AND 0x01 \<noteq> 0) (block [clk 1, pull_s8 io set_cc]),
     doif (post AND 0x02 \<noteq> 0) (block [clk 1, pull_s8 io (\<lambda>v s. s\<lparr>rA := v\<rparr>)]),
     doif (post AND 0x04 \<noteq> 0) (block [clk 1, pull_s8 io (\<lambda>v s. s\<lparr>rB := v\<rparr>)]),
     doif (post AND 0x08 \<noteq> 0) (block [clk 1, pull_s8 io (\<lambda>v s. s\<lparr>rDP := push_bit 8 v\<rparr>)]),
     doif (post AND 0x10 \<noteq> 0) (block [clk 2, pull_s16 io (\<lambda>v s. s\<lparr>rX := v\<rparr>)]),
     doif (post AND 0x20 \<noteq> 0) (block [clk 2, pull_s16 io (\<lambda>v s. s\<lparr>rY := v\<rparr>)]),
     doif (post AND 0x40 \<noteq> 0) (block [clk 2, pull_s16 io (\<lambda>v s. s\<lparr>rU := v\<rparr>)]),
     doif (post AND 0x80 \<noteq> 0) (block [clk 2, pull_s16 io (\<lambda>v s. s\<lparr>rPC := v\<rparr>)])])"

definition pulu :: "'x cpu_scheme iface \<Rightarrow> 'x cpu_scheme stmt" where
  "pulu io = bindE (imm_byte io) (\<lambda>post. block [
     clk 5,
     doif (post AND 0x01 \<noteq> 0) (block [clk 1, pull_u8 io set_cc]),
     doif (post AND 0x02 \<noteq> 0) (block [clk 1, pull_u8 io (\<lambda>v s. s\<lparr>rA := v\<rparr>)]),
     doif (post AND 0x04 \<noteq> 0) (block [clk 1, pull_u8 io (\<lambda>v s. s\<lparr>rB := v\<rparr>)]),
     doif (post AND 0x08 \<noteq> 0) (block [clk 1, pull_u8 io (\<lambda>v s. s\<lparr>rDP := push_bit 8 v\<rparr>)]),
     doif (post AND 0x10 \<noteq> 0) (block [clk 2, pull_u16 io (\<lambda>v s. s\<lparr>rX := v\<rparr>)]),
     doif (post AND 0x20 \<noteq> 0) (block [clk 2, pull_u16 io (\<lambda>v s. s\<lparr>rY := v\<rparr>)]),
     doif (post AND 0x40 \<noteq> 0) (block [clk 2, pull_u16 io (\<lambda>v s. s\<lparr>rS := v\<rparr>)]),
     doif (post AND 0x80 \<noteq> 0) (block [clk 2, pull_u16 io (\<lambda>v s. s\<lparr>rPC := v\<rparr>)])])"

section \<open>Interrupt entry and return\<close>

definition stack_machine_state :: "'x cpu_scheme iface \<Rightarrow> bool \<Rightarrow> 'x cpu_scheme stmt" where
  "stack_machine_state io full = block [
     (if full then block [clk 19, assign (\<lambda>s. s\<lparr>EFI := EFI s OR E_FLAG\<rparr>)]
      else block [clk 6, assign (\<lambda>s. s\<lparr>EFI := EFI s AND NOT E_FLAG\<rparr>)]),
     push_s16 io (\<lambda>s. rPC s AND 0xffff),
     doif full (block [
       push_s16 io rU,
       push_s16 io rY,
       push_s16 io rX,
       push_s8 io (\<lambda>s. drop_bit 8 (rDP s)),
       push_s8 io rB,
       push_s8 io rA]),
     push_s8 io get_cc]"

definition nop :: "'x cpu_scheme stmt" where
  "nop = clk 2"

definition jsr :: "'x cpu_scheme iface \<Rightarrow> 'x cpu_scheme stmt" where
  "jsr io = block [
     push_s16 io (\<lambda>s. rPC s AND 0xffff),
     \<lambda>s. change_pc (ea s) s]"

definition command_exit_irq_hook :: "u64 \<Rightarrow> 'x cpu_scheme stmt" where
  "command_exit_irq_hook cycles s =
     (let i = irq_cycle_entry s in
      if i < length (irq_cycle_tab s) then
        Ret () (s\<lparr>irq_cycles := irq_cycles s - ucast (irq_cycle_tab s ! i) + cycles,
                  irq_cycle_tab := (irq_cycle_tab s)[i := ucast cycles],
                  irq_cycle_entry := (i + 1) mod IRQ_CYCLE_COUNTS\<rparr>)
      else UB)"

definition rti :: "'x cpu_scheme iface \<Rightarrow> 'x cpu_scheme stmt" where
  "rti io = block [
     clk 6,
     \<lambda>s. command_exit_irq_hook (get_cycles s - irq_start_time s) s,
     pull_s8 io set_cc,
     \<lambda>s. doif (EFI s AND E_FLAG \<noteq> 0) (block [
       clk 9,
       pull_s8 io (\<lambda>v s. s\<lparr>rA := v\<rparr>),
       pull_s8 io (\<lambda>v s. s\<lparr>rB := v\<rparr>),
       pull_s8 io (\<lambda>v s. s\<lparr>rDP := push_bit 8 v\<rparr>),
       pull_s16 io (\<lambda>v s. s\<lparr>rX := v\<rparr>),
       pull_s16 io (\<lambda>v s. s\<lparr>rY := v\<rparr>),
       pull_s16 io (\<lambda>v s. s\<lparr>rU := v\<rparr>)]) s,
     pull_s16 io (\<lambda>v s. s\<lparr>rPC := v\<rparr>)]"

definition rts :: "'x cpu_scheme iface \<Rightarrow> 'x cpu_scheme stmt" where
  "rts io = block [clk 5, pull_s16 io (\<lambda>v s. s\<lparr>rPC := v\<rparr>)]"

text \<open>\<^verbatim>\<open>change_pc (read16 (vector))\<close>.\<close>

definition goto_vector :: "'x cpu_scheme iface \<Rightarrow> u32 \<Rightarrow> 'x cpu_scheme stmt" where
  "goto_vector io addr = bindE (rd16 io addr) change_pc"

definition irq :: "'x cpu_scheme iface \<Rightarrow> 'x cpu_scheme stmt" where
  "irq io = block [
     \<lambda>s. if cwai_state s = CWAI_STATE_WAIT then Ret () (s\<lparr>cwai_state := CWAI_STATE_IDLE\<rparr>)
         else stack_machine_state io True s,
     assign (\<lambda>s. s\<lparr>EFI := EFI s OR I_FLAG\<rparr>),
     assign (\<lambda>s. s\<lparr>irq_start_time := get_cycles s\<rparr>),
     goto_vector io 0xfff8]"

definition firq :: "'x cpu_scheme iface \<Rightarrow> 'x cpu_scheme stmt" where
  "firq io = block [
     \<lambda>s. if cwai_state s = CWAI_STATE_WAIT then Ret () (s\<lparr>cwai_state := CWAI_STATE_IDLE\<rparr>)
         else stack_machine_state io False s,
     assign (\<lambda>s. s\<lparr>EFI := EFI s OR (I_FLAG OR F_FLAG)\<rparr>),
     goto_vector io 0xfff6]"

definition swi :: "'x cpu_scheme iface \<Rightarrow> 'x cpu_scheme stmt" where
  "swi io = block [
     stack_machine_state io True,
     assign (\<lambda>s. s\<lparr>EFI := EFI s OR (I_FLAG OR F_FLAG)\<rparr>),
     goto_vector io 0xfffa]"

definition swi2 :: "'x cpu_scheme iface \<Rightarrow> 'x cpu_scheme stmt" where
  "swi2 io = block [clk 1, stack_machine_state io True, goto_vector io 0xfff4]"

definition swi3 :: "'x cpu_scheme iface \<Rightarrow> 'x cpu_scheme stmt" where
  "swi3 io = block [clk 1, stack_machine_state io True, goto_vector io 0xfff2]"

definition cwai :: "'x cpu_scheme iface \<Rightarrow> 'x cpu_scheme stmt" where
  "cwai io = (\<lambda>s.
     if cwai_state s = CWAI_STATE_IDLE then block [
        bindE (imm_byte io) (\<lambda>v. assign (\<lambda>s. s\<lparr>EFI := EFI s AND INT8 v\<rparr>)),
        clk 1,
        stack_machine_state io True,
        assign (\<lambda>s. s\<lparr>cwai_state := CWAI_STATE_WAIT\<rparr>),
        \<lambda>s. change_pc (rPC s - 2) s] s
      else if cwai_state s = CWAI_STATE_WAIT then block [
        clk 1,
        \<lambda>s. change_pc (rPC s - 1) s] s
      else sim_error s)"

definition sync :: "'x cpu_scheme stmt" where
  "sync = block [clk 4, sim_error]"

definition orcc :: "'x cpu_scheme iface \<Rightarrow> 'x cpu_scheme stmt" where
  "orcc io = bindE (imm_byte io) (\<lambda>tmp. block [assign (\<lambda>s. set_cc (get_cc s OR tmp) s), clk 3])"

definition andcc :: "'x cpu_scheme iface \<Rightarrow> 'x cpu_scheme stmt" where
  "andcc io = bindE (imm_byte io) (\<lambda>tmp. block [assign (\<lambda>s. set_cc (get_cc s AND tmp) s), clk 3])"

section \<open>Interrupt request lines\<close>

text \<open>The C shift \<^verbatim>\<open>1 << source\<close> of a signed int is defined for sources below 31.\<close>

definition request_irq :: "'x cpu_scheme iface \<Rightarrow> nat \<Rightarrow> 'x cpu_scheme stmt" where
  "request_irq io source = (\<lambda>s.
     if source < 31 then block [
        assign (\<lambda>s. s\<lparr>irqs_pending := irqs_pending s OR push_bit source 1\<rparr>),
        \<lambda>s. doif (EFI s AND I_FLAG = 0) (irq io) s] s
      else UB)"

definition release_irq :: "nat \<Rightarrow> 'x cpu_scheme stmt" where
  "release_irq source s =
     (if source < 31 then Ret () (s\<lparr>irqs_pending := irqs_pending s AND NOT (push_bit source 1)\<rparr>) else UB)"

definition request_firq :: "'x cpu_scheme iface \<Rightarrow> nat \<Rightarrow> 'x cpu_scheme stmt" where
  "request_firq io source = (\<lambda>s.
     if source < 31 then block [
        assign (\<lambda>s. s\<lparr>firqs_pending := firqs_pending s OR push_bit source 1\<rparr>),
        \<lambda>s. doif (EFI s AND F_FLAG = 0) (firq io) s] s
      else UB)"

definition release_firq :: "nat \<Rightarrow> 'x cpu_scheme stmt" where
  "release_firq source s =
     (if source < 31 then Ret () (s\<lparr>firqs_pending := firqs_pending s AND NOT (push_bit source 1)\<rparr>) else UB)"

definition cc_modified :: "'x cpu_scheme iface \<Rightarrow> 'x cpu_scheme stmt" where
  "cc_modified io = block [
     \<lambda>s. if firqs_pending s \<noteq> 0 \<and> EFI s AND F_FLAG = 0 then firq io s
         else if irqs_pending s \<noteq> 0 \<and> EFI s AND I_FLAG = 0 then irq io s
         else Ret () s,
     assign (\<lambda>s. s\<lparr>cc_changed := False\<rparr>)]"

section \<open>Branches\<close>

definition bra :: "'x cpu_scheme iface \<Rightarrow> 'x cpu_scheme stmt" where
  "bra io = bindE (imm_byte io) (\<lambda>v s. change_pc (rPC s + INT8 v) s)"

definition branch :: "'x cpu_scheme iface \<Rightarrow> ('x cpu_scheme \<Rightarrow> bool) \<Rightarrow> 'x cpu_scheme stmt" where
  "branch io cond = block [
     \<lambda>s. if cond s then bra io s else change_pc (rPC s + 1) s,
     clk 3]"

definition long_bra :: "'x cpu_scheme iface \<Rightarrow> 'x cpu_scheme stmt" where
  "long_bra io = bindE (imm_word io) (\<lambda>v s. change_pc (rPC s + INT16 v) s)"

definition long_branch :: "'x cpu_scheme iface \<Rightarrow> ('x cpu_scheme \<Rightarrow> bool) \<Rightarrow> 'x cpu_scheme stmt" where
  "long_branch io cond = (\<lambda>s.
     if cond s then block [long_bra io, clk 6] s
      else block [\<lambda>s. change_pc (rPC s + 2) s, clk 5] s)"

definition long_bsr :: "'x cpu_scheme iface \<Rightarrow> 'x cpu_scheme stmt" where
  "long_bsr io = block [
     bindE (imm_word io) (\<lambda>v. set_ea (\<lambda>s. rPC s + INT16 v)),
     push_s16 io (\<lambda>s. rPC s AND 0xffff),
     clk 9,
     \<lambda>s. change_pc (ea s) s]"

definition bsr :: "'x cpu_scheme iface \<Rightarrow> 'x cpu_scheme stmt" where
  "bsr io = block [
     bindE (imm_byte io) (\<lambda>v. set_ea (\<lambda>s. rPC s + INT8 v)),
     push_s16 io (\<lambda>s. rPC s AND 0xffff),
     clk 7,
     \<lambda>s. change_pc (ea s) s]"

end
