(* ===== verification/Cpu_Exec.thy ===== *)
theory Cpu_Exec
  imports Cpu_Stack
begin

text \<open>
  The instruction decoder and main loop of \<^verbatim>\<open>6809.c\<close>. The \<^verbatim>\<open>switch\<close> of
  \<^verbatim>\<open>cpu_execute\<close> is a table from opcodes to statements, in groups of sixteen opcodes, with
  the two prefix pages as tables of their own; the cases of the H6309 build are left out.
  The main loop takes fuel, one unit per instruction.
\<close>

section \<open>Operand forms of the cases\<close>

text \<open>\<^verbatim>\<open>RDMEM (ea)\<close> and \<^verbatim>\<open>RDMEM16 (ea)\<close>.\<close>

definition mem8 :: "'x cpu_scheme iface \<Rightarrow> ('x cpu_scheme, u32) expr" where
  "mem8 io = (\<lambda>s. RDMEM io (ea s) s)"

definition mem16 :: "'x cpu_scheme iface \<Rightarrow> ('x cpu_scheme, u32) expr" where
  "mem16 io = (\<lambda>s. RDMEM16 io (ea s) s)"

text \<open>\<^verbatim>\<open>WRMEM (ea, f (RDMEM (ea)))\<close>, \<^verbatim>\<open>A = f (A)\<close>, \<^verbatim>\<open>A = f (A, e)\<close>, \<^verbatim>\<open>A = ld (e)\<close>,
  \<^verbatim>\<open>cmp (A, e)\<close>, and the same for B.\<close>

definition rmw :: "'x cpu_scheme iface \<Rightarrow> (u32 \<Rightarrow> 'x cpu_scheme \<Rightarrow> u32 \<times> 'x cpu_scheme) \<Rightarrow> 'x cpu_scheme stmt" where
  "rmw io f = bindE (mem8 io) (\<lambda>v s. let (r, t) = f v s in WRMEM io (ea t) r t)"

definition op1_A :: "(u32 \<Rightarrow> 'x cpu_scheme \<Rightarrow> u32 \<times> 'x cpu_scheme) \<Rightarrow> 'x cpu_scheme stmt" where
  "op1_A f s = (let (r, t) = f (rA s) s in Ret () (t\<lparr>rA := r\<rparr>))"

definition op1_B :: "(u32 \<Rightarrow> 'x cpu_scheme \<Rightarrow> u32 \<times> 'x cpu_scheme) \<Rightarrow> 'x cpu_scheme stmt" where
  "op1_B f s = (let (r, t) = f (rB s) s in Ret () (t\<lparr>rB := r\<rparr>))"

definition op2_A :: "(u32 \<Rightarrow> u32 \<Rightarrow> 'x cpu_scheme \<Rightarrow> u32 \<times> 'x cpu_scheme) \<Rightarrow> ('x cpu_scheme, u32) expr \<Rightarrow> 'x cpu_scheme stmt" where
  "op2_A f e = bindE e (\<lambda>v. op1_A (\<lambda>a. f a v))"

definition op2_B :: "(u32 \<Rightarrow> u32 \<Rightarrow> 'x cpu_scheme \<Rightarrow> u32 \<times> 'x cpu_scheme) \<Rightarrow> ('x cpu_scheme, u32) expr \<Rightarrow> 'x cpu_scheme stmt" where
  "op2_B f e = bindE e (\<lambda>v. op1_B (\<lambda>a. f a v))"

definition ld_A :: "('x cpu_scheme, u32) expr \<Rightarrow> 'x cpu_scheme stmt" where
  "ld_A e = bindE e (\<lambda>v. op1_A (\<lambda>_. ld v))"

definition ld_B :: "('x cpu_scheme, u32) expr \<Rightarrow> 'x cpu_scheme stmt" where
  "ld_B e = bindE e (\<lambda>v. op1_B (\<lambda>_. ld v))"

definition cmp_A :: "(u32 \<Rightarrow> u32 \<Rightarrow> 'x cpu_scheme \<Rightarrow> 'x cpu_scheme) \<Rightarrow> ('x cpu_scheme, u32) expr \<Rightarrow> 'x cpu_scheme stmt" where
  "cmp_A f e = bindE e (\<lambda>v. assign (\<lambda>s. f (rA s) v s))"

definition cmp_B :: "(u32 \<Rightarrow> u32 \<Rightarrow> 'x cpu_scheme \<Rightarrow> 'x cpu_scheme) \<Rightarrow> ('x cpu_scheme, u32) expr \<Rightarrow> 'x cpu_scheme stmt" where
  "cmp_B f e = bindE e (\<lambda>v. assign (\<lambda>s. f (rB s) v s))"

definition tst_mem :: "'x cpu_scheme iface \<Rightarrow> 'x cpu_scheme stmt" where
  "tst_mem io = bindE (mem8 io) (\<lambda>v. assign (tst v))"

text \<open>\<^verbatim>\<open>addd (e)\<close>, \<^verbatim>\<open>subd (e)\<close>, \<^verbatim>\<open>ldd (e)\<close>; \<^verbatim>\<open>cmp16 (R, e)\<close>; \<^verbatim>\<open>R = ld16 (e)\<close>.\<close>

definition op_D :: "(u32 \<Rightarrow> 'x cpu_scheme \<Rightarrow> 'x cpu_scheme) \<Rightarrow> ('x cpu_scheme, u32) expr \<Rightarrow> 'x cpu_scheme stmt" where
  "op_D f e = bindE e (\<lambda>v. assign (f v))"

definition cmp_16 :: "('x cpu_scheme \<Rightarrow> u32) \<Rightarrow> ('x cpu_scheme, u32) expr \<Rightarrow> 'x cpu_scheme stmt" where
  "cmp_16 r e = bindE e (\<lambda>v. assign (\<lambda>s. cmp16 (r s) v s))"

definition ld_16 :: "(u32 \<Rightarrow> 'x cpu_scheme \<Rightarrow> 'x cpu_scheme) \<Rightarrow> ('x cpu_scheme, u32) expr \<Rightarrow> 'x cpu_scheme stmt" where
  "ld_16 upd e = bindE e (\<lambda>v s. let (r, t) = ld16 v s in Ret () (upd r t))"

section \<open>Prefix pages\<close>

definition page2_20_table :: "'x cpu_scheme iface \<Rightarrow> (u32 \<times> 'x cpu_scheme stmt) list" where
  "page2_20_table io = [
     (0x21, block [clk 5, assign (\<lambda>s. s\<lparr>rPC := rPC s + 2\<rparr>)]),
     (0x22, long_branch io cond_HI),
     (0x23, long_branch io cond_LS),
     (0x24, long_branch io cond_HS),
     (0x25, long_branch io cond_LO),
     (0x26, long_branch io cond_NE),
     (0x27, long_branch io cond_EQ),
     (0x28, long_branch io cond_VC),
     (0x29, long_branch io cond_VS),
     (0x2a, long_branch io cond_PL),
     (0x2b, long_branch io cond_MI),
     (0x2c, long_branch io cond_GE),
     (0x2d, long_branch io cond_LT),
     (0x2e, long_branch io cond_GT),
     (0x2f, long_branch io cond_LE),
     (0x3f, swi2 io)]"

definition page2_80_table :: "'x cpu_scheme iface \<Rightarrow> (u32 \<times> 'x cpu_scheme stmt) list" where
  "page2_80_table io = [
     (0x83, block [clk 5, cmp_16 get_d (imm_word io)]),
     (0x8c, block [clk 5, cmp_16 rY (imm_word io)]),
     (0x8e, block [clk 4, ld_16 (\<lambda>v s. s\<lparr>rY := v\<rparr>) (imm_word io)]),
     (0x93, block [direct io, clk 5, cmp_16 get_d (mem16 io), clk 1]),
     (0x9c, block [direct io, clk 5, cmp_16 rY (mem16 io), clk 1]),
     (0x9e, block [direct io, clk 5, ld_16 (\<lambda>v s. s\<lparr>rY := v\<rparr>) (mem16 io)]),
     (0x9f, block [direct io, clk 5, \<lambda>s. st16 io (rY s) s]),
     (0xa3, block [clk 1, indexed io, cmp_16 get_d (mem16 io), clk 1]),
     (0xac, block [clk 1, indexed io, cmp_16 rY (mem16 io), clk 1]),
     (0xae, block [clk 1, indexed io, ld_16 (\<lambda>v s. s\<lparr>rY := v\<rparr>) (mem16 io)]),
     (0xaf, block [clk 1, indexed io, \<lambda>s. st16 io (rY s) s]),
     (0xb3, block [extended io, clk 6, cmp_16 get_d (mem16 io), clk 1]),
     (0xbc, block [extended io, clk 6, cmp_16 rY (mem16 io), clk 1]),
     (0xbe, block [extended io, clk 6, ld_16 (\<lambda>v s. s\<lparr>rY := v\<rparr>) (mem16 io)]),
     (0xbf, block [extended io, clk 6, \<lambda>s. st16 io (rY s) s]),
     (0xce, block [clk 4, ld_16 (\<lambda>v s. s\<lparr>rS := v\<rparr>) (imm_word io)]),
     (0xde, block [direct io, clk 5, ld_16 (\<lambda>v s. s\<lparr>rS := v\<rparr>) (mem16 io)]),
     (0xdf, block [direct io, clk 5, \<lambda>s. st16 io (rS s) s]),
     (0xee, block [clk 1, indexed io, ld_16 (\<lambda>v s. s\<lparr>rS := v\<rparr>) (mem16 io)]),
     (0xef, block [clk 1, indexed io, \<lambda>s. st16 io (rS s) s]),
     (0xfe, block [extended io, clk 6, ld_16 (\<lambda>v s. s\<lparr>rS := v\<rparr>) (mem16 io)]),
     (0xff, block [extended io, clk 6, \<lambda>s. st16 io (rS s) s])]"

definition page3_table :: "'x cpu_scheme iface \<Rightarrow> (u32 \<times> 'x cpu_scheme stmt) list" where
  "page3_table io = [
     (0x3f, swi3 io),
     (0x83, block [clk 5, cmp_16 rU (imm_word io)]),
     (0x8c, block [clk 5, cmp_16 rS (imm_word io)]),
     (0x93, block [direct io, clk 5, cmp_16 rU (mem16 io), clk 1]),
     (0x9c, block [direct io, clk 5, cmp_16 rS (mem16 io), clk 1]),
     (0xa3, block [clk 1, indexed io, cmp_16 rU (mem16 io), clk 1]),
     (0xac, block [clk 1, indexed io, cmp_16 rS (mem16 io), clk 1]),
     (0xb3, block [extended io, clk 6, cmp_16 rU (mem16 io), clk 1]),
     (0xbc, block [extended io, clk 6, cmp_16 rS (mem16 io), clk 1])]"

definition page2 :: "'x cpu_scheme iface \<Rightarrow> 'x cpu_scheme stmt" where
  "page2 io = bindE (imm_byte io) (switch (page2_20_table io @ page2_80_table io) sim_error)"

definition page3 :: "'x cpu_scheme iface \<Rightarrow> 'x cpu_scheme stmt" where
  "page3 io = bindE (imm_byte io) (switch (page3_table io) sim_error)"

section \<open>One-byte opcodes\<close>

definition op_00_table :: "'x cpu_scheme iface \<Rightarrow> (u32 \<times> 'x cpu_scheme stmt) list" where
  "op_00_table io = [
     (0x00, block [direct io, clk 4, rmw io neg]),
     (0x03, block [direct io, clk 4, rmw io com]),
     (0x04, block [direct io, clk 4, rmw io lsr]),
     (0x06, block [direct io, clk 4, rmw io ror]),
     (0x07, block [direct io, clk 4, rmw io asr]),
     (0x08, block [direct io, clk 4, rmw io asl]),
     (0x09, block [direct io, clk 4, rmw io rol]),
     (0x0a, block [direct io, clk 4, rmw io dec]),
     (0x0c, block [direct io, clk 4, rmw io inc]),
     (0x0d, block [direct io, clk 4, tst_mem io]),
     (0x0e, block [direct io, clk 3, assign (\<lambda>s. s\<lparr>rPC := ea s\<rparr>)]),
     (0x0f, block [direct io, clk 4, rmw io clr])]"

definition op_10_table :: "'x cpu_scheme iface \<Rightarrow> (u32 \<times> 'x cpu_scheme stmt) list" where
  "op_10_table io = [
     (0x12, nop),
     (0x13, sync),
     (0x16, block [long_bra io, clk 5]),
     (0x17, long_bsr io),
     (0x19, daa),
     (0x1a, orcc io),
     (0x1c, andcc io),
     (0x1d, sex),
     (0x1e, exg io),
     (0x1f, tfr io)]"

definition op_20_table :: "'x cpu_scheme iface \<Rightarrow> (u32 \<times> 'x cpu_scheme stmt) list" where
  "op_20_table io = [
     (0x20, block [bra io, clk 3]),
     (0x21, block [assign (\<lambda>s. s\<lparr>rPC := rPC s + 1\<rparr>), clk 3]),
     (0x22, branch io cond_HI),
     (0x23, branch io cond_LS),
     (0x24, branch io cond_HS),
     (0x25, branch io cond_LO),
     (0x26, branch io cond_NE),
     (0x27, branch io cond_EQ),
     (0x28, branch io cond_VC),
     (0x29, branch io cond_VS),
     (0x2a, branch io cond_PL),
     (0x2b, branch io cond_MI),
     (0x2c, branch io cond_GE),
     (0x2d, branch io cond_LT),
     (0x2e, branch io cond_GT),
     (0x2f, branch io cond_LE)]"

definition op_30_table :: "'x cpu_scheme iface \<Rightarrow> (u32 \<times> 'x cpu_scheme stmt) list" where
  "op_30_table io = [
     (0x30, block [indexed io, assign (\<lambda>s. s\<lparr>rX := ea s, fZ := ea s\<rparr>)]),
     (0x31, block [indexed io, assign (\<lambda>s. s\<lparr>rY := ea s, fZ := ea s\<rparr>)]),
     (0x32, block [indexed io, assign (\<lambda>s. s\<lparr>rS := ea s\<rparr>)]),
     (0x33, block [indexed io, assign (\<lambda>s. s\<lparr>rU := ea s\<rparr>)]),
     (0x34, pshs io),
     (0x35, puls io),
     (0x36, pshu io),
     (0x37, pulu io),
     (0x39, rts io),
     (0x3a, abx),
     (0x3b, rti io),
     (0x3c, cwai io),
     (0x3d, mul),
     (0x3f, swi io)]"

definition op_40_table :: "'x cpu_scheme iface \<Rightarrow> (u32 \<times> 'x cpu_scheme stmt) list" where
  "op_40_table io = [
     (0x40, op1_A neg),
     (0x43, op1_A com),
     (0x44, op1_A lsr),
     (0x46, op1_A ror),
     (0x47, op1_A asr),
     (0x48, op1_A asl),
     (0x49, op1_A rol),
     (0x4a, op1_A dec),
     (0x4c, op1_A inc),
     (0x4d, assign (\<lambda>s. tst (rA s) s)),
     (0x4f, op1_A clr)]"

definition op_50_table :: "'x cpu_scheme iface \<Rightarrow> (u32 \<times> 'x cpu_scheme stmt) list" where
  "op_50_table io = [
     (0x50, op1_B neg),
     (0x53, op1_B com),
     (0x54, op1_B lsr),
     (0x56, op1_B ror),
     (0x57, op1_B asr),
     (0x58, op1_B asl),
     (0x59, op1_B rol),
     (0x5a, op1_B dec),
     (0x5c, op1_B inc),
     (0x5d, assign (\<lambda>s. tst (rB s) s)),
     (0x5f, op1_B clr)]"

definition op_60_table :: "'x cpu_scheme iface \<Rightarrow> (u32 \<times> 'x cpu_scheme stmt) list" where
  "op_60_table io = [
     (0x60, block [indexed io, rmw io neg]),
     (0x63, block [indexed io, rmw io com]),
     (0x64, block [indexed io, rmw io lsr]),
     (0x66, block [indexed io, rmw io ror]),
     (0x67, block [indexed io, rmw io asr]),
     (0x68, block [indexed io, rmw io asl]),
     (0x69, block [indexed io, rmw io rol]),
     (0x6a, block [indexed io, rmw io dec]),
     (0x6c, block [indexed io, rmw io inc]),
     (0x6d, block [indexed io, tst_mem io]),
     (0x6e, block [indexed io, clk (- 1), assign (\<lambda>s. s\<lparr>rPC := ea s\<rparr>)]),
     (0x6f, block [indexed io, rmw io clr])]"

definition op_70_table :: "'x cpu_scheme iface \<Rightarrow> (u32 \<times> 'x cpu_scheme stmt) list" where
  "op_70_table io = [
     (0x70, block [extended io, clk 5, rmw io neg]),
     (0x73, block [extended io, clk 5, rmw io com]),
     (0x74, block [extended io, clk 5, rmw io lsr]),
     (0x76, block [extended io, clk 5, rmw io ror]),
     (0x77, block [extended io, clk 5, rmw io asr]),
     (0x78, block [extended io, clk 5, rmw io asl]),
     (0x79, block [extended io, clk 5, rmw io rol]),
     (0x7a, block [extended io, clk 5, rmw io dec]),
     (0x7c, block [extended io, clk 5, rmw io inc]),
     (0x7d, block [extended io, clk 5, tst_mem io]),
     (0x7e, block [extended io, clk 4, assign (\<lambda>s. s\<lparr>rPC := ea s\<rparr>)]),
     (0x7f, block [extended io, clk 5, rmw io clr])]"

definition op_80_table :: "'x cpu_scheme iface \<Rightarrow> (u32 \<times> 'x cpu_scheme stmt) list" where
  "op_80_table io = [
     (0x80, block [clk 2, op2_A sub8 (imm_byte io)]),
     (0x81, block [clk 2, cmp_A cmp (imm_byte io)]),
     (0x82, block [clk 2, op2_A sbc (imm_byte io)]),
     (0x83, block [clk 4, op_D subd (imm_word io)]),
     (0x84, block [clk 2, op2_A and8 (imm_byte io)]),
     (0x85, block [clk 2, cmp_A bit8 (imm_byte io)]),
     (0x86, block [clk 2, ld_A (imm_byte io)]),
     (0x88, block [clk 2, op2_A eor (imm_byte io)]),
     (0x89, block [clk 2, op2_A adc (imm_byte io)]),
     (0x8a, block [clk 2, op2_A or8 (imm_byte io)]),
     (0x8b, block [clk 2, op2_A add (imm_byte io)]),
     (0x8c, block [clk 4, cmp_16 rX (imm_word io)]),
     (0x8d, bsr io),
     (0x8e, block [clk 3, ld_16 (\<lambda>v s. s\<lparr>rX := v\<rparr>) (imm_word io)])]"

definition op_90_table :: "'x cpu_scheme iface \<Rightarrow> (u32 \<times> 'x cpu_scheme stmt) list" where
  "op_90_table io = [
     (0x90, block [direct io, clk 4, op2_A sub8 (mem8 io)]),
     (0x91, block [direct io, clk 4, cmp_A cmp (mem8 io)]),
     (0x92, block [direct io, clk 4, op2_A sbc (mem8 io)]),
     (0x93, block [direct io, clk 4, op_D subd (mem16 io), clk 1]),
     (0x94, block [direct io, clk 4, op2_A and8 (mem8 io)]),
     (0x95, block [direct io, clk 4, cmp_A bit8 (mem8 io)]),
     (0x96, block [direct io, clk 4, ld_A (mem8 io)]),
     (0x97, block [direct io, clk 4, \<lambda>s. st io (rA s) s]),
     (0x98, block [direct io, clk 4, op2_A eor (mem8 io)]),
     (0x99, block [direct io, clk 4, op2_A adc (mem8 io)]),
     (0x9a, block [direct io, clk 4, op2_A or8 (mem8 io)]),
     (0x9b, block [direct io, clk 4, op2_A add (mem8 io)]),
     (0x9c, block [direct io, clk 4, cmp_16 rX (mem16 io), clk 1]),
     (0x9d, block [direct io, clk 7, jsr io]),
     (0x9e, block [direct io, clk 4, ld_16 (\<lambda>v s. s\<lparr>rX := v\<rparr>) (mem16 io)]),
     (0x9f, block [direct io, clk 4, \<lambda>s. st16 io (rX s) s])]"

definition op_a0_table :: "'x cpu_scheme iface \<Rightarrow> (u32 \<times> 'x cpu_scheme stmt) list" where
  "op_a0_table io = [
     (0xa0, block [indexed io, op2_A sub8 (mem8 io)]),
     (0xa1, block [indexed io, cmp_A cmp (mem8 io)]),
     (0xa2, block [indexed io, op2_A sbc (mem8 io)]),
     (0xa3, block [indexed io, op_D subd (mem16 io), clk 1]),
     (0xa4, block [indexed io, op2_A and8 (mem8 io)]),
     (0xa5, block [indexed io, cmp_A bit8 (mem8 io)]),
     (0xa6, block [indexed io, ld_A (mem8 io)]),
     (0xa7, block [indexed io, \<lambda>s. st io (rA s) s]),
     (0xa8, block [indexed io, op2_A eor (mem8 io)]),
     (0xa9, block [indexed io, op2_A adc (mem8 io)]),
     (0xaa, block [indexed io, op2_A or8 (mem8 io)]),
     (0xab, block [indexed io, op2_A add (mem8 io)]),
     (0xac, block [indexed io, cmp_16 rX (mem16 io), clk 1]),
     (0xad, block [indexed io, clk 3, jsr io]),
     (0xae, block [indexed io, ld_16 (\<lambda>v s. s\<lparr>rX := v\<rparr>) (mem16 io)]),
     (0xaf, block [indexed io, \<lambda>s. st16 io (rX s) s])]"

definition op_b0_table :: "'x cpu_scheme iface \<Rightarrow> (u32 \<times> 'x cpu_scheme stmt) list" where
  "op_b0_table io = [
     (0xb0, block [extended io, clk 5, op2_A sub8 (mem8 io)]),
     (0xb1, block [extended io, clk 5, cmp_A cmp (mem8 io)]),
     (0xb2, block [extended io, clk 5, op2_A sbc (mem8 io)]),
     (0xb3, block [extended io, clk 5, op_D subd (mem16 io), clk 1]),
     (0xb4, block [extended io, clk 5, op2_A and8 (mem8 io)]),
     (0xb5, block [extended io, clk 5, cmp_A bit8 (mem8 io)]),
     (0xb6, block [extended io, clk 5, ld_A (mem8 io)]),
     (0xb7, block [extended io, clk 5, \<lambda>s. st io (rA s) s]),
     (0xb8, block [extended io, clk 5, op2_A eor (mem8 io)]),
     (0xb9, block [extended io, clk 5, op2_A adc (mem8 io)]),
     (0xba, block [extended io, clk 5, op2_A or8 (mem8 io)]),
     (0xbb, block [extended io, clk 5, op2_A add (mem8 io)]),
     (0xbc, block [extended io, clk 5, cmp_16 rX (mem16 io), clk 1]),
     (0xbd, block [extended io, clk 8, jsr io]),
     (0xbe, block [extended io, clk 5, ld_16 (\<lambda>v s. s\<lparr>rX := v\<rparr>) (mem16 io)]),
     (0xbf, block [extended io, clk 5, \<lambda>s. st16 io (rX s) s])]"

definition op_c0_table :: "'x cpu_scheme iface \<Rightarrow> (u32 \<times> 'x cpu_scheme stmt) list" where
  "op_c0_table io = [
     (0xc0, block [clk 2, op2_B sub8 (imm_byte io)]),
     (0xc1, block [clk 2, cmp_B cmp (imm_byte io)]),
     (0xc2, block [clk 2, op2_B sbc (imm_byte io)]),
     (0xc3, block [clk 4, op_D addd (imm_word io)]),
     (0xc4, block [clk 2, op2_B and8 (imm_byte io)]),
     (0xc5, block [clk 2, cmp_B bit8 (imm_byte io)]),
     (0xc6, block [clk 2, ld_B (imm_byte io)]),
     (0xc8, block [clk 2, op2_B eor (imm_byte io)]),
     (0xc9, block [clk 2, op2_B adc (imm_byte io)]),
     (0xca, block [clk 2, op2_B or8 (imm_byte io)]),
     (0xcb, block [clk 2, op2_B add (imm_byte io)]),
     (0xcc, block [clk 3, op_D ldd (imm_word io)]),
     (0xce, block [clk 3, ld_16 (\<lambda>v s. s\<lparr>rU := v\<rparr>) (imm_word io)])]"

definition op_d0_table :: "'x cpu_scheme iface \<Rightarrow> (u32 \<times> 'x cpu_scheme stmt) list" where
  "op_d0_table io = [
     (0xd0, block [direct io, clk 4, op2_B sub8 (mem8 io)]),
     (0xd1, block [direct io, clk 4, cmp_B cmp (mem8 io)]),
     (0xd2, block [direct io, clk 4, op2_B sbc (mem8 io)]),
     (0xd3, block [direct io, clk 4, op_D addd (mem16 io), clk 1]),
     (0xd4, block [direct io, clk 4, op2_B and8 (mem8 io)]),
     (0xd5, block [direct io, clk 4, cmp_B bit8 (mem8 io)]),
     (0xd6, block [direct io, clk 4, ld_B (mem8 io)]),
     (0xd7, block [direct io, clk 4, \<lambda>s. st io (rB s) s]),
     (0xd8, block [direct io, clk 4, op2_B eor (mem8 io)]),
     (0xd9, block [direct io, clk 4, op2_B adc (mem8 io)]),
     (0xda, block [direct io, clk 4, op2_B or8 (mem8 io)]),
     (0xdb, block [direct io, clk 4, op2_B add (mem8 io)]),
     (0xdc, block [direct io, clk 4, op_D ldd (mem16 io)]),
     (0xdd, block [direct io, clk 4, std io]),
     (0xde, block [direct io, clk 4, ld_16 (\<lambda>v s. s\<lparr>rU := v\<rparr>) (mem16 io)]),
     (0xdf, block [direct io, clk 4, \<lambda>s. st16 io (rU s) s])]"

definition op_e0_table :: "'x cpu_scheme iface \<Rightarrow> (u32 \<times> 'x cpu_scheme stmt) list" where
  "op_e0_table io = [
     (0xe0, block [indexed io, op2_B sub8 (mem8 io)]),
     (0xe1, block [indexed io, cmp_B cmp (mem8 io)]),
     (0xe2, block [indexed io, op2_B sbc (mem8 io)]),
     (0xe3, block [indexed io, op_D addd (mem16 io), clk 1]),
     (0xe4, block [indexed io, op2_B and8 (mem8 io)]),
     (0xe5, block [indexed io, cmp_B bit8 (mem8 io)]),
     (0xe6, block [indexed io, ld_B (mem8 io)]),
     (0xe7, block [indexed io, \<lambda>s. st io (rB s) s]),
     (0xe8, block [indexed io, op2_B eor (mem8 io)]),
     (0xe9, block [indexed io, op2_B adc (mem8 io)]),
     (0xea, block [indexed io, op2_B or8 (mem8 io)]),
     (0xeb, block [indexed io, op2_B add (mem8 io)]),
     (0xec, block [indexed io, op_D ldd (mem16 io)]),
     (0xed, block [indexed io, std io]),
     (0xee, block [indexed io, ld_16 (\<lambda>v s. s\<lparr>rU := v\<rparr>) (mem16 io)]),
     (0xef, block [indexed io, \<lambda>s. st16 io (rU s) s])]"

definition op_f0_table :: "'x cpu_scheme iface \<Rightarrow> (u32 \<times> 'x cpu_scheme stmt) list" where
  "op_f0_table io = [
     (0xf0, block [extended io, clk 5, op2_B sub8 (mem8 io)]),
     (0xf1, block [extended io, clk 5, cmp_B cmp (mem8 io)]),
     (0xf2, block [extended io, clk 5, op2_B sbc (mem8 io)]),
     (0xf3, block [extended io, clk 5, op_D addd (mem16 io), clk 1]),
     (0xf4, block [extended io, clk 5, op2_B and8 (mem8 io)]),
     (0xf5, block [extended io, clk 5, cmp_B bit8 (mem8 io)]),
     (0xf6, block [extended io, clk 5, ld_B (mem8 io)]),
     (0xf7, block [extended io, clk 5, \<lambda>s. st io (rB s) s]),
     (0xf8, block [extended io, clk 5, op2_B eor (mem8 io)]),
     (0xf9, block [extended io, clk 5, op2_B adc (mem8 io)]),
     (0xfa, block [extended io, clk 5, op2_B or8 (mem8 io)]),
     (0xfb, block [extended io, clk 5, op2_B add (mem8 io)]),
     (0xfc, block [extended io, clk 5, op_D ldd (mem16 io)]),
     (0xfd, block [extended io, clk 5, std io]),
     (0xfe, block [extended io, clk 5, ld_16 (\<lambda>v s. s\<lparr>rU := v\<rparr>) (mem16 io)]),
     (0xff, block [extended io, clk 5, \<lambda>s. st16 io (rU s) s])]"

definition opcode_table :: "'x cpu_scheme iface \<Rightarrow> (u32 \<times> 'x cpu_scheme stmt) list" where
  "opcode_table io =
     op_00_table io @ [(0x10, page2 io), (0x11, page3 io)] @ op_10_table io @ op_20_table io
     @ op_30_table io @ op_40_table io @ op_50_table io @ op_60_table io @ op_70_table io
     @ op_80_table io @ op_90_table io @ op_a0_table io @ op_b0_table io @ op_c0_table io
     @ op_d0_table io @ op_e0_table io @ op_f0_table io"

definition invalid_opcode :: "'x cpu_scheme stmt" where
  "invalid_opcode = block [clk 2, sim_error, assign (\<lambda>s. s\<lparr>rPC := iPC s\<rparr>)]"

section \<open>The main loop\<close>

text \<open>One instruction: fetch, decode and execute, and the pending interrupts after a change
  of the condition codes.\<close>

definition exec_insn :: "'x cpu_scheme iface \<Rightarrow> 'x cpu_scheme stmt" where
  "exec_insn io = block [
     assign (\<lambda>s. s\<lparr>iPC := rPC s\<rparr>),
     bindE (imm_byte io) (switch (opcode_table io) invalid_opcode),
     \<lambda>s. doif (cc_changed s) (cc_modified io) s]"

text \<open>One turn of the loop; the value says whether the loop goes on.\<close>

definition cpu_turn :: "'x cpu_scheme iface \<Rightarrow> ('x cpu_scheme, bool) expr" where
  "cpu_turn io =
     bindE (insn_hook io) (\<lambda>_.
     bindE (check_break io) (\<lambda>brk.
     bindE (doif brk (assign (\<lambda>s. s\<lparr>monitor_on := True\<rparr>))) (\<lambda>_.
     bindE (\<lambda>s. if monitor_on s then monitor6809 io s else Ret 0 s) (\<lambda>quit.
     if quit \<noteq> 0 then Ret False
     else bindE (exec_insn io) (\<lambda>_ s. Ret (cpu_clk s > 0) s)))))"

primrec cpu_loop :: "nat \<Rightarrow> 'x cpu_scheme iface \<Rightarrow> 'x cpu_scheme stmt" where
  "cpu_loop 0 io s = NoFuel"
| "cpu_loop (Suc n) io s = bindR (cpu_turn io s) (\<lambda>again t. if again then cpu_loop n io t else Ret () t)"

definition cpu_execute :: "nat \<Rightarrow> 'x cpu_scheme iface \<Rightarrow> int \<Rightarrow> ('x cpu_scheme, int) expr" where
  "cpu_execute fuel io cycles s =
     bindR (cpu_loop fuel io (s\<lparr>cpu_period := cycles, cpu_clk := cycles\<rparr>)) (\<lambda>_ t.
       let p = cpu_period t - cpu_clk t in Ret p (t\<lparr>cpu_period := p, cpu_clk := p\<rparr>))"

definition cpu_reset :: "'x cpu_scheme iface \<Rightarrow> 'x cpu_scheme stmt" where
  "cpu_reset io = block [
     assign (\<lambda>s. s\<lparr>rX := 0, rY := 0, rS := 0, rU := 0, rA := 0, rB := 0, rDP := 0,
       fH := 0, fN := 0, fOV := 0, fC := 0, fZ := 1, EFI := F_FLAG OR I_FLAG\<rparr>),
     goto_vector io 0xfffe,
     cpu_is_running io]"

section \<open>The decoder\<close>

lemmas opcode_tables = op_00_table_def op_10_table_def op_20_table_def op_30_table_def op_40_table_def op_50_table_def
  op_60_table_def op_70_table_def op_80_table_def op_90_table_def op_a0_table_def op_b0_table_def op_c0_table_def
  op_d0_table_def op_e0_table_def op_f0_table_def

text \<open>The opcodes the switch has no case for.\<close>

definition undefined_opcodes :: "nat list" where
  "undefined_opcodes = [0x01, 0x02, 0x05, 0x0b, 0x14, 0x15, 0x18, 0x1b, 0x38, 0x3e, 0x41, 0x42, 0x45, 0x4b, 0x4e,
     0x51, 0x52, 0x55, 0x5b, 0x5e, 0x61, 0x62, 0x65, 0x6b, 0x71, 0x72, 0x75, 0x7b, 0x87, 0x8f, 0xc7, 0xcd, 0xcf]"

lemma opcode_keys: "map (\<lambda>p. unat (fst p)) (opcode_table io) = filter (\<lambda>n. n \<notin> set undefined_opcodes) [0..<256]"
  by (simp add: opcode_table_def opcode_tables undefined_opcodes_def) code_simp

end
