(* ===== verification/Serial.thy ===== *)
theory Serial
  imports Prelude
begin

text \<open>
  The serial port of \<^verbatim>\<open>serial.c\<close>: its state, the receive ring buffer that the host side fills
  (\<^verbatim>\<open>serial_queue_push\<close>, \<^verbatim>\<open>serial_inject_bytes\<close>) and the processor drains
  (\<^verbatim>\<open>serial_queue_pop\<close>), the status register and the reset. The locale \<open>fifo\<close> is the
  contract of a bounded queue; the ring buffer is shown to refine a list.
\<close>

section \<open>Port state\<close>

record serial_port =
  ser_ctrl :: u32
  ser_status :: u32
  fin :: int
  fout :: int
  rx_rd :: nat
  rx_wr :: nat
  rx_count :: nat
  rx_buf :: "u8 list"

definition RX_SIZE :: nat where "RX_SIZE = 4096"
definition SER_DATA :: nat where "SER_DATA = 0"
definition SER_CTL_STATUS :: nat where "SER_CTL_STATUS = 1"
definition SER_STAT_READOK :: u32 where "SER_STAT_READOK = 1"
definition SER_STAT_WRITEOK :: u32 where "SER_STAT_WRITEOK = 2"

section \<open>The receive queue\<close>

definition serial_queue_push :: "serial_port \<Rightarrow> u8 \<Rightarrow> serial_port option" where
  "serial_queue_push port val =
     (if rx_count port \<ge> RX_SIZE then None
      else Some (port\<lparr>rx_buf := (rx_buf port)[rx_wr port := val],
                      rx_wr := (rx_wr port + 1) mod RX_SIZE,
                      rx_count := rx_count port + 1\<rparr>))"

definition serial_queue_pop :: "serial_port \<Rightarrow> (u8 \<times> serial_port) option" where
  "serial_queue_pop port =
     (if rx_count port = 0 then None
      else Some (rx_buf port ! rx_rd port,
                 port\<lparr>rx_rd := (rx_rd port + 1) mod RX_SIZE, rx_count := rx_count port - 1\<rparr>))"

text \<open>\<^verbatim>\<open>serial_inject_bytes\<close>: pushes until a byte is refused; the result says whether all were
  taken, and the port keeps what was pushed before the refusal.\<close>

fun serial_inject_bytes :: "serial_port \<Rightarrow> u8 list \<Rightarrow> bool \<times> serial_port" where
  "serial_inject_bytes port [] = (True, port)"
| "serial_inject_bytes port (v # vs) =
     (case serial_queue_push port v of None \<Rightarrow> (False, port) | Some port' \<Rightarrow> serial_inject_bytes port' vs)"

definition serial_get_rx_pending :: "serial_port \<Rightarrow> nat" where
  "serial_get_rx_pending port = rx_count port"

section \<open>Status and reset\<close>

text \<open>The arguments are what \<^verbatim>\<open>select\<close> reports for the input and the output descriptor.\<close>

definition serial_update :: "bool \<Rightarrow> bool \<Rightarrow> serial_port \<Rightarrow> serial_port" where
  "serial_update in_ready out_ready port =
     (let st = (if rx_count port > 0 \<or> in_ready then ser_status port OR SER_STAT_READOK
                else ser_status port AND NOT SER_STAT_READOK)
      in port\<lparr>ser_status := (if out_ready then st OR SER_STAT_WRITEOK else st AND NOT SER_STAT_WRITEOK)\<rparr>)"

definition serial_reset :: "serial_port \<Rightarrow> serial_port" where
  "serial_reset port = port\<lparr>ser_ctrl := 0, ser_status := 0, rx_rd := 0, rx_wr := 0, rx_count := 0\<rparr>"

section \<open>The contract of a bounded queue\<close>

locale fifo =
  fixes push :: "'q \<Rightarrow> 'a \<Rightarrow> 'q option" and pop :: "'q \<Rightarrow> ('a \<times> 'q) option"
    and good :: "'q \<Rightarrow> bool" and items :: "'q \<Rightarrow> 'a list" and cap :: nat
  assumes push_full: "good q \<Longrightarrow> length (items q) = cap \<Longrightarrow> push q x = None"
    and push_ok: "good q \<Longrightarrow> length (items q) < cap \<Longrightarrow>
      \<exists>q'. push q x = Some q' \<and> good q' \<and> items q' = items q @ [x]"
    and pop_empty: "good q \<Longrightarrow> items q = [] \<Longrightarrow> pop q = None"
    and pop_ok: "good q \<Longrightarrow> items q = x # xs \<Longrightarrow> \<exists>q'. pop q = Some (x, q') \<and> good q' \<and> items q' = xs"
begin

fun pushes :: "'q \<Rightarrow> 'a list \<Rightarrow> bool \<times> 'q" where
  "pushes q [] = (True, q)"
| "pushes q (v # vs) = (case push q v of None \<Rightarrow> (False, q) | Some q' \<Rightarrow> pushes q' vs)"

fun pops :: "nat \<Rightarrow> 'q \<Rightarrow> 'a list \<times> 'q" where
  "pops 0 q = ([], q)"
| "pops (Suc n) q = (case pop q of None \<Rightarrow> ([], q)
     | Some (x, q') \<Rightarrow> (let (xs, q'') = pops n q' in (x # xs, q'')))"

lemma pushes_items:
  assumes "good q" "length (items q) \<le> cap"
  shows "\<exists>q'. pushes q vs = (length (items q) + length vs \<le> cap, q') \<and> good q'
    \<and> items q' = take cap (items q @ vs)"
  using assms
proof (induction vs arbitrary: q)
  case (Cons v vs)
  show ?case
  proof (cases "length (items q) = cap")
    case True
    then show ?thesis using Cons.prems push_full by simp
  next
    case False
    with Cons.prems obtain q' where q': "push q v = Some q'" "good q'" "items q' = items q @ [v]"
      using push_ok [of q v] by auto
    then show ?thesis using Cons.IH [of q'] False Cons.prems(2) by auto
  qed
qed simp

lemma pops_items:
  assumes "good q" "n \<le> length (items q)"
  shows "\<exists>q'. pops n q = (take n (items q), q') \<and> good q' \<and> items q' = drop n (items q)"
  using assms
proof (induction n arbitrary: q)
  case (Suc n)
  then obtain x xs where "items q = x # xs" by (cases "items q") auto
  with Suc.prems obtain q' where "pop q = Some (x, q')" "good q'" "items q' = xs"
    using pop_ok by blast
  then show ?case using Suc.IH [of q'] Suc.prems(2) \<open>items q = x # xs\<close> by fastforce
qed simp

end

section \<open>The ring buffer is a bounded queue\<close>

definition serial_ok :: "serial_port \<Rightarrow> bool" where
  "serial_ok port \<longleftrightarrow> length (rx_buf port) = RX_SIZE \<and> rx_rd port < RX_SIZE
     \<and> rx_count port \<le> RX_SIZE \<and> rx_wr port = (rx_rd port + rx_count port) mod RX_SIZE"

definition serial_items :: "serial_port \<Rightarrow> u8 list" where
  "serial_items port = map (\<lambda>i. rx_buf port ! ((rx_rd port + i) mod RX_SIZE)) [0..<rx_count port]"

lemma ring_index_distinct:
  fixes i j r N :: nat
  assumes "i < j" "j < i + N"
  shows "(r + i) mod N \<noteq> (r + j) mod N"
proof
  assume "(r + i) mod N = (r + j) mod N"
  then have "N dvd (r + j) - (r + i)"
    using assms(1) mod_eq_dvd_iff_nat [of "r + i" "r + j" N] by simp
  then show False using assms by (auto dest: dvd_imp_le)
qed

lemma serial_push_items:
  assumes "serial_ok q" "rx_count q < RX_SIZE"
  shows "\<exists>q'. serial_queue_push q v = Some q' \<and> serial_ok q' \<and> serial_items q' = serial_items q @ [v]"
proof -
  let ?q = "q\<lparr>rx_buf := (rx_buf q)[rx_wr q := v], rx_wr := (rx_wr q + 1) mod RX_SIZE, rx_count := rx_count q + 1\<rparr>"
  have wr: "rx_wr q < RX_SIZE" using assms by (simp add: serial_ok_def RX_SIZE_def)
  have "rx_wr q \<noteq> (rx_rd q + i) mod RX_SIZE" if "i < rx_count q" for i
    using ring_index_distinct [of i "rx_count q" RX_SIZE "rx_rd q"] that assms by (simp add: serial_ok_def)
  moreover have "length (rx_buf q) = RX_SIZE" "(rx_rd q + rx_count q) mod RX_SIZE = rx_wr q"
    using assms(1) by (simp_all add: serial_ok_def)
  ultimately have "serial_items ?q = serial_items q @ [v]"
    using wr by (simp add: serial_items_def)
  moreover have "serial_ok ?q"
    using assms by (simp add: serial_ok_def mod_Suc_eq)
  ultimately show ?thesis using assms(2) by (simp add: serial_queue_push_def)
qed

lemma serial_pop_items:
  assumes "serial_ok q" "serial_items q = x # xs"
  shows "\<exists>q'. serial_queue_pop q = Some (x, q') \<and> serial_ok q' \<and> serial_items q' = xs"
proof -
  let ?q = "q\<lparr>rx_rd := (rx_rd q + 1) mod RX_SIZE, rx_count := rx_count q - 1\<rparr>"
  from assms(2) obtain n where n: "rx_count q = Suc n" by (cases "rx_count q") (auto simp: serial_items_def)
  have "serial_items q = rx_buf q ! (rx_rd q mod RX_SIZE) # map (\<lambda>i. rx_buf q ! ((rx_rd q + Suc i) mod RX_SIZE)) [0..<n]"
    unfolding serial_items_def n upt_rec [of 0 "Suc n"] by (simp add: map_Suc_upt [symmetric] del: upt_Suc)
  then have x: "x = rx_buf q ! rx_rd q" and xs: "xs = map (\<lambda>i. rx_buf q ! ((rx_rd q + Suc i) mod RX_SIZE)) [0..<n]"
    using assms by (simp_all add: serial_ok_def)
  have "serial_items ?q = xs"
    by (simp add: serial_items_def n xs mod_add_left_eq)
  moreover have "serial_ok ?q"
    using assms(1) n by (simp add: serial_ok_def mod_add_left_eq RX_SIZE_def)
  ultimately show ?thesis using n x by (simp add: serial_queue_pop_def)
qed

interpretation rx: fifo serial_queue_push serial_queue_pop serial_ok serial_items RX_SIZE
proof (unfold_locales, goal_cases)
  case (1 q x)
  then show ?case by (simp add: serial_queue_push_def serial_items_def)
next
  case (2 q x)
  then show ?case by (intro serial_push_items) (simp_all add: serial_items_def)
next
  case (3 q)
  then show ?case by (simp add: serial_queue_pop_def serial_items_def)
next
  case (4 q x xs)
  then show ?case by (rule serial_pop_items)
qed

lemma inject_pushes: "serial_inject_bytes port vs = rx.pushes port vs"
  by (induction port vs rule: serial_inject_bytes.induct) (simp_all split: option.split)

section \<open>Properties\<close>

fun serial_pops :: "nat \<Rightarrow> serial_port \<Rightarrow> u8 list \<times> serial_port" where
  "serial_pops 0 port = ([], port)"
| "serial_pops (Suc n) port =
     (case serial_queue_pop port of None \<Rightarrow> ([], port)
      | Some (v, port') \<Rightarrow> (let (vs, port'') = serial_pops n port' in (v # vs, port'')))"

lemma serial_pops_rx: "serial_pops n port = rx.pops n port"
  by (induction n port rule: serial_pops.induct) (simp_all split: option.split)

text \<open>(C16) The receive ring refines a bounded queue: bytes injected by the host join the queue in order until it
  holds 4096, the result says whether all were taken, and reading gives the queue back in order, whatever the
  positions of the read and write indices.\<close>

theorem serial_ring_fifo:
  assumes "serial_ok port"
  shows "\<exists>port'. serial_inject_bytes port vs = (rx_count port + length vs \<le> RX_SIZE, port') \<and> serial_ok port'
    \<and> serial_items port' = take RX_SIZE (serial_items port @ vs)
    \<and> fst (serial_pops (rx_count port') port') = take RX_SIZE (serial_items port @ vs)"
proof -
  have len: "length (serial_items q) = rx_count q" for q by (simp add: serial_items_def)
  have "length (serial_items port) \<le> RX_SIZE" using assms by (simp add: len serial_ok_def)
  from rx.pushes_items [OF assms this, of vs] obtain q where
    q: "rx.pushes port vs = (rx_count port + length vs \<le> RX_SIZE, q)" "serial_ok q"
      "serial_items q = take RX_SIZE (serial_items port @ vs)"
    by (auto simp: len)
  have "fst (rx.pops (rx_count q) q) = serial_items q"
    using rx.pops_items [OF q(2), of "rx_count q"] by (auto simp: len)
  then show ?thesis using q by (simp add: inject_pushes serial_pops_rx)
qed

text \<open>A port as it is created.\<close>

definition fresh_port :: serial_port where
  "fresh_port = \<lparr>ser_ctrl = 0, ser_status = 0, fin = 0, fout = 1, rx_rd = 0, rx_wr = 0, rx_count = 0, rx_buf = replicate RX_SIZE 0\<rparr>"

lemma fresh_port_ok: "serial_ok fresh_port" "serial_items fresh_port = []" "rx_count fresh_port = 0"
  by (simp_all add: serial_ok_def fresh_port_def RX_SIZE_def serial_items_def)

theorem serial_ring_fifo_witness:
  "\<exists>port'. serial_inject_bytes fresh_port [7, 8, 9] = (True, port') \<and> serial_items port' = [7, 8, 9]"
  using serial_ring_fifo [OF fresh_port_ok(1), of "[7, 8, 9]"] by (auto simp: fresh_port_ok RX_SIZE_def)

text \<open>Every operation on the port keeps the ring well formed: indices in range, the write index the read
  index plus the count, the buffer 4096 bytes long.\<close>

theorem serial_ring_invariant:
  assumes "serial_ok port"
  shows "serial_ok (serial_reset port) \<and> serial_ok (serial_update i w port)
    \<and> serial_ok (snd (serial_inject_bytes port vs))
    \<and> (\<forall>v port'. serial_queue_pop port = Some (v, port') \<longrightarrow> serial_ok port' \<and> serial_get_rx_pending port = serial_get_rx_pending port' + 1)"
proof -
  have "length (serial_items port) \<le> RX_SIZE" using assms by (simp add: serial_items_def serial_ok_def)
  from rx.pushes_items [OF assms this, of vs] have "serial_ok (snd (serial_inject_bytes port vs))"
    by (auto simp: inject_pushes)
  moreover have "serial_ok port' \<and> serial_get_rx_pending port = serial_get_rx_pending port' + 1"
    if "serial_queue_pop port = Some (v, port')" for v port'
  proof -
    from that have "rx_count port \<noteq> 0" by (auto simp: serial_queue_pop_def split: if_splits)
    then obtain x xs where "serial_items port = x # xs" by (cases "serial_items port") (auto simp: serial_items_def)
    from serial_pop_items [OF assms this] that show ?thesis
      by (auto simp: serial_queue_pop_def serial_get_rx_pending_def split: if_splits)
  qed
  ultimately show ?thesis
    using assms by (simp add: serial_ok_def serial_reset_def serial_update_def Let_def RX_SIZE_def)
qed

theorem serial_ring_invariant_witness: "serial_ok (serial_reset fresh_port)"
  using serial_ring_invariant [OF fresh_port_ok(1)] by blast

end
