(* ===== verification/Machine_State.thy ===== *)
theory Machine_State
  imports Cpu_Exec Serial
begin

text \<open>
  The machine around the processor, \<^verbatim>\<open>machine.c\<close> and the device structures of
  \<^verbatim>\<open>imux.h\<close>, \<^verbatim>\<open>timer.h\<close>, \<^verbatim>\<open>mmu.c\<close>, \<^verbatim>\<open>ioexpand.h\<close> and \<^verbatim>\<open>disk.c\<close>: the device table, the
  512 bus maps of 128 bytes each, the mapping operations, faults, and the hooks of the
  debugger (\<^verbatim>\<open>command.c\<close>) that every access and every instruction passes.
  A device pointer is the device's index in the table. The machine state is the extension
  part of the processor record, so that a state of the whole system is a value of type
  \<open>sys\<close>. File descriptors and the terminal are lists of bytes per descriptor.
\<close>

section \<open>Devices\<close>

record imux =
  in_use :: u32
  enabled :: u32
  pending :: u32
  src :: nat

record hwtimer =
  tcount :: u32
  reload :: u32
  resolution :: u32
  tflags :: u32
  prev_cycles :: u64
  int_dev :: "nat option"
  int_line :: nat

record small_mmu =
  realdev :: nat
  global_regs :: "u8 list"
  slot_regs :: "u8 list list"

record ioexpand =
  ios :: "nat option list"
  io_offset :: "nat list"

record disk_priv =
  dk_fp :: "u8 list option"
  dk_pos :: nat
  dk_offset :: u64
  dk_ramdev :: nat
  dk_ram :: "nat option"
  dk_sectors :: nat

text \<open>\<^verbatim>\<open>struct wpc_asic\<close> of \<^verbatim>\<open>wpc.c\<close>, the static variables of that file, and the messages it sends.\<close>

record wpc_asic =
  wa_rom_dev :: "nat option"
  wa_ram_dev :: "nat option"
  wa_dmd_dev :: "nat option"
  wa_led :: u8
  wa_rombank :: u8
  wa_ram_unlocked :: u8
  wa_ram_lock_size :: u8
  wa_shiftaddr :: u16
  wa_shiftbit :: u16
  wa_lamp_strobe :: u8
  wa_lamp_mx :: "u8 list"
  wa_sols :: "u8 list"
  wa_switch_strobe :: u8
  wa_switch_mx :: "u8 list"
  wa_opto_mx :: "u8 list"
  wa_dmd_maps :: "u8 list"
  wa_dmd_phase :: nat
  wa_dmd_visibles :: "u8 list"
  wa_dmd_last_visibles :: "u8 list"
  wa_curr_sw :: nat
  wa_curr_sw_time :: int
  wa_wdog_timer :: u32

datatype wpc_message = Dmd_page "(u8 \<times> u8 list) list" | Dmd_visible "u8 list"

record wpc_static =
  wpc_console_inited :: bool
  last_firq_time :: u64
  no_change_count :: nat
  wpc_sent :: "wpc_message list"

text \<open>\<^verbatim>\<open>class_ptr\<close> and \<^verbatim>\<open>priv\<close> of a device together: one constructor per hardware class. The functions of
  \<^verbatim>\<open>sdmapper_class\<close> are in the theory of the boards, whose bus dispatches to them.\<close>

datatype priv =
    Null_dev
  | Ram_dev "nat \<Rightarrow> u8"
  | Rom_dev "nat \<Rightarrow> u8"
  | Console_dev
  | Mmu_dev
  | Small_mmu_dev small_mmu
  | Imux_dev imux
  | Hwtimer_dev hwtimer
  | Oscillator_dev hwtimer
  | Ioexpand_dev ioexpand
  | Serial_dev serial_port
  | Disk_dev disk_priv
  | Sdmapper_dev
  | Wpc_asic_dev

text \<open>The instances of \<^verbatim>\<open>struct machine\<close>.\<close>

datatype machine =
    Simple_machine
  | Eon_machine
  | Eon2_machine
  | Wpc_machine
  | Smii_machine
  | Multicomp09_machine
  | Kipper1_machine

record hw_device =
  dev_size :: nat
  dev_priv :: priv

record busmap =
  bm_devid :: nat
  bm_offset :: nat
  bm_flags :: u8

section \<open>Breakpoints\<close>

record breakpoint =
  br_used :: bool
  br_enabled :: bool
  br_conditional :: bool
  br_threaded :: bool
  br_on_read :: bool
  br_on_write :: bool
  br_on_execute :: bool
  br_keep_running :: bool
  br_temp :: bool
  br_last_write :: u16
  br_write_mask :: u16
  br_addr :: nat
  br_condition :: string
  br_tid :: nat
  br_ignore_count :: nat

section \<open>Machine state\<close>

record machine_state =
  device_table :: "hw_device list"
  null_device :: "nat option"
  busmaps :: "busmap list"
  default_busmaps :: "busmap list"
  fault_addr :: u16
  fault_type :: u8
  cpu_running :: bool
  mmu_regs :: "u8 list list"
  host_in :: "int \<Rightarrow> u8 list"
  host_out :: "int \<Rightarrow> u8 list"
  host_sel :: "(bool \<times> bool) list"
  breaktab :: "breakpoint list"
  active_break_count :: u32
  auto_break_insn_count :: int
  thread_id_size :: nat
  thread_current :: nat
  thread_id :: nat
  trace_buffer :: "u32 list"
  trace_offset :: nat
  et_last_cycles :: u64
  cur_machine :: "machine option"
  wpc :: "wpc_asic option"
  wpc_statics :: wpc_static

type_synonym sys = "machine_state cpu_scheme"

abbreviation mch :: "sys \<Rightarrow> machine_state" where "mch \<equiv> cpu.more"

definition set_mch :: "(machine_state \<Rightarrow> machine_state) \<Rightarrow> sys \<Rightarrow> sys" where
  "set_mch f s = s\<lparr>cpu.more := f (mch s)\<rparr>"

definition MAX_CPU_ADDR :: nat where "MAX_CPU_ADDR = 65536"
definition MAX_BUS_DEVICES :: nat where "MAX_BUS_DEVICES = 32"
definition INVALID_DEVID :: nat where "INVALID_DEVID = 0xff"
definition MAP_READABLE :: u8 where "MAP_READABLE = 1"
definition MAP_WRITABLE :: u8 where "MAP_WRITABLE = 2"
definition MAP_READWRITE :: u8 where "MAP_READWRITE = 3"
definition MAP_FIXED :: u8 where "MAP_FIXED = 4"
definition MAP_IGNOREWRITE :: u8 where "MAP_IGNOREWRITE = 8"
definition BUS_MAP_SIZE :: nat where "BUS_MAP_SIZE = 128"
definition NUM_BUS_MAPS :: nat where "NUM_BUS_MAPS = 512"
definition MAX_BREAKS :: nat where "MAX_BREAKS = 32"
definition MAX_TRACE :: nat where "MAX_TRACE = 256"

lemmas map_flags = MAP_READABLE_def MAP_WRITABLE_def MAP_READWRITE_def MAP_FIXED_def MAP_IGNOREWRITE_def
lemmas bus_sizes = MAX_CPU_ADDR_def BUS_MAP_SIZE_def NUM_BUS_MAPS_def

section \<open>Mapping\<close>

text \<open>Rounding up to whole map units, as \<^verbatim>\<open>bus_map\<close> and \<^verbatim>\<open>bus_unmap\<close> do.\<close>

definition round_up :: "nat \<Rightarrow> nat" where
  "round_up n = ((n + BUS_MAP_SIZE - 1) div BUS_MAP_SIZE) * BUS_MAP_SIZE"

text \<open>The loop of \<^verbatim>\<open>bus_map\<close>: \<open>count\<close> entries from \<open>start\<close>, except fixed ones. Leaving the
  array is undefined behaviour.\<close>

fun map_entries :: "nat \<Rightarrow> nat \<Rightarrow> nat \<Rightarrow> nat \<Rightarrow> u8 \<Rightarrow> busmap list \<Rightarrow> busmap list option" where
  "map_entries start 0 devid offset flags maps = Some maps"
| "map_entries start (Suc count) devid offset flags maps =
     (if start < length maps then
        let m = maps ! start;
            m' = (if bm_flags m AND MAP_FIXED = 0
                  then \<lparr>bm_devid = devid, bm_offset = offset, bm_flags = flags\<rparr> else m)
        in map_entries (start + 1) count devid (offset + BUS_MAP_SIZE) flags (maps[start := m'])
      else None)"

definition bus_map :: "nat \<Rightarrow> nat \<Rightarrow> nat \<Rightarrow> nat \<Rightarrow> u8 \<Rightarrow> sys stmt" where
  "bus_map addr devid offset len flags s =
     (let addr = round_up addr; len = round_up len; offset = round_up offset;
          start = addr div BUS_MAP_SIZE; count = len div BUS_MAP_SIZE
      in case map_entries start count devid offset flags (busmaps (mch s)) of
           None \<Rightarrow> UB
         | Some maps \<Rightarrow> Ret () (set_mch (\<lambda>m. m\<lparr>busmaps := maps\<rparr>) s))"

definition device_define :: "nat \<Rightarrow> nat \<Rightarrow> nat \<Rightarrow> nat \<Rightarrow> u8 \<Rightarrow> sys stmt" where
  "device_define dev offset addr len flags = bus_map addr dev offset len flags"

definition bus_unmap :: "nat \<Rightarrow> nat \<Rightarrow> sys stmt" where
  "bus_unmap addr len s =
     (let start = round_up addr div BUS_MAP_SIZE; count = round_up len div BUS_MAP_SIZE;
          maps = busmaps (mch s); dflt = default_busmaps (mch s)
      in if start + count \<le> length maps \<and> start + count \<le> length dflt then
           Ret () (set_mch (\<lambda>m. m\<lparr>busmaps :=
             take start maps @ take count (drop start dflt) @ drop (start + count) maps\<rparr>) s)
         else UB)"

section \<open>Faults and device lookup\<close>

definition FAULT_NOT_WRITABLE :: u32 where "FAULT_NOT_WRITABLE = 1"
definition FAULT_NO_RESPONSE :: u32 where "FAULT_NO_RESPONSE = 2"
definition FAULT_NOT_READABLE :: u32 where "FAULT_NOT_READABLE = 3"

text \<open>The handler of the simple, EON, EON2 and SBC machines: an error while the processor runs. That of WPC does
  nothing.\<close>

definition fault :: "u32 \<Rightarrow> u32 \<Rightarrow> sys stmt" where
  "fault addr type s = (if cpu_running (mch s) then sim_error s else Ret () s)"

definition wpc_fault :: "u32 \<Rightarrow> u32 \<Rightarrow> sys stmt" where
  "wpc_fault addr type = Ret ()"

definition machine_fault :: "u32 \<Rightarrow> u32 \<Rightarrow> sys stmt" where
  "machine_fault addr type s = (case cur_machine (mch s) of
     None \<Rightarrow> UB
   | Some m \<Rightarrow> if m = Wpc_machine then wpc_fault addr type s else fault addr type s)"

definition do_fault :: "u32 \<Rightarrow> u32 \<Rightarrow> sys stmt" where
  "do_fault addr type s = (if cpu_running (mch s) then machine_fault addr type s else Ret () s)"

definition find_map :: "u32 \<Rightarrow> (sys, busmap) expr" where
  "find_map addr s =
     (let i = unat addr div BUS_MAP_SIZE
      in if i < length (busmaps (mch s)) then Ret (busmaps (mch s) ! i) s else UB)"

text \<open>The identifier parameter is an \<^verbatim>\<open>unsigned char\<close>. The null device stands in for a missing one.\<close>

definition find_device :: "u32 \<Rightarrow> nat \<Rightarrow> (sys, nat) expr" where
  "find_device addr devid =
     (\<lambda>s. let id = devid mod 256 in
      if id = INVALID_DEVID \<or> id \<ge> length (device_table (mch s)) then
        bindE (do_fault addr FAULT_NO_RESPONSE) (\<lambda>_ s.
          case null_device (mch s) of Some d \<Rightarrow> Ret d s | None \<Rightarrow> UB) s
      else Ret id s)"

definition absolute_from_reladdr :: "nat \<Rightarrow> nat \<Rightarrow> nat" where
  "absolute_from_reladdr device reladdr = device * 0x10000000 + reladdr"

definition to_absolute :: "nat \<Rightarrow> (sys, nat) expr" where
  "to_absolute cpuaddr =
     (if cpuaddr > 0xffff then Ret cpuaddr
      else bindE (find_map (of_nat cpuaddr)) (\<lambda>m.
        Ret (absolute_from_reladdr (bm_devid m) (bm_offset m + cpuaddr mod BUS_MAP_SIZE))))"

text \<open>The values the machine's variables have when the process starts; the terminal has no input yet.\<close>

definition machine_power_on :: machine_state where
  "machine_power_on = \<lparr>device_table = [], null_device = None,
     busmaps = replicate NUM_BUS_MAPS \<lparr>bm_devid = 0, bm_offset = 0, bm_flags = 0\<rparr>,
     default_busmaps = replicate NUM_BUS_MAPS \<lparr>bm_devid = 0, bm_offset = 0, bm_flags = 0\<rparr>,
     fault_addr = 0, fault_type = 0, cpu_running = False, mmu_regs = replicate 16 (replicate 4 0),
     host_in = (\<lambda>_. []), host_out = (\<lambda>_. []), host_sel = [],
     breaktab = replicate MAX_BREAKS \<lparr>br_used = False, br_enabled = False, br_conditional = False, br_threaded = False,
       br_on_read = False, br_on_write = False, br_on_execute = False, br_keep_running = False, br_temp = False,
       br_last_write = 0, br_write_mask = 0, br_addr = 0, br_condition = [], br_tid = 0, br_ignore_count = 0\<rparr>,
     active_break_count = 0, auto_break_insn_count = 0, thread_id_size = 2, thread_current = 0, thread_id = 0,
     trace_buffer = replicate MAX_TRACE 0, trace_offset = 0, et_last_cycles = 0,
     cur_machine = None, wpc = None,
     wpc_statics = \<lparr>wpc_console_inited = False, last_firq_time = 0, no_change_count = 0, wpc_sent = []\<rparr>\<rparr>"

section \<open>Device table\<close>

definition dev_of :: "nat \<Rightarrow> sys \<Rightarrow> hw_device option" where
  "dev_of dv s = (if dv < length (device_table (mch s)) then Some (device_table (mch s) ! dv) else None)"

definition set_priv :: "nat \<Rightarrow> priv \<Rightarrow> sys \<Rightarrow> sys" where
  "set_priv dv p = set_mch (\<lambda>m. m\<lparr>device_table :=
     (device_table m)[dv := (device_table m ! dv)\<lparr>dev_priv := p\<rparr>]\<rparr>)"

text \<open>Output to a file descriptor.\<close>

definition put_host :: "int \<Rightarrow> u8 \<Rightarrow> sys \<Rightarrow> sys" where
  "put_host fd c = set_mch (\<lambda>m. m\<lparr>host_out := (host_out m)(fd := host_out m fd @ [c])\<rparr>)"

section \<open>Properties of the map\<close>

lemma map_entries_effect:
  assumes "start + count \<le> length maps"
  shows "\<exists>maps'. map_entries start count d off fl maps = Some maps' \<and> length maps' = length maps
    \<and> (\<forall>i < length maps. maps' ! i =
         (if start \<le> i \<and> i < start + count \<and> bm_flags (maps ! i) AND MAP_FIXED = 0
          then \<lparr>bm_devid = d, bm_offset = off + (i - start) * BUS_MAP_SIZE, bm_flags = fl\<rparr> else maps ! i))"
  using assms
proof (induction count arbitrary: start off maps)
  case (Suc count)
  let ?m = "if bm_flags (maps ! start) AND MAP_FIXED = 0 then \<lparr>bm_devid = d, bm_offset = off, bm_flags = fl\<rparr> else maps ! start"
  obtain maps' where "map_entries (start + 1) count d (off + BUS_MAP_SIZE) fl (maps[start := ?m]) = Some maps'"
    "length maps' = length maps"
    and *: "\<And>i. i < length maps \<Longrightarrow> maps' ! i = (if start + 1 \<le> i \<and> i < start + 1 + count \<and> bm_flags (maps[start := ?m] ! i) AND MAP_FIXED = 0
          then \<lparr>bm_devid = d, bm_offset = off + BUS_MAP_SIZE + (i - (start + 1)) * BUS_MAP_SIZE, bm_flags = fl\<rparr> else maps[start := ?m] ! i)"
    using Suc.IH [of "start + 1" "maps[start := ?m]" "off + BUS_MAP_SIZE"] Suc.prems by auto
  moreover have "maps' ! i = (if start \<le> i \<and> i < start + Suc count \<and> bm_flags (maps ! i) AND MAP_FIXED = 0
          then \<lparr>bm_devid = d, bm_offset = off + (i - start) * BUS_MAP_SIZE, bm_flags = fl\<rparr> else maps ! i)"
    if i: "i < length maps" for i
  proof (cases "i = start")
    case True
    then show ?thesis using * [OF i] Suc.prems by simp
  next
    case False
    have "off + BUS_MAP_SIZE + (i - (start + 1)) * BUS_MAP_SIZE = off + (i - start) * BUS_MAP_SIZE" if "start < i"
    proof -
      have "i - start = Suc (i - (start + 1))" using that by simp
      then show ?thesis by (simp only: mult_Suc add.assoc)
    qed
    then show ?thesis using * [OF i] False by auto
  qed
  ultimately show ?case using Suc.prems by (auto simp: Let_def)
qed auto

text \<open>The map with \<open>k\<close> units from \<open>a\<close> on replaced, as a whole.\<close>

definition remapped :: "nat \<Rightarrow> nat \<Rightarrow> nat \<Rightarrow> nat \<Rightarrow> u8 \<Rightarrow> busmap list \<Rightarrow> busmap list" where
  "remapped a k d off fl maps = map (\<lambda>i.
     if a \<le> i \<and> i < a + k \<and> bm_flags (maps ! i) AND MAP_FIXED = 0
     then \<lparr>bm_devid = d, bm_offset = off + (i - a) * BUS_MAP_SIZE, bm_flags = fl\<rparr> else maps ! i) [0..<length maps]"

lemma map_entries_remapped:
  assumes "a + k \<le> length maps"
  shows "map_entries a k d off fl maps = Some (remapped a k d off fl maps)"
proof -
  from map_entries_effect [OF assms, of d off fl] obtain maps' where
    m: "map_entries a k d off fl maps = Some maps'" "length maps' = length maps"
    and e: "\<forall>i < length maps. maps' ! i = (if a \<le> i \<and> i < a + k \<and> bm_flags (maps ! i) AND MAP_FIXED = 0
          then \<lparr>bm_devid = d, bm_offset = off + (i - a) * BUS_MAP_SIZE, bm_flags = fl\<rparr> else maps ! i)"
    by blast
  have "maps' = remapped a k d off fl maps"
    by (rule nth_equalityI) (simp_all add: m(2) remapped_def e del: if_split)
  then show ?thesis using m(1) by simp
qed

lemma map_entries_overflow:
  "length maps < start + count \<Longrightarrow> start \<le> length maps \<Longrightarrow> map_entries start count d off fl maps = None"
  by (induction start count d off fl maps rule: map_entries.induct) (auto simp: Let_def)

text \<open>(C11) Mapping a device: exactly the map units of the rounded address range point to the device, at
  consecutive offsets and with the flags given, except those mapped as fixed before, which stay as they are;
  everything else in the machine is unchanged. A range that passes the end of the address space leaves the array.\<close>

theorem bus_map_effect:
  assumes "length (busmaps (mch s)) = NUM_BUS_MAPS"
    and a_def: "a = round_up addr div BUS_MAP_SIZE" and k_def: "k = round_up len div BUS_MAP_SIZE" and "a \<le> NUM_BUS_MAPS"
  shows "bus_map addr d off len fl s =
    (if a + k \<le> NUM_BUS_MAPS
     then Ret () (set_mch (\<lambda>m. m\<lparr>busmaps := remapped a k d (round_up off) fl (busmaps (mch s))\<rparr>) s)
     else UB)"
proof -
  have 1: "bus_map addr d off len fl s = (case map_entries a k d (round_up off) fl (busmaps (mch s)) of
      None \<Rightarrow> UB | Some maps \<Rightarrow> Ret () (set_mch (\<lambda>m. m\<lparr>busmaps := maps\<rparr>) s))"
    by (simp add: bus_map_def a_def k_def Let_def)
  show ?thesis
    using map_entries_remapped [of a k "busmaps (mch s)" d "round_up off" fl]
      map_entries_overflow [of "busmaps (mch s)" a k d "round_up off" fl] assms(1,4) by (simp add: 1)
qed

lemma more_power_on [simp]: "cpu.more (power_on m) = m"
  by (simp add: power_on_def)

lemma machine_power_on_lengths [simp]:
  "length (busmaps machine_power_on) = NUM_BUS_MAPS" "length (default_busmaps machine_power_on) = NUM_BUS_MAPS"
  by (simp_all add: machine_power_on_def)

theorem bus_map_effect_witness:
  "bus_map 0xff00 3 0 0x80 MAP_READWRITE (power_on machine_power_on) =
    Ret () (set_mch (\<lambda>m. m\<lparr>busmaps := remapped 510 1 3 0 MAP_READWRITE (busmaps machine_power_on)\<rparr>) (power_on machine_power_on))"
  using bus_map_effect [of "power_on machine_power_on" 510 "0xff00" 1 "0x80" 3 0 MAP_READWRITE]
  by (simp add: round_up_def BUS_MAP_SIZE_def NUM_BUS_MAPS_def)

text \<open>Unmapping: the units of the range get the maps of the machine's power-on configuration back, the others
  keep theirs. Unlike mapping it does not respect fixed units.\<close>

theorem bus_unmap_effect:
  assumes "length (busmaps (mch s)) = NUM_BUS_MAPS" "length (default_busmaps (mch s)) = NUM_BUS_MAPS"
    and a_def: "a = round_up addr div BUS_MAP_SIZE" and k_def: "k = round_up len div BUS_MAP_SIZE"
    and "a + k \<le> NUM_BUS_MAPS"
  shows "\<exists>maps'. bus_unmap addr len s = Ret () (set_mch (\<lambda>m. m\<lparr>busmaps := maps'\<rparr>) s) \<and> length maps' = NUM_BUS_MAPS
    \<and> (\<forall>i < NUM_BUS_MAPS. maps' ! i = (if a \<le> i \<and> i < a + k then default_busmaps (mch s) ! i else busmaps (mch s) ! i))"
proof -
  let ?maps = "take a (busmaps (mch s)) @ take k (drop a (default_busmaps (mch s))) @ drop (a + k) (busmaps (mch s))"
  have "bus_unmap addr len s = Ret () (set_mch (\<lambda>m. m\<lparr>busmaps := ?maps\<rparr>) s)"
    using assms by (simp add: bus_unmap_def Let_def)
  moreover have "?maps ! i = (if a \<le> i \<and> i < a + k then default_busmaps (mch s) ! i else busmaps (mch s) ! i)"
    if "i < NUM_BUS_MAPS" for i
    using that assms(1,2,5) by (auto simp: nth_append)
  moreover have "length ?maps = NUM_BUS_MAPS" using assms(1,2,5) by simp
  ultimately show ?thesis by blast
qed

theorem bus_unmap_effect_witness:
  "\<exists>maps'. bus_unmap 0xff00 0x80 (power_on machine_power_on)
    = Ret () (set_mch (\<lambda>m. m\<lparr>busmaps := maps'\<rparr>) (power_on machine_power_on)) \<and> length maps' = NUM_BUS_MAPS"
  using bus_unmap_effect [of "power_on machine_power_on" 510 "0xff00" 1 "0x80"]
  by (auto simp: round_up_def BUS_MAP_SIZE_def NUM_BUS_MAPS_def)

end
