(* ===== verification/Wpc_Asic.thy ===== *)
theory Wpc_Asic
  imports Machine_State
begin

text \<open>
  The ASIC of the WPC pinball board, \<^verbatim>\<open>wpc.c\<close>: its registers, the switch matrix, the lamps, the lock on the RAM,
  the pages of ROM and display, and the button presses that the host's keyboard makes. The structure that \<^verbatim>\<open>wpc\<close>
  points to is a component of the machine. Messages to the display are recorded in the order they are sent; the
  datagrams that carry them, and their padding, are not modelled.
\<close>

section \<open>The structure\<close>

definition WPC_RAM_BASE :: nat where "WPC_RAM_BASE = 0"
definition WPC_RAM_SIZE :: nat where "WPC_RAM_SIZE = 0x2000"
definition WPC_ROM_SIZE :: nat where "WPC_ROM_SIZE = 0x100000"
definition WPC_PAGED_REGION :: nat where "WPC_PAGED_REGION = 0x4000"
definition WPC_PAGED_SIZE :: nat where "WPC_PAGED_SIZE = 0x4000"
definition WPC_FIXED_REGION :: nat where "WPC_FIXED_REGION = 0x8000"
definition WPC_FIXED_SIZE :: nat where "WPC_FIXED_SIZE = 0x8000"
definition WPC_ASIC_BASE :: nat where "WPC_ASIC_BASE = 0x3c00"

definition with_wpc :: "(wpc_asic \<Rightarrow> (sys, 'a) expr) \<Rightarrow> (sys, 'a) expr" where
  "with_wpc f s = (case wpc (mch s) of Some w \<Rightarrow> f w s | None \<Rightarrow> UB)"

definition set_wpc :: "wpc_asic \<Rightarrow> sys \<Rightarrow> sys" where
  "set_wpc w = set_mch (\<lambda>m. m\<lparr>wpc := Some w\<rparr>)"

definition wpc_cleared :: wpc_asic where
  "wpc_cleared = \<lparr>wa_rom_dev = None, wa_ram_dev = None, wa_dmd_dev = None, wa_led = 0, wa_rombank = 0, wa_ram_unlocked = 0,
     wa_ram_lock_size = 0, wa_shiftaddr = 0, wa_shiftbit = 0, wa_lamp_strobe = 0, wa_lamp_mx = replicate 8 0,
     wa_sols = replicate 48 0, wa_switch_strobe = 0, wa_switch_mx = replicate 10 0, wa_opto_mx = replicate 10 0,
     wa_dmd_maps = replicate 2 0, wa_dmd_phase = 0, wa_dmd_visibles = replicate 3 0, wa_dmd_last_visibles = replicate 3 0,
     wa_curr_sw = 0, wa_curr_sw_time = 0, wa_wdog_timer = 0\<rparr>"

section \<open>Console\<close>

text \<open>The debug port answers one read with 0 before it passes on the terminal.\<close>

definition wpc_get_console_state :: "sys \<Rightarrow> u8" where
  "wpc_get_console_state s = (if wpc_console_inited (wpc_statics (mch s)) then 1 else 1 OR 2)"

definition wpc_console_read :: "(sys, u8) expr" where
  "wpc_console_read s =
     (if \<not> wpc_console_inited (wpc_statics (mch s)) then
        Ret 0 (set_mch (\<lambda>m. m\<lparr>wpc_statics := (wpc_statics m)\<lparr>wpc_console_inited := True\<rparr>\<rparr>) s)
      else (case host_in (mch s) 0 of
          [] \<Rightarrow> Ret 0 s
        | c # cs \<Rightarrow> Ret c (set_mch (\<lambda>m. m\<lparr>host_in := (host_in m)(0 := cs)\<rparr>) s)))"

definition wpc_console_write :: "u8 \<Rightarrow> sys stmt" where
  "wpc_console_write val s = Ret () (put_host 1 val s)"

section \<open>Switches and lamps\<close>

definition scanbit :: "u8 \<Rightarrow> nat option" where
  "scanbit val =
     (if val AND 0x80 \<noteq> 0 then Some 7 else if val AND 0x40 \<noteq> 0 then Some 6 else if val AND 0x20 \<noteq> 0 then Some 5
      else if val AND 0x10 \<noteq> 0 then Some 4 else if val AND 0x08 \<noteq> 0 then Some 3 else if val AND 0x04 \<noteq> 0 then Some 2
      else if val AND 0x02 \<noteq> 0 then Some 1 else if val AND 0x01 \<noteq> 0 then Some 0 else None)"

definition wpc_read_switch :: "nat \<Rightarrow> (sys, bool) expr" where
  "wpc_read_switch num = with_wpc (\<lambda>w s.
     if num div 8 < length (wa_switch_mx w) then Ret (wa_switch_mx w ! (num div 8) AND push_bit (num mod 8) 1 \<noteq> 0) s else UB)"

definition wpc_write_switch :: "nat \<Rightarrow> bool \<Rightarrow> sys stmt" where
  "wpc_write_switch num flag = with_wpc (\<lambda>w s.
     let col = num div 8; val = push_bit (num mod 8) 1; x = wa_switch_mx w ! col AND NOT val in
     if col < length (wa_switch_mx w)
     then Ret () (set_wpc (w\<lparr>wa_switch_mx := (wa_switch_mx w)[col := (if flag then x OR val else x)]\<rparr>) s) else UB)"

definition wpc_press_switch :: "nat \<Rightarrow> int \<Rightarrow> sys stmt" where
  "wpc_press_switch num delay = block [
     wpc_write_switch num True,
     with_wpc (\<lambda>w s. Ret () (set_wpc (w\<lparr>wa_curr_sw := num, wa_curr_sw_time := delay\<rparr>) s))]"

primrec switch_rows :: "nat \<Rightarrow> nat list \<Rightarrow> u8 \<Rightarrow> (sys, u8) expr" where
  "switch_rows col [] val = Ret val"
| "switch_rows col (row # rows) val = bindE (wpc_read_switch (col * 8 + row)) (\<lambda>b.
     switch_rows col rows (if b then val OR push_bit row 1 else val))"

definition wpc_read_switch_column :: "nat \<Rightarrow> (sys, u8) expr" where
  "wpc_read_switch_column col = switch_rows col [0..<8] 0"

definition wpc_write_sols :: "nat \<Rightarrow> u8 \<Rightarrow> wpc_asic \<Rightarrow> wpc_asic" where
  "wpc_write_sols first val w =
     w\<lparr>wa_sols := foldl (\<lambda>xs i. xs[first + i := (if val AND push_bit i 1 \<noteq> 0 then 1 else 0)]) (wa_sols w) [0..<8]\<rparr>"

section \<open>Display\<close>

text \<open>A page of 512 bytes of the display's memory.\<close>

definition dmd_page :: "wpc_asic \<Rightarrow> sys \<Rightarrow> u8 \<Rightarrow> u8 list option" where
  "dmd_page w s page = (case wa_dmd_dev w of None \<Rightarrow> None | Some dv \<Rightarrow> (case dev_of dv s of None \<Rightarrow> None | Some d \<Rightarrow>
     (case dev_priv d of
        Ram_dev buf \<Rightarrow> if unat page * 512 + 512 \<le> dev_size d then Some (map (\<lambda>i. buf (unat page * 512 + i)) [0..<512]) else None
      | _ \<Rightarrow> None)))"

definition dmd_shift :: "bool \<Rightarrow> u8 \<Rightarrow> wpc_asic \<Rightarrow> wpc_asic option" where
  "dmd_shift late val w =
     (if late then Some (w\<lparr>wa_dmd_visibles := replicate 3 val, wa_dmd_phase := 0\<rparr>)
      else if wa_dmd_phase w < length (wa_dmd_visibles w) then
        Some (w\<lparr>wa_dmd_visibles := (wa_dmd_visibles w)[wa_dmd_phase w := val],
                wa_dmd_phase := (if wa_dmd_phase w + 1 = 3 then 0 else wa_dmd_phase w + 1)\<rparr>)
      else None)"

definition wpc_dmd_set_visible :: "u8 \<Rightarrow> sys stmt" where
  "wpc_dmd_set_visible val = with_wpc (\<lambda>w s.
     let now = get_cycles s; vars = wpc_statics (mch s); gap = now - last_firq_time vars in
     if gap \<le> 1850 * 8 then Ret () s
     else (case dmd_shift (1850 * 8 * 5 \<le> gap) val w of None \<Rightarrow> UB | Some w' \<Rightarrow>
       let same = wa_dmd_visibles w' = wa_dmd_last_visibles w'; n = no_change_count vars + 1 in
       if same \<and> n < 100 then
         Ret () (set_mch (\<lambda>m. m\<lparr>wpc := Some w', wpc_statics := vars\<lparr>last_firq_time := now, no_change_count := n\<rparr>\<rparr>) s)
       else (case those (map (dmd_page w' s) (wa_dmd_visibles w')) of None \<Rightarrow> UB | Some pages \<Rightarrow>
         Ret () (set_mch (\<lambda>m. m\<lparr>wpc := Some (w'\<lparr>wa_dmd_last_visibles := wa_dmd_visibles w'\<rparr>),
           wpc_statics := vars\<lparr>last_firq_time := now, no_change_count := 0,
             wpc_sent := wpc_sent vars @ [Dmd_page (zip (wa_dmd_visibles w') pages), Dmd_visible (wa_dmd_visibles w')]\<rparr>\<rparr>) s))))"

section \<open>Keyboard\<close>

definition BUTTON_DURATION :: int where "BUTTON_DURATION = 200"

definition key_switch :: "u8 \<Rightarrow> nat option" where
  "key_switch c = map_of [(0x37, 4), (0x38, 5), (0x39, 6), (0x30, 7), (0x2c, 75), (0x2e, 73)] c"

text \<open>The character is read without a check, so at the end of input it is indeterminate.\<close>

definition wpc_keypoll :: "sys stmt" where
  "wpc_keypoll s = (case host_sel (mch s) of
     [] \<Rightarrow> Ret () s
   | x # xs \<Rightarrow>
       let u = set_mch (\<lambda>m. m\<lparr>host_sel := xs\<rparr>) s in
       if \<not> fst x then Ret () u
       else (case host_in (mch u) 0 of
           [] \<Rightarrow> UB
         | c # cs \<Rightarrow> (case key_switch c of Some num \<Rightarrow> wpc_press_switch num BUTTON_DURATION | None \<Rightarrow> Ret ())
             (set_mch (\<lambda>m. m\<lparr>host_in := (host_in m)(0 := cs)\<rparr>) u)))"

definition wpc_periodic :: "sys stmt" where
  "wpc_periodic = block [
     wpc_keypoll,
     with_wpc (\<lambda>w s. Ret () (set_wpc (w\<lparr>wa_wdog_timer := wa_wdog_timer w - 50\<rparr>) s)),
     with_wpc (\<lambda>w s.
       if 0 < wa_curr_sw_time w then
         let time = wa_curr_sw_time w - 100 in
         if time \<le> 0 then bindE (assign (set_wpc (w\<lparr>wa_curr_sw_time := 0\<rparr>))) (\<lambda>_. wpc_write_switch (wa_curr_sw w) False) s
         else Ret () (set_wpc (w\<lparr>wa_curr_sw_time := time\<rparr>) s)
       else Ret () s)]"

section \<open>Mapping\<close>

text \<open>The size left writable; the case of 7 runs on into that of 3.\<close>

definition size_writable :: "wpc_asic \<Rightarrow> nat" where
  "size_writable w =
     (if wa_ram_unlocked w \<noteq> 0 then WPC_RAM_SIZE
      else if wa_ram_lock_size w = 0xf then WPC_RAM_SIZE - 256
      else if wa_ram_lock_size w = 0x7 then WPC_RAM_SIZE - 512 - 1024
      else if wa_ram_lock_size w = 0x3 then WPC_RAM_SIZE - 1024
      else if wa_ram_lock_size w = 0x1 then WPC_RAM_SIZE - 2048
      else if wa_ram_lock_size w = 0 then WPC_RAM_SIZE - 4096
      else WPC_RAM_SIZE)"

definition wpc_update_ram :: "sys stmt" where
  "wpc_update_ram = with_wpc (\<lambda>w. case wa_ram_dev w of None \<Rightarrow> (\<lambda>s. UB) | Some ram \<Rightarrow> block [
     bus_map WPC_RAM_BASE ram 0 (size_writable w) MAP_READWRITE,
     doif (size_writable w < WPC_RAM_SIZE)
       (bus_map (WPC_RAM_BASE + size_writable w) ram (size_writable w) (WPC_RAM_SIZE - size_writable w) MAP_READABLE)])"

text \<open>The numbers of the devices are those of the source.\<close>

definition wpc_set_rom_page :: "u8 \<Rightarrow> sys stmt" where
  "wpc_set_rom_page val = bus_map WPC_PAGED_REGION 2 (unat val * WPC_PAGED_SIZE) WPC_PAGED_SIZE MAP_READABLE"

definition wpc_set_dmd_page :: "nat \<Rightarrow> u8 \<Rightarrow> sys stmt" where
  "wpc_set_dmd_page mp val = block [
     with_wpc (\<lambda>w s. Ret () (set_wpc (w\<lparr>wa_dmd_maps := (wa_dmd_maps w)[mp := val]\<rparr>) s)),
     bus_map (0x3800 + mp * 0x200) 3 (unat val * 0x200) 0x200 MAP_READWRITE]"

section \<open>Registers\<close>

definition wpc_asic_read :: "nat \<Rightarrow> (sys, u8) expr" where
  "wpc_asic_read addr = (let reg = addr + WPC_ASIC_BASE in with_wpc (\<lambda>w s.
     if reg = 0x3ff2 then Ret (wa_led w) s
     else if reg = 0x3ffc then Ret (wa_rombank w) s
     else if reg = 0x3d61 then Ret (wpc_get_console_state s) s
     else if reg = 0x3d60 then wpc_console_read s
     else if reg = 0x3ff4 then Ret (ucast (drop_bit 8 (wa_shiftaddr w))) s
     else if reg = 0x3ff5 then Ret (ucast ((wa_shiftaddr w AND 0xff) + wa_shiftbit w div 8)) s
     else if reg = 0x3ff6 then Ret (push_bit (unat (wa_shiftbit w mod 8)) 1) s
     else if reg = 0x3fe9 then
       (if 0x16 \<le> wa_switch_strobe w \<and> wa_switch_strobe w \<le> 0x1f
        then wpc_read_switch_column (unat (wa_switch_strobe w) - 0x16 + 1) s
        else wpc_read_switch_column (case scanbit (wa_switch_strobe w) of Some n \<Rightarrow> 1 + n | None \<Rightarrow> 0) s)
     else if reg = 0x3fe7 then Ret 0x55 s
     else if reg = 0x3fe8 then wpc_read_switch_column 0 s
     else if reg = 0x3fd4 \<or> reg = 0x3fd5 \<or> reg = 0x3fef then wpc_read_switch_column 9 s
     else Ret 0 s))"

definition wpc_asic_write :: "nat \<Rightarrow> u8 \<Rightarrow> sys stmt" where
  "wpc_asic_write addr val = (let reg = addr + WPC_ASIC_BASE in with_wpc (\<lambda>w s.
     let upd = (\<lambda>f. Ret () (set_wpc (f w) s)) in
     if reg = 0x3fbe then wpc_set_dmd_page 0 val s
     else if reg = 0x3fbc then wpc_set_dmd_page 1 val s
     else if reg = 0x3fbf then wpc_dmd_set_visible val s
     else if reg = 0x3ff2 then upd (\<lambda>w. w\<lparr>wa_led := val\<rparr>)
     else if reg = 0x3fff then upd (\<lambda>w. w\<lparr>wa_wdog_timer := wa_wdog_timer w + 1\<rparr>)
     else if reg = 0x3ffc then bindE (assign (set_wpc (w\<lparr>wa_rombank := val\<rparr>))) (\<lambda>_. wpc_set_rom_page val) s
     else if reg = 0x3d60 then wpc_console_write val s
     else if reg = 0x3ffd then bindE (assign (set_wpc (w\<lparr>wa_ram_unlocked := val\<rparr>))) (\<lambda>_. wpc_update_ram) s
     else if reg = 0x3ffe then bindE (assign (set_wpc (w\<lparr>wa_ram_lock_size := val\<rparr>))) (\<lambda>_. wpc_update_ram) s
     else if reg = 0x3ff4 then upd (\<lambda>w. w\<lparr>wa_shiftaddr := (wa_shiftaddr w AND 0x00ff) OR push_bit 8 (ucast val)\<rparr>)
     else if reg = 0x3ff5 then upd (\<lambda>w. w\<lparr>wa_shiftaddr := (wa_shiftaddr w AND 0xff00) OR ucast val\<rparr>)
     else if reg = 0x3ff6 then upd (\<lambda>w. w\<lparr>wa_shiftbit := ucast val\<rparr>)
     else if reg = 0x3fe4 then
       (case scanbit (wa_lamp_strobe w) of
          Some n \<Rightarrow> upd (\<lambda>w. w\<lparr>wa_lamp_mx := (wa_lamp_mx w)[n := val]\<rparr>) | None \<Rightarrow> UB)
     else if reg = 0x3fe5 then upd (\<lambda>w. w\<lparr>wa_lamp_strobe := val\<rparr>)
     else if reg = 0x3fea then upd (\<lambda>w. w\<lparr>wa_switch_strobe := val\<rparr>)
     else Ret () s))"

text \<open>Attaching the device resets it: the whole structure is cleared, and one switch is always closed.\<close>

definition wpc_asic_reset :: "sys stmt" where
  "wpc_asic_reset = block [
     with_wpc (\<lambda>w s. Ret () (set_wpc wpc_cleared s)),
     wpc_write_switch 19 True]"

end
