(* ===== verification/Io_Devices.thy ===== *)
theory Io_Devices
  imports Wpc_Asic
begin

text \<open>
  The devices: null, RAM, ROM, console and MMU of \<^verbatim>\<open>machine.c\<close>, the small MMU
  (\<^verbatim>\<open>mmu.c\<close>), the interrupt multiplexer (\<^verbatim>\<open>imux.c\<close>), the timers (\<^verbatim>\<open>timer.c\<close>), the I/O
  expander (\<^verbatim>\<open>ioexpand.c\<close>), the serial port (\<^verbatim>\<open>serial.c\<close>) and the disk (\<^verbatim>\<open>disk.c\<close>), and
  the dispatch on the hardware class for reading, writing, resetting and updating a device.
  A device that interrupts the processor calls back into \<^verbatim>\<open>6809.c\<close>, which stacks registers
  through the bus: the bus is the parameter \<open>io\<close> again. An expander may hold an expander, so
  the dispatch takes fuel for the nesting.
\<close>

section \<open>Memory\<close>

definition ram_read :: "nat \<Rightarrow> (nat \<Rightarrow> u8) \<Rightarrow> nat \<Rightarrow> (sys, u8) expr" where
  "ram_read sz buf addr s = (if addr < sz then Ret (buf addr) s else UB)"

definition ram_write :: "nat \<Rightarrow> nat \<Rightarrow> ((nat \<Rightarrow> u8) \<Rightarrow> priv) \<Rightarrow> (nat \<Rightarrow> u8) \<Rightarrow> nat \<Rightarrow> u8 \<Rightarrow> sys stmt" where
  "ram_write dv sz mk buf addr val s =
     (if addr < sz then Ret () (set_priv dv (mk (buf(addr := val))) s) else UB)"

section \<open>Console\<close>

text \<open>The console reads descriptor 0 and writes descriptor 1. End of input is EOF, cut to 0xff.\<close>

definition console_read :: "nat \<Rightarrow> (sys, u8) expr" where
  "console_read addr s =
     (if addr = 2 then
        (case host_in (mch s) 0 of
           [] \<Rightarrow> Ret 0xff s
         | c # cs \<Rightarrow> Ret c (set_mch (\<lambda>m. m\<lparr>host_in := (host_in m)(0 := cs)\<rparr>) s))
      else Ret 0xff s)"

definition sim_exit :: "u8 \<Rightarrow> sys stmt" where
  "sim_exit code s = Exit (uint code) s"

definition console_write :: "nat \<Rightarrow> u8 \<Rightarrow> sys stmt" where
  "console_write addr val s =
     (if addr = 0 then Ret () (put_host 1 val s)
      else if addr = 1 then sim_exit val s
      else Ret () s)"

section \<open>The EON MMU\<close>

definition MMU_PAGESIZE :: nat where "MMU_PAGESIZE = 4096"
definition MMU_PAGECOUNT :: nat where "MMU_PAGECOUNT = 16"
definition MMU_PAGEREGS :: nat where "MMU_PAGEREGS = 4"

definition mmu_read :: "nat \<Rightarrow> (sys, u8) expr" where
  "mmu_read addr s =
     Ret (if addr = 0x60 then ucast (drop_bit 8 (fault_addr (mch s)))
          else if addr = 0x61 then ucast (fault_addr (mch s) AND 0xff)
          else if addr = 0x62 then fault_type (mch s)
          else mmu_regs (mch s) ! (addr div MMU_PAGEREGS mod MMU_PAGECOUNT) ! (addr mod MMU_PAGEREGS)) s"

definition mmu_write :: "nat \<Rightarrow> u8 \<Rightarrow> sys stmt" where
  "mmu_write addr val s =
     (let page = addr div MMU_PAGEREGS mod MMU_PAGECOUNT; reg = addr mod MMU_PAGEREGS;
          regs = (mmu_regs (mch s))[page := (mmu_regs (mch s) ! page)[reg := val]];
          r = regs ! page
      in bus_map (page * MMU_PAGESIZE) (unat (r ! 0)) (unat (r ! 1) * MMU_PAGESIZE) MMU_PAGESIZE
           (r ! 2 AND MAP_READWRITE) (set_mch (\<lambda>m. m\<lparr>mmu_regs := regs\<rparr>) s))"

definition mmu_reset :: "sys stmt" where
  "mmu_reset = block (concat (map (\<lambda>page. [
     mmu_write (page * MMU_PAGEREGS) 0,
     mmu_write (page * MMU_PAGEREGS + 1) 0,
     mmu_write (page * MMU_PAGEREGS + 2) MAP_READWRITE]) [0..<MMU_PAGECOUNT]))"

text \<open>\<^verbatim>\<open>mmu_reset_complete\<close>: the registers take over the maps in place, read from the fifth
  map unit of each page.\<close>

definition mmu_reset_complete :: "sys stmt" where
  "mmu_reset_complete = assign (set_mch (\<lambda>m. m\<lparr>mmu_regs := map (\<lambda>page.
     let b = busmaps m ! (4 + page * (MMU_PAGESIZE div BUS_MAP_SIZE))
     in [of_nat (bm_devid b), of_nat (bm_offset b div MMU_PAGESIZE), bm_flags b AND MAP_READWRITE,
         mmu_regs m ! page ! 3]) [0..<MMU_PAGECOUNT]\<rparr>))"

section \<open>The small MMU\<close>

definition SMR_PAGESIZE :: nat where "SMR_PAGESIZE = 4096"
definition SMR_SLOTS :: nat where "SMR_SLOTS = 16"
definition SM_GLOBAL_REGS :: nat where "SM_GLOBAL_REGS = 6"

definition small_mmu_update_slot :: "small_mmu \<Rightarrow> nat \<Rightarrow> sys stmt" where
  "small_mmu_update_slot mmu slot s =
     (if slot < length (slot_regs mmu) then
        bus_map (slot * SMR_PAGESIZE) (realdev mmu) (unat (slot_regs mmu ! slot ! 0)) SMR_PAGESIZE
          (slot_regs mmu ! slot ! 1 AND MAP_READWRITE) s
      else UB)"

definition small_mmu_update_current :: "small_mmu \<Rightarrow> sys stmt" where
  "small_mmu_update_current mmu = small_mmu_update_slot mmu (unat (global_regs mmu ! 0))"

definition small_mmu_update_all :: "small_mmu \<Rightarrow> sys stmt" where
  "small_mmu_update_all mmu = block (map (small_mmu_update_slot mmu) [0..<SMR_SLOTS])"

definition small_mmu_read :: "small_mmu \<Rightarrow> nat \<Rightarrow> (sys, u8) expr" where
  "small_mmu_read mmu addr s =
     (if addr < SM_GLOBAL_REGS then Ret (global_regs mmu ! addr) s
      else let slot = unat (global_regs mmu ! 0) in
        if slot < SMR_SLOTS \<and> addr - SM_GLOBAL_REGS < 2
        then Ret (slot_regs mmu ! slot ! (addr - SM_GLOBAL_REGS)) s else UB)"

definition small_mmu_write :: "nat \<Rightarrow> small_mmu \<Rightarrow> nat \<Rightarrow> u8 \<Rightarrow> sys stmt" where
  "small_mmu_write dv mmu addr val s =
     (if addr < SM_GLOBAL_REGS then
        Ret () (set_priv dv (Small_mmu_dev (mmu\<lparr>global_regs := (global_regs mmu)[addr := val]\<rparr>)) s)
      else let slot = unat (global_regs mmu ! 0); reg = addr - SM_GLOBAL_REGS in
        if slot < SMR_SLOTS \<and> reg < 2 then
          let regs = (slot_regs mmu)[slot := (slot_regs mmu ! slot)[reg := val]]
          in bus_map (slot * SMR_PAGESIZE) (realdev mmu) (unat (regs ! slot ! 0) * SMR_PAGESIZE) SMR_PAGESIZE
               (regs ! slot ! 1 AND MAP_READWRITE)
               (set_priv dv (Small_mmu_dev (mmu\<lparr>slot_regs := regs\<rparr>)) s)
        else UB)"

text \<open>Each step of the reset works on the registers the previous one left in the table.\<close>

definition small_mmu_poke :: "nat \<Rightarrow> nat \<Rightarrow> u8 \<Rightarrow> sys stmt" where
  "small_mmu_poke dv addr val s =
     (case dev_of dv s of
        Some d \<Rightarrow> (case dev_priv d of Small_mmu_dev mmu \<Rightarrow> small_mmu_write dv mmu addr val s | _ \<Rightarrow> UB)
      | None \<Rightarrow> UB)"

definition small_mmu_reset :: "nat \<Rightarrow> sys stmt" where
  "small_mmu_reset dv = block (concat (map (\<lambda>page. [
     small_mmu_poke dv 0 (of_nat page),
     small_mmu_poke dv 6 (of_nat page),
     small_mmu_poke dv 7 MAP_READWRITE]) [0..<SMR_SLOTS]))"

section \<open>The interrupt multiplexer\<close>

definition imux_refresh :: "sys iface \<Rightarrow> imux \<Rightarrow> sys stmt" where
  "imux_refresh io mux =
     (if pending mux AND enabled mux \<noteq> 0
      then (if src mux = 1 then request_irq io (src mux) else request_firq io (src mux))
      else (if src mux = 1 then release_irq (src mux) else release_firq (src mux)))"

definition imux_reset :: "nat \<Rightarrow> imux \<Rightarrow> sys stmt" where
  "imux_reset dv mux = assign (set_priv dv (Imux_dev (mux\<lparr>enabled := 0, pending := 0\<rparr>)))"

definition imux_read :: "imux \<Rightarrow> nat \<Rightarrow> (sys, u8) expr" where
  "imux_read mux addr =
     Ret (if addr = 0 then ucast (enabled mux AND 0xff)
          else if addr = 1 then ucast (pending mux AND 0xff)
          else 0xff)"

definition imux_write :: "sys iface \<Rightarrow> nat \<Rightarrow> imux \<Rightarrow> nat \<Rightarrow> u8 \<Rightarrow> sys stmt" where
  "imux_write io dv mux addr val =
     (let mux' = (if addr = 0 then mux\<lparr>enabled := ucast val\<rparr>
                  else if addr = 1 then mux\<lparr>pending := pending mux AND NOT (ucast val)\<rparr>
                  else mux)
      in block [assign (set_priv dv (Imux_dev mux')), imux_refresh io mux'])"

definition imux_register :: "nat \<Rightarrow> nat \<Rightarrow> sys stmt" where
  "imux_register dv sig s =
     (case dev_of dv s of
        Some d \<Rightarrow> (case dev_priv d of
            Imux_dev mux \<Rightarrow> if sig < 31 then Ret () (set_priv dv (Imux_dev (mux\<lparr>in_use := in_use mux OR push_bit sig 1\<rparr>)) s) else UB
          | _ \<Rightarrow> UB)
      | None \<Rightarrow> UB)"

definition imux_assert :: "sys iface \<Rightarrow> nat \<Rightarrow> nat \<Rightarrow> sys stmt" where
  "imux_assert io dv sig s =
     (case dev_of dv s of
        Some d \<Rightarrow> (case dev_priv d of
            Imux_dev mux \<Rightarrow>
              if sig < 31 then
                let mux' = mux\<lparr>pending := pending mux OR push_bit sig 1\<rparr>
                in block [assign (set_priv dv (Imux_dev mux')), imux_refresh io mux'] s
              else UB
          | _ \<Rightarrow> UB)
      | None \<Rightarrow> UB)"

section \<open>Timers\<close>

text \<open>\<^verbatim>\<open>count\<close> is a signed int in unsigned arithmetic: a 32-bit word read with \<^const>\<open>sint\<close>.\<close>

definition HWTF_INT :: u32 where "HWTF_INT = 0x80"

definition get_timer :: "nat \<Rightarrow> sys \<Rightarrow> hwtimer option" where
  "get_timer dv s =
     (case dev_of dv s of
        Some d \<Rightarrow> (case dev_priv d of Hwtimer_dev t \<Rightarrow> Some t | Oscillator_dev t \<Rightarrow> Some t | _ \<Rightarrow> None)
      | None \<Rightarrow> None)"

definition with_timer :: "nat \<Rightarrow> (hwtimer \<Rightarrow> sys stmt) \<Rightarrow> sys stmt" where
  "with_timer dv f s = (case get_timer dv s of Some t \<Rightarrow> f t s | None \<Rightarrow> UB)"

definition upd_timer :: "nat \<Rightarrow> (hwtimer \<Rightarrow> hwtimer) \<Rightarrow> sys stmt" where
  "upd_timer dv f s =
     (case dev_of dv s of
        Some d \<Rightarrow> (case dev_priv d of
            Hwtimer_dev t \<Rightarrow> Ret () (set_priv dv (Hwtimer_dev (f t)) s)
          | Oscillator_dev t \<Rightarrow> Ret () (set_priv dv (Oscillator_dev (f t)) s)
          | _ \<Rightarrow> UB)
      | None \<Rightarrow> UB)"

definition hwtimer_decrement :: "sys iface \<Rightarrow> nat \<Rightarrow> u32 \<Rightarrow> sys stmt" where
  "hwtimer_decrement io dv cycles = with_timer dv (\<lambda>t.
     if tcount t = 0 \<and> reload t = 0 then Ret ()
     else block [
       upd_timer dv (\<lambda>t. t\<lparr>tcount := tcount t - cycles\<rparr>),
       with_timer dv (\<lambda>t. doif (sint (tcount t) \<le> 0) (block [
         with_timer dv (\<lambda>t. case int_dev t of
             Some d \<Rightarrow> doif (tflags t AND HWTF_INT \<noteq> 0) (imux_assert io d (int_line t))
           | None \<Rightarrow> Ret ()),
         with_timer dv (\<lambda>t. doif (sint (tcount t) < 0)
           (if reload t > 0 then block [
              upd_timer dv (\<lambda>t. t\<lparr>tcount := tcount t + reload t\<rparr>),
              with_timer dv (\<lambda>t. doif (sint (tcount t) < 0) sim_error)]
            else upd_timer dv (\<lambda>t. t\<lparr>tcount := 0\<rparr>)))]))])"

definition hwtimer_update :: "sys iface \<Rightarrow> nat \<Rightarrow> sys stmt" where
  "hwtimer_update io dv = with_timer dv (\<lambda>t s.
     let cycles = get_cycles s in block [
       hwtimer_decrement io dv (ucast (cycles - prev_cycles t)),
       upd_timer dv (\<lambda>t. t\<lparr>prev_cycles := cycles\<rparr>)] s)"

definition hwtimer_read :: "hwtimer \<Rightarrow> nat \<Rightarrow> (sys, u8) expr" where
  "hwtimer_read timer addr s =
     (if addr = 0 then (if resolution timer = 0 then UB else Ret (ucast (tcount timer div resolution timer)) s)
      else if addr = 1 then (if resolution timer = 0 then UB else Ret (ucast (reload timer div resolution timer)) s)
      else if addr = 2 then Ret (ucast (tflags timer)) s
      else Ret 0x42 s)"

definition hwtimer_write :: "nat \<Rightarrow> hwtimer \<Rightarrow> nat \<Rightarrow> u8 \<Rightarrow> sys stmt" where
  "hwtimer_write dv timer addr val =
     (if addr = 0 then assign (set_priv dv (Hwtimer_dev (timer\<lparr>tcount := ucast val * resolution timer\<rparr>)))
      else if addr = 1 then assign (set_priv dv (Hwtimer_dev (timer\<lparr>reload := ucast val * resolution timer\<rparr>)))
      else if addr = 2 then assign (set_priv dv (Hwtimer_dev (timer\<lparr>tflags := ucast val\<rparr>)))
      else Ret ())"

definition hwtimer_reset :: "nat \<Rightarrow> sys stmt" where
  "hwtimer_reset dv = (\<lambda>s.
     upd_timer dv (\<lambda>t. t\<lparr>tcount := 0, tflags := 0, resolution := 128, prev_cycles := get_cycles s\<rparr>) s)"

definition oscillator_reset :: "nat \<Rightarrow> sys stmt" where
  "oscillator_reset dv = block [
     hwtimer_reset dv,
     upd_timer dv (\<lambda>t. t\<lparr>tcount := reload t\<rparr>),
     with_timer dv (\<lambda>t. doif (int_dev t \<noteq> None) (upd_timer dv (\<lambda>t. t\<lparr>tflags := tflags t OR HWTF_INT\<rparr>)))]"

section \<open>The serial port on the bus\<close>

text \<open>The status poll consumes one answer of \<^verbatim>\<open>select\<close>. When the descriptor is at its end,
  \<^verbatim>\<open>read\<close> stores nothing and the code returns an uninitialised byte.\<close>

definition serial_poll :: "nat \<Rightarrow> serial_port \<Rightarrow> (sys, serial_port) expr" where
  "serial_poll dv port s =
     (let (i, ou) = (case host_sel (mch s) of [] \<Rightarrow> (False, False) | x # _ \<Rightarrow> x);
          port' = serial_update i ou port
      in Ret port' (set_priv dv (Serial_dev port') (set_mch (\<lambda>m. m\<lparr>host_sel := tl (host_sel m)\<rparr>) s)))"

definition serial_read :: "nat \<Rightarrow> serial_port \<Rightarrow> nat \<Rightarrow> (sys, u8) expr" where
  "serial_read dv port addr = bindE (serial_poll dv port) (\<lambda>port s.
     if addr = SER_DATA then
       (case serial_queue_pop port of
          Some (val, port') \<Rightarrow> Ret val (set_priv dv (Serial_dev port') s)
        | None \<Rightarrow>
            if ser_status port AND SER_STAT_READOK = 0 then Ret 0xff s
            else (case host_in (mch s) (fin port) of
                [] \<Rightarrow> UB
              | c # cs \<Rightarrow> Ret c (set_mch (\<lambda>m. m\<lparr>host_in := (host_in m)(fin port := cs)\<rparr>) s)))
     else if addr = SER_CTL_STATUS then Ret (ucast (ser_status port)) s
     else Ret 0x42 s)"

definition serial_write :: "nat \<Rightarrow> serial_port \<Rightarrow> nat \<Rightarrow> u8 \<Rightarrow> sys stmt" where
  "serial_write dv port addr val =
     (if addr = SER_DATA then assign (put_host (fout port) val)
      else if addr = SER_CTL_STATUS then assign (set_priv dv (Serial_dev (port\<lparr>ser_ctrl := ucast val\<rparr>)))
      else Ret ())"

section \<open>The disk\<close>

definition SECTOR_SIZE :: nat where "SECTOR_SIZE = 512"

text \<open>The backing file as a list of bytes: \<^verbatim>\<open>fwrite\<close> at a position, filling a gap with zeros.\<close>

definition file_write :: "u8 list \<Rightarrow> nat \<Rightarrow> u8 list \<Rightarrow> u8 list" where
  "file_write file pos data =
     take pos file @ replicate (pos - length file) 0 @ data @ drop (pos + length data) file"

definition ram_of :: "nat \<Rightarrow> sys \<Rightarrow> (nat \<times> (nat \<Rightarrow> u8) \<times> ((nat \<Rightarrow> u8) \<Rightarrow> priv)) option" where
  "ram_of dv s =
     (case dev_of dv s of
        Some d \<Rightarrow> (case dev_priv d of
            Ram_dev buf \<Rightarrow> Some (dev_size d, buf, Ram_dev)
          | Rom_dev buf \<Rightarrow> Some (dev_size d, buf, Rom_dev)
          | _ \<Rightarrow> None)
      | None \<Rightarrow> None)"

definition disk_fread :: "nat \<Rightarrow> disk_priv \<Rightarrow> sys stmt" where
  "disk_fread dv disk s =
     (case (dk_fp disk, dk_ram disk, ram_of (dk_ramdev disk) s) of
        (Some file, Some ram, Some (sz, buf, mk)) \<Rightarrow>
          let data = take SECTOR_SIZE (drop (dk_pos disk) file) in
          if ram + length data \<le> sz then
            Ret () (set_priv dv (Disk_dev (disk\<lparr>dk_pos := dk_pos disk + length data\<rparr>))
              (set_priv (dk_ramdev disk)
                (mk (\<lambda>a. if ram \<le> a \<and> a < ram + length data then data ! (a - ram) else buf a)) s))
          else UB
      | _ \<Rightarrow> UB)"

definition disk_fwrite :: "nat \<Rightarrow> disk_priv \<Rightarrow> u8 list \<Rightarrow> sys stmt" where
  "disk_fwrite dv disk data s =
     (case dk_fp disk of
        Some file \<Rightarrow> Ret () (set_priv dv (Disk_dev (disk\<lparr>
            dk_fp := Some (file_write file (dk_pos disk) data), dk_pos := dk_pos disk + length data\<rparr>)) s)
      | None \<Rightarrow> UB)"

definition disk_ctrl :: "nat \<Rightarrow> disk_priv \<Rightarrow> u8 \<Rightarrow> sys stmt" where
  "disk_ctrl dv disk val s =
     (if val AND 1 \<noteq> 0 then disk_fread dv disk s
      else if val AND 2 \<noteq> 0 then
        (case (dk_ram disk, ram_of (dk_ramdev disk) s) of
           (Some ram, Some (sz, buf, mk)) \<Rightarrow>
             if ram + SECTOR_SIZE \<le> sz then disk_fwrite dv disk (map buf [ram..<ram + SECTOR_SIZE]) s else UB
         | _ \<Rightarrow> UB)
      else if val AND 8 \<noteq> 0 then disk_fwrite dv disk (replicate SECTOR_SIZE 0xff) s
      else Ret () s)"

definition disk_write :: "nat \<Rightarrow> disk_priv \<Rightarrow> nat \<Rightarrow> u8 \<Rightarrow> sys stmt" where
  "disk_write dv disk addr val s =
     (if addr = 1 then Ret () (set_priv dv (Disk_dev (disk\<lparr>dk_ram := Some (unat val * SECTOR_SIZE)\<rparr>)) s)
      else if addr = 2 then Ret () (set_priv dv (Disk_dev (disk\<lparr>dk_offset := ucast val\<rparr>)) s)
      else if addr = 3 then
        let off = (push_bit 8 (dk_offset disk) OR ucast val) * of_nat SECTOR_SIZE in
        if dk_fp disk = None then UB
        else Ret () (set_priv dv (Disk_dev (disk\<lparr>dk_offset := off,
               dk_pos := (if sint off < 0 then dk_pos disk else unat off)\<rparr>)) s)
      else if addr = 0 then disk_ctrl dv disk val s
      else Ret () s)"

definition disk_poke :: "nat \<Rightarrow> nat \<Rightarrow> u8 \<Rightarrow> sys stmt" where
  "disk_poke dv addr val s =
     (case dev_of dv s of
        Some d \<Rightarrow> (case dev_priv d of Disk_dev disk \<Rightarrow> disk_write dv disk addr val s | _ \<Rightarrow> UB)
      | None \<Rightarrow> UB)"

definition disk_reset :: "nat \<Rightarrow> sys stmt" where
  "disk_reset dv = block [disk_poke dv 1 0, disk_poke dv 2 0, disk_poke dv 3 0, disk_poke dv 0 4]"

text \<open>\<^verbatim>\<open>disk_format\<close> erases every sector in turn.\<close>

definition disk_format :: "nat \<Rightarrow> nat \<Rightarrow> sys stmt" where
  "disk_format dv sectors = block (concat (map (\<lambda>sector. [
     disk_poke dv 2 (of_nat (sector div 256)),
     disk_poke dv 3 (of_nat (sector mod 256)),
     disk_poke dv 0 8]) [0..<sectors]) @ [disk_poke dv 0 4])"

section \<open>The I/O expander\<close>

definition NR_IOEXPAND :: nat where "NR_IOEXPAND = 16"
definition IO_WINDOW :: nat where "IO_WINDOW = 8"

definition ioexpand_read :: "(nat \<Rightarrow> nat \<Rightarrow> ('x cpu_scheme, u8) expr) \<Rightarrow> ioexpand \<Rightarrow> nat \<Rightarrow> ('x cpu_scheme, u8) expr" where
  "ioexpand_read rd iom addr =
     (let slot = addr div IO_WINDOW in
      if slot < length (ios iom) then
        (case ios iom ! slot of
           Some d \<Rightarrow> rd d (addr mod IO_WINDOW + io_offset iom ! slot)
         | None \<Rightarrow> bindE sim_error (\<lambda>_ s. UB))
      else (\<lambda>s. UB))"

definition ioexpand_write :: "(nat \<Rightarrow> nat \<Rightarrow> u8 \<Rightarrow> 'x cpu_scheme stmt) \<Rightarrow> ioexpand \<Rightarrow> nat \<Rightarrow> u8 \<Rightarrow> 'x cpu_scheme stmt" where
  "ioexpand_write wr iom addr val =
     (let slot = addr div IO_WINDOW in
      if slot < length (ios iom) then
        (case ios iom ! slot of
           Some d \<Rightarrow> wr d (addr mod IO_WINDOW + io_offset iom ! slot) val
         | None \<Rightarrow> bindE sim_error (\<lambda>_ s. UB))
      else (\<lambda>s. UB))"

definition ioexpand_reset :: "(nat \<Rightarrow> sys stmt) \<Rightarrow> ioexpand \<Rightarrow> sys stmt" where
  "ioexpand_reset rs iom = block (map (\<lambda>x. case x of Some d \<Rightarrow> rs d | None \<Rightarrow> Ret ()) (ios iom))"

definition ioexpand_attach :: "nat \<Rightarrow> nat \<Rightarrow> nat \<Rightarrow> nat \<Rightarrow> sys stmt" where
  "ioexpand_attach dv slot offset io_dev s =
     (case dev_of dv s of
        Some d \<Rightarrow> (case dev_priv d of
            Ioexpand_dev iom \<Rightarrow>
              if slot < length (ios iom) then
                Ret () (set_priv dv (Ioexpand_dev (iom\<lparr>ios := (ios iom)[slot := Some io_dev],
                  io_offset := (io_offset iom)[slot := offset]\<rparr>)) s)
              else UB
          | _ \<Rightarrow> UB)
      | None \<Rightarrow> UB)"

section \<open>Dispatch on the hardware class\<close>

primrec dev_read :: "nat \<Rightarrow> nat \<Rightarrow> nat \<Rightarrow> (sys, u8) expr" where
  "dev_read 0 dv addr = (\<lambda>s. NoFuel)"
| "dev_read (Suc n) dv addr = (\<lambda>s.
     case dev_of dv s of
       None \<Rightarrow> UB
     | Some d \<Rightarrow> (case dev_priv d of
           Null_dev \<Rightarrow> Ret 0xff s
         | Ram_dev buf \<Rightarrow> ram_read (dev_size d) buf addr s
         | Rom_dev buf \<Rightarrow> ram_read (dev_size d) buf addr s
         | Console_dev \<Rightarrow> console_read addr s
         | Mmu_dev \<Rightarrow> mmu_read addr s
         | Small_mmu_dev mmu \<Rightarrow> small_mmu_read mmu addr s
         | Imux_dev mux \<Rightarrow> imux_read mux addr s
         | Hwtimer_dev t \<Rightarrow> hwtimer_read t addr s
         | Oscillator_dev t \<Rightarrow> UB
         | Ioexpand_dev iom \<Rightarrow> ioexpand_read (dev_read n) iom addr s
         | Serial_dev port \<Rightarrow> serial_read dv port addr s
         | Disk_dev disk \<Rightarrow> Ret 0 s
         | Sdmapper_dev \<Rightarrow> UB
         | Wpc_asic_dev \<Rightarrow> wpc_asic_read addr s))"

primrec dev_write :: "nat \<Rightarrow> sys iface \<Rightarrow> nat \<Rightarrow> nat \<Rightarrow> u8 \<Rightarrow> sys stmt" where
  "dev_write 0 io dv addr val = (\<lambda>s. NoFuel)"
| "dev_write (Suc n) io dv addr val = (\<lambda>s.
     case dev_of dv s of
       None \<Rightarrow> UB
     | Some d \<Rightarrow> (case dev_priv d of
           Null_dev \<Rightarrow> Ret () s
         | Ram_dev buf \<Rightarrow> ram_write dv (dev_size d) Ram_dev buf addr val s
         | Rom_dev buf \<Rightarrow> ram_write dv (dev_size d) Rom_dev buf addr val s
         | Console_dev \<Rightarrow> console_write addr val s
         | Mmu_dev \<Rightarrow> mmu_write addr val s
         | Small_mmu_dev mmu \<Rightarrow> small_mmu_write dv mmu addr val s
         | Imux_dev mux \<Rightarrow> imux_write io dv mux addr val s
         | Hwtimer_dev t \<Rightarrow> hwtimer_write dv t addr val s
         | Oscillator_dev t \<Rightarrow> UB
         | Ioexpand_dev iom \<Rightarrow> ioexpand_write (dev_write n io) iom addr val s
         | Serial_dev port \<Rightarrow> serial_write dv port addr val s
         | Disk_dev disk \<Rightarrow> disk_write dv disk addr val s
         | Sdmapper_dev \<Rightarrow> UB
         | Wpc_asic_dev \<Rightarrow> wpc_asic_write addr val s))"

primrec dev_reset :: "nat \<Rightarrow> nat \<Rightarrow> sys stmt" where
  "dev_reset 0 dv = (\<lambda>s. NoFuel)"
| "dev_reset (Suc n) dv = (\<lambda>s.
     case dev_of dv s of
       None \<Rightarrow> UB
     | Some d \<Rightarrow> (case dev_priv d of
           Ram_dev buf \<Rightarrow> Ret () (set_priv dv (Ram_dev (\<lambda>_. 0)) s)
         | Mmu_dev \<Rightarrow> mmu_reset s
         | Small_mmu_dev mmu \<Rightarrow> small_mmu_reset dv s
         | Imux_dev mux \<Rightarrow> imux_reset dv mux s
         | Hwtimer_dev t \<Rightarrow> hwtimer_reset dv s
         | Oscillator_dev t \<Rightarrow> oscillator_reset dv s
         | Ioexpand_dev iom \<Rightarrow> ioexpand_reset (dev_reset n) iom s
         | Serial_dev port \<Rightarrow> Ret () (set_priv dv (Serial_dev (serial_reset port)) s)
         | Disk_dev disk \<Rightarrow> disk_reset dv s
         | Wpc_asic_dev \<Rightarrow> wpc_asic_reset s
         | _ \<Rightarrow> Ret () s))"

definition dev_update :: "sys iface \<Rightarrow> nat \<Rightarrow> sys stmt" where
  "dev_update io dv s =
     (case dev_of dv s of
        None \<Rightarrow> UB
      | Some d \<Rightarrow> (case dev_priv d of
            Hwtimer_dev t \<Rightarrow> hwtimer_update io dv s
          | Oscillator_dev t \<Rightarrow> hwtimer_update io dv s
          | _ \<Rightarrow> Ret () s))"

text \<open>No expander chain without a cycle is longer than the device table.\<close>

definition DEV_FUEL :: nat where "DEV_FUEL = Suc MAX_BUS_DEVICES"

end
