(* ===== verification/Cpu_Progress.thy ===== *)
theory Cpu_Progress
  imports Cpu_Exec
begin

text \<open>
  Every instruction consumes cycles, so the main loop of \<^verbatim>\<open>cpu_execute\<close> ends. The locale
  \<open>clocked_bus\<close> states what the processor relies on: in the states of interest (a predicate
  \<open>ok\<close> on the part of the state that belongs to the bus and the debugger) the bus returns
  without running out of fuel, never gives cycles back, and does not touch the debugger's
  switches. Its lemmas follow the structure of the code.
\<close>

section \<open>Statements that cost cycles\<close>

definition calm :: "('x \<Rightarrow> bool) \<Rightarrow> 'x cpu_scheme \<Rightarrow> bool" where
  "calm ok s \<longleftrightarrow> ok (cpu.more s) \<and> \<not> debug_enabled s"

definition spends :: "('x \<Rightarrow> bool) \<Rightarrow> int \<Rightarrow> 'x cpu_scheme \<Rightarrow> 'x cpu_scheme \<Rightarrow> bool" where
  "spends ok n s t \<longleftrightarrow> calm ok t \<and> monitor_on t = monitor_on s
     \<and> cpu_period t = cpu_period s \<and> cpu_clk t \<le> cpu_clk s - n"

definition costs :: "('x \<Rightarrow> bool) \<Rightarrow> int \<Rightarrow> ('x cpu_scheme, 'a) expr \<Rightarrow> bool" where
  "costs ok n m \<longleftrightarrow> obeys (calm ok) (spends ok n) m"

named_theorems cost_rules

lemma spends_calm: "spends ok n s t \<Longrightarrow> calm ok t"
  by (simp add: spends_def)

lemma spends_trans: "spends ok i s t \<Longrightarrow> spends ok j t u \<Longrightarrow> spends ok (i + j) s u"
  by (simp add: spends_def)

lemma spends_mono: "spends ok n s t \<Longrightarrow> k \<le> n \<Longrightarrow> spends ok k s t"
  by (simp add: spends_def)

lemma costs_weaken: "costs ok n m \<Longrightarrow> k \<le> n \<Longrightarrow> costs ok k m"
  unfolding costs_def by (erule obeys_weaken) (rule spends_mono)

lemma costs_bindE: "costs ok i m \<Longrightarrow> (\<And>x. costs ok j (f x)) \<Longrightarrow> costs ok (i + j) (bindE m f)"
  unfolding costs_def by (erule obeys_bindE) (blast intro: spends_calm spends_trans)+

lemma costs_then: "costs ok n e \<Longrightarrow> (\<And>v. costs ok 0 (f v)) \<Longrightarrow> costs ok n (bindE e f)"
  using costs_bindE [of ok n e 0 f] by simp

lemma costs_Nil: "costs ok 0 (block [])"
  by (simp add: costs_def obeys_def spends_def)

lemma costs_Cons: "costs ok i m \<Longrightarrow> costs ok j (block ms) \<Longrightarrow> costs ok (i + j) (block (m # ms))"
  unfolding block_Cons_bindE by (rule costs_bindE)

lemmas nonneg = add_nonneg_nonneg zero_le_numeral zero_le_one order_refl

lemma costs_if:
  "costs ok i m1 \<Longrightarrow> costs ok i m2 \<Longrightarrow> costs ok i (\<lambda>s. if b s then m1 s else m2 s)"
  unfolding costs_def by (rule obeys_if)

lemma costs_of_state: "(\<And>u. costs ok i (m u)) \<Longrightarrow> costs ok i (\<lambda>s. m (f s) s)"
  unfolding costs_def by (rule obeys_of_state)

lemma costs_of_pair: "(\<And>u v. costs ok i (m u v)) \<Longrightarrow> costs ok i (\<lambda>s. m (f s) (g s) s)"
  by (simp add: costs_def obeys_def)

lemma costs_Ret: "costs ok 0 (Ret x)"
  by (simp add: costs_def obeys_def spends_def)

lemma costs_doif: "costs ok i m \<Longrightarrow> 0 \<le> i \<Longrightarrow> costs ok 0 (doif b m)"
  using costs_weaken [of ok i m 0] costs_Ret [of ok "()"] by (cases b) (simp_all add: doif_def costs_def obeys_def)

lemma costs_clk: "costs ok n (clk n)"
  by (simp add: costs_def obeys_def clk_def spends_def calm_def)

lemma costs_sim_error: "costs ok n sim_error"
  by (simp add: costs_def obeys_def sim_error_def calm_def)

lemma costs_assign:
  assumes "\<And>s. calm ok s \<Longrightarrow> spends ok n s (f s)"
  shows "costs ok n (assign f)"
  using assms by (simp add: costs_def obeys_def assign_def)

lemma costs_switch:
  assumes "\<forall>p \<in> set tab. costs ok n (snd p)" "costs ok n dflt"
  shows "costs ok n (switch tab dflt k)"
  using assms by (rule switch_cases)


section \<open>Arithmetic\<close>

lemma alu_spends:
  assumes "calm ok s"
  shows "spends ok 2 s (snd (asl v s))" "spends ok 2 s (snd (asr v s))" "spends ok 2 s (snd (clr v s))"
    "spends ok 2 s (snd (com v s))" "spends ok 2 s (snd (dec v s))" "spends ok 2 s (snd (inc v s))"
    "spends ok 2 s (snd (lsr v s))" "spends ok 2 s (snd (neg v s))" "spends ok 2 s (snd (rol v s))"
    "spends ok 2 s (snd (ror v s))" "spends ok 2 s (tst v s)"
    "spends ok 0 s (snd (adc a v s))" "spends ok 0 s (snd (add a v s))" "spends ok 0 s (snd (and8 a v s))"
    "spends ok 0 s (snd (eor a v s))" "spends ok 0 s (snd (or8 a v s))" "spends ok 0 s (snd (sbc a v s))"
    "spends ok 0 s (snd (sub8 a v s))" "spends ok 0 s (snd (ld v s))" "spends ok 0 s (snd (ld16 v s))"
    "spends ok 0 s (bit8 a v s)" "spends ok 0 s (cmp a v s)" "spends ok 0 s (cmp16 a v s)"
    "spends ok 0 s (addd v s)" "spends ok 0 s (subd v s)" "spends ok 0 s (ldd v s)"
  using assms
  by (simp_all add: spends_def calm_def asl_def asr_def clr_def com_def dec_def inc_def lsr_def neg_def
      rol_def ror_def tst_def adc_def add_def and8_def eor_def or8_def sbc_def sub8_def ld_def ld16_def
      bit8_def cmp_def cmp16_def addd_def subd_def ldd_def Let_def)

lemma spends_set:
  assumes "calm ok s"
  shows "spends ok 0 s (s\<lparr>rX := x\<rparr>)" "spends ok 0 s (s\<lparr>rY := x\<rparr>)" "spends ok 0 s (s\<lparr>rU := x\<rparr>)"
    "spends ok 0 s (s\<lparr>rS := x\<rparr>)" "spends ok 0 s (s\<lparr>rPC := x\<rparr>)" "spends ok 0 s (s\<lparr>rA := x\<rparr>)"
    "spends ok 0 s (s\<lparr>rB := x\<rparr>)" "spends ok 0 s (s\<lparr>rDP := x\<rparr>)" "spends ok 0 s (s\<lparr>ea := x\<rparr>)"
    "spends ok 0 s (s\<lparr>rX := x, fZ := y\<rparr>)" "spends ok 0 s (s\<lparr>rY := x, fZ := y\<rparr>)"
    "spends ok 0 s (s\<lparr>ea := x, rPC := y\<rparr>)"
    "spends ok 0 s (s\<lparr>EFI := x\<rparr>)" "spends ok 0 s (s\<lparr>iPC := x\<rparr>)" "spends ok 0 s (s\<lparr>irqs_pending := x\<rparr>)"
    "spends ok 0 s (s\<lparr>firqs_pending := x\<rparr>)" "spends ok 0 s (s\<lparr>irq_start_time := xx\<rparr>)"
    "spends ok 0 s (s\<lparr>cc_changed := b\<rparr>)" "spends ok 0 s (s\<lparr>cwai_state := i\<rparr>)"
    "spends ok 0 s (s\<lparr>fN := x, fZ := y, fOV := z\<rparr>)" "spends ok 0 s (s\<lparr>fZ := x, fN := y, fOV := z\<rparr>)"
    "spends ok 0 s (set_cc x s)" "spends ok 0 s (set_reg n x s)" "spends ok 0 s (set_index_reg n x s)"
  using assms
  by (simp_all add: spends_def calm_def set_cc_def set_reg_def set_index_reg_def)

lemma spends_then:
  assumes "spends ok n s t"
  shows "spends ok n s (t\<lparr>rA := x\<rparr>)" "spends ok n s (t\<lparr>rB := x\<rparr>)"
  using assms by (simp_all add: spends_def calm_def)

lemma costs_op1:
  assumes "\<And>v s. calm ok s \<Longrightarrow> spends ok n s (snd (f v s))"
  shows "costs ok n (op1_A f)" "costs ok n (op1_B f)"
  using assms by (simp_all add: costs_def obeys_def op1_A_def op1_B_def spends_then split: prod.split)
    (metis snd_conv spends_then)+

lemma costs_op2:
  assumes "\<And>a v s. calm ok s \<Longrightarrow> spends ok 0 s (snd (f a v s))" "costs ok n e"
  shows "costs ok n (op2_A f e)" "costs ok n (op2_B f e)"
  unfolding op2_A_def op2_B_def
  by (rule costs_then [OF assms(2)], rule costs_op1, erule assms(1))+

lemma costs_ld:
  assumes "costs ok n e"
  shows "costs ok n (ld_A e)" "costs ok n (ld_B e)"
  unfolding ld_A_def ld_B_def by (rule costs_then [OF assms], rule costs_op1, erule alu_spends)+

lemma costs_ld_16:
  assumes "\<And>v s. calm ok s \<Longrightarrow> spends ok 0 s (upd v s)" "costs ok n e"
  shows "costs ok n (ld_16 upd e)"
proof -
  have "spends ok 0 s (upd v (snd (ld16 v s)))" if "calm ok s" for v s
    using spends_trans [OF alu_spends(20) [OF that, of v] assms(1) [OF spends_calm [OF alu_spends(20) [OF that, of v]], of v]]
    by simp
  then have "costs ok 0 (\<lambda>s. let (r, t) = ld16 v s in Ret () (upd r t))" for v
    by (simp add: costs_def obeys_def ld16_def)
  then show ?thesis
    unfolding ld_16_def by (intro costs_then assms)
qed

lemma costs_assign_then:
  assumes "costs ok n e" "\<And>v s. calm ok s \<Longrightarrow> spends ok 0 s (f v s)"
  shows "costs ok n (bindE e (\<lambda>v. assign (f v)))"
  using assms by (intro costs_then costs_assign)

lemma costs_cmp:
  assumes "\<And>a v s. calm ok s \<Longrightarrow> spends ok 0 s (f a v s)" "costs ok n e"
  shows "costs ok n (cmp_A f e)" "costs ok n (cmp_B f e)"
  unfolding cmp_A_def cmp_B_def by (rule costs_assign_then [OF assms(2)], erule assms(1))+

lemma costs_cmp_16: "costs ok n e \<Longrightarrow> costs ok n (cmp_16 r e)"
  unfolding cmp_16_def by (intro costs_assign_then alu_spends)

lemma costs_op_D:
  assumes "\<And>v s. calm ok s \<Longrightarrow> spends ok 0 s (f v s)" "costs ok n e"
  shows "costs ok n (op_D f e)"
  unfolding op_D_def using assms by (intro costs_assign_then)

lemma costs_change_pc: "costs ok 0 (change_pc x)"
  by (simp add: costs_def obeys_def change_pc_def spends_set)

lemma costs_set_ea: "costs ok 0 (set_ea f)"
  by (simp add: costs_def obeys_def set_ea_def spends_set)

lemma costs_step_index: "costs ok 0 (step_index r d)"
  by (simp add: costs_def obeys_def step_index_def spends_set)

lemma costs_implied:
  "costs ok 2 nop" "costs ok 2 daa" "costs ok 2 sex" "costs ok 3 abx" "costs ok 11 mul"
  by (simp_all add: costs_def obeys_def nop_def clk_def daa_def sex_def abx_def mul_def Let_def spends_def calm_def)

lemma costs_sync: "costs ok 4 sync"
  unfolding sync_def using costs_Cons [OF costs_clk costs_Cons [OF costs_sim_error [of ok 0] costs_Nil], of 4]
  by simp

lemma costs_exit_irq_hook: "costs ok 0 (command_exit_irq_hook c)"
  by (simp add: costs_def obeys_def command_exit_irq_hook_def Let_def spends_def calm_def)

lemma costs_release: "costs ok 0 (release_irq n)" "costs ok 0 (release_firq n)"
  by (simp_all add: costs_def obeys_def release_irq_def release_firq_def spends_set)

lemma costs_invalid_opcode: "costs ok 1 invalid_opcode"
  unfolding costs_def obeys_def by (auto simp: invalid_opcode_def clk_def sim_error_def calm_def)

lemmas cost_leaves = costs_clk costs_sim_error costs_Ret costs_change_pc costs_set_ea costs_step_index
  costs_implied costs_sync costs_exit_irq_hook costs_release

section \<open>Over a bus that gives no cycles back\<close>

locale clocked_bus =
  fixes io :: "'x cpu_scheme iface" and ok :: "'x \<Rightarrow> bool"
  assumes costs_read8: "costs ok 0 (read8 io a)"
    and costs_read16: "costs ok 0 (read16 io a)"
    and costs_write8: "costs ok 0 (write8 io a v)"
    and costs_insn_hook: "costs ok 0 (insn_hook io)"
    and costs_check_break: "costs ok 0 (check_break io)"
    and no_break: "calm ok s \<Longrightarrow> check_break io s = Ret b t \<Longrightarrow> \<not> b"
begin

lemma costs_rd: "costs ok 0 (rd8 io a)" "costs ok 0 (rd16 io a)"
  unfolding rd8_def rd16_def by (intro costs_then costs_read8 costs_read16 costs_Ret)+

lemma costs_imm: "costs ok 0 (imm_byte io)" "costs ok 0 (imm_word io)"
proof -
  have *: "costs ok 0 (\<lambda>s. Ret v (s\<lparr>rPC := rPC s + d\<rparr>))" for v d :: u32
    by (simp add: costs_def obeys_def spends_set)
  show "costs ok 0 (imm_byte io)" "costs ok 0 (imm_word io)"
    unfolding imm_byte_def imm_word_def
    by (rule costs_of_state, rule costs_then [OF costs_rd(1)] costs_then [OF costs_rd(2)], rule *)+
qed

lemma costs_mem: "costs ok 0 (RDMEM io a)" "costs ok 0 (WRMEM io a v)" "costs ok 0 (write_stack io a v)"
  "costs ok 0 (read_stack io a)"
  unfolding RDMEM_def WRMEM_def write_stack_def read_stack_def by (rule costs_rd costs_write8)+

lemma costs_mem8: "costs ok 0 (mem8 io)"
  unfolding mem8_def by (rule costs_of_state, rule costs_mem)

lemma costs_mem16: "costs ok 1 (RDMEM16 io a)" "costs ok 1 (mem16 io)"
proof -
  show *: "costs ok 1 (RDMEM16 io a)" for a
    unfolding RDMEM16_def
    by (rule costs_weaken, (rule costs_bindE costs_mem costs_clk costs_Ret)+, simp)
  show "costs ok 1 (mem16 io)" unfolding mem16_def by (rule costs_of_state, rule *)
qed

lemmas cost_steps = costs_Cons costs_Nil cost_leaves costs_mem costs_mem8 costs_mem16 costs_imm costs_rd

lemma costs_WRMEM16: "costs ok 1 (WRMEM16 io a v)"
  unfolding WRMEM16_def by (rule costs_weaken, (rule cost_steps)+, simp)

lemma costs_stack16: "costs ok 0 (write_stack16 io a v)" "costs ok 0 (read_stack16 io a)"
  unfolding write_stack16_def read_stack16_def
  by (rule costs_weaken, (rule costs_bindE cost_steps)+, simp)+

lemma costs_modes: "costs ok 0 (direct io)" "costs ok 0 (extended io)"
  unfolding direct_def extended_def
  by (rule costs_of_state, rule costs_assign_then, rule costs_rd, erule spends_set)+

lemma costs_indirect: "costs ok 2 (indirect io)"
proof -
  have "costs ok 1 (\<lambda>s. bindE (RDMEM16 io (ea s)) (\<lambda>v. set_ea (\<lambda>s. v)) s)"
    by (rule costs_of_state, rule costs_then, rule costs_mem16, rule costs_set_ea)
  then show ?thesis
    unfolding indirect_def by (rule costs_weaken [OF costs_Cons]) (rule cost_steps | simp)+
qed

lemma costs_index_offsets:
  "costs ok 0 (index_offset8 io r)" "costs ok 0 (index_offset16 io r)" "costs ok 0 (index_pc8 io)" "costs ok 0 (index_pc16 io)"
  "costs ok 0 (bindE (imm_word io) (\<lambda>v. set_ea (\<lambda>s. v)))"
  unfolding index_offset8_def index_offset16_def index_pc8_def index_pc16_def
  by (rule costs_weaken, (rule costs_then cost_steps)+, simp)+

lemma costs_index_table: "\<forall>p \<in> set (index_table io r). costs ok 4 (snd p)"
  unfolding index_table_def list.set ball_simps snd_conv
  by (intro conjI TrueI; rule costs_weaken, (rule cost_steps costs_index_offsets costs_indirect)+, simp)

lemma costs_indexed: "costs ok 4 (indexed io)"
proof -
  have inv: "costs ok 4 (block [set_ea (\<lambda>s. 0), sim_error])"
    by (rule costs_weaken [of _ 4], rule costs_Cons [of _ 0, simplified], (rule costs_set_ea costs_Cons [of _ 4 _ 0, simplified] costs_sim_error costs_Nil)+, simp)
  have five: "costs ok 4 (block [set_ea f, clk 5])" for f
    by (rule costs_weaken, (rule cost_steps)+, simp)
  show ?thesis
    unfolding indexed_def Let_def
    by (rule costs_bindE [OF costs_imm(1), of 4, simplified])
      (simp add: five costs_switch [OF costs_index_table inv])
qed

lemma costs_transfer: "costs ok 8 (exg io)" "costs ok 6 (tfr io)"
proof -
  have b8: "costs ok 8 (block [assign (set_reg a v), assign (set_reg b w), clk 8])" for a b v w
    by (rule costs_weaken, (rule cost_steps costs_assign | erule spends_set)+, simp)
  have "costs ok 8 (\<lambda>s. block [assign (set_reg a (g s)), assign (set_reg b (h s)), clk 8] s)" for a b g h
    by (rule costs_of_pair [where m = "\<lambda>v w. block [assign (set_reg a v), assign (set_reg b w), clk 8]"], rule b8)
  then show "costs ok 8 (exg io)"
    unfolding exg_def Let_def by (rule costs_bindE [OF costs_imm(1), of 8, simplified])
  have b6: "costs ok 6 (block [assign (set_reg a v), clk 6])" for a v
    by (rule costs_weaken, (rule cost_steps costs_assign | erule spends_set)+, simp)
  have "costs ok 6 (\<lambda>s. block [assign (set_reg a (g s)), clk 6] s)" for a g
    by (rule costs_of_state [where m = "\<lambda>v. block [assign (set_reg a v), clk 6]"], rule b6)
  then show "costs ok 6 (tfr io)"
    unfolding tfr_def Let_def by (rule costs_bindE [OF costs_imm(1), of 6, simplified])
qed

lemma costs_store: "costs ok 0 (st io v)" "costs ok 1 (st16 io v)" "costs ok 1 (std io)"
proof -
  have 8: "costs ok 0 (\<lambda>s. WRMEM io (ea s) v s)" for v
    by (rule costs_of_state, rule costs_mem)
  have 16: "costs ok 1 (\<lambda>s. WRMEM16 io (ea s) v s)" for v
    by (rule costs_of_state, rule costs_WRMEM16)
  show "costs ok 0 (st io v)"
    unfolding st_def by (rule costs_weaken, (rule costs_Cons costs_Nil costs_assign 8 | erule spends_set)+, simp)
  show "costs ok 1 (st16 io v)"
    unfolding st16_def by (rule costs_weaken, (rule costs_Cons costs_Nil costs_assign 16 | erule spends_set)+, simp)
  have "costs ok 1 (block [assign (\<lambda>s. s\<lparr>fZ := r, fN := rA s, fOV := 0\<rparr>), \<lambda>s. WRMEM16 io (ea s) r s])" for r
    by (rule costs_weaken, (rule costs_Cons costs_Nil costs_assign 16 | erule spends_set)+, simp)
  then show "costs ok 1 (std io)"
    unfolding std_def Let_def by (rule costs_of_state)
qed

lemma costs_push:
  "costs ok 0 (push_s8 io f)" "costs ok 0 (push_u8 io f)" "costs ok 0 (push_s16 io f)" "costs ok 0 (push_u16 io f)"
proof -
  have 8: "costs ok 0 (\<lambda>s. write_stack io (g s) (f s) s)" for g f
    by (rule costs_of_pair, rule costs_mem)
  have 16: "costs ok 0 (\<lambda>s. write_stack16 io (g s) (f s) s)" for g f
    by (rule costs_of_pair, rule costs_stack16)
  show "costs ok 0 (push_s8 io f)" "costs ok 0 (push_u8 io f)" "costs ok 0 (push_s16 io f)" "costs ok 0 (push_u16 io f)"
    unfolding push_s8_def push_u8_def push_s16_def push_u16_def
    by (rule costs_weaken, (rule costs_Cons costs_Nil costs_assign 8 16 | erule spends_set)+, simp)+
qed

lemma costs_pull:
  assumes "\<And>v s. calm ok s \<Longrightarrow> spends ok 0 s (f v s)"
  shows "costs ok 0 (pull_s8 io f)" "costs ok 0 (pull_u8 io f)" "costs ok 0 (pull_s16 io f)" "costs ok 0 (pull_u16 io f)"
proof -
  have 8: "costs ok 0 (\<lambda>s. bindE (read_stack io (g s)) (\<lambda>v. assign (f v)) s)" for g
    by (rule costs_of_state, rule costs_assign_then, rule costs_mem, erule assms)
  have 16: "costs ok 0 (\<lambda>s. bindE (read_stack16 io (g s)) (\<lambda>v. assign (f v)) s)" for g
    by (rule costs_of_state, rule costs_assign_then, rule costs_stack16, erule assms)
  show "costs ok 0 (pull_s8 io f)" "costs ok 0 (pull_u8 io f)" "costs ok 0 (pull_s16 io f)" "costs ok 0 (pull_u16 io f)"
    unfolding pull_s8_def pull_u8_def pull_s16_def pull_u16_def
    by (rule costs_weaken, (rule costs_Cons costs_Nil costs_assign 8 16 | erule spends_set)+, simp)+
qed

lemma costs_stack_instructions:
  "costs ok 5 (pshs io)" "costs ok 5 (pshu io)" "costs ok 5 (puls io)" "costs ok 5 (pulu io)"
  unfolding pshs_def pshu_def puls_def pulu_def
  by (rule costs_bindE [OF costs_imm(1), of 5, simplified], rule costs_weaken,
    (rule cost_steps costs_doif nonneg costs_push costs_pull | erule spends_set)+, simp)+

lemma costs_stack_machine_state: "costs ok 6 (stack_machine_state io full)"
proof -
  have *: "costs ok 6 (if full then block [clk 19, assign (\<lambda>s. s\<lparr>EFI := EFI s OR E_FLAG\<rparr>)]
      else block [clk 6, assign (\<lambda>s. s\<lparr>EFI := EFI s AND NOT E_FLAG\<rparr>)])"
    by (cases full; simp only: if_True if_False, rule costs_weaken,
      (rule cost_steps costs_assign | erule spends_set)+, simp)
  show ?thesis
    unfolding stack_machine_state_def
    by (rule costs_weaken [OF costs_Cons [OF *]], (rule cost_steps costs_doif nonneg costs_push)+, simp)
qed

lemma costs_goto_vector: "costs ok 0 (goto_vector io a)"
  unfolding goto_vector_def by (rule costs_then, rule costs_rd, rule costs_change_pc)

lemma costs_irq: "costs ok 0 (irq io)" "costs ok 0 (firq io)"
proof -
  have *: "costs ok 0 (\<lambda>s. if cwai_state s = CWAI_STATE_WAIT
      then Ret () (s\<lparr>cwai_state := CWAI_STATE_IDLE\<rparr>) else stack_machine_state io full s)" for full
    by (rule costs_if [OF _ costs_weaken [OF costs_stack_machine_state]])
      (simp_all add: costs_def obeys_def spends_set)
  show "costs ok 0 (irq io)" "costs ok 0 (firq io)"
    unfolding irq_def firq_def
    by (rule costs_weaken [OF costs_Cons [OF *]], (rule cost_steps costs_assign costs_goto_vector | erule spends_set)+, simp)+
qed

lemma costs_swi: "costs ok 6 (swi io)" "costs ok 6 (swi2 io)" "costs ok 6 (swi3 io)"
  unfolding swi_def swi2_def swi3_def
  by (rule costs_weaken,
    (rule cost_steps costs_assign costs_goto_vector costs_stack_machine_state | erule spends_set)+, simp)+

lemma costs_cwai: "costs ok 1 (cwai io)"
proof -
  have efi: "costs ok 0 (bindE (imm_byte io) (\<lambda>v. assign (\<lambda>s. s\<lparr>EFI := EFI s AND INT8 v\<rparr>)))"
    by (rule costs_assign_then, rule costs_imm, erule spends_set)
  have pc: "costs ok 0 (\<lambda>s. change_pc (f s) s)" for f
    by (rule costs_of_state, rule costs_change_pc)
  have idle: "costs ok 1 (block [
        bindE (imm_byte io) (\<lambda>v. assign (\<lambda>s. s\<lparr>EFI := EFI s AND INT8 v\<rparr>)), clk 1, stack_machine_state io True,
        assign (\<lambda>s. s\<lparr>cwai_state := CWAI_STATE_WAIT\<rparr>), \<lambda>s. change_pc (rPC s - 2) s])"
    by (rule costs_weaken, (rule efi pc cost_steps costs_assign costs_stack_machine_state | erule spends_set)+, simp)
  have wait: "costs ok 1 (block [clk 1, \<lambda>s. change_pc (rPC s - 1) s])"
    by (rule costs_weaken, (rule pc cost_steps)+, simp)
  show ?thesis
    unfolding cwai_def by (rule costs_if [OF idle costs_if [OF wait costs_sim_error]])
qed

lemma costs_rti: "costs ok 6 (rti io)"
proof -
  have 1: "costs ok 0 (\<lambda>s. command_exit_irq_hook (get_cycles s - irq_start_time s) s)"
    by (rule costs_of_state, rule costs_exit_irq_hook)
  have 2: "costs ok 0 (\<lambda>s. doif (EFI s AND E_FLAG \<noteq> 0) m s)" if "costs ok i m" "0 \<le> i" for m i
    by (rule costs_of_state [where m = "\<lambda>b. doif b m"], rule costs_doif [OF that])
  show ?thesis
    unfolding rti_def
    by (rule costs_weaken, (rule 1 2 nonneg cost_steps costs_pull | erule spends_set)+, simp)
qed

lemma costs_rts: "costs ok 5 (rts io)"
  unfolding rts_def by (rule costs_weaken, (rule cost_steps costs_pull | erule spends_set)+, simp)

lemma costs_cc: "costs ok 3 (orcc io)" "costs ok 3 (andcc io)"
  unfolding orcc_def andcc_def
  by (rule costs_bindE [OF costs_imm(1), of 3, simplified], rule costs_weaken,
    (rule cost_steps costs_assign | erule spends_set)+, simp)+

lemma costs_cc_modified: "costs ok 0 (cc_modified io)"
proof -
  have *: "costs ok 0 (\<lambda>s. if firqs_pending s \<noteq> 0 \<and> EFI s AND F_FLAG = 0 then firq io s
         else if irqs_pending s \<noteq> 0 \<and> EFI s AND I_FLAG = 0 then irq io s else Ret () s)"
    by (rule costs_if [OF costs_irq(2) costs_if [OF costs_irq(1) costs_Ret]])
  show ?thesis
    unfolding cc_modified_def
    by (rule costs_weaken [OF costs_Cons [OF *]], (rule cost_steps costs_assign | erule spends_set)+, simp)
qed

lemma costs_request: "costs ok 0 (request_irq io n)" "costs ok 0 (request_firq io n)"
proof -
  have *: "costs ok 0 (\<lambda>s. doif (b s) m s)" if "costs ok 0 m" for m b
    by (rule costs_of_state [where m = "\<lambda>b. doif b m"], rule costs_doif [OF that]) simp
  have ub: "costs ok 0 (\<lambda>s. UB)" by (simp add: costs_def obeys_def)
  show "costs ok 0 (request_irq io n)" "costs ok 0 (request_firq io n)"
    unfolding request_irq_def request_firq_def
    by (rule costs_if [OF _ ub], rule costs_weaken,
      (rule cost_steps costs_assign * costs_irq | erule spends_set)+, simp)+
qed

lemma costs_bra: "costs ok 0 (bra io)" "costs ok 0 (long_bra io)"
proof -
  have pc: "costs ok 0 (\<lambda>s. change_pc (f s) s)" for f
    by (rule costs_of_state, rule costs_change_pc)
  show "costs ok 0 (bra io)" "costs ok 0 (long_bra io)"
    unfolding bra_def long_bra_def by (rule costs_then, rule costs_imm, rule pc)+
qed

lemma costs_branches:
  "costs ok 3 (branch io c)" "costs ok 5 (long_branch io c)" "costs ok 7 (bsr io)" "costs ok 9 (long_bsr io)" "costs ok 0 (jsr io)"
proof -
  have pc: "costs ok 0 (\<lambda>s. change_pc (f s) s)" for f
    by (rule costs_of_state, rule costs_change_pc)
  have ea: "costs ok 0 (bindE (imm_byte io) (\<lambda>v. set_ea (g v)))" "costs ok 0 (bindE (imm_word io) (\<lambda>v. set_ea (g v)))" for g
    by (rule costs_then, rule costs_imm, rule costs_set_ea)+
  have "costs ok 0 (\<lambda>s. if c s then bra io s else change_pc (rPC s + 1) s)"
    by (rule costs_if [OF costs_bra(1) pc])
  then show "costs ok 3 (branch io c)"
    unfolding branch_def by (rule costs_weaken [OF costs_Cons]) (rule cost_steps | simp)+
  have "costs ok 5 (block [long_bra io, clk 6])" "costs ok 5 (block [\<lambda>s. change_pc (rPC s + 2) s, clk 5])"
    by (rule costs_weaken, (rule cost_steps costs_bra pc)+, simp)+
  then show "costs ok 5 (long_branch io c)"
    unfolding long_branch_def by (rule costs_if)
  show "costs ok 7 (bsr io)" "costs ok 9 (long_bsr io)" "costs ok 0 (jsr io)"
    unfolding bsr_def long_bsr_def jsr_def
    by (rule costs_weaken, (rule ea pc cost_steps costs_push)+, simp)+
qed

lemma costs_rmw:
  assumes "\<And>v s. calm ok s \<Longrightarrow> spends ok n s (snd (f v s))"
  shows "costs ok n (rmw io f)"
proof -
  have w: "costs ok 0 (\<lambda>t. WRMEM io (ea t) r t)" for r
    by (rule costs_of_state, rule costs_mem)
  have "costs ok n (\<lambda>s. let (r, t) = f v s in WRMEM io (ea t) r t)" for v
    unfolding costs_def
  proof (rule obeysI)
    fix s assume s: "calm ok s"
    note sp = assms [OF s, of v]
    show "(let (r, t) = f v s in WRMEM io (ea t) r t) \<noteq> NoFuel"
      using obeys_NoFuel [OF w [unfolded costs_def] spends_calm [OF sp]] by (simp add: split_beta)
    fix x t assume "(let (r, t) = f v s in WRMEM io (ea t) r t) = Ret x t"
    then have "WRMEM io (ea (snd (f v s))) (fst (f v s)) (snd (f v s)) = Ret x t" by (simp add: split_beta)
    from obeysD [OF w [unfolded costs_def] spends_calm [OF sp] this] spends_trans [OF sp]
    show "spends ok n s t" by fastforce
  qed
  then show ?thesis
    unfolding rmw_def by (rule costs_bindE [OF costs_mem8, of n, simplified])
qed

lemma costs_tst_mem: "costs ok 2 (tst_mem io)"
proof -
  have "costs ok 2 (assign (tst v))" for v by (rule costs_assign, erule alu_spends)
  then show ?thesis unfolding tst_mem_def by (rule costs_bindE [OF costs_mem8, of 2, simplified])
qed

lemma costs_put: "costs ok 0 (\<lambda>s. st io (f s) s)" "costs ok 1 (\<lambda>s. st16 io (f s) s)"
  by (rule costs_of_state, rule costs_store)+

lemmas cost_cases = cost_steps costs_modes costs_indexed costs_transfer costs_store costs_put
  costs_stack_instructions costs_swi costs_cwai costs_rti costs_rts costs_cc costs_bra costs_branches
  costs_rmw costs_tst_mem costs_op1 costs_op2 costs_ld costs_cmp costs_cmp_16 costs_op_D costs_ld_16
  costs_assign

lemma costs_page_tables:
  "\<forall>p \<in> set (page2_20_table io). costs ok 1 (snd p)"
  "\<forall>p \<in> set (page2_80_table io). costs ok 1 (snd p)"
  "\<forall>p \<in> set (page3_table io). costs ok 1 (snd p)"
  unfolding page2_20_table_def page2_80_table_def page3_table_def list.set ball_simps snd_conv
  by (intro conjI TrueI; rule costs_weaken, (rule cost_cases | erule alu_spends spends_set)+, simp)+

lemma costs_pages: "costs ok 1 (page2 io)" "costs ok 1 (page3 io)"
proof -
  have "\<forall>p \<in> set (page2_20_table io @ page2_80_table io). costs ok 1 (snd p)"
    using costs_page_tables(1,2) by (simp only: set_append ball_Un)
  then have "costs ok 1 (switch (page2_20_table io @ page2_80_table io) sim_error x)" for x
    by (rule costs_switch) (rule costs_sim_error)
  then show "costs ok 1 (page2 io)"
    unfolding page2_def by (rule costs_bindE [OF costs_imm(1), of 1, simplified])
  have "costs ok 1 (switch (page3_table io) sim_error x)" for x
    by (rule costs_switch [OF costs_page_tables(3) costs_sim_error])
  then show "costs ok 1 (page3 io)"
    unfolding page3_def by (rule costs_bindE [OF costs_imm(1), of 1, simplified])
qed

lemma costs_op_tables:
  "\<forall>p \<in> set (op_00_table io). costs ok 1 (snd p)"
  "\<forall>p \<in> set (op_10_table io). costs ok 1 (snd p)"
  "\<forall>p \<in> set (op_20_table io). costs ok 1 (snd p)"
  "\<forall>p \<in> set (op_30_table io). costs ok 1 (snd p)"
  "\<forall>p \<in> set (op_40_table io). costs ok 1 (snd p)"
  "\<forall>p \<in> set (op_50_table io). costs ok 1 (snd p)"
  "\<forall>p \<in> set (op_60_table io). costs ok 1 (snd p)"
  "\<forall>p \<in> set (op_70_table io). costs ok 1 (snd p)"
  "\<forall>p \<in> set (op_80_table io). costs ok 1 (snd p)"
  "\<forall>p \<in> set (op_90_table io). costs ok 1 (snd p)"
  "\<forall>p \<in> set (op_a0_table io). costs ok 1 (snd p)"
  "\<forall>p \<in> set (op_b0_table io). costs ok 1 (snd p)"
  "\<forall>p \<in> set (op_c0_table io). costs ok 1 (snd p)"
  "\<forall>p \<in> set (op_d0_table io). costs ok 1 (snd p)"
  "\<forall>p \<in> set (op_e0_table io). costs ok 1 (snd p)"
  "\<forall>p \<in> set (op_f0_table io). costs ok 1 (snd p)"
  unfolding op_00_table_def op_10_table_def op_20_table_def op_30_table_def op_40_table_def
    op_50_table_def op_60_table_def op_70_table_def op_80_table_def op_90_table_def op_a0_table_def
    op_b0_table_def op_c0_table_def op_d0_table_def op_e0_table_def op_f0_table_def
    list.set ball_simps snd_conv
  by (intro conjI TrueI; rule costs_weaken, (rule cost_cases | erule alu_spends spends_set)+, simp)+

lemma costs_opcode_table: "\<forall>p \<in> set (opcode_table io). costs ok 1 (snd p)"
  unfolding opcode_table_def set_append ball_Un list.set ball_simps snd_conv
  by (intro conjI TrueI costs_op_tables costs_pages)

lemma costs_exec_insn: "costs ok 1 (exec_insn io)"
proof -
  have op: "costs ok 1 (bindE (imm_byte io) (switch (opcode_table io) invalid_opcode))"
    by (rule costs_bindE [OF costs_imm(1), of 1, simplified])
      (rule costs_switch [OF costs_opcode_table costs_invalid_opcode])
  have cc: "costs ok 0 (\<lambda>s. doif (cc_changed s) (cc_modified io) s)"
    by (rule costs_of_state [where m = "\<lambda>b. doif b (cc_modified io)"], rule costs_doif [OF costs_cc_modified]) simp
  show ?thesis
    unfolding exec_insn_def
    by (rule costs_weaken, (rule op cc costs_Cons costs_Nil costs_assign | erule spends_set)+, simp)
qed

text \<open>A turn of the loop with the monitor off does not stop for the debugger.\<close>

lemma cpu_turn_quiet:
  assumes "calm ok s" "\<not> monitor_on s"
  shows "cpu_turn io s \<noteq> NoFuel"
    and "cpu_turn io s = Ret b t \<Longrightarrow> spends ok 1 s t \<and> (b \<longleftrightarrow> 0 < cpu_clk t)"
proof -
  have turn: "cpu_turn io s = bindR (insn_hook io s) (\<lambda>_ s. bindR (check_break io s) (\<lambda>_ s.
      bindR (exec_insn io s) (\<lambda>_ s. Ret (0 < cpu_clk s) s)))"
  proof (cases "insn_hook io s")
    case (Ret x s1)
    then have 1: "spends ok 0 s s1" using obeysD [OF costs_insn_hook [unfolded costs_def] assms(1)] by simp
    show ?thesis
    proof (cases "check_break io s1")
      case (Ret b s2)
      with 1 have "spends ok 0 s1 s2" "\<not> b"
        using obeysD [OF costs_check_break [unfolded costs_def] spends_calm [OF 1]] no_break [OF spends_calm [OF 1]] by simp_all
      with 1 have "\<not> monitor_on s2" "\<not> b" using assms(2) by (simp_all add: spends_def)
      with Ret \<open>insn_hook io s = Ret x s1\<close> show ?thesis by (simp add: cpu_turn_def bindE_def doif_def)
    qed (simp_all add: Ret cpu_turn_def bindE_def)
  qed (simp_all add: cpu_turn_def bindE_def)
  have *: "costs ok 1 (bindE (insn_hook io) (\<lambda>_. bindE (check_break io) (\<lambda>_. exec_insn io)))"
    by (rule costs_weaken, (rule costs_bindE costs_insn_hook costs_check_break costs_exec_insn)+, simp)
  have eq: "cpu_turn io s = bindR (bindE (insn_hook io) (\<lambda>_. bindE (check_break io) (\<lambda>_. exec_insn io)) s)
      (\<lambda>_ s. Ret (0 < cpu_clk s) s)"
    by (simp add: turn bindE_def bindR_assoc)
  show "cpu_turn io s \<noteq> NoFuel"
    using obeys_NoFuel [OF * [unfolded costs_def] assms(1)] unfolding eq
    by (cases "bindE (insn_hook io) (\<lambda>_. bindE (check_break io) (\<lambda>_. exec_insn io)) s") simp_all
  show "spends ok 1 s t \<and> (b \<longleftrightarrow> 0 < cpu_clk t)" if "cpu_turn io s = Ret b t"
    using that obeysD [OF * [unfolded costs_def] assms(1)] unfolding eq by (force simp: bindR_Ret_iff)
qed

text \<open>Enough fuel: one unit per cycle of the slice, and at least one.\<close>

lemma cpu_loop_ends:
  assumes "calm ok s" "\<not> monitor_on s" "0 < fuel" "cpu_clk s \<le> int fuel"
  shows "cpu_loop fuel io s \<noteq> NoFuel
    \<and> (\<forall>u t. cpu_loop fuel io s = Ret u t \<longrightarrow> spends ok 1 s t \<and> cpu_clk t \<le> 0)"
  using assms
proof (induction fuel arbitrary: s)
  case (Suc n)
  note turn = cpu_turn_quiet [OF Suc.prems(1,2)]
  show ?case
  proof (cases "cpu_turn io s")
    case (Ret b s1)
    with turn(2) have sp: "spends ok 1 s s1" and b: "b \<longleftrightarrow> 0 < cpu_clk s1" by simp_all
    show ?thesis
    proof (cases b)
      case True
      have "cpu_loop n io s1 \<noteq> NoFuel \<and> (\<forall>u t. cpu_loop n io s1 = Ret u t \<longrightarrow> spends ok 1 s1 t \<and> cpu_clk t \<le> 0)"
        using Suc.prems True b sp by (intro Suc.IH) (auto simp: spends_def)
      then show ?thesis
        using True Ret spends_trans [OF sp] spends_mono [of ok 2 s _ 1] by fastforce
    next
      case False
      then show ?thesis using Ret b sp by simp
    qed
  qed (use turn(1) in auto)
qed simp

lemma cpu_execute_ends:
  assumes "calm ok s" "\<not> monitor_on s" "max 1 (nat cycles) \<le> fuel"
  shows "cpu_execute fuel io cycles s \<noteq> NoFuel"
    and "cpu_execute fuel io cycles s = Ret n t \<Longrightarrow> cycles \<le> n \<and> 1 \<le> n \<and> calm ok t \<and> \<not> monitor_on t"
proof -
  let ?s = "s\<lparr>cpu_period := cycles, cpu_clk := cycles\<rparr>"
  have "calm ok ?s" "\<not> monitor_on ?s" "0 < fuel" "cpu_clk ?s \<le> int fuel"
    using assms by (auto simp: calm_def)
  note ends = cpu_loop_ends [OF this]
  show "cpu_execute fuel io cycles s \<noteq> NoFuel"
    using ends by (cases "cpu_loop fuel io ?s") (auto simp: cpu_execute_def Let_def)
  assume "cpu_execute fuel io cycles s = Ret n t"
  then obtain u where l: "cpu_loop fuel io ?s = Ret () u" and n: "n = cpu_period u - cpu_clk u"
    and t: "t = u\<lparr>cpu_period := n, cpu_clk := n\<rparr>"
    by (auto simp: cpu_execute_def bindR_Ret_iff Let_def)
  from ends l have "spends ok 1 ?s u" "cpu_clk u \<le> 0" by blast+
  then show "cycles \<le> n \<and> 1 \<le> n \<and> calm ok t \<and> \<not> monitor_on t"
    using n t assms(2) by (auto simp: spends_def calm_def)
qed

end

end
