(* ===== verification/Cpu_Invariant.thy ===== *)
theory Cpu_Invariant
  imports Cpu_Exec
begin

text \<open>
  The register invariant. The processor keeps its registers in 32-bit variables; the code masks
  some updates and relies on the width of the operands for others. The invariant \<open>wf_regs\<close> says
  that 8-bit registers stay below 256, 16-bit registers below 65536, DP keeps its low byte
  clear, and PC, which operand fetches do not mask, passes 0xffff by at most three. It holds
  after every instruction, whatever the opcode, over a bus that refuses addresses above 0xffff.
\<close>

section \<open>Invariant\<close>

definition wf_regs :: "('x \<Rightarrow> bool) \<Rightarrow> 'x cpu_scheme \<Rightarrow> bool" where
  "wf_regs ok s \<longleftrightarrow> half (rX s) \<and> half (rY s) \<and> half (rS s) \<and> half (rU s) \<and> byte (rA s) \<and> byte (rB s)
     \<and> half (rDP s) \<and> rDP s AND 0xff = 0 \<and> unat (rPC s) \<le> 0x10002 \<and> unat (iPC s) \<le> 0x10002
     \<and> ok (cpu.more s)"

definition wf_ea :: "('x \<Rightarrow> bool) \<Rightarrow> 'x cpu_scheme \<Rightarrow> bool" where
  "wf_ea ok s \<longleftrightarrow> wf_regs ok s \<and> half (ea s)"

definition keeps :: "('x \<Rightarrow> bool) \<Rightarrow> ('x cpu_scheme, 'a) expr \<Rightarrow> bool" where
  "keeps ok m \<longleftrightarrow> triple (wf_regs ok) m (\<lambda>_. wf_regs ok)"

definition yields :: "('x \<Rightarrow> bool) \<Rightarrow> (u32 \<Rightarrow> bool) \<Rightarrow> ('x cpu_scheme, u32) expr \<Rightarrow> bool" where
  "yields ok P m \<longleftrightarrow> triple (wf_regs ok) m (\<lambda>v s. wf_regs ok s \<and> P v)"

definition addresses :: "('x \<Rightarrow> bool) \<Rightarrow> 'x cpu_scheme stmt \<Rightarrow> bool" where
  "addresses ok m \<longleftrightarrow> triple (wf_regs ok) m (\<lambda>_. wf_ea ok)"

definition keeps_ea :: "('x \<Rightarrow> bool) \<Rightarrow> 'x cpu_scheme stmt \<Rightarrow> bool" where
  "keeps_ea ok m \<longleftrightarrow> triple (wf_ea ok) m (\<lambda>_. wf_ea ok)"

definition starts :: "('x \<Rightarrow> bool) \<Rightarrow> 'x cpu_scheme stmt \<Rightarrow> bool" where
  "starts ok m \<longleftrightarrow> triple (\<lambda>s. wf_regs ok s \<and> unat (rPC s) \<le> 0x10000) m (\<lambda>_. wf_regs ok)"

lemma half_simps [simp]: "half 0" "half 0xff" "byte 0xff" "byte 1"
  by (simp_all add: half_def byte_def)

lemma keepsI: "(\<And>s x t. wf_regs ok s \<Longrightarrow> m s = Ret x t \<Longrightarrow> wf_regs ok t) \<Longrightarrow> keeps ok m"
  by (simp add: keeps_def triple_def)

lemma keepsD: "keeps ok m \<Longrightarrow> wf_regs ok s \<Longrightarrow> m s = Ret x t \<Longrightarrow> wf_regs ok t"
  unfolding keeps_def by (rule tripleD)

lemma keeps_Nil: "keeps ok (block [])"
  by (rule keepsI) simp

lemma keeps_Cons: "keeps ok m \<Longrightarrow> keeps ok (block ms) \<Longrightarrow> keeps ok (block (m # ms))"
  unfolding keeps_def by (rule triple_block_Cons)

lemma yields_bindE: "yields ok P e \<Longrightarrow> (\<And>v. P v \<Longrightarrow> keeps ok (f v)) \<Longrightarrow> keeps ok (bindE e f)"
  unfolding keeps_def yields_def bindE_def [abs_def] by (erule triple_bind) (auto simp: triple_def)

lemma keeps_bindE: "keeps ok e \<Longrightarrow> (\<And>v. keeps ok (f v)) \<Longrightarrow> keeps ok (bindE e f)"
  unfolding keeps_def bindE_def [abs_def] by (rule triple_bind)

lemma keeps_assign: "(\<And>s. wf_regs ok s \<Longrightarrow> wf_regs ok (f s)) \<Longrightarrow> keeps ok (assign f)"
  unfolding keeps_def by (rule triple_assign)

lemma keeps_doif: "keeps ok m \<Longrightarrow> keeps ok (doif b m)"
  unfolding keeps_def by (rule triple_doif)

lemma keeps_if: "keeps ok m1 \<Longrightarrow> keeps ok m2 \<Longrightarrow> keeps ok (\<lambda>s. if b s then m1 s else m2 s)"
  unfolding keeps_def by (rule triple_if)

lemma keeps_of_state: "(\<And>u. keeps ok (m u)) \<Longrightarrow> keeps ok (\<lambda>s. m (f s) s)"
  unfolding keeps_def by (rule triple_of_state)

lemma keeps_Ret: "keeps ok (Ret x)"
  by (rule keepsI) simp

lemma keeps_clk: "keeps ok (clk n)"
  by (rule keepsI) (auto simp: clk_def wf_regs_def)

lemma keeps_sim_error: "keeps ok sim_error"
  by (rule keepsI) (auto simp: sim_error_def wf_regs_def split: if_splits)

lemma keeps_change_pc: "keeps ok (change_pc x)"
  by (rule keepsI) (auto simp: change_pc_def wf_regs_def)

lemma keeps_switch:
  assumes "\<forall>p \<in> set tab. keeps ok (snd p)" "keeps ok dflt"
  shows "keeps ok (switch tab dflt k)"
  using assms by (rule switch_cases)

section \<open>Registers\<close>

lemma wf_set:
  assumes "wf_regs ok s"
  shows "half x \<Longrightarrow> wf_regs ok (s\<lparr>rX := x\<rparr>)" "half x \<Longrightarrow> wf_regs ok (s\<lparr>rY := x\<rparr>)"
    "half x \<Longrightarrow> wf_regs ok (s\<lparr>rU := x\<rparr>)" "half x \<Longrightarrow> wf_regs ok (s\<lparr>rS := x\<rparr>)"
    "byte x \<Longrightarrow> wf_regs ok (s\<lparr>rA := x\<rparr>)" "byte x \<Longrightarrow> wf_regs ok (s\<lparr>rB := x\<rparr>)"
    "half x \<Longrightarrow> wf_regs ok (s\<lparr>rPC := x\<rparr>)" "byte x \<Longrightarrow> wf_regs ok (s\<lparr>rDP := push_bit 8 x\<rparr>)"
    "wf_regs ok (s\<lparr>EFI := x\<rparr>)" "wf_regs ok (s\<lparr>cwai_state := i\<rparr>)" "wf_regs ok (s\<lparr>ea := x\<rparr>)"
    "wf_regs ok (s\<lparr>irq_start_time := w\<rparr>)" "wf_regs ok (s\<lparr>irqs_pending := x\<rparr>)" "wf_regs ok (s\<lparr>firqs_pending := x\<rparr>)"
    "wf_regs ok (s\<lparr>cc_changed := b\<rparr>)" "wf_regs ok (s\<lparr>iPC := rPC s\<rparr>)" "wf_regs ok (s\<lparr>rPC := iPC s\<rparr>)"
    "wf_regs ok (s\<lparr>fN := x, fZ := y, fOV := z\<rparr>)" "wf_regs ok (s\<lparr>fZ := x, fN := y, fOV := z\<rparr>)" "wf_regs ok (set_cc x s)"
proof -
  have "half (push_bit 8 x)" "push_bit 8 x AND 0xff = 0" if "byte x"
  proof -
    show "half (push_bit 8 x)" using half_push_or [OF that, of 0] by simp
    show "push_bit 8 x AND 0xff = 0" by (auto simp: bit_eq_iff bit_and_iff bit_push_bit_iff bit_ff)
  qed
  then show "byte x \<Longrightarrow> wf_regs ok (s\<lparr>rDP := push_bit 8 x\<rparr>)"
    using assms by (simp add: wf_regs_def)
qed (use assms in \<open>auto simp: wf_regs_def half_def set_cc_def\<close>)

lemma get_reg_width:
  assumes "wf_regs ok s"
  shows "half (get_reg n s)" and "bit n 3 \<Longrightarrow> byte (get_reg n s)"
proof -
  show "half (get_reg n s)"
    using assms by (auto simp: get_reg_def wf_regs_def half_push_or byte_half byte_shr8)
  show "byte (get_reg n s)" if "bit n 3"
    using assms that by (auto simp: get_reg_def wf_regs_def byte_shr8)
qed

lemma wf_set_reg:
  assumes "wf_regs ok s" "half v" "bit n 3 \<Longrightarrow> byte v"
  shows "wf_regs ok (set_reg n v s)"
  using assms by (auto simp: set_reg_def wf_set byte_shr8)


lemma alu_wf:
  assumes "wf_regs ok s" "byte a" "byte v"
  shows "wf_regs ok (snd (adc a v s))" "wf_regs ok (snd (add a v s))" "wf_regs ok (snd (and8 a v s))" "wf_regs ok (snd (eor a v s))"
    "wf_regs ok (snd (or8 a v s))" "wf_regs ok (snd (sbc a v s))" "wf_regs ok (snd (sub8 a v s))"
    "wf_regs ok (bit8 a v s)" "wf_regs ok (cmp a v s)"
    "byte (fst (adc a v s))" "byte (fst (add a v s))" "byte (fst (and8 a v s))" "byte (fst (eor a v s))"
    "byte (fst (or8 a v s))" "byte (fst (sbc a v s))" "byte (fst (sub8 a v s))"
  using assms
  by (simp_all add: wf_regs_def adc_def add_def and8_def eor_def or8_def sbc_def sub8_def bit8_def cmp_def Let_def)

lemma alu1_wf:
  assumes "wf_regs ok s" "byte v"
  shows "wf_regs ok (snd (asl v s))" "wf_regs ok (snd (asr v s))" "wf_regs ok (snd (clr v s))" "wf_regs ok (snd (com v s))"
    "wf_regs ok (snd (dec v s))" "wf_regs ok (snd (inc v s))" "wf_regs ok (snd (lsr v s))" "wf_regs ok (snd (neg v s))"
    "wf_regs ok (snd (rol v s))" "wf_regs ok (snd (ror v s))" "wf_regs ok (snd (ld v s))" "wf_regs ok (tst v s)"
    "byte (fst (asl v s))" "byte (fst (asr v s))" "byte (fst (clr v s))" "byte (fst (com v s))"
    "byte (fst (dec v s))" "byte (fst (inc v s))" "byte (fst (lsr v s))" "byte (fst (neg v s))"
    "byte (fst (rol v s))" "byte (fst (ror v s))" "byte (fst (ld v s))"
proof -
  show "byte (fst (ror v s))" using ror_spec(5) [OF assms(2) surjective_pairing] .
  have "byte (fst (ror v (s\<lparr>fC := 0\<rparr>)))" using ror_spec(5) [OF assms(2) surjective_pairing] .
  then show "byte (fst (lsr v s))" by (simp only: lsr_ror)
qed (use assms in \<open>simp_all add: wf_regs_def asl_def asr_def clr_def com_def dec_def inc_def lsr_def neg_def
    rol_def ror_def ld_def tst_def Let_def\<close>)

lemma alu16_wf:
  assumes "wf_regs ok s"
  shows "wf_regs ok (cmp16 a v s)" "half v \<Longrightarrow> wf_regs ok (addd v s)" "half v \<Longrightarrow> wf_regs ok (subd v s)" "half v \<Longrightarrow> wf_regs ok (ldd v s)"
proof -
  have b: "byte (drop_bit 8 (x AND 0xffff))" for x by (rule byte_shr8) simp
  show "wf_regs ok (cmp16 a v s)" using assms by (simp add: wf_regs_def cmp16_def Let_def)
  show "half v \<Longrightarrow> wf_regs ok (ldd v s)" using assms by (simp add: wf_regs_def ldd_def byte_shr8)
  show "wf_regs ok (addd v s)" "wf_regs ok (subd v s)"
    using assms unfolding wf_regs_def addd_def subd_def Let_def
    by (simp_all del: drop_bit_and add: b)
qed

lemma keeps_implied: "keeps ok nop" "keeps ok daa" "keeps ok sex" "keeps ok abx" "keeps ok mul" "keeps ok sync"
proof -
  have b: "byte (drop_bit 8 (x AND 0xffff))" for x by (rule byte_shr8) simp
  show "keeps ok nop" by (simp add: nop_def keeps_clk)
  show "keeps ok sync" unfolding sync_def by (intro keeps_Cons keeps_Nil keeps_clk keeps_sim_error)
  show "keeps ok daa"
    by (rule keepsI) (auto simp: daa_def Let_def wf_regs_def)
  show "keeps ok sex"
    by (rule keepsI) (auto simp: sex_def Let_def wf_regs_def)
  show "keeps ok abx"
    by (rule keepsI) (auto simp: abx_def wf_regs_def)
  show "keeps ok mul"
    by (rule keepsI) (auto simp: mul_def Let_def wf_regs_def simp del: drop_bit_and intro: b)
qed

lemma keeps_exit_irq_hook: "keeps ok (command_exit_irq_hook c)"
  by (rule keepsI) (auto simp: command_exit_irq_hook_def Let_def wf_regs_def split: if_splits)

lemma keeps_release: "keeps ok (release_irq n)" "keeps ok (release_firq n)"
  by (rule keepsI, auto simp: release_irq_def release_firq_def wf_set split: if_splits)+

lemma keeps_invalid_opcode: "keeps ok invalid_opcode"
  unfolding invalid_opcode_def by (intro keeps_Cons keeps_Nil keeps_clk keeps_sim_error keeps_assign wf_set)

lemma keeps_set_ea: "keeps ok (set_ea f)"
  by (rule keepsI) (auto simp: set_ea_def wf_set)

lemma wf_step:
  assumes "wf_regs ok s"
  shows "wf_regs ok (s\<lparr>rS := x AND 0xffff\<rparr>)" "wf_regs ok (s\<lparr>rU := x AND 0xffff\<rparr>)"
  using assms by (simp_all add: wf_set)

lemma wf_index:
  assumes "wf_regs ok s"
  shows "half (index_reg r s)" "half x \<Longrightarrow> wf_regs ok (set_index_reg r x s)"
  using assms by (auto simp: index_reg_def set_index_reg_def wf_set) (auto simp: wf_regs_def)

lemma keeps_step_index: "keeps ok (step_index r d)"
  by (rule keepsI) (auto simp: step_index_def wf_index)

lemmas keep_leaves = keeps_clk keeps_sim_error keeps_Ret keeps_change_pc keeps_set_ea keeps_step_index
  keeps_implied keeps_exit_irq_hook keeps_release

lemma keeps_op1:
  assumes "\<And>v s. wf_regs ok s \<Longrightarrow> byte v \<Longrightarrow> wf_regs ok (snd (f v s))" "\<And>v s. wf_regs ok s \<Longrightarrow> byte v \<Longrightarrow> byte (fst (f v s))"
  shows "keeps ok (op1_A f)" "keeps ok (op1_B f)"
proof -
  have "wf_regs ok ((snd (f v s))\<lparr>rA := fst (f v s)\<rparr>)" "wf_regs ok ((snd (f v s))\<lparr>rB := fst (f v s)\<rparr>)"
    if "wf_regs ok s" "byte v" for v s
    using assms [OF that] by (simp_all add: wf_set)
  moreover have "byte (rA s)" "byte (rB s)" if "wf_regs ok s" for s :: "'a cpu_scheme"
    using that by (simp_all add: wf_regs_def)
  ultimately show "keeps ok (op1_A f)" "keeps ok (op1_B f)"
    by (auto simp: keeps_def triple_def op1_A_def op1_B_def split_beta)
qed

lemma keeps_op2:
  assumes "\<And>a v s. wf_regs ok s \<Longrightarrow> byte a \<Longrightarrow> byte v \<Longrightarrow> wf_regs ok (snd (f a v s))"
    "\<And>a v s. wf_regs ok s \<Longrightarrow> byte a \<Longrightarrow> byte v \<Longrightarrow> byte (fst (f a v s))" "yields ok byte e"
  shows "keeps ok (op2_A f e)" "keeps ok (op2_B f e)"
proof -
  have *: "keeps ok (op1_A (\<lambda>a. f a v))" "keeps ok (op1_B (\<lambda>a. f a v))" if "byte v" for v
    by (rule keeps_op1; use assms(1,2) that in blast)+
  show "keeps ok (op2_A f e)" "keeps ok (op2_B f e)"
    unfolding op2_A_def op2_B_def by (rule yields_bindE [OF assms(3)], erule *)+
qed

lemma keeps_ld: "yields ok byte e \<Longrightarrow> keeps ok (ld_A e)" "yields ok byte e \<Longrightarrow> keeps ok (ld_B e)"
  using keeps_op2 [of ok "\<lambda>a v. ld v" e] by (simp_all add: alu1_wf op2_A_def op2_B_def ld_A_def ld_B_def)

lemma keeps_cmp:
  assumes "\<And>a v s. wf_regs ok s \<Longrightarrow> byte a \<Longrightarrow> byte v \<Longrightarrow> wf_regs ok (f a v s)" "yields ok byte e"
  shows "keeps ok (cmp_A f e)" "keeps ok (cmp_B f e)"
  unfolding cmp_A_def cmp_B_def
  by (rule yields_bindE [OF assms(2)], rule keeps_assign, rule assms(1), assumption, simp add: wf_regs_def, assumption)+

lemma keeps_cmp_16: "yields ok half e \<Longrightarrow> keeps ok (cmp_16 r e)"
  unfolding cmp_16_def by (erule yields_bindE, rule keeps_assign, erule alu16_wf)

lemma keeps_op_D:
  assumes "\<And>v s. wf_regs ok s \<Longrightarrow> half v \<Longrightarrow> wf_regs ok (f v s)" "yields ok half e"
  shows "keeps ok (op_D f e)"
  unfolding op_D_def by (rule yields_bindE [OF assms(2)], rule keeps_assign, rule assms(1))

lemma keeps_ld_16:
  assumes "\<And>v s. wf_regs ok s \<Longrightarrow> half v \<Longrightarrow> wf_regs ok (upd v s)" "yields ok half e"
  shows "keeps ok (ld_16 upd e)"
proof -
  have "wf_regs ok (snd (ld16 v s))" if "wf_regs ok s" for v s using that by (simp add: ld16_def wf_set)
  then have "wf_regs ok (upd v (snd (ld16 v s)))" if "half v" "wf_regs ok s" for v s using assms(1) that by blast
  then have "keeps ok (\<lambda>s. let (r, t) = ld16 v s in Ret () (upd r t))" if "half v" for v
    using that by (auto intro!: keepsI simp: ld16_def)
  then show ?thesis unfolding ld_16_def by (rule yields_bindE [OF assms(2)])
qed

section \<open>Over a bus with a 64K address space\<close>

locale reg_bus =
  fixes io :: "'x cpu_scheme iface" and ok :: "'x \<Rightarrow> bool"
  assumes keeps_read8: "keeps ok (read8 io a)"
    and keeps_read16: "keeps ok (read16 io a)"
    and keeps_write8: "keeps ok (write8 io a v)"
    and read8_range: "wf_regs ok s \<Longrightarrow> read8 io a s = Ret v t \<Longrightarrow>
      unat a < 0x10000 \<and> (unat (rPC s) < 0x10000 \<longrightarrow> unat (rPC t) < 0x10000)"
    and read16_range: "wf_regs ok s \<Longrightarrow> read16 io a s = Ret w t \<Longrightarrow>
      unat a < 0x10000 \<and> (unat (rPC s) < 0x10000 \<longrightarrow> unat (rPC t) < 0x10000)"
begin

lemma rd8_range:
  assumes "rd8 io a s = Ret v t" "wf_regs ok s"
  shows "wf_regs ok t" "byte v" "unat a < 0x10000" "unat (rPC s) < 0x10000 \<Longrightarrow> unat (rPC t) < 0x10000"
proof -
  obtain x where x: "read8 io a s = Ret x t" "v = ucast x"
    using assms(1) unfolding rd8_def by (auto elim: bindE_RetE)
  show "wf_regs ok t" by (rule keepsD [OF keeps_read8 assms(2) x(1)])
  show "byte v" by (simp add: x(2))
  show "unat a < 0x10000" "unat (rPC s) < 0x10000 \<Longrightarrow> unat (rPC t) < 0x10000"
    using read8_range [OF assms(2) x(1)] by simp_all
qed

lemma rd16_range:
  assumes "rd16 io a s = Ret v t" "wf_regs ok s"
  shows "wf_regs ok t" "half v" "unat a < 0x10000" "unat (rPC s) < 0x10000 \<Longrightarrow> unat (rPC t) < 0x10000"
proof -
  obtain x where x: "read16 io a s = Ret x t" "v = ucast x"
    using assms(1) unfolding rd16_def by (auto elim: bindE_RetE)
  show "wf_regs ok t" by (rule keepsD [OF keeps_read16 assms(2) x(1)])
  show "half v" by (simp add: x(2))
  show "unat a < 0x10000" "unat (rPC s) < 0x10000 \<Longrightarrow> unat (rPC t) < 0x10000"
    using read16_range [OF assms(2) x(1)] by simp_all
qed

text \<open>A fetch from PC succeeds only below 0x10000, so PC ends at most two past 0xffff.\<close>

lemma wf_advance:
  assumes "wf_regs ok s" "unat (rPC s) < 0x10000" "unat d \<le> 2"
  shows "wf_regs ok (s\<lparr>rPC := rPC s + d\<rparr>)" "unat (rPC s + d) \<le> 0xffff + unat d"
proof -
  have "unat (rPC s + d) = unat (rPC s) + unat d"
    using assms(2,3) by (simp add: unat_word_ariths)
  then show "wf_regs ok (s\<lparr>rPC := rPC s + d\<rparr>)" "unat (rPC s + d) \<le> 0xffff + unat d"
    using assms by (simp_all add: wf_regs_def)
qed

lemma imm_byte_post:
  assumes "imm_byte io s = Ret v t" "wf_regs ok s"
  shows "wf_regs ok t" "byte v" "unat (rPC t) \<le> 0x10000"
proof -
  from assms(1) obtain u where u: "rd8 io (rPC s) s = Ret v u" and t: "t = u\<lparr>rPC := rPC u + 1\<rparr>"
    unfolding imm_byte_def by (auto elim!: bindE_RetE)
  note r = rd8_range [OF u assms(2)]
  have "wf_regs ok u" "unat (rPC u) < 0x10000" using r assms(2) by simp_all
  from wf_advance [OF this, of 1] t r(2) show "wf_regs ok t" "byte v" "unat (rPC t) \<le> 0x10000" by simp_all
qed

lemma imm_word_post:
  assumes "imm_word io s = Ret v t" "wf_regs ok s"
  shows "wf_regs ok t" "half v"
proof -
  from assms(1) obtain u where u: "rd16 io (rPC s) s = Ret v u" and t: "t = u\<lparr>rPC := rPC u + 2\<rparr>"
    unfolding imm_word_def by (auto elim!: bindE_RetE)
  note r = rd16_range [OF u assms(2)]
  have "wf_regs ok u" "unat (rPC u) < 0x10000" using r assms(2) by simp_all
  from wf_advance [OF this, of 2] t r(2) show "wf_regs ok t" "half v" by simp_all
qed

lemma yields_imm: "yields ok byte (imm_byte io)" "yields ok half (imm_word io)"
  unfolding yields_def by (rule tripleI, simp add: imm_byte_post imm_word_post)+

lemma yields_rd: "yields ok byte (rd8 io a)" "yields ok half (rd16 io a)"
  unfolding yields_def by (rule tripleI, simp add: rd8_range rd16_range)+

lemma yields_keeps: "yields ok P m \<Longrightarrow> keeps ok m"
  unfolding yields_def keeps_def by (erule triple_weaken) simp_all

lemma yields_mem: "yields ok byte (RDMEM io a)" "yields ok byte (read_stack io a)"
  unfolding RDMEM_def read_stack_def by (rule yields_rd)+

lemma yields_pair:
  assumes "yields ok byte m" "keeps ok k" "yields ok byte m'"
  shows "yields ok half (bindE m (\<lambda>hi. bindE k (\<lambda>_. bindE m' (\<lambda>lo. Ret (push_bit 8 hi OR lo)))))"
proof -
  have 1: "triple (\<lambda>s. wf_regs ok s \<and> byte hi) (\<lambda>s. bindR (m' s) (\<lambda>lo. Ret (push_bit 8 hi OR lo))) (\<lambda>v s. wf_regs ok s \<and> half v)" for hi
    by (rule triple_bind [of _ _ "\<lambda>lo s. wf_regs ok s \<and> byte lo \<and> byte hi"])
      (use assms(3) in \<open>auto simp: yields_def triple_def half_push_or\<close>)
  have 2: "triple (\<lambda>s. wf_regs ok s \<and> byte hi) k (\<lambda>_ s. wf_regs ok s \<and> byte hi)" for hi
    using assms(2) by (auto simp: keeps_def triple_def)
  show ?thesis
    unfolding yields_def bindE_def [abs_def]
    by (rule triple_bind [OF assms(1) [unfolded yields_def]], rule triple_bind [OF 2], rule 1)
qed

lemma yields_RDMEM16: "yields ok half (RDMEM16 io a)"
  unfolding RDMEM16_def by (intro yields_pair yields_mem keeps_clk)

lemma yields_read_stack16: "yields ok half (read_stack16 io a)"
  using yields_pair [OF yields_mem(2) keeps_Ret yields_mem(2)]
  by (simp add: read_stack16_def bindE_def [abs_def])

lemma yields_of_state: "(\<And>u. yields ok P (m u)) \<Longrightarrow> yields ok P (\<lambda>s. m (f s) s)"
  unfolding yields_def by (rule triple_of_state)

lemma yields_operand: "yields ok byte (mem8 io)" "yields ok half (mem16 io)"
  unfolding mem8_def mem16_def by (rule yields_of_state, rule yields_mem yields_RDMEM16)+

lemma keeps_WRMEM: "keeps ok (WRMEM io a v)" "keeps ok (write_stack io a v)"
  unfolding write_stack_def WRMEM_def by (rule keeps_write8)+

lemma keeps_WRMEM16: "keeps ok (WRMEM16 io a v)" "keeps ok (write_stack16 io a v)"
  unfolding WRMEM16_def write_stack16_def by (intro keeps_Cons keeps_Nil keeps_WRMEM keeps_clk)+

lemma addresses_set_ea: "(\<And>s. wf_regs ok s \<Longrightarrow> half (f s)) \<Longrightarrow> addresses ok (set_ea f)"
  unfolding addresses_def by (rule tripleI) (auto simp: set_ea_def wf_ea_def wf_set)

lemma addresses_bindE: "yields ok P e \<Longrightarrow> (\<And>v. P v \<Longrightarrow> addresses ok (f v)) \<Longrightarrow> addresses ok (bindE e f)"
  unfolding addresses_def yields_def bindE_def [abs_def] by (erule triple_bind) (auto simp: triple_def)

lemma addresses_of_state: "(\<And>u. addresses ok (m u)) \<Longrightarrow> addresses ok (\<lambda>s. m (f s) s)"
  unfolding addresses_def by (rule triple_of_state)

lemma addresses_set: "addresses ok m \<Longrightarrow> keeps_ea ok (block ms) \<Longrightarrow> addresses ok (block (m # ms))"
  unfolding addresses_def keeps_ea_def by (rule triple_block_Cons)

lemma addresses_skip: "keeps ok m \<Longrightarrow> addresses ok (block ms) \<Longrightarrow> addresses ok (block (m # ms))"
  unfolding addresses_def keeps_def by (rule triple_block_Cons)

lemma keeps_ea_block: "keeps_ea ok (block [])" "keeps_ea ok m \<Longrightarrow> keeps_ea ok (block ms) \<Longrightarrow> keeps_ea ok (block (m # ms))"
  unfolding keeps_ea_def by (rule triple_block_Nil, assumption, rule triple_block_Cons)

lemma keeps_ea_basic: "keeps_ea ok (clk n)" "keeps_ea ok (step_index r d)"
  unfolding keeps_ea_def
  by (rule tripleI, auto simp: clk_def step_index_def wf_ea_def wf_index wf_regs_def set_index_reg_def split: if_splits)+

lemma keeps_ea_addresses: "addresses ok m \<Longrightarrow> keeps_ea ok m"
  unfolding addresses_def keeps_ea_def by (erule triple_weaken) (simp_all add: wf_ea_def)

lemma addresses_keeps: "addresses ok m \<Longrightarrow> keeps ok m"
  unfolding addresses_def keeps_def by (erule triple_weaken) (simp_all add: wf_ea_def)

lemma addresses_direct: "addresses ok (direct io)"
  unfolding addresses_def
proof (rule tripleI)
  fix s x t
  assume s: "wf_regs ok s" and "direct io s = Ret x t"
  then obtain v u where u: "rd8 io (rPC s) s = Ret v u" and t: "t = u\<lparr>ea := v OR rDP u, rPC := rPC u + 1\<rparr>"
    unfolding direct_def by (auto elim!: bindE_RetE simp: assign_def)
  have "wf_regs ok u" "unat (rPC u) < 0x10000" using rd8_range [OF u s] by simp_all
  from wf_advance(1) [OF wf_set(11) [OF this(1)], of "v OR rDP u" 1] this rd8_range(2) [OF u s]
  show "wf_ea ok t" by (simp add: t wf_ea_def) (simp add: wf_regs_def byte_half)
qed

lemma addresses_extended: "addresses ok (extended io)"
  unfolding addresses_def
proof (rule tripleI)
  fix s x t
  assume s: "wf_regs ok s" and "extended io s = Ret x t"
  then obtain v u where u: "rd16 io (rPC s) s = Ret v u" and t: "t = u\<lparr>ea := v, rPC := rPC u + 2\<rparr>"
    unfolding extended_def by (auto elim!: bindE_RetE simp: assign_def)
  have "wf_regs ok u" "unat (rPC u) < 0x10000" using rd16_range [OF u s] by simp_all
  from wf_advance(1) [OF wf_set(11) [OF this(1)], of v 2] this rd16_range(2) [OF u s]
  show "wf_ea ok t" by (simp add: t wf_ea_def)
qed

lemma addresses_offsets:
  "addresses ok (index_offset8 io r)" "addresses ok (index_offset16 io r)" "addresses ok (index_pc8 io)" "addresses ok (index_pc16 io)"
  "addresses ok (bindE (imm_word io) (\<lambda>v. set_ea (\<lambda>s. v)))"
proof -
  have pc: "addresses ok (block [set_ea (\<lambda>s. (ea s + rPC s) AND 0xffff)])"
    by (rule addresses_set, rule addresses_set_ea, rule half_mask, rule keeps_ea_block)
  have k: "keeps ok (bindE (imm_byte io) (\<lambda>v. set_ea (\<lambda>s. INT8 v)))" "keeps ok (bindE (imm_word io) (\<lambda>v. set_ea (\<lambda>s. v)))"
    by (rule yields_bindE, rule yields_imm, rule keeps_set_ea)+
  show "addresses ok (index_pc8 io)" "addresses ok (index_pc16 io)"
    unfolding index_pc8_def index_pc16_def by (rule addresses_skip, rule k, rule pc)+
  show "addresses ok (index_offset8 io r)" "addresses ok (index_offset16 io r)"
    unfolding index_offset8_def index_offset16_def
    by (rule addresses_bindE, rule yields_imm, rule addresses_set_ea, rule half_mask)+
  show "addresses ok (bindE (imm_word io) (\<lambda>v. set_ea (\<lambda>s. v)))"
    by (rule addresses_bindE, rule yields_imm, rule addresses_set_ea)
qed

lemma addresses_indirect: "addresses ok (indirect io)"
proof -
  have "addresses ok (\<lambda>s. bindE (RDMEM16 io (ea s)) (\<lambda>v. set_ea (\<lambda>s. v)) s)"
    by (rule addresses_of_state, rule addresses_bindE, rule yields_RDMEM16, rule addresses_set_ea)
  then show ?thesis
    unfolding indirect_def by (rule addresses_set) (intro keeps_ea_block keeps_ea_basic)
qed

lemma addresses_index_table: "\<forall>p \<in> set (index_table io r). addresses ok (snd p)"
  unfolding index_table_def list.set ball_simps snd_conv
  by (intro conjI TrueI; (rule addresses_skip [OF keeps_step_index] | rule addresses_set addresses_offsets
    | rule addresses_set_ea, ((erule wf_index; fail) | rule half_mask)
    | rule keeps_ea_block keeps_ea_basic keeps_ea_addresses [OF addresses_indirect])+)

lemma addresses_indexed: "addresses ok (indexed io)"
proof -
  have inv: "addresses ok (block [set_ea (\<lambda>s. 0), sim_error])"
    by (rule addresses_set, rule addresses_set_ea, simp, rule keeps_ea_block)
      (auto simp: keeps_ea_def triple_def sim_error_def wf_ea_def wf_regs_def keeps_ea_block split: if_splits)
  have five: "addresses ok (block [set_ea (\<lambda>s. (f s) AND 0xffff), clk 5])" for f
    by (rule addresses_set, rule addresses_set_ea, rule half_mask, intro keeps_ea_block keeps_ea_basic)
  have sw: "addresses ok (switch (index_table io r) (block [set_ea (\<lambda>s. 0), sim_error]) k)" for r k
    by (rule switch_cases [OF addresses_index_table inv])
  show ?thesis
    unfolding indexed_def Let_def by (rule addresses_bindE [OF yields_imm(1)]) (simp add: sw five)
qed

lemma keeps_transfer: "keeps ok (exg io)" "keeps ok (tfr io)"
proof -
  have same: "bit (post AND 15) 3 \<longleftrightarrow> bit (drop_bit 4 post) 3"
    if "\<not> bit (post XOR push_bit 4 post) 7" for post :: u32
    using that by (auto simp: bit_and_iff bit_xor_iff bit_push_bit_iff bit_drop_bit_eq)
  have 1: "keeps ok (block [assign (set_reg a v), assign (set_reg b w), clk 8])"
    if "half v" "half w" "bit a 3 \<Longrightarrow> byte v" "bit b 3 \<Longrightarrow> byte w" for a b v w
    using that by (intro keeps_Cons keeps_Nil keeps_clk keeps_assign wf_set_reg)
  have 2: "keeps ok (block [assign (set_reg a v), clk 6])" if "half v" "bit a 3 \<Longrightarrow> byte v" for a v
    using that by (intro keeps_Cons keeps_Nil keeps_clk keeps_assign wf_set_reg)
  have ex: "keeps ok (\<lambda>s. block [assign (set_reg a (g s)), assign (set_reg b (h s)), clk 8] s)"
    if "\<And>s. wf_regs ok s \<Longrightarrow> half (g s) \<and> half (h s) \<and> (bit a 3 \<longrightarrow> byte (g s)) \<and> (bit b 3 \<longrightarrow> byte (h s))" for a b g h
  proof (rule keepsI)
    fix s x t
    assume "wf_regs ok s" "block [assign (set_reg a (g s)), assign (set_reg b (h s)), clk 8] s = Ret x t"
    then show "wf_regs ok t" using keepsD [OF 1] that [of s] by blast
  qed
  have tf: "keeps ok (\<lambda>s. block [assign (set_reg a (g s)), clk 6] s)"
    if "\<And>s. wf_regs ok s \<Longrightarrow> half (g s) \<and> (bit a 3 \<longrightarrow> byte (g s))" for a g
  proof (rule keepsI)
    fix s x t
    assume "wf_regs ok s" "block [assign (set_reg a (g s)), clk 6] s = Ret x t"
    then show "wf_regs ok t" using keepsD [OF 2] that [of s] by blast
  qed
  show "keeps ok (exg io)"
    unfolding exg_def Let_def by (rule yields_bindE [OF yields_imm(1)], rule ex) (auto simp: get_reg_width same)
  show "keeps ok (tfr io)"
    unfolding tfr_def Let_def by (rule yields_bindE [OF yields_imm(1)], rule tf) (auto simp: get_reg_width same)
qed

lemma keeps_store: "keeps ok (st io v)" "keeps ok (st16 io v)" "keeps ok (std io)"
  "keeps ok (\<lambda>s. st io (f s) s)" "keeps ok (\<lambda>s. st16 io (f s) s)"
proof -
  have w: "keeps ok (\<lambda>s. WRMEM io (ea s) v s)" "keeps ok (\<lambda>s. WRMEM16 io (ea s) v s)" for v
    by (rule keeps_of_state, rule keeps_WRMEM keeps_WRMEM16)+
  show st: "keeps ok (st io v)" "keeps ok (st16 io v)" for v
    unfolding st_def st16_def by (rule keeps_Cons keeps_Nil keeps_assign wf_set w | assumption)+
  have "keeps ok (block [assign (\<lambda>s. s\<lparr>fZ := r, fN := rA s, fOV := 0\<rparr>), \<lambda>s. WRMEM16 io (ea s) r s])" for r
    by (rule keeps_Cons keeps_Nil keeps_assign wf_set w | assumption)+
  then show "keeps ok (std io)" unfolding std_def Let_def by (rule keeps_of_state)
  show "keeps ok (\<lambda>s. st io (f s) s)" "keeps ok (\<lambda>s. st16 io (f s) s)"
    by (rule keeps_of_state, rule st)+
qed

lemma keeps_of_pair: "(\<And>u v. keeps ok (m u v)) \<Longrightarrow> keeps ok (\<lambda>s. m (f s) (g s) s)"
  by (simp add: keeps_def triple_def)

lemma keeps_push: "keeps ok (push_s8 io f)" "keeps ok (push_u8 io f)" "keeps ok (push_s16 io f)" "keeps ok (push_u16 io f)"
proof -
  have w: "keeps ok (\<lambda>s. write_stack io (g s) (f s) s)" "keeps ok (\<lambda>s. write_stack16 io (g s) (f s) s)" for g
    by (rule keeps_of_pair, rule keeps_WRMEM keeps_WRMEM16)+
  show "keeps ok (push_s8 io f)" "keeps ok (push_u8 io f)" "keeps ok (push_s16 io f)" "keeps ok (push_u16 io f)"
    unfolding push_s8_def push_u8_def push_s16_def push_u16_def
    by (rule keeps_Cons keeps_Nil keeps_assign wf_step w | assumption)+
qed

lemma keeps_pull8:
  assumes "\<And>v s. wf_regs ok s \<Longrightarrow> byte v \<Longrightarrow> wf_regs ok (f v s)"
  shows "keeps ok (pull_s8 io f)" "keeps ok (pull_u8 io f)"
proof -
  have r: "keeps ok (\<lambda>s. bindE (read_stack io (g s)) (\<lambda>v. assign (f v)) s)" for g
    by (rule keeps_of_state, rule yields_bindE [OF yields_mem(2)], rule keeps_assign, erule assms)
  show "keeps ok (pull_s8 io f)" "keeps ok (pull_u8 io f)"
    unfolding pull_s8_def pull_u8_def by (rule keeps_Cons keeps_Nil keeps_assign wf_step r | assumption)+
qed

lemma keeps_pull16:
  assumes "\<And>v s. wf_regs ok s \<Longrightarrow> half v \<Longrightarrow> wf_regs ok (f v s)"
  shows "keeps ok (pull_s16 io f)" "keeps ok (pull_u16 io f)"
proof -
  have r: "keeps ok (\<lambda>s. bindE (read_stack16 io (g s)) (\<lambda>v. assign (f v)) s)" for g
    by (rule keeps_of_state, rule yields_bindE [OF yields_read_stack16], rule keeps_assign, erule assms)
  show "keeps ok (pull_s16 io f)" "keeps ok (pull_u16 io f)"
    unfolding pull_s16_def pull_u16_def by (rule keeps_Cons keeps_Nil keeps_assign wf_step r | assumption)+
qed

lemmas keep_steps = keeps_Cons keeps_Nil keeps_doif keep_leaves keeps_push keeps_pull8 keeps_pull16
  keeps_assign wf_set

lemma keeps_stack_instructions: "keeps ok (pshs io)" "keeps ok (pshu io)" "keeps ok (puls io)" "keeps ok (pulu io)"
  unfolding pshs_def pshu_def puls_def pulu_def
  by (rule yields_bindE [OF yields_imm(1)] keep_steps | assumption)+

lemma keeps_doif_state: "keeps ok m \<Longrightarrow> keeps ok (\<lambda>s. doif (b s) m s)"
  by (rule keeps_of_state [where m = "\<lambda>b. doif b m"], rule keeps_doif)

lemma keeps_goto_vector: "keeps ok (goto_vector io a)"
  unfolding goto_vector_def by (rule yields_bindE [OF yields_rd(2)], rule keeps_change_pc)

lemma keeps_stack_machine_state: "keeps ok (stack_machine_state io full)"
  unfolding stack_machine_state_def by (cases full) (simp_all only: if_True if_False, (rule keep_steps | assumption)+)

lemma keeps_interrupts: "keeps ok (irq io)" "keeps ok (firq io)" "keeps ok (swi io)" "keeps ok (swi2 io)" "keeps ok (swi3 io)"
proof -
  have *: "keeps ok (\<lambda>s. if cwai_state s = CWAI_STATE_WAIT
      then Ret () (s\<lparr>cwai_state := CWAI_STATE_IDLE\<rparr>) else stack_machine_state io full s)" for full
    by (rule keeps_if [OF _ keeps_stack_machine_state], rule keepsI) (auto simp: wf_set)
  show "keeps ok (irq io)" "keeps ok (firq io)" "keeps ok (swi io)" "keeps ok (swi2 io)" "keeps ok (swi3 io)"
    unfolding irq_def firq_def swi_def swi2_def swi3_def
    by (rule * keeps_goto_vector keeps_stack_machine_state keep_steps | assumption)+
qed

lemma keeps_requests: "keeps ok (request_irq io n)" "keeps ok (request_firq io n)" "keeps ok (cc_modified io)"
proof -
  have ub: "keeps ok (\<lambda>s. UB)" by (rule keepsI) simp
  show "keeps ok (request_irq io n)" "keeps ok (request_firq io n)"
    unfolding request_irq_def request_firq_def
    by (rule keeps_if [OF _ ub] keeps_doif_state keeps_interrupts keep_steps | assumption)+
  have "keeps ok (\<lambda>s. if firqs_pending s \<noteq> 0 \<and> EFI s AND F_FLAG = 0 then firq io s
         else if irqs_pending s \<noteq> 0 \<and> EFI s AND I_FLAG = 0 then irq io s else Ret () s)"
    by (rule keeps_if [OF keeps_interrupts(2) keeps_if [OF keeps_interrupts(1) keeps_Ret]])
  then show "keeps ok (cc_modified io)"
    unfolding cc_modified_def by (rule keeps_Cons) (rule keep_steps | assumption)+
qed

lemma keeps_pc: "keeps ok (\<lambda>s. change_pc (f s) s)"
  by (rule keeps_of_state, rule keeps_change_pc)

lemma keeps_cwai: "keeps ok (cwai io)"
  unfolding cwai_def
  by (rule keeps_if keeps_pc keeps_stack_machine_state keep_steps yields_bindE [OF yields_imm(1)] | assumption)+

lemma keeps_rti: "keeps ok (rti io)"
proof -
  have "keeps ok (\<lambda>s. command_exit_irq_hook (get_cycles s - irq_start_time s) s)"
    by (rule keeps_of_state, rule keeps_exit_irq_hook)
  then show ?thesis
    unfolding rti_def by (rule keeps_Cons [OF keeps_clk keeps_Cons]) (rule keeps_doif_state keep_steps | assumption)+
qed

lemma keeps_misc: "keeps ok (rts io)" "keeps ok (orcc io)" "keeps ok (andcc io)" "keeps ok (jsr io)"
  unfolding rts_def orcc_def andcc_def jsr_def
  by (rule keeps_pc keep_steps yields_bindE [OF yields_imm(1)] | assumption)+

lemma keeps_branches:
  "keeps ok (bra io)" "keeps ok (branch io c)" "keeps ok (long_bra io)" "keeps ok (long_branch io c)" "keeps ok (bsr io)" "keeps ok (long_bsr io)"
  unfolding bra_def branch_def long_bra_def long_branch_def bsr_def long_bsr_def
  by (rule keeps_if keeps_pc keep_steps yields_bindE [OF yields_imm(1)] yields_bindE [OF yields_imm(2)] | assumption)+

lemma keeps_rmw:
  assumes "\<And>v s. wf_regs ok s \<Longrightarrow> byte v \<Longrightarrow> wf_regs ok (snd (f v s))"
  shows "keeps ok (rmw io f)"
proof -
  have w: "keeps ok (\<lambda>t. WRMEM io (ea t) r t)" for r
    by (rule keeps_of_state, rule keeps_WRMEM)
  have "keeps ok (\<lambda>s. let (r, t) = f v s in WRMEM io (ea t) r t)" if "byte v" for v
    unfolding split_beta Let_def by (rule keepsI) (erule keepsD [OF w assms [OF _ that], rotated])
  then show ?thesis unfolding rmw_def by (rule yields_bindE [OF yields_operand(1)])
qed

lemma keeps_tst: "keeps ok (tst_mem io)" "keeps ok (assign (\<lambda>s. tst (rA s) s))" "keeps ok (assign (\<lambda>s. tst (rB s) s))"
proof -
  have "keeps ok (assign (tst v))" for v
    by (rule keeps_assign) (simp add: tst_def wf_regs_def)
  then show "keeps ok (tst_mem io)" unfolding tst_mem_def by (rule yields_bindE [OF yields_operand(1)])
  show "keeps ok (assign (\<lambda>s. tst (rA s) s))" "keeps ok (assign (\<lambda>s. tst (rB s) s))"
    by (rule keeps_assign, simp add: tst_def wf_regs_def)+
qed

text \<open>The cases that use the effective address as a register value, and BRN and LBRN, which
  skip their operand.\<close>

lemma keeps_use_ea:
  assumes "addresses ok m" "\<And>s. wf_ea ok s \<Longrightarrow> wf_regs ok (f s)"
  shows "keeps ok (block [m, assign f])" "keeps ok (block [m, clk n, assign f])"
proof -
  have a: "triple (wf_ea ok) (block [assign f]) (\<lambda>_. wf_regs ok)"
    by (rule tripleI) (auto simp: assign_def assms(2))
  have "triple (wf_ea ok) (block [clk n, assign f]) (\<lambda>_. wf_regs ok)"
    by (rule triple_block_Cons [OF keeps_ea_basic(1) [unfolded keeps_ea_def] a])
  with a show "keeps ok (block [m, assign f])" "keeps ok (block [m, clk n, assign f])"
    using assms(1) unfolding keeps_def addresses_def by (blast intro: triple_block_Cons)+
qed

lemma wf_from_ea:
  assumes "wf_ea ok s"
  shows "wf_regs ok (s\<lparr>rPC := ea s\<rparr>)" "wf_regs ok (s\<lparr>rX := ea s, fZ := ea s\<rparr>)" "wf_regs ok (s\<lparr>rY := ea s, fZ := ea s\<rparr>)"
    "wf_regs ok (s\<lparr>rS := ea s\<rparr>)" "wf_regs ok (s\<lparr>rU := ea s\<rparr>)"
  using assms by (auto simp: wf_ea_def wf_set) (auto simp: wf_regs_def)

lemma keeps_starts: "keeps ok m \<Longrightarrow> starts ok m"
  unfolding keeps_def starts_def by (erule triple_weaken) simp_all

lemma starts_brn:
  "starts ok (block [assign (\<lambda>s. s\<lparr>rPC := rPC s + 1\<rparr>), clk 3])" "starts ok (block [clk 5, assign (\<lambda>s. s\<lparr>rPC := rPC s + 2\<rparr>)])"
  unfolding starts_def by (rule tripleI, auto simp: assign_def clk_def wf_regs_def unat_word_ariths)+

lemmas keep_cases = keeps_use_ea wf_from_ea addresses_direct addresses_extended addresses_indexed
  addresses_keeps [OF addresses_direct] addresses_keeps [OF addresses_extended]
  addresses_keeps [OF addresses_indexed] keep_steps keeps_transfer keeps_store
  keeps_stack_instructions keeps_interrupts keeps_cwai keeps_rti keeps_misc keeps_branches keeps_rmw keeps_tst
  keeps_op1 keeps_op2 keeps_ld keeps_cmp keeps_cmp_16 keeps_op_D keeps_ld_16
  yields_imm yields_operand alu_wf alu1_wf alu16_wf

lemma starts_page_tables:
  "\<forall>p \<in> set (page2_20_table io). starts ok (snd p)"
  "\<forall>p \<in> set (page2_80_table io). starts ok (snd p)"
  "\<forall>p \<in> set (page3_table io). starts ok (snd p)"
  unfolding page2_20_table_def page2_80_table_def page3_table_def list.set ball_simps snd_conv
  by (intro conjI TrueI; (rule starts_brn | (rule keeps_starts, (assumption | rule keep_cases)+)))+

lemma starts_op_tables:
  "\<forall>p \<in> set (op_00_table io). starts ok (snd p)"
  "\<forall>p \<in> set (op_10_table io). starts ok (snd p)"
  "\<forall>p \<in> set (op_20_table io). starts ok (snd p)"
  "\<forall>p \<in> set (op_30_table io). starts ok (snd p)"
  "\<forall>p \<in> set (op_40_table io). starts ok (snd p)"
  "\<forall>p \<in> set (op_50_table io). starts ok (snd p)"
  "\<forall>p \<in> set (op_60_table io). starts ok (snd p)"
  "\<forall>p \<in> set (op_70_table io). starts ok (snd p)"
  "\<forall>p \<in> set (op_80_table io). starts ok (snd p)"
  "\<forall>p \<in> set (op_90_table io). starts ok (snd p)"
  "\<forall>p \<in> set (op_a0_table io). starts ok (snd p)"
  "\<forall>p \<in> set (op_b0_table io). starts ok (snd p)"
  "\<forall>p \<in> set (op_c0_table io). starts ok (snd p)"
  "\<forall>p \<in> set (op_d0_table io). starts ok (snd p)"
  "\<forall>p \<in> set (op_e0_table io). starts ok (snd p)"
  "\<forall>p \<in> set (op_f0_table io). starts ok (snd p)"
  unfolding op_00_table_def op_10_table_def op_20_table_def op_30_table_def op_40_table_def
    op_50_table_def op_60_table_def op_70_table_def op_80_table_def op_90_table_def op_a0_table_def
    op_b0_table_def op_c0_table_def op_d0_table_def op_e0_table_def op_f0_table_def
    list.set ball_simps snd_conv
  by (intro conjI TrueI; (rule starts_brn | (rule keeps_starts, (assumption | rule keep_cases)+)))+

lemma starts_imm:
  assumes "\<And>v. starts ok (f v)"
  shows "keeps ok (bindE (imm_byte io) f)"
proof (rule keepsI)
  fix s x t
  assume s: "wf_regs ok s" and e: "bindE (imm_byte io) f s = Ret x t"
  from e obtain v u where v: "imm_byte io s = Ret v u" and u: "f v u = Ret x t" by (rule bindE_RetE)
  show "wf_regs ok t"
    using tripleD [OF assms [unfolded starts_def] _ u] imm_byte_post [OF v s] by simp
qed

lemma starts_pages: "starts ok (page2 io)" "starts ok (page3 io)"
proof -
  have "\<forall>p \<in> set (page2_20_table io @ page2_80_table io). starts ok (snd p)"
    using starts_page_tables(1,2) by (simp only: set_append ball_Un)
  from switch_cases [OF this keeps_starts [OF keeps_sim_error]] show "starts ok (page2 io)"
    unfolding page2_def by (rule keeps_starts [OF starts_imm])
  from switch_cases [OF starts_page_tables(3) keeps_starts [OF keeps_sim_error]] show "starts ok (page3 io)"
    unfolding page3_def by (rule keeps_starts [OF starts_imm])
qed

lemma starts_opcode_table: "\<forall>p \<in> set (opcode_table io). starts ok (snd p)"
  unfolding opcode_table_def set_append ball_Un list.set ball_simps snd_conv
  by (intro conjI TrueI starts_op_tables starts_pages)

lemma keeps_exec_insn: "keeps ok (exec_insn io)"
  unfolding exec_insn_def
  by (rule keeps_Cons [OF keeps_assign] keeps_Cons [OF starts_imm] keeps_doif_state keeps_requests
      switch_cases [OF starts_opcode_table keeps_starts [OF keeps_invalid_opcode]] keep_steps | assumption)+

end

end
