(* ===== verification/Expr_Syntax.thy ===== *)
theory Expr_Syntax
  imports Prelude
begin

text \<open>
  How the expressions of the debugger (\<^verbatim>\<open>command.c\<close>) are cut into parts: the functions search for an operator,
  overwrite it with the terminating NUL and evaluate both sides. The evaluator is in \<open>Debugger_Eval\<close>; here are the
  search and what the evaluation leaves of the string, which matters when the caller keeps the buffer, as the
  condition of a breakpoint is kept.
\<close>

section \<open>Searching\<close>

text \<open>\<^verbatim>\<open>strstr (expr, op)\<close> and the cut at its result: the parts before and behind the first occurrence.
  \<^verbatim>\<open>strchr\<close> is the case of a single character.\<close>

fun match_binary :: "string \<Rightarrow> string \<Rightarrow> (string \<times> string) option" where
  "match_binary [] op = (if op = [] then Some ([], []) else None)"
| "match_binary (c # cs) op =
     (if take (length op) (c # cs) = op then Some ([], drop (length op) (c # cs))
      else map_option (\<lambda>(l, r). (c # l, r)) (match_binary cs op))"

definition strchr :: "string \<Rightarrow> char \<Rightarrow> (string \<times> string) option" where
  "strchr expr c = match_binary expr [c]"

definition isalpha :: "char \<Rightarrow> bool" where
  "isalpha c \<longleftrightarrow> (let n = of_char c :: nat in 0x41 \<le> n \<and> n \<le> 0x5a \<or> 0x61 \<le> n \<and> n \<le> 0x7a)"

definition isdigit :: "char \<Rightarrow> bool" where
  "isdigit c \<longleftrightarrow> (let n = of_char c :: nat in 0x30 \<le> n \<and> n \<le> 0x39)"

definition is_symbol :: "string \<Rightarrow> bool" where
  "is_symbol expr \<longleftrightarrow> expr \<noteq> [] \<and> (isalpha (hd expr) \<or> hd expr = CHR ''_'')"

text \<open>The condition under which \<^verbatim>\<open>fold_binary\<close> cuts: the operator occurs and is not the first character.\<close>

definition fold_binary :: "string \<Rightarrow> char \<Rightarrow> (string \<times> string) option" where
  "fold_binary expr op = (case strchr expr op of Some (l, r) \<Rightarrow> if l = [] then None else Some (l, r) | None \<Rightarrow> None)"

lemma match_binary_Some:
  "match_binary e op = Some (l, r) \<Longrightarrow> e = l @ op @ r"
proof (induction e arbitrary: l)
  case (Cons c cs)
  show ?case
  proof (cases "take (length op) (c # cs) = op")
    case True
    then have "l = []" "r = drop (length op) (c # cs)" using Cons.prems by simp_all
    then show ?thesis using True append_take_drop_id [of "length op" "c # cs"] by simp
  next
    case False
    then obtain l' where "l = c # l'" "match_binary cs op = Some (l', r)" using Cons.prems by auto
    then show ?thesis using Cons.IH by simp
  qed
qed (simp split: if_splits)

lemma match_binary_length:
  "match_binary e op = Some (l, r) \<Longrightarrow> length l + length r + length op = length e"
  using match_binary_Some [of e op l r] by simp

lemma strchr_Some: "strchr e c = Some (l, r) \<Longrightarrow> e = l @ c # r"
  using match_binary_Some [of e "[c]" l r] by (simp add: strchr_def)

lemma strchr_length: "strchr e c = Some (l, r) \<Longrightarrow> length l + length r < length e"
  using strchr_Some [of e c l r] by simp

lemma fold_binary_length: "fold_binary e c = Some (l, r) \<Longrightarrow> length l + length r < length e"
  by (auto simp: fold_binary_def strchr_length split: option.splits if_splits)

lemma match_binary_None:
  "op \<noteq> [] \<Longrightarrow> hd op \<notin> set e \<Longrightarrow> match_binary e op = None"
  by (induction e) (auto simp: neq_Nil_conv)

lemma strchr_None: "c \<notin> set e \<Longrightarrow> strchr e c = None"
  by (simp add: strchr_def match_binary_None)

lemma strchr_first: "c \<notin> set l \<Longrightarrow> strchr (l @ c # r) c = Some (l, r)"
  unfolding strchr_def by (induction l) auto

lemma fold_binary_None: "c \<notin> set e \<Longrightarrow> fold_binary e c = None"
  by (simp add: fold_binary_def strchr_None)

lemma fold_binary_first: "c \<notin> set l \<Longrightarrow> l \<noteq> [] \<Longrightarrow> fold_binary (l @ c # r) c = Some (l, r)"
  by (simp add: fold_binary_def strchr_first)

section \<open>What is left of the string\<close>

text \<open>The contents of the buffer up to the first NUL after \<^verbatim>\<open>eval\<close> or \<^verbatim>\<open>eval_mem\<close> has returned: every cut
  leaves its left part, which is cut in turn when it is evaluated.\<close>

function (sequential) eval_rest :: "string \<Rightarrow> string" and mem_rest :: "string \<Rightarrow> string" where
  "eval_rest expr =
     (case match_binary expr ''=='' of Some (l, r) \<Rightarrow> eval_rest l
      | None \<Rightarrow> (case match_binary expr ''!='' of Some (l, r) \<Rightarrow> eval_rest l
      | None \<Rightarrow> (case strchr expr CHR ''='' of Some (l, r) \<Rightarrow> if l \<noteq> [] \<and> hd l = CHR ''$'' then l else mem_rest l
      | None \<Rightarrow> (case fold_binary expr CHR ''+'' of Some (l, r) \<Rightarrow> eval_rest l
      | None \<Rightarrow> (case fold_binary expr CHR ''-'' of Some (l, r) \<Rightarrow> eval_rest l
      | None \<Rightarrow> (case fold_binary expr CHR ''*'' of Some (l, r) \<Rightarrow> eval_rest l
      | None \<Rightarrow> (case fold_binary expr CHR ''/'' of Some (l, r) \<Rightarrow> eval_rest l
      | None \<Rightarrow> if expr \<noteq> [] \<and> hd expr = CHR ''&'' then CHR ''&'' # mem_rest (tl expr)
               else if is_symbol expr then mem_rest expr else expr)))))))"
| "mem_rest expr =
     (case strchr expr CHR '':'' of Some (l, r) \<Rightarrow> eval_rest l
      | None \<Rightarrow> if is_symbol expr then expr else eval_rest expr)"
  by pat_completeness auto
termination
  apply (relation "measure (\<lambda>x. case x of Inl e \<Rightarrow> 2 * length e | Inr e \<Rightarrow> if is_symbol e then 2 * length e - 1 else 2 * length e + 1)")
     apply (auto dest!: match_binary_length strchr_length fold_binary_length simp: is_symbol_def)
    apply (case_tac expr; simp)+
  done

declare eval_rest.simps [simp del] mem_rest.simps [simp del]

end
