(* ===== verification/System.thy ===== *)
theory System
  imports Io_Devices Cpu_Progress Cpu_Invariant Expr_Syntax
begin

text \<open>
  The processor connected to the machine: the accesses of \<^verbatim>\<open>machine.c\<close>
  (\<^verbatim>\<open>cpu_read8\<close>, \<^verbatim>\<open>cpu_read16\<close>, \<^verbatim>\<open>cpu_write8\<close>, \<^verbatim>\<open>abs_read8\<close>, \<^verbatim>\<open>abs_write8\<close>), the debugger
  hooks they and the main loop pass (\<^verbatim>\<open>command.c\<close>, \<^verbatim>\<open>monitor.c\<close>), device creation, the
  machines of \<^verbatim>\<open>eon.c\<close>, and the bus interface of the processor. The interactive part of the
  debugger, the expression evaluator and the command loop, is the parameter \<open>dbg\<close>.
  Writing to a device may interrupt the processor, whose stacking writes to the bus again;
  the interface \<open>sys_bus dbg n\<close> allows \<open>n\<close> levels of such nesting.
\<close>

record debugger =
  dbg_eval :: "string \<Rightarrow> (sys, u64) expr"
  dbg_monitor :: "(sys, int) expr"

section \<open>Absolute accesses\<close>

definition abs_read8 :: "nat \<Rightarrow> (sys, u8) expr" where
  "abs_read8 addr = bindE (find_device (of_nat addr) (addr div 2 ^ 28 mod 2 ^ 32)) (\<lambda>dv.
     dev_read DEV_FUEL dv (addr mod 2 ^ 28))"

definition abs_write8 :: "sys iface \<Rightarrow> nat \<Rightarrow> u8 \<Rightarrow> sys stmt" where
  "abs_write8 io addr val = dev_write DEV_FUEL io (addr div 2 ^ 28 mod 2 ^ 32) (addr mod 2 ^ 28) val"

definition target_read :: "nat \<Rightarrow> nat \<Rightarrow> (sys, u16) expr" where
  "target_read addr sz =
     (if sz = 1 then bindE (abs_read8 addr) (\<lambda>v. Ret (ucast v))
      else bindE (abs_read8 addr) (\<lambda>hi. bindE (abs_read8 (addr + 1)) (\<lambda>lo.
        Ret (push_bit 8 (ucast hi) OR ucast lo))))"

section \<open>Debugger hooks\<close>

definition brk_enable :: "nat \<Rightarrow> bool \<Rightarrow> sys \<Rightarrow> sys" where
  "brk_enable n flag = set_mch (\<lambda>m.
     if br_enabled (breaktab m ! n) \<noteq> flag then
       m\<lparr>breaktab := (breaktab m)[n := (breaktab m ! n)\<lparr>br_enabled := flag\<rparr>],
         active_break_count := (if flag then active_break_count m + 1 else active_break_count m - 1)\<rparr>
     else m)"

definition brkfree :: "nat \<Rightarrow> sys \<Rightarrow> sys" where
  "brkfree n s = set_mch (\<lambda>m. m\<lparr>breaktab := (breaktab m)[n := (breaktab m ! n)\<lparr>br_used := False\<rparr>]\<rparr>)
     (brk_enable n False s)"

text \<open>\<^verbatim>\<open>brkalloc\<close>: the first free entry, cleared except for its watch flags, and enabled.\<close>

definition brkalloc :: "sys \<Rightarrow> (nat \<times> sys) option" where
  "brkalloc s =
     (case find (\<lambda>n. \<not> br_used (breaktab (mch s) ! n)) [0..<length (breaktab (mch s))] of
        None \<Rightarrow> None
      | Some n \<Rightarrow> Some (n, brk_enable n True (set_mch (\<lambda>m. m\<lparr>breaktab := (breaktab m)[n :=
          (breaktab m ! n)\<lparr>br_used := True, br_conditional := False, br_threaded := False,
             br_keep_running := False, br_ignore_count := 0, br_temp := False, br_on_execute := False\<rparr>]\<rparr>) s)))"

definition brkfind_by_addr :: "nat \<Rightarrow> sys \<Rightarrow> nat option" where
  "brkfind_by_addr addr s =
     find (\<lambda>n. br_addr (breaktab (mch s) ! n) = addr) [0..<length (breaktab (mch s))]"

definition brkfree_temps :: "sys \<Rightarrow> sys" where
  "brkfree_temps s =
     foldl (\<lambda>s n. if br_used (breaktab (mch s) ! n) \<and> br_temp (breaktab (mch s) ! n) then brkfree n s else s)
       s [0..<length (breaktab (mch s))]"

text \<open>The evaluator works in the buffer of the condition and leaves it cut.\<close>

definition breakpoint_hit :: "debugger \<Rightarrow> nat \<Rightarrow> sys stmt" where
  "breakpoint_hit dbg n = (\<lambda>s.
     let br = breaktab (mch s) ! n in
     if br_threaded br \<and> thread_id (mch s) \<noteq> br_tid br then Ret () s
     else bindE (if br_conditional br
                 then bindE (dbg_eval dbg (br_condition br)) (\<lambda>v s. Ret v (set_mch (\<lambda>m. m\<lparr>breaktab := (breaktab m)[n :=
                   (breaktab m ! n)\<lparr>br_condition := eval_rest (br_condition br)\<rparr>]\<rparr>) s))
                 else Ret 1) (\<lambda>v s.
       if v = 0 then Ret () s
       else if br_ignore_count (breaktab (mch s) ! n) > 0 then
         Ret () (set_mch (\<lambda>m. m\<lparr>breaktab := (breaktab m)[n :=
           (breaktab m ! n)\<lparr>br_ignore_count := br_ignore_count (breaktab m ! n) - 1\<rparr>]\<rparr>) s)
       else Ret () (s\<lparr>monitor_on := \<not> br_keep_running (breaktab (mch s) ! n)\<rparr>)) s)"

definition command_trace_insn :: "u32 \<Rightarrow> sys stmt" where
  "command_trace_insn addr s =
     (if trace_offset (mch s) < length (trace_buffer (mch s)) then
        Ret () (set_mch (\<lambda>m. m\<lparr>trace_buffer := (trace_buffer m)[trace_offset m := addr],
          trace_offset := (trace_offset m + 1) mod MAX_TRACE\<rparr>) s)
      else UB)"

definition command_insn_hook :: "debugger \<Rightarrow> sys stmt" where
  "command_insn_hook dbg = (\<lambda>s.
     let pc = get_pc s in block [
       command_trace_insn pc,
       \<lambda>s. doif (active_break_count (mch s) \<noteq> 0)
         (bindE (to_absolute (unat pc)) (\<lambda>abspc s.
            case brkfind_by_addr abspc s of
              Some n \<Rightarrow> doif (br_enabled (breaktab (mch s) ! n) \<and> br_on_execute (breaktab (mch s) ! n))
                (block [
                   breakpoint_hit dbg n,
                   \<lambda>s. doif (monitor_on s \<and> br_temp (breaktab (mch s) ! n)) (assign (brkfree n)) s]) s
            | None \<Rightarrow> Ret () s)) s] s)"

definition command_read_hook :: "debugger \<Rightarrow> nat \<Rightarrow> sys stmt" where
  "command_read_hook dbg addr s =
     (if active_break_count (mch s) = 0 then Ret () s
      else case brkfind_by_addr addr s of
          Some n \<Rightarrow> doif (br_enabled (breaktab (mch s) ! n) \<and> br_on_read (breaktab (mch s) ! n))
            (breakpoint_hit dbg n) s
        | None \<Rightarrow> Ret () s)"

text \<open>\<^verbatim>\<open>command_change_thread\<close> for the machines without a thread dump.\<close>

definition command_change_thread :: "sys stmt" where
  "command_change_thread = (\<lambda>s.
     bindE (target_read (thread_current (mch s)) (thread_id_size (mch s))) (\<lambda>addr.
     bindE (to_absolute (unat addr)) (\<lambda>th.
     assign (set_mch (\<lambda>m. m\<lparr>thread_id := th\<rparr>)))) s)"

definition command_write_hook :: "debugger \<Rightarrow> nat \<Rightarrow> u8 \<Rightarrow> sys stmt" where
  "command_write_hook dbg addr val = (\<lambda>s.
     let thread = (\<lambda>s. doif (thread_id_size (mch s) \<noteq> 0
           \<and> addr + 1 = thread_current (mch s) + thread_id_size (mch s)) command_change_thread s)
     in if active_break_count (mch s) = 0 then thread s
     else case brkfind_by_addr addr s of
         None \<Rightarrow> thread s
       | Some n \<Rightarrow>
           let br = breaktab (mch s) ! n in
           if br_enabled br \<and> br_on_write br then
             (if br_write_mask br \<noteq> 0 then
                let s' = set_mch (\<lambda>m. m\<lparr>breaktab := (breaktab m)[n := br\<lparr>br_last_write := ucast val\<rparr>]\<rparr>) s in
                if br_last_write br AND br_write_mask br \<noteq> ucast val AND br_write_mask br
                then block [breakpoint_hit dbg n, thread] s' else Ret () s'
              else block [breakpoint_hit dbg n, thread] s)
           else thread s)"

definition check_break_insn :: "(sys, bool) expr" where
  "check_break_insn s =
     (if auto_break_insn_count (mch s) > 0 then
        Ret (auto_break_insn_count (mch s) = 1) (set_mch (\<lambda>m. m\<lparr>auto_break_insn_count := auto_break_insn_count m - 1\<rparr>) s)
      else Ret False s)"

section \<open>Accesses by the processor\<close>

definition cpu_read8 :: "debugger \<Rightarrow> u32 \<Rightarrow> (sys, u8) expr" where
  "cpu_read8 dbg addr =
     bindE (find_map addr) (\<lambda>map.
     bindE (find_device addr (bm_devid map)) (\<lambda>dev.
     let phy_addr = bm_offset map + unat addr mod BUS_MAP_SIZE in
     bindE (\<lambda>s. doif (cpu_running (mch s) \<and> bm_flags map AND MAP_READABLE = 0) (machine_fault addr FAULT_NOT_READABLE) s) (\<lambda>_.
     bindE (command_read_hook dbg (absolute_from_reladdr (bm_devid map) phy_addr)) (\<lambda>_.
     dev_read DEV_FUEL dev phy_addr))))"

definition cpu_read16 :: "debugger \<Rightarrow> u32 \<Rightarrow> (sys, u16) expr" where
  "cpu_read16 dbg addr =
     bindE (find_map addr) (\<lambda>map.
     bindE (find_device addr (bm_devid map)) (\<lambda>dev.
     let phy_addr = bm_offset map + unat addr mod BUS_MAP_SIZE in
     bindE (\<lambda>s. doif (cpu_running (mch s) \<and> bm_flags map AND MAP_READABLE = 0) (do_fault addr FAULT_NOT_READABLE) s) (\<lambda>_.
     bindE (command_read_hook dbg (absolute_from_reladdr (bm_devid map) phy_addr)) (\<lambda>_.
     bindE (dev_read DEV_FUEL dev phy_addr) (\<lambda>hi.
     bindE (dev_read DEV_FUEL dev (phy_addr + 1)) (\<lambda>lo.
     Ret (push_bit 8 (ucast hi) OR ucast lo)))))))"

definition cpu_write8 :: "debugger \<Rightarrow> sys iface \<Rightarrow> u32 \<Rightarrow> u8 \<Rightarrow> sys stmt" where
  "cpu_write8 dbg io addr val =
     bindE (find_map addr) (\<lambda>map.
     bindE (find_device addr (bm_devid map)) (\<lambda>dev.
     let phy_addr = bm_offset map + unat addr mod BUS_MAP_SIZE in block [
       \<lambda>s. if \<not> cpu_running (mch s) \<or> bm_flags map AND MAP_WRITABLE \<noteq> 0 then dev_write DEV_FUEL io dev phy_addr val s
           else if bm_flags map AND MAP_IGNOREWRITE \<noteq> 0 then Ret () s
           else do_fault addr FAULT_NOT_WRITABLE s,
       command_write_hook dbg (absolute_from_reladdr (bm_devid map) phy_addr) val]))"

section \<open>The bus interface\<close>

text \<open>\<open>sys_bus dbg n\<close> is what \<^verbatim>\<open>6809.c\<close> links against, with at most \<open>n\<close> interrupts taken inside
  device writes.\<close>

primrec sys_bus :: "debugger \<Rightarrow> nat \<Rightarrow> sys iface" where
  "sys_bus dbg 0 = \<lparr>read8 = cpu_read8 dbg, read16 = cpu_read16 dbg, write8 = (\<lambda>_ _ _. NoFuel),
     insn_hook = command_insn_hook dbg, check_break = check_break_insn, monitor6809 = dbg_monitor dbg,
     cpu_is_running = assign (set_mch (\<lambda>m. m\<lparr>cpu_running := True\<rparr>))\<rparr>"
| "sys_bus dbg (Suc n) = \<lparr>read8 = cpu_read8 dbg, read16 = cpu_read16 dbg, write8 = cpu_write8 dbg (sys_bus dbg n),
     insn_hook = command_insn_hook dbg, check_break = check_break_insn, monitor6809 = dbg_monitor dbg,
     cpu_is_running = assign (set_mch (\<lambda>m. m\<lparr>cpu_running := True\<rparr>))\<rparr>"

definition machine_update :: "sys iface \<Rightarrow> sys stmt" where
  "machine_update io = (\<lambda>s. block (map (dev_update io) [0..<length (device_table (mch s))]) s)"

section \<open>Building a machine\<close>

definition device_attach :: "priv \<Rightarrow> nat \<Rightarrow> (sys, nat) expr" where
  "device_attach p sz = (\<lambda>s.
     let dv = length (device_table (mch s)) in
     if dv < MAX_BUS_DEVICES then
       bindE (assign (set_mch (\<lambda>m. m\<lparr>device_table := device_table m @ [\<lparr>dev_size = sz, dev_priv = p\<rparr>]\<rparr>))) (\<lambda>_.
       bindE (dev_reset DEV_FUEL dv) (\<lambda>_. Ret dv)) s
     else UB)"

definition null_create :: "(sys, nat) expr" where "null_create = device_attach Null_dev 0"
definition ram_create :: "nat \<Rightarrow> (sys, nat) expr" where "ram_create sz = device_attach (Ram_dev (\<lambda>_. 0)) sz"
definition console_create :: "(sys, nat) expr" where "console_create = device_attach Console_dev BUS_MAP_SIZE"
definition mmu_create :: "(sys, nat) expr" where "mmu_create = device_attach Mmu_dev BUS_MAP_SIZE"

text \<open>\<^verbatim>\<open>rom_create\<close>: the image is repeated to fill the part. The remaining size is unsigned, so an
  image that does not divide it runs past the buffer; an empty image makes no progress.\<close>

function rom_fill :: "nat \<Rightarrow> nat \<Rightarrow> nat \<Rightarrow> (nat \<Rightarrow> u8) \<Rightarrow> (nat \<Rightarrow> u8) option" where
  "rom_fill img pos rem buf =
     (if rem = 0 then Some buf
      else if img = 0 \<or> rem < img then None
      else rom_fill img (pos + img) (rem - img)
             (\<lambda>a. if pos + img \<le> a \<and> a < pos + 2 * img then buf (a - img) else buf a))"
  by auto
termination by (relation "measure (\<lambda>(img, pos, rem, buf). rem)") auto

definition rom_create :: "u8 list option \<Rightarrow> nat \<Rightarrow> (sys, nat) expr" where
  "rom_create rom maxsize =
     (case rom of
        None \<Rightarrow> device_attach (Rom_dev (\<lambda>_. 0)) maxsize
      | Some img \<Rightarrow>
          if length img \<le> maxsize then
            (case rom_fill (length img) 0 (maxsize - length img) (\<lambda>a. if a < length img then img ! a else 0) of
               Some buf \<Rightarrow> device_attach (Rom_dev buf) maxsize
             | None \<Rightarrow> (\<lambda>s. UB))
          else (\<lambda>s. UB))"

definition imux_create :: "nat \<Rightarrow> (sys, nat) expr" where
  "imux_create cpu_line = device_attach (Imux_dev \<lparr>in_use = 0, enabled = 0, pending = 0, src = cpu_line\<rparr>) BUS_MAP_SIZE"

definition hwtimer_create :: "nat option \<Rightarrow> nat \<Rightarrow> (sys, nat) expr" where
  "hwtimer_create d line = device_attach (Hwtimer_dev \<lparr>tcount = 0, reload = 0, resolution = 0, tflags = 0,
     prev_cycles = 0, int_dev = d, int_line = line\<rparr>) 16"

definition oscillator_create :: "nat option \<Rightarrow> nat \<Rightarrow> (sys, nat) expr" where
  "oscillator_create d line = device_attach (Oscillator_dev \<lparr>tcount = 0, reload = 2048, resolution = 0, tflags = 0,
     prev_cycles = 0, int_dev = d, int_line = line\<rparr>) 0"

definition small_mmu_create :: "nat \<Rightarrow> (sys, nat) expr" where
  "small_mmu_create dv = device_attach (Small_mmu_dev \<lparr>realdev = dv, global_regs = replicate 8 0,
     slot_regs = replicate SMR_SLOTS [0, 0]\<rparr>) 16"

definition ioexpand_create :: "(sys, nat) expr" where
  "ioexpand_create = device_attach (Ioexpand_dev \<lparr>ios = replicate NR_IOEXPAND None,
     io_offset = replicate NR_IOEXPAND 0\<rparr>) BUS_MAP_SIZE"

text \<open>\<^verbatim>\<open>serial_create\<close> and \<^verbatim>\<open>hostfile_create\<close> with the descriptors they end up with.\<close>

definition serial_create :: "int \<Rightarrow> int \<Rightarrow> (sys, nat) expr" where
  "serial_create fdin fdout = device_attach (Serial_dev \<lparr>ser_ctrl = 0, ser_status = 0, fin = fdin, fout = fdout,
     rx_rd = 0, rx_wr = 0, rx_count = 0, rx_buf = replicate RX_SIZE 0\<rparr>) 4"

text \<open>\<^verbatim>\<open>disk_create\<close>: the backing file, or none, in which case a new one is made and formatted.\<close>

definition disk_create :: "u8 list option \<Rightarrow> nat \<Rightarrow> (sys, nat) expr" where
  "disk_create backing ram_dev =
     bindE (device_attach (Disk_dev \<lparr>dk_fp = Some (case backing of Some f \<Rightarrow> f | None \<Rightarrow> []), dk_pos = 0, dk_offset = 0,
       dk_ramdev = ram_dev, dk_ram = None, dk_sectors = 65536\<rparr>) 4) (\<lambda>dv.
     bindE (doif (backing = None) (disk_format dv 65536)) (\<lambda>_. Ret dv))"

section \<open>The machines of eon.c\<close>

definition simple_init :: "sys stmt" where
  "simple_init = block [
     bindE (ram_create MAX_CPU_ADDR) (\<lambda>ram. device_define ram 0 0 MAX_CPU_ADDR MAP_READWRITE),
     bindE console_create (\<lambda>con. device_define con 0 0xff00 BUS_MAP_SIZE MAP_READWRITE)]"

definition eon_init :: "u8 list option \<Rightarrow> u8 list option \<Rightarrow> sys stmt" where
  "eon_init boot_rom disk_bin =
     bindE mmu_create (\<lambda>mmu.
     bindE (device_define mmu 0 0xe000 BUS_MAP_SIZE (MAP_READWRITE + MAP_FIXED)) (\<lambda>_.
     bindE (ram_create 0x100000) (\<lambda>ram_dev.
     bindE (device_define ram_dev 0 0 MAX_CPU_ADDR MAP_READWRITE) (\<lambda>_.
     bindE (rom_create boot_rom 0x1c00) (\<lambda>rom.
     bindE (device_define rom 0 0xe400 0x1c00 MAP_READABLE) (\<lambda>_.
     bindE console_create (\<lambda>dev.
     bindE (device_define dev 0 (0xe000 + BUS_MAP_SIZE * 2) BUS_MAP_SIZE MAP_READWRITE) (\<lambda>_.
     bindE (device_define dev 0 0xff00 BUS_MAP_SIZE MAP_READWRITE) (\<lambda>_.
     bindE (disk_create disk_bin ram_dev) (\<lambda>disk.
     device_define disk 0 (0xe000 + BUS_MAP_SIZE * 4) BUS_MAP_SIZE MAP_READWRITE))))))))))"

definition eon2_init :: "u8 list option \<Rightarrow> u8 list option \<Rightarrow> int \<Rightarrow> sys stmt" where
  "eon2_init boot_rom disk_bin hostfile =
     bindE (ram_create 0x100000) (\<lambda>ram_dev.
     bindE (small_mmu_create ram_dev) (\<lambda>mmudev.
     bindE (rom_create boot_rom 0x800) (\<lambda>dev.
     bindE (device_define dev 0 0xf800 0x0800 MAP_READABLE) (\<lambda>_.
     bindE ioexpand_create (\<lambda>iodev.
     bindE (device_define iodev 0 0xff00 128 MAP_READWRITE) (\<lambda>_.
     bindE (bindE (serial_create 0 1) (ioexpand_attach iodev 0 0)) (\<lambda>_.
     bindE (bindE (disk_create disk_bin ram_dev) (ioexpand_attach iodev 1 0)) (\<lambda>_.
     bindE (ioexpand_attach iodev 2 0 mmudev) (\<lambda>_.
     bindE (imux_create 1) (\<lambda>intdev.
     bindE (ioexpand_attach iodev 3 0 intdev) (\<lambda>_.
     bindE (bindE (serial_create hostfile hostfile) (ioexpand_attach iodev 9 0)) (\<lambda>_.
     bindE (oscillator_create (Some intdev) 0) (\<lambda>_. Ret ())))))))))))))"

text \<open>\<^verbatim>\<open>machine_init\<close>: the machines are tried in order by name; no match leaves the process.\<close>

definition machine_init :: "(string \<times> sys stmt) list \<Rightarrow> string \<Rightarrow> sys stmt" where
  "machine_init machines name = block [
     bindE null_create (\<lambda>d. assign (set_mch (\<lambda>m. m\<lparr>null_device := Some d\<rparr>))),
     assign (set_mch (\<lambda>m. m\<lparr>busmaps := replicate NUM_BUS_MAPS \<lparr>bm_devid = INVALID_DEVID, bm_offset = 0, bm_flags = 0\<rparr>\<rparr>)),
     (case map_of machines name of Some init \<Rightarrow> init | None \<Rightarrow> Exit 1),
     assign (set_mch (\<lambda>m. m\<lparr>default_busmaps := busmaps m\<rparr>)),
     doif (name = ''eon'') mmu_reset_complete]"

end
