(* ===== verification/System_Contract.thy ===== *)
theory System_Contract
  imports System
begin

text \<open>
  The machine keeps the contracts the processor relies on. Every device access either leaves
  the processor registers alone or goes through the interrupt entry of \<^verbatim>\<open>6809.c\<close>; from this
  the locales \<open>reg_bus\<close> and \<open>clocked_bus\<close> are interpreted on the bus of the system.
\<close>

section \<open>States of interest\<close>

text \<open>No breakpoint is active, no instruction count is running out, all bus maps are there, and
  expanders hold devices of the table that are no expanders.\<close>

definition is_expander :: "priv \<Rightarrow> bool" where
  "is_expander p \<longleftrightarrow> (case p of Ioexpand_dev iom \<Rightarrow> True | _ \<Rightarrow> False)"

definition is_imux :: "priv \<Rightarrow> bool" where
  "is_imux p \<longleftrightarrow> (case p of Imux_dev mux \<Rightarrow> True | _ \<Rightarrow> False)"

definition expands :: "priv \<Rightarrow> nat \<Rightarrow> bool" where
  "expands p i \<longleftrightarrow> (case p of Ioexpand_dev iom \<Rightarrow> Some i \<in> set (ios iom) | _ \<Rightarrow> False)"

definition flat :: "hw_device list \<Rightarrow> bool" where
  "flat tab \<longleftrightarrow> (\<forall>d \<in> set tab. \<forall>i. expands (dev_priv d) i \<longrightarrow>
     i < length tab \<and> \<not> is_expander (dev_priv (tab ! i)))"

definition mch_ok :: "bool \<Rightarrow> machine_state \<Rightarrow> bool" where
  "mch_ok nomux m \<longleftrightarrow> active_break_count m = 0 \<and> auto_break_insn_count m \<le> 0
     \<and> length (busmaps m) = NUM_BUS_MAPS \<and> flat (device_table m)
     \<and> (nomux \<longrightarrow> (\<forall>d \<in> set (device_table m). \<not> is_imux (dev_priv d)))"

section \<open>Accesses that leave the processor alone\<close>

definition mch_only :: "bool \<Rightarrow> sys \<Rightarrow> sys \<Rightarrow> bool" where
  "mch_only nomux s t \<longleftrightarrow> mch_ok nomux (mch t) \<and>
     (\<exists>m b. t = (s\<lparr>monitor_on := b\<rparr>)\<lparr>cpu.more := m\<rparr> \<and> (debug_enabled s \<or> b = monitor_on s))"

definition calmly :: "bool \<Rightarrow> (sys, 'a) expr \<Rightarrow> bool" where
  "calmly nomux m \<longleftrightarrow> obeys (\<lambda>s. mch_ok nomux (mch s)) (mch_only nomux) m"

lemma mch_only_refl: "mch_ok x (mch s) \<Longrightarrow> mch_only x s s"
  unfolding mch_only_def by (rule conjI, assumption, rule exI [of _ "mch s"], rule exI [of _ "monitor_on s"]) simp

lemma mch_only_trans: "mch_only x s t \<Longrightarrow> mch_only x t u \<Longrightarrow> mch_only x s u"
  unfolding mch_only_def by (elim conjE exE, rule conjI, assumption) auto

lemma mch_only_set: "mch_ok x (f (mch s)) \<Longrightarrow> mch_only x s (set_mch f s)"
  unfolding mch_only_def set_mch_def
  by (rule conjI, simp, rule exI [of _ "f (mch s)"], rule exI [of _ "monitor_on s"]) simp

lemma mch_only_fields:
  assumes "mch_only x s t"
  shows "rX t = rX s" "rY t = rY s" "rS t = rS s" "rU t = rU s" "rPC t = rPC s" "rA t = rA s" "rB t = rB s" "rDP t = rDP s"
    "iPC t = iPC s" "ea t = ea s" "cpu_clk t = cpu_clk s" "cpu_period t = cpu_period s" "debug_enabled t = debug_enabled s"
    "debug_enabled s \<or> monitor_on t = monitor_on s" "mch_ok x (mch t)"
  using assms unfolding mch_only_def by auto

lemma calmly_bindE: "calmly x e \<Longrightarrow> (\<And>v. calmly x (f v)) \<Longrightarrow> calmly x (bindE e f)"
  unfolding calmly_def
  by (rule obeys_bindE [where R = "mch_only x" and R' = "mch_only x"]) (blast intro: mch_only_trans mch_only_fields(15))+

lemma calmly_Nil: "calmly x (block [])"
  unfolding calmly_def by (rule obeysI) (auto intro: mch_only_refl)

lemma calmly_Cons: "calmly x m \<Longrightarrow> calmly x (block ms) \<Longrightarrow> calmly x (block (m # ms))"
  unfolding block_Cons_bindE by (rule calmly_bindE)


lemma calmly_Ret: "calmly x (Ret v)"
  unfolding calmly_def by (rule obeysI) (auto intro: mch_only_refl)

lemma calmly_UB: "calmly x (\<lambda>s. UB)"
  unfolding calmly_def by (rule obeysI) simp_all

lemma calmly_if: "calmly x m1 \<Longrightarrow> calmly x m2 \<Longrightarrow> calmly x (\<lambda>s. if b s then m1 s else m2 s)"
  unfolding calmly_def by (rule obeys_if)

lemma calmly_doif: "calmly x m \<Longrightarrow> calmly x (\<lambda>s. doif (b s) m s)"
  unfolding calmly_def doif_def by (rule obeys_if, assumption) (rule calmly_Ret [unfolded calmly_def])

lemma calmly_of_state: "(\<And>u. calmly x (m u)) \<Longrightarrow> calmly x (\<lambda>s. m (f s) s)"
  unfolding calmly_def by (rule obeys_of_state)

lemma calmly_set_mch: "(\<And>m. mch_ok x m \<Longrightarrow> mch_ok x (f m)) \<Longrightarrow> calmly x (assign (set_mch f))"
  unfolding calmly_def assign_def by (rule obeysI) (auto intro: mch_only_set)

lemma calmly_sim_error: "calmly x sim_error"
  unfolding calmly_def
proof (rule obeysI)
  fix s v t
  assume "mch_ok x (mch s)" "sim_error s = Ret v t"
  then show "mch_only x s t"
    unfolding mch_only_def sim_error_def
    by (auto split: if_splits intro!: exI [of _ "mch s"] exI [of _ True])
qed (simp add: sim_error_def)

lemma calmly_fault: "calmly x (fault a n)" "calmly x (do_fault a n)" "calmly x (machine_fault a n)"
proof -
  show f: "calmly x (fault a n)"
    unfolding fault_def [abs_def] by (rule calmly_if [OF calmly_sim_error calmly_Ret])
  then have "(fault a n s \<noteq> NoFuel) \<and> (\<forall>v t. fault a n s = Ret v t \<longrightarrow> mch_only x s t)" if "mch_ok x (mch s)" for s
    using that unfolding calmly_def obeys_def by blast
  then show *: "calmly x (machine_fault a n)"
    unfolding calmly_def machine_fault_def [abs_def] wpc_fault_def
    by (intro obeysI) (auto split: option.splits if_splits intro: mch_only_refl)
  show "calmly x (do_fault a n)"
    unfolding do_fault_def [abs_def] by (rule calmly_if [OF * calmly_Ret])
qed

lemma calmly_find_map: "calmly x (find_map a)"
  unfolding find_map_def [abs_def] Let_def
  by (rule calmly_if [OF calmly_of_state [OF calmly_Ret] calmly_UB])

lemma calmly_find_device: "calmly x (find_device a n)"
proof -
  have "calmly x (\<lambda>s. case null_device (mch s) of Some d \<Rightarrow> Ret d s | None \<Rightarrow> UB)"
    unfolding calmly_def by (rule obeysI) (auto split: option.splits intro: mch_only_refl)
  then show ?thesis
    unfolding find_device_def Let_def
    by (intro calmly_if calmly_bindE calmly_fault calmly_Ret)
qed

lemma map_entries_length: "map_entries start count d off fl maps = Some maps' \<Longrightarrow> length maps' = length maps"
  by (induction start count d off fl maps rule: map_entries.induct) (auto simp: Let_def split: if_splits)

lemma calmly_bus_map: "calmly x (bus_map a d off len fl)"
  unfolding calmly_def
proof (rule obeysI)
  fix s v t
  assume ok: "mch_ok x (mch s)" and "bus_map a d off len fl s = Ret v t"
  then obtain maps where "length maps = length (busmaps (mch s))" "t = set_mch (\<lambda>m. m\<lparr>busmaps := maps\<rparr>) s"
    by (auto simp: bus_map_def Let_def dest: map_entries_length split: option.splits)
  with ok show "mch_only x s t" by (auto simp: mch_ok_def intro: mch_only_set)
qed (auto simp: bus_map_def Let_def split: option.splits)

section \<open>Devices\<close>

text \<open>The contract at one state, for the cases of the dispatch.\<close>

definition calm_at :: "bool \<Rightarrow> sys \<Rightarrow> ('a, sys) outcome \<Rightarrow> bool" where
  "calm_at x s r \<longleftrightarrow> r \<noteq> NoFuel \<and> (\<forall>v t. r = Ret v t \<longrightarrow> mch_only x s t)"

lemma calmlyI: "(\<And>s. mch_ok x (mch s) \<Longrightarrow> calm_at x s (m s)) \<Longrightarrow> calmly x m"
  unfolding calmly_def calm_at_def by (rule obeysI) blast+

lemma calmlyD: "calmly x m \<Longrightarrow> mch_ok x (mch s) \<Longrightarrow> calm_at x s (m s)"
  unfolding calmly_def calm_at_def obeys_def by blast

lemma calm_at_simps:
  "calm_at x s UB" "calm_at x s (Exit c u)" "calm_at x s (Ret v t) \<longleftrightarrow> mch_only x s t"
  by (simp_all add: calm_at_def)

lemma calm_at_step: "mch_only x s t \<Longrightarrow> calm_at x t r \<Longrightarrow> calm_at x s r"
  unfolding calm_at_def by (blast intro: mch_only_trans)

lemma flat_update:
  assumes "flat tab" "dv < length tab" "\<not> is_expander p" "\<not> is_expander (dev_priv (tab ! dv))"
  shows "flat (tab[dv := (tab ! dv)\<lparr>dev_priv := p\<rparr>])"
proof -
  have "is_expander (dev_priv (tab[dv := (tab ! dv)\<lparr>dev_priv := p\<rparr>] ! i)) = is_expander (dev_priv (tab ! i))" for i
    using assms by (cases "i = dv") simp_all
  moreover have "d \<in> set tab" if "d \<in> set (tab[dv := (tab ! dv)\<lparr>dev_priv := p\<rparr>])" "is_expander (dev_priv d)" for d
    using that assms(2,3) by (auto simp: in_set_conv_nth nth_list_update split: if_splits)
  moreover have "is_expander q" if "expands q i" for q i
    using that by (cases q) (simp_all add: expands_def is_expander_def)
  ultimately show ?thesis
    using assms(1) unfolding flat_def by (metis length_list_update)
qed

lemma set_priv_only:
  assumes "mch_ok x (mch s)" "dev_of dv s = Some d" "\<not> is_expander p" "\<not> is_expander (dev_priv d)"
    "is_imux p \<Longrightarrow> is_imux (dev_priv d)"
  shows "mch_only x s (set_priv dv p s)"
proof -
  have dv: "dv < length (device_table (mch s))" "d = device_table (mch s) ! dv"
    using assms(2) by (auto simp: dev_of_def split: if_splits)
  have "\<forall>e \<in> set ((device_table (mch s))[dv := d\<lparr>dev_priv := p\<rparr>]). \<not> is_imux (dev_priv e)"
    if "\<forall>e \<in> set (device_table (mch s)). \<not> is_imux (dev_priv e)"
    using that assms(5) dv by (auto dest!: subsetD [OF set_update_subset_insert])
  then show ?thesis
    unfolding set_priv_def using assms flat_update [of "device_table (mch s)" dv p] dv
    by (intro mch_only_set) (auto simp: mch_ok_def)
qed

lemma set_mch_only:
  "mch_ok x (mch s) \<Longrightarrow> mch_only x s (set_mch (\<lambda>m. m\<lparr>host_in := h\<rparr>) s)"
  "mch_ok x (mch s) \<Longrightarrow> mch_only x s (set_mch (\<lambda>m. m\<lparr>host_in := (host_in m)(fd := cs)\<rparr>) s)"
  "mch_ok x (mch s) \<Longrightarrow> mch_only x s (put_host fd c s)"
  "mch_ok x (mch s) \<Longrightarrow> mch_only x s (set_mch (\<lambda>m. m\<lparr>mmu_regs := r\<rparr>) s)"
  "mch_ok x (mch s) \<Longrightarrow> mch_only x s (set_mch (\<lambda>m. m\<lparr>host_sel := tl (host_sel m)\<rparr>) s)"
  unfolding put_host_def by (rule mch_only_set, simp add: mch_ok_def)+

lemma calm_reads:
  assumes "mch_ok x (mch s)"
  shows "calm_at x s (ram_read sz buf a s)" "calm_at x s (console_read a s)" "calm_at x s (mmu_read a s)"
    "calm_at x s (small_mmu_read mmu a s)" "calm_at x s (imux_read mux a s)" "calm_at x s (hwtimer_read tm a s)"
  using assms
  by (simp_all add: ram_read_def console_read_def mmu_read_def small_mmu_read_def imux_read_def hwtimer_read_def
      Let_def calm_at_simps mch_only_refl set_mch_only split: list.split)

text \<open>The WPC ASIC.\<close>

lemma calmly_with_wpc: "(\<And>w. calmly x (f w)) \<Longrightarrow> calmly x (with_wpc f)"
  by (rule calmlyI) (auto simp: with_wpc_def calm_at_simps calmlyD split: option.split)

lemma set_wpc_only:
  assumes "mch_ok x (mch s)"
  shows "mch_only x s (set_wpc w s)" "mch_only x s (set_mch (\<lambda>m. m\<lparr>wpc_statics := v\<rparr>) s)"
    "mch_only x s (set_mch (\<lambda>m. m\<lparr>wpc_statics := g m\<rparr>) s)" "mch_only x s (set_mch (\<lambda>m. m\<lparr>wpc := w', wpc_statics := v\<rparr>) s)"
  unfolding set_wpc_def by (rule mch_only_set, use assms in \<open>simp add: mch_ok_def\<close>)+

lemma calmly_set_wpc: "calmly x (\<lambda>s. Ret () (set_wpc w s))" "calmly x (assign (set_wpc w))"
  by (rule calmlyI, simp add: calm_at_simps set_wpc_only assign_def)+

lemma calmly_read_switch: "calmly x (wpc_read_switch k)"
  unfolding wpc_read_switch_def
  by (rule calmly_with_wpc, rule calmlyI) (simp add: calm_at_simps mch_only_refl)

lemma calmly_write_switch: "calmly x (wpc_write_switch k b)"
  unfolding wpc_write_switch_def
  by (rule calmly_with_wpc, rule calmlyI) (simp add: calm_at_simps set_wpc_only Let_def)

lemma calmly_switch_column: "calmly x (wpc_read_switch_column col)"
proof -
  have "calmly x (switch_rows col rows v)" for rows v
    by (induction rows arbitrary: v) (simp_all add: calmly_Ret calmly_bindE calmly_read_switch)
  then show ?thesis by (simp add: wpc_read_switch_column_def)
qed

lemma calmly_update_ram: "calmly x wpc_update_ram"
  unfolding wpc_update_ram_def
  by (rule calmly_with_wpc) (auto intro!: calmly_UB calmly_Cons calmly_Nil calmly_bus_map calmly_doif split: option.split)

lemma calmly_set_visible: "calmly x (wpc_dmd_set_visible v)"
  unfolding wpc_dmd_set_visible_def
  by (rule calmly_with_wpc, rule calmlyI) (simp add: Let_def calm_at_simps mch_only_refl set_wpc_only split: option.split)

lemma calmly_set_page: "calmly x (wpc_set_rom_page v)" "calmly x (wpc_set_dmd_page k v)"
  unfolding wpc_set_rom_page_def wpc_set_dmd_page_def
  by (intro calmly_bus_map calmly_Cons calmly_Nil calmly_with_wpc calmly_set_wpc)+

lemma calm_wpc_asic:
  assumes "mch_ok x (mch s)"
  shows "calm_at x s (wpc_asic_read a s)" "calm_at x s (wpc_asic_write a v s)"
proof -
  have "calm_at x s (wpc_console_read s)" "calm_at x s (wpc_console_write v s)" for v
    using assms by (simp_all add: wpc_console_read_def wpc_console_write_def calm_at_simps mch_only_refl set_mch_only set_wpc_only split: list.split)
  note c = this calmlyD [OF calmly_switch_column assms] calmlyD [OF calmly_set_page(2) assms] calmlyD [OF calmly_set_visible assms]
    calmlyD [OF calmly_bindE [OF calmly_set_wpc(2) calmly_set_page(1)] assms] calmlyD [OF calmly_bindE [OF calmly_set_wpc(2) calmly_update_ram] assms]
  show "calm_at x s (wpc_asic_read a s)"
    by (simp add: wpc_asic_read_def Let_def with_wpc_def calm_at_simps c mch_only_refl assms split: option.split)
  show "calm_at x s (wpc_asic_write a v s)"
    by (simp add: wpc_asic_write_def Let_def with_wpc_def calm_at_simps c mch_only_refl set_wpc_only assms split: option.split)
qed

lemma priv_kinds [simp]:
  "\<not> is_expander (Serial_dev p)" "\<not> is_imux (Serial_dev p)" "\<not> is_expander (Ram_dev b)" "\<not> is_imux (Ram_dev b)"
  "\<not> is_expander (Rom_dev b)" "\<not> is_imux (Rom_dev b)" "\<not> is_expander (Small_mmu_dev mm)" "\<not> is_imux (Small_mmu_dev mm)"
  "\<not> is_expander (Hwtimer_dev h)" "\<not> is_imux (Hwtimer_dev h)" "\<not> is_expander (Disk_dev k)" "\<not> is_imux (Disk_dev k)"
  "\<not> is_expander (Imux_dev u)" "is_imux (Imux_dev u)" "is_expander (Ioexpand_dev io)"
  by (simp_all add: is_expander_def is_imux_def)

lemma dev_of_set_mch: "dev_of dv (set_mch (\<lambda>m. m\<lparr>host_sel := h m\<rparr>) s) = dev_of dv s"
  by (simp add: dev_of_def set_mch_def)

lemma dev_of_set_priv: "dev_of dv s = Some d \<Longrightarrow> dev_of dv (set_priv dv p s) = Some (d\<lparr>dev_priv := p\<rparr>)"
  by (auto simp: dev_of_def set_priv_def set_mch_def split: if_splits)

lemma calm_serial_read:
  assumes "mch_ok x (mch s)" "dev_of dv s = Some d" "dev_priv d = Serial_dev port"
  shows "calm_at x s (serial_read dv port a s)"
proof -
  define port' where "port' = serial_update (fst (case host_sel (mch s) of [] \<Rightarrow> (False, False) | y # _ \<Rightarrow> y))
    (snd (case host_sel (mch s) of [] \<Rightarrow> (False, False) | y # _ \<Rightarrow> y)) port"
  define u where "u = set_mch (\<lambda>m. m\<lparr>host_sel := tl (host_sel m)\<rparr>) s"
  have u: "mch_only x s u" unfolding u_def by (rule set_mch_only [OF assms(1)])
  have du: "dev_of dv u = Some d" unfolding u_def by (simp add: dev_of_set_mch assms(2))
  have t: "mch_only x u (set_priv dv (Serial_dev port') u)"
    by (rule set_priv_only [OF mch_only_fields(15) [OF u] du]) (simp_all add: assms(3))
  note st = mch_only_trans [OF u t]
  have dt: "dev_of dv (set_priv dv (Serial_dev port') u) = Some (d\<lparr>dev_priv := Serial_dev port'\<rparr>)"
    by (rule dev_of_set_priv [OF du])
  have "serial_poll dv port s = Ret port' (set_priv dv (Serial_dev port') u)"
    by (simp add: serial_poll_def port'_def u_def split_beta Let_def)
  moreover have "mch_only x s (set_priv dv (Serial_dev p) (set_priv dv (Serial_dev port') u))" for p
    by (rule mch_only_trans [OF st set_priv_only [OF mch_only_fields(15) [OF st] dt]]) simp_all
  ultimately show ?thesis
    using st mch_only_trans [OF st set_mch_only(2) [OF mch_only_fields(15) [OF st]]]
    by (auto simp: serial_read_def bindE_def calm_at_simps split: option.split list.split)
qed

lemma calmly_dev_read_flat:
  assumes "mch_ok x (mch s)" "dev_of dv s = Some d" "\<not> is_expander (dev_priv d)"
  shows "calm_at x s (dev_read (Suc n) dv a s)"
  using assms calm_serial_read [OF assms(1,2)]
  by (auto simp: calm_at_simps mch_only_refl calm_reads calm_wpc_asic is_expander_def split: priv.split)

lemma calmly_ioexpand:
  assumes "mch_ok x (mch s)" "dev_of dv s = Some d" "dev_priv d = Ioexpand_dev iom" "ios iom ! k = Some i" "k < length (ios iom)"
  shows "\<exists>e. dev_of i s = Some e \<and> \<not> is_expander (dev_priv e)"
proof -
  have "d \<in> set (device_table (mch s))" using assms(2) by (auto simp: dev_of_def split: if_splits)
  moreover have "expands (dev_priv d) i" using assms(3-5) by (auto simp: expands_def) (metis nth_mem)
  ultimately show ?thesis using assms(1) by (auto simp: mch_ok_def flat_def dev_of_def)
qed

lemma calmly_dev_read: "calmly x (dev_read (Suc (Suc n)) dv a)"
proof (rule calmlyI)
  fix s
  assume ok: "mch_ok x (mch s)"
  show "calm_at x s (dev_read (Suc (Suc n)) dv a s)"
  proof (cases "dev_of dv s")
    case (Some d)
    show ?thesis
    proof (cases "is_expander (dev_priv d)")
      case True
      then obtain iom where iom: "dev_priv d = Ioexpand_dev iom" by (auto simp: is_expander_def split: priv.splits)
      have "calm_at x s (ioexpand_read (dev_read (Suc n)) iom a s)"
      proof (cases "a div IO_WINDOW < length (ios iom)")
        case lt: True
        show ?thesis
        proof (cases "ios iom ! (a div IO_WINDOW)")
          case None
          with lt show ?thesis
            by (simp add: ioexpand_read_def calmlyD [OF calmly_bindE [OF calmly_sim_error calmly_UB] ok])
        next
          case i: (Some i)
          from calmly_ioexpand [OF ok Some iom i lt] show ?thesis
            using calmly_dev_read_flat [OF ok, of i] i lt by (auto simp: ioexpand_read_def simp del: dev_read.simps)
        qed
      qed (simp add: ioexpand_read_def calm_at_simps)
      then show ?thesis using Some iom by (simp del: dev_read.simps add: dev_read.simps(2) [of "Suc n"])
    qed (use calmly_dev_read_flat [OF ok Some] in blast)
  qed (simp add: calm_at_simps)
qed

lemma calmly_access_read: "calmly x (dev_read DEV_FUEL dv a)"
  unfolding DEV_FUEL_def MAX_BUS_DEVICES_def numeral_eq_Suc by (rule calmly_dev_read)

section \<open>Hooks and reads\<close>

lemma calmly_abs_read8: "calmly x (abs_read8 a)"
  unfolding abs_read8_def by (intro calmly_bindE calmly_find_device calmly_access_read)

lemma calmly_target_read: "calmly x (target_read a n)"
  unfolding target_read_def by (simp add: calmly_bindE calmly_abs_read8 calmly_Ret)

lemma calmly_to_absolute: "calmly x (to_absolute n)"
  unfolding to_absolute_def by (simp add: calmly_bindE calmly_find_map calmly_Ret)

lemma calmly_change_thread: "calmly x command_change_thread"
  unfolding command_change_thread_def
  by (rule calmly_of_state [where m = "\<lambda>(a, n). bindE (target_read a n) (\<lambda>addr.
      bindE (to_absolute (unat addr)) (\<lambda>th. assign (set_mch (\<lambda>m. m\<lparr>thread_id := th\<rparr>))))"
      and f = "\<lambda>s. (thread_current (mch s), thread_id_size (mch s))", simplified])
    (auto intro!: calmly_bindE calmly_target_read calmly_to_absolute calmly_set_mch simp: mch_ok_def)

lemma calmly_read_hook: "calmly x (command_read_hook dbg a)"
  by (rule calmlyI) (simp add: command_read_hook_def mch_ok_def calm_at_simps mch_only_refl)

lemma calmly_write_hook: "calmly x (command_write_hook dbg a v)"
proof (rule calmlyI)
  fix s
  assume ok: "mch_ok x (mch s)"
  have "calmly x (\<lambda>s. doif (thread_id_size (mch s) \<noteq> 0 \<and> a + 1 = thread_current (mch s) + thread_id_size (mch s))
      command_change_thread s)"
    by (rule calmly_doif [OF calmly_change_thread])
  from calmlyD [OF this ok] ok show "calm_at x s (command_write_hook dbg a v s)"
    by (simp add: command_write_hook_def Let_def mch_ok_def)
qed

lemma calmly_cpu_read: "calmly x (cpu_read8 dbg a)" "calmly x (cpu_read16 dbg a)"
  unfolding cpu_read8_def cpu_read16_def Let_def
  by (rule calmly_bindE calmly_find_map calmly_find_device calmly_doif calmly_fault calmly_read_hook
      calmly_access_read calmly_Ret)+

section \<open>Writes\<close>

lemma mch_ok_set_priv:
  "mch_ok x (mch s) \<Longrightarrow> dev_of dv s = Some d \<Longrightarrow> \<not> is_expander p \<Longrightarrow> \<not> is_expander (dev_priv d) \<Longrightarrow>
    (is_imux p \<Longrightarrow> is_imux (dev_priv d)) \<Longrightarrow> mch_ok x (mch (set_priv dv p s))"
  using set_priv_only mch_only_fields(15) by blast

lemma calm_ram_write:
  assumes "mch_ok x (mch s)" "dev_of dv s = Some d" "\<not> is_expander (dev_priv d)"
    "\<not> is_expander (mk b)" "\<not> is_imux (mk b)" "b = buf(a := v)"
  shows "calm_at x s (ram_write dv sz mk buf a v s)"
  using set_priv_only [OF assms(1,2), of "mk b"] assms(3-6) by (auto simp: ram_write_def calm_at_simps)

lemma calm_console_write: "mch_ok x (mch s) \<Longrightarrow> calm_at x s (console_write a v s)"
  by (simp add: console_write_def sim_exit_def calm_at_simps set_mch_only mch_only_refl)

lemma calm_mmu_write: "mch_ok x (mch s) \<Longrightarrow> calm_at x s (mmu_write a v s)"
  unfolding mmu_write_def Let_def
  by (rule calm_at_step [OF set_mch_only(4) calmlyD [OF calmly_bus_map]]) (auto simp: set_mch_def mch_ok_def)

lemma calm_small_mmu_write:
  assumes "mch_ok x (mch s)" "dev_of dv s = Some d" "dev_priv d = Small_mmu_dev mmu"
  shows "calm_at x s (small_mmu_write dv mmu a v s)"
proof -
  have *: "mch_only x s (set_priv dv (Small_mmu_dev m) s)" for m
    by (rule set_priv_only [OF assms(1,2)]) (simp_all add: assms(3))
  have "calm_at x s (bus_map b e off len fl (set_priv dv (Small_mmu_dev m) s))" for b e off len fl m
    by (rule calm_at_step [OF * calmlyD [OF calmly_bus_map]]) (rule mch_only_fields(15) [OF *])
  with * show ?thesis by (simp add: small_mmu_write_def Let_def calm_at_simps)
qed

lemma calm_hwtimer_write:
  assumes "mch_ok x (mch s)" "dev_of dv s = Some d" "dev_priv d = Hwtimer_dev tm"
  shows "calm_at x s (hwtimer_write dv tm a v s)"
proof -
  have *: "mch_only x s (set_priv dv (Hwtimer_dev m) s)" for m
    by (rule set_priv_only [OF assms(1,2)]) (simp_all add: assms(3))
  then show ?thesis using assms(1) by (simp add: hwtimer_write_def assign_def calm_at_simps mch_only_refl)
qed

lemma calm_serial_write:
  assumes "mch_ok x (mch s)" "dev_of dv s = Some d" "dev_priv d = Serial_dev port"
  shows "calm_at x s (serial_write dv port a v s)"
proof -
  have *: "mch_only x s (set_priv dv (Serial_dev m) s)" for m
    by (rule set_priv_only [OF assms(1,2)]) (simp_all add: assms(3))
  then show ?thesis
    using assms(1) by (simp add: serial_write_def assign_def calm_at_simps mch_only_refl set_mch_only)
qed

lemma dev_of_set_priv_other: "dv \<noteq> dw \<Longrightarrow> dev_of dv (set_priv dw p s) = dev_of dv s"
  by (simp add: dev_of_def set_priv_def set_mch_def)

lemma ram_of_kind:
  assumes "ram_of dv s = Some (sz, buf, mk)"
  obtains e where "dev_of dv s = Some e" "dev_priv e = Ram_dev buf \<and> mk = Ram_dev \<or> dev_priv e = Rom_dev buf \<and> mk = Rom_dev"
  using assms by (auto simp: ram_of_def split: option.splits priv.splits)

lemma calm_disk_fread:
  assumes "mch_ok x (mch s)" "dev_of dv s = Some d" "dev_priv d = Disk_dev disk"
  shows "calm_at x s (disk_fread dv disk s)"
proof -
  have "mch_only x s (set_priv dv (Disk_dev k) (set_priv (dk_ramdev disk) (mk b) s))"
    if "ram_of (dk_ramdev disk) s = Some (sz, buf, mk)" for k b sz buf mk
  proof -
    from that obtain e where e: "dev_of (dk_ramdev disk) s = Some e"
      "dev_priv e = Ram_dev buf \<and> mk = Ram_dev \<or> dev_priv e = Rom_dev buf \<and> mk = Rom_dev" by (rule ram_of_kind)
    have 1: "mch_only x s (set_priv (dk_ramdev disk) (mk b) s)"
      by (rule set_priv_only [OF assms(1) e(1)]) (use e(2) in auto)
    have "dv \<noteq> dk_ramdev disk" using e assms(2,3) by auto
    then have "dev_of dv (set_priv (dk_ramdev disk) (mk b) s) = Some d"
      by (simp add: dev_of_set_priv_other assms(2))
    then have "mch_only x (set_priv (dk_ramdev disk) (mk b) s) (set_priv dv (Disk_dev k) (set_priv (dk_ramdev disk) (mk b) s))"
      by (rule set_priv_only [OF mch_only_fields(15) [OF 1]]) (simp_all add: assms(3))
    with 1 show ?thesis by (rule mch_only_trans)
  qed
  then show ?thesis
    by (auto simp: disk_fread_def Let_def calm_at_simps split: option.split)
qed

lemma calm_disk_write:
  assumes "mch_ok x (mch s)" "dev_of dv s = Some d" "dev_priv d = Disk_dev disk"
  shows "calm_at x s (disk_write dv disk a v s)"
proof -
  have *: "mch_only x s (set_priv dv (Disk_dev k) s)" for k
    by (rule set_priv_only [OF assms(1,2)]) (simp_all add: assms(3))
  then have w: "calm_at x s (disk_fwrite dv disk data s)" for data
    by (simp add: disk_fwrite_def calm_at_simps split: option.split)
  note r = calm_disk_fread [OF assms]
  show ?thesis
    using * w r assms(1)
    by (simp add: disk_write_def disk_ctrl_def Let_def calm_at_simps mch_only_refl split: option.split prod.split)
qed

text \<open>A write to any device but the interrupt multiplexer leaves the processor alone.\<close>

lemma calm_dev_write_flat:
  assumes "mch_ok x (mch s)" "dev_of dv s = Some d" "\<not> is_expander (dev_priv d)" "\<not> is_imux (dev_priv d)"
  shows "calm_at x s (dev_write (Suc n) io dv a v s)"
proof (cases "dev_priv d")
  case (Ram_dev b)
  then show ?thesis using calm_ram_write [OF assms(1,2), of Ram_dev] assms by simp
next
  case (Rom_dev b)
  then show ?thesis using calm_ram_write [OF assms(1,2), of Rom_dev] assms by simp
qed (use assms calm_small_mmu_write [OF assms(1,2)] calm_hwtimer_write [OF assms(1,2)] calm_serial_write [OF assms(1,2)]
    calm_disk_write [OF assms(1,2)] in \<open>simp_all add: calm_at_simps mch_only_refl calm_console_write calm_mmu_write calm_wpc_asic\<close>)

lemma expander_write:
  assumes "mch_ok x (mch s)" "dev_of dv s = Some d" "is_expander (dev_priv d)"
  obtains "calm_at x s (dev_write (Suc (Suc n)) io dv a v s)"
  | i e b where "dev_of i s = Some e" "\<not> is_expander (dev_priv e)"
      "dev_write (Suc (Suc n)) io dv a v s = dev_write (Suc n) io i b v s"
proof -
  from assms(3) obtain iom where iom: "dev_priv d = Ioexpand_dev iom" by (auto simp: is_expander_def split: priv.splits)
  have eq: "dev_write (Suc (Suc n)) io dv a v s = ioexpand_write (dev_write (Suc n) io) iom a v s"
    using assms(2) iom by (simp del: dev_write.simps add: dev_write.simps(2) [of "Suc n"])
  show thesis
  proof (cases "a div IO_WINDOW < length (ios iom)")
    case lt: True
    show thesis
    proof (cases "ios iom ! (a div IO_WINDOW)")
      case None
      then show thesis
        using that(1) lt unfolding eq
        by (simp add: ioexpand_write_def calmlyD [OF calmly_bindE [OF calmly_sim_error calmly_UB] assms(1)])
    next
      case (Some i)
      from calmly_ioexpand [OF assms(1,2) iom Some lt] that(2) Some lt show thesis
        unfolding eq by (auto simp: ioexpand_write_def simp del: dev_write.simps)
    qed
  qed (use that(1) eq in \<open>simp add: ioexpand_write_def calm_at_simps\<close>)
qed

lemma not_imux_device:
  "mch_ok True (mch s) \<Longrightarrow> dev_of dv s = Some d \<Longrightarrow> \<not> is_imux (dev_priv d)"
  by (auto simp: mch_ok_def dev_of_def split: if_splits)

lemma calmly_dev_write: "calmly True (dev_write (Suc (Suc n)) io dv a v)"
proof (rule calmlyI)
  fix s
  assume ok: "mch_ok True (mch s)"
  show "calm_at True s (dev_write (Suc (Suc n)) io dv a v s)"
  proof (cases "dev_of dv s")
    case (Some d)
    show ?thesis
    proof (cases "is_expander (dev_priv d)")
      case True
      from ok Some True show ?thesis
      proof (cases rule: expander_write [of _ _ _ _ n io a v])
        case (2 i e b)
        then show ?thesis
          using calm_dev_write_flat [OF ok 2(1,2) not_imux_device [OF ok 2(1)]] by (simp only:)
      qed
    qed (use calm_dev_write_flat [OF ok Some] not_imux_device [OF ok Some] in blast)
  qed (simp add: calm_at_simps)
qed

lemma calmly_cpu_write8: "calmly True (cpu_write8 dbg io a v)"
proof -
  have "calmly True (dev_write DEV_FUEL io dv b v)" for dv b
    unfolding DEV_FUEL_def MAX_BUS_DEVICES_def numeral_eq_Suc by (rule calmly_dev_write)
  then show ?thesis
    unfolding cpu_write8_def Let_def
    by (intro calmly_bindE calmly_find_map calmly_find_device calmly_Cons calmly_Nil calmly_if calmly_fault
        calmly_write_hook calmly_Ret)
qed

section \<open>The register contract\<close>

lemma mch_only_wf: "mch_only x s t \<Longrightarrow> wf_regs (mch_ok x) s \<Longrightarrow> wf_regs (mch_ok x) t"
  by (simp add: wf_regs_def mch_only_fields)

lemma wf_regs_ok: "wf_regs ok s \<Longrightarrow> ok (cpu.more s)"
  by (simp add: wf_regs_def)

lemma calm_at_wf: "calm_at x s r \<Longrightarrow> wf_regs (mch_ok x) s \<Longrightarrow> r = Ret v t \<Longrightarrow> wf_regs (mch_ok x) t"
  unfolding calm_at_def using mch_only_wf by blast

lemma calmly_keeps: "calmly x m \<Longrightarrow> keeps (mch_ok x) m"
  by (rule keepsI, rule calm_at_wf [OF calmlyD]) (assumption | rule wf_regs_ok)+

lemma imux_write_wf:
  assumes "reg_bus io (mch_ok x)" "wf_regs (mch_ok x) s" "dev_of dv s = Some d" "is_imux (dev_priv d)"
    "imux_write io dv mux a v s = Ret u t"
  shows "wf_regs (mch_ok x) t"
proof -
  from assms(5) obtain mux' where m: "imux_refresh io mux' (set_priv dv (Imux_dev mux') s) = Ret u t"
    unfolding imux_write_def Let_def by (auto simp: assign_def bindR_Ret_iff)
  have "\<not> is_expander (dev_priv d)" using assms(4) by (auto simp: is_imux_def is_expander_def split: priv.splits)
  then have "mch_only x s (set_priv dv (Imux_dev mux') s)"
    using set_priv_only [OF wf_regs_ok [OF assms(2)] assms(3)] assms(4) by simp
  then have w: "wf_regs (mch_ok x) (set_priv dv (Imux_dev mux') s)" using mch_only_wf assms(2) by blast
  have "keeps (mch_ok x) (imux_refresh io mux')"
    unfolding imux_refresh_def by (simp add: reg_bus.keeps_requests [OF assms(1)] keeps_release)
  from keepsD [OF this w m] show ?thesis .
qed

lemma dev_write_wf:
  assumes "reg_bus io (mch_ok x)" "wf_regs (mch_ok x) s" "dev_write (Suc (Suc n)) io dv a v s = Ret u t"
  shows "wf_regs (mch_ok x) t"
proof -
  note ok = wf_regs_ok [OF assms(2)]
  have flat: "wf_regs (mch_ok x) t"
    if "dev_of i s = Some e" "\<not> is_expander (dev_priv e)" "dev_write (Suc k) io i b v s = Ret u t" for i e k b
  proof (cases "is_imux (dev_priv e)")
    case True
    then obtain mux where "dev_priv e = Imux_dev mux" by (auto simp: is_imux_def split: priv.splits)
    with that(1,3) have "imux_write io i mux b v s = Ret u t" by simp
    from imux_write_wf [OF assms(1,2) that(1) True this] show ?thesis .
  next
    case False
    from calm_at_wf [OF calm_dev_write_flat [OF ok that(1,2) False] assms(2) that(3)] show ?thesis .
  qed
  from assms(3) obtain d where d: "dev_of dv s = Some d" by (cases "dev_of dv s") auto
  show ?thesis
  proof (cases "is_expander (dev_priv d)")
    case True
    from ok d True show ?thesis
    proof (cases rule: expander_write [of _ _ _ _ n io a v])
      case 1
      from calm_at_wf [OF this assms(2,3)] show ?thesis .
    next
      case (2 i e b)
      from flat [OF 2(1,2)] 2(3) assms(3) show ?thesis by (simp only:)
    qed
  qed (rule flat [OF d _ assms(3)])
qed

lemma keeps_cpu_write8:
  assumes "reg_bus io (mch_ok x)"
  shows "keeps (mch_ok x) (cpu_write8 dbg io a v)"
proof -
  have w: "keeps (mch_ok x) (dev_write DEV_FUEL io dv b v)" for dv b
    unfolding DEV_FUEL_def MAX_BUS_DEVICES_def numeral_eq_Suc by (rule keepsI) (rule dev_write_wf [OF assms])
  show ?thesis
    unfolding cpu_write8_def Let_def
    by (rule keeps_bindE keeps_Cons keeps_Nil keeps_if w calmly_keeps [OF calmly_find_map]
        calmly_keeps [OF calmly_find_device] calmly_keeps [OF calmly_fault(2)] calmly_keeps [OF calmly_write_hook] keeps_Ret)+
qed

lemma read_range:
  assumes "wf_regs (mch_ok x) s"
  shows "cpu_read8 dbg a s = Ret v t \<Longrightarrow> unat a < 0x10000 \<and> (unat (rPC s) < 0x10000 \<longrightarrow> unat (rPC t) < 0x10000)"
    and "cpu_read16 dbg a s = Ret w t \<Longrightarrow> unat a < 0x10000 \<and> (unat (rPC s) < 0x10000 \<longrightarrow> unat (rPC t) < 0x10000)"
proof -
  note ok = wf_regs_ok [OF assms]
  have fm: "unat a < 0x10000" if "find_map a s = Ret m u" for m u
    using that ok by (auto simp: find_map_def Let_def mch_ok_def bus_sizes split: if_splits)
  show "unat a < 0x10000 \<and> (unat (rPC s) < 0x10000 \<longrightarrow> unat (rPC t) < 0x10000)" if r: "cpu_read8 dbg a s = Ret v t"
  proof -
    have "rPC t = rPC s" using calmlyD [OF calmly_cpu_read(1) ok, of dbg a] r by (simp add: calm_at_simps mch_only_fields)
    moreover from r have "unat a < 0x10000" unfolding cpu_read8_def by (rule bindE_RetE) (rule fm)
    ultimately show ?thesis by simp
  qed
  show "unat a < 0x10000 \<and> (unat (rPC s) < 0x10000 \<longrightarrow> unat (rPC t) < 0x10000)" if r: "cpu_read16 dbg a s = Ret w t"
  proof -
    have "rPC t = rPC s" using calmlyD [OF calmly_cpu_read(2) ok, of dbg a] r by (simp add: calm_at_simps mch_only_fields)
    moreover from r have "unat a < 0x10000" unfolding cpu_read16_def by (rule bindE_RetE) (rule fm)
    ultimately show ?thesis by simp
  qed
qed

lemma sys_reg_bus: "reg_bus (sys_bus dbg n) (mch_ok x)"
proof (induction n)
  case 0
  show ?case
    by unfold_locales (use read_range in \<open>auto simp: calmly_keeps calmly_cpu_read intro!: keepsI\<close>)
next
  case (Suc n)
  show ?case
    by unfold_locales (use read_range in \<open>auto simp: calmly_keeps calmly_cpu_read keeps_cpu_write8 [OF Suc]\<close>)
qed

interpretation sys_reg: reg_bus "sys_bus dbg n" "mch_ok x" for dbg n x
  by (rule sys_reg_bus)

section \<open>The cycle contract\<close>

lemma calmly_costs: "calmly x m \<Longrightarrow> costs (mch_ok x) 0 m"
  unfolding costs_def
proof (rule obeysI)
  assume m: "calmly x m"
  fix s
  assume s: "calm (mch_ok x) s"
  then have at: "calm_at x s (m s)" by (intro calmlyD [OF m]) (simp add: calm_def)
  then show "m s \<noteq> NoFuel" by (simp add: calm_at_def)
  fix v t
  assume "m s = Ret v t"
  with at have "mch_only x s t" by (simp add: calm_at_simps)
  then show "spends (mch_ok x) 0 s t"
    using s mch_only_fields [of x s t] by (simp add: calm_def spends_def)
qed

lemma calmly_insn_hook: "calmly x (command_insn_hook dbg)"
proof (rule calmlyI)
  fix s
  assume ok: "mch_ok x (mch s)"
  have "mch_only x s (set_mch (\<lambda>m. m\<lparr>trace_buffer := tb, trace_offset := k\<rparr>) s)" for tb k
    by (rule mch_only_set) (use ok in \<open>simp add: mch_ok_def\<close>)
  then show "calm_at x s (command_insn_hook dbg s)"
    using ok by (simp add: command_insn_hook_def Let_def command_trace_insn_def calm_at_simps doif_def set_mch_def mch_ok_def)
qed

lemma calmly_check_break: "calmly x check_break_insn" and check_break_no: "mch_ok x (mch s) \<Longrightarrow> check_break_insn s = Ret b t \<Longrightarrow> \<not> b"
proof -
  show "calmly x check_break_insn"
    by (rule calmlyI) (simp add: check_break_insn_def mch_ok_def calm_at_simps mch_only_refl)
  show "\<not> b" if "mch_ok x (mch s)" "check_break_insn s = Ret b t"
    using that by (simp add: check_break_insn_def mch_ok_def)
qed

interpretation sys_clk: clocked_bus "sys_bus dbg (Suc n)" "mch_ok True" for dbg n
proof (unfold_locales, goal_cases)
  case (1 a)
  show ?case by (simp add: calmly_costs calmly_cpu_read)
next
  case (2 a)
  show ?case by (simp add: calmly_costs calmly_cpu_read)
next
  case (3 a v)
  show ?case by (simp add: calmly_costs calmly_cpu_write8)
next
  case 4
  show ?case by (simp add: calmly_costs calmly_insn_hook)
next
  case 5
  show ?case by (simp add: calmly_costs calmly_check_break)
next
  case (6 s b t)
  then show ?case using check_break_no [of True s b t] by (simp add: calm_def)
qed

end
