(* ===== verification/Cpu_Ram.thy ===== *)
theory Cpu_Ram
  imports Cpu_Exec
begin

text \<open>
  The stacks of the processor over plain memory. The locale \<open>ram_bus\<close> is the contract of a bus
  behind which all 64 KB are memory; \<open>machine_stack\<close> adds a stack pointer, and is met by S and by
  U. In it a sequence of pushes followed by the reverse sequence of pulls hands every value back,
  also when the stack wraps around the address space. PSHS/PULS, PSHU/PULU and interrupt entry
  and return are such sequences.
\<close>

section \<open>Memory\<close>

locale ram_bus =
  fixes io :: "'x cpu_scheme iface" and ok :: "'x \<Rightarrow> bool"
    and mem :: "'x \<Rightarrow> nat \<Rightarrow> u8" and put :: "nat \<Rightarrow> u8 \<Rightarrow> 'x \<Rightarrow> 'x"
  assumes read8_ram: "ok (cpu.more s) \<Longrightarrow> half a \<Longrightarrow> read8 io a s = Ret (mem (cpu.more s) (unat a)) s"
    and read16_ram: "ok (cpu.more s) \<Longrightarrow> unat a < 0xffff \<Longrightarrow> read16 io a s =
      Ret (push_bit 8 (ucast (mem (cpu.more s) (unat a))) OR ucast (mem (cpu.more s) (unat a + 1))) s"
    and write8_ram: "ok (cpu.more s) \<Longrightarrow> half a \<Longrightarrow>
      write8 io a v s = Ret () (s\<lparr>cpu.more := put (unat a) v (cpu.more s)\<rparr>)"
    and ok_put: "ok m \<Longrightarrow> n < 65536 \<Longrightarrow> ok (put n v m)"
    and mem_put: "ok m \<Longrightarrow> n < 65536 \<Longrightarrow> mem (put n v m) i = (if i = n then v else mem m i)"
begin

lemma rd8_ram: "ok (cpu.more s) \<Longrightarrow> half a \<Longrightarrow> rd8 io a s = Ret (ucast (mem (cpu.more s) (unat a))) s"
  by (simp add: rd8_def bindE_def read8_ram)

lemma imm_byte_ram: "ok (cpu.more s) \<Longrightarrow> half (rPC s) \<Longrightarrow>
    imm_byte io s = Ret (ucast (mem (cpu.more s) (unat (rPC s)))) (s\<lparr>rPC := rPC s + 1\<rparr>)"
  by (simp add: imm_byte_def bindE_def rd8_ram)

text \<open>The bytes from address \<open>p\<close> on, around the end of the address space, start with \<open>bs\<close>.\<close>

definition holds :: "'x \<Rightarrow> nat \<Rightarrow> u8 list \<Rightarrow> bool" where
  "holds m p bs \<longleftrightarrow> (\<forall>i < length bs. mem m ((p + i) mod 65536) = bs ! i)"

lemma holds_Cons: "holds m p (b # bs) \<longleftrightarrow> mem m (p mod 65536) = b \<and> holds m (Suc p) bs"
  by (auto simp: holds_def less_Suc_eq_0_disj)

lemma holds_append: "holds m p (bs @ cs) \<longleftrightarrow> holds m p bs \<and> holds m (p + length bs) cs"
proof (induction bs arbitrary: p)
  case (Cons b bs)
  then show ?case by (simp add: holds_Cons)
qed (simp add: holds_def)

lemma holds_mod: "holds m (p mod 65536) bs \<longleftrightarrow> holds m p bs"
  by (simp add: holds_def mod_add_left_eq)

lemma holds_put:
  assumes "ok m" "p < 65536" "holds m (Suc p) bs" "length bs < 65536"
  shows "holds (put p v m) p (v # bs)"
proof -
  have "(Suc p + i) mod 65536 \<noteq> p" if "i < length bs" for i
  proof (cases "Suc p + i < 65536")
    case False
    then have "(Suc p + i) mod 65536 = Suc p + i - 65536" using assms(2,4) that by (simp add: mod_if)
    then show ?thesis using False assms(4) that by linarith
  qed simp
  then show ?thesis
    using assms by (simp add: holds_Cons mem_put) (simp add: holds_def mem_put)
qed

end

section \<open>Stack pointers\<close>

text \<open>One entry of a stack frame: its width, the cycles charged for it, and the register.\<close>

datatype (dead 'x) slot = Slot (wide: bool) (cost: int)
  (getr: "'x cpu_scheme \<Rightarrow> u32") (setr: "u32 \<Rightarrow> 'x cpu_scheme \<Rightarrow> 'x cpu_scheme")

definition slot_bytes :: "'x slot \<Rightarrow> u32 \<Rightarrow> u8 list" where
  "slot_bytes x v = (if wide x then [ucast (drop_bit 8 v), ucast (v AND 0xff)] else [ucast v])"

definition slot_fits :: "'x slot \<Rightarrow> u32 \<Rightarrow> bool" where
  "slot_fits x v \<longleftrightarrow> (if wide x then half v else byte v)"

lemma ucast_byte: "byte v \<Longrightarrow> ucast (ucast v :: u8) = v"
  by (simp add: word_unat_eq_iff unsigned_ucast_eq byte_take_bit)

lemma unat_step:
  assumes "half p"
  shows "unat ((p - 1) AND 0xffff) = (unat p + 65535) mod 65536" "unat ((p + 1) AND 0xffff) = (unat p + 1) mod 65536"
proof -
  have p: "unat p < 65536" using assms by (simp add: half_def)
  have "unat (p - 1) mod 65536 = (unat p + 65535) mod 65536"
  proof (cases "p = 0")
    case False
    then have "0 < unat p" by (simp add: unat_gt_0)
    then have "unat (p - 1) = unat p - 1" "unat p + 65535 = (unat p - 1) + 65536"
      by (simp_all add: unat_minus_one False)
    then show ?thesis by (metis mod_add_self2)
  qed (simp add: unsigned_minus_1_eq_mask mask_eq_exp_minus_1)
  then show "unat ((p - 1) AND 0xffff) = (unat p + 65535) mod 65536" by simp
  show "unat ((p + 1) AND 0xffff) = (unat p + 1) mod 65536"
    using p by (simp add: unat_word_ariths)
qed

lemma mask_add: "((x AND 0xffff) + y) AND 0xffff = (x + y) AND (0xffff :: u32)"
  by (simp add: word_unat_eq_iff unat_word_ariths mod_mod_cancel mod_add_left_eq)

lemma step_twice: "(((p - 2) AND 0xffff) + 1) AND 0xffff = (p - 1) AND (0xffff :: u32)"
  "(((p + 1) AND 0xffff) + 1) AND 0xffff = (p + 2) AND (0xffff :: u32)"
  "(((p - 1) AND 0xffff) - 1) AND 0xffff = (p - 2) AND (0xffff :: u32)"
  using mask_add [of "p - 2" 1] mask_add [of "p + 1" 1] mask_add [of "p - 1" "- 1"] by (simp_all add: add.commute)

locale machine_stack = ram_bus +
  fixes ptr :: "'a cpu_scheme \<Rightarrow> u32" and set_ptr :: "u32 \<Rightarrow> 'a cpu_scheme \<Rightarrow> 'a cpu_scheme"
    and push8 push16 :: "('a cpu_scheme \<Rightarrow> u32) \<Rightarrow> 'a cpu_scheme stmt"
    and pull8 pull16 :: "(u32 \<Rightarrow> 'a cpu_scheme \<Rightarrow> 'a cpu_scheme) \<Rightarrow> 'a cpu_scheme stmt"
  assumes push8: "push8 f = block [assign (\<lambda>s. set_ptr ((ptr s - 1) AND 0xffff) s), \<lambda>s. write_stack io (ptr s) (f s) s]"
    and push16: "push16 f = block [assign (\<lambda>s. set_ptr ((ptr s - 2) AND 0xffff) s), \<lambda>s. write_stack16 io (ptr s) (f s) s]"
    and pull8: "pull8 g = block [\<lambda>s. bindE (read_stack io (ptr s)) (\<lambda>v. assign (g v)) s, assign (\<lambda>s. set_ptr ((ptr s + 1) AND 0xffff) s)]"
    and pull16: "pull16 g = block [\<lambda>s. bindE (read_stack16 io (ptr s)) (\<lambda>v. assign (g v)) s, assign (\<lambda>s. set_ptr ((ptr s + 2) AND 0xffff) s)]"
    and ptr_set [simp]: "ptr (set_ptr p s) = p" "set_ptr p (set_ptr q s) = set_ptr p s" "set_ptr (ptr s) s = s"
    and ptr_frame [simp]: "ptr (s\<lparr>rPC := v\<rparr>) = ptr s" "ptr (s\<lparr>cpu_clk := c\<rparr>) = ptr s" "ptr (s\<lparr>cpu.more := m\<rparr>) = ptr s"
      "cpu.more (set_ptr p s) = cpu.more s" "cpu_clk (set_ptr p s) = cpu_clk s"
      "(set_ptr p s)\<lparr>cpu_clk := c\<rparr> = set_ptr p (s\<lparr>cpu_clk := c\<rparr>)"
      "(set_ptr p s)\<lparr>cpu.more := m\<rparr> = set_ptr p (s\<lparr>cpu.more := m\<rparr>)"
begin

definition stacked :: "u32 \<Rightarrow> int \<Rightarrow> 'a \<Rightarrow> 'a cpu_scheme \<Rightarrow> 'a cpu_scheme" where
  "stacked p c m s = set_ptr p (s\<lparr>cpu_clk := c, cpu.more := m\<rparr>)"

lemma stacked_simps [simp]:
  "ptr (stacked p c m s) = p" "cpu.more (stacked p c m s) = m" "cpu_clk (stacked p c m s) = c"
  "stacked p c m (stacked p' c' m' s) = stacked p c m s"
  by (simp_all add: stacked_def)

lemma stacked_self: "stacked (ptr s) (cpu_clk s) (cpu.more s) s = s"
  by (simp add: stacked_def)

definition slot_ok :: "'a slot \<Rightarrow> bool" where
  "slot_ok x \<longleftrightarrow> (\<forall>p c m s. getr x (stacked p c m s) = getr x s)
     \<and> (\<forall>v p c m s. setr x v (stacked p c m s) = stacked p c m (setr x v s))"

definition push_slot :: "bool \<times> 'a slot \<Rightarrow> 'a cpu_scheme stmt" where
  "push_slot bx = (case bx of (b, x) \<Rightarrow>
     doif b (block [clk (cost x), if wide x then push16 (getr x) else push8 (getr x)]))"

definition pull_slot :: "bool \<times> 'a slot \<Rightarrow> 'a cpu_scheme stmt" where
  "pull_slot bx = (case bx of (b, x) \<Rightarrow>
     doif b (block [clk (cost x), if wide x then pull16 (setr x) else pull8 (setr x)]))"

definition part :: "'a cpu_scheme \<Rightarrow> bool \<times> 'a slot \<Rightarrow> u8 list" where
  "part s bx = (case bx of (b, x) \<Rightarrow> if b then slot_bytes x (getr x s) else [])"

definition restore :: "'a cpu_scheme \<Rightarrow> bool \<times> 'a slot \<Rightarrow> 'a cpu_scheme \<Rightarrow> 'a cpu_scheme" where
  "restore s bx t = (case bx of (b, x) \<Rightarrow> if b then setr x (getr x s) t else t)"

text \<open>The state \<open>t\<close> is \<open>s\<close> with the bytes \<open>bs\<close> pushed: only the stack pointer, the cycle counter and
  the memory below the old pointer differ.\<close>

definition pushed :: "'a cpu_scheme \<Rightarrow> u8 list \<Rightarrow> 'a cpu_scheme \<Rightarrow> bool" where
  "pushed s bs t \<longleftrightarrow> (\<exists>p c m. t = stacked p c m s \<and> half p \<and> ok m
     \<and> (unat p + length bs) mod 65536 = unat (ptr s)
     \<and> (\<forall>r. holds (cpu.more s) (unat (ptr s)) r \<longrightarrow> length r + length bs \<le> 65536 \<longrightarrow> holds m (unat p) (bs @ r)))"

lemma pushed_refl: "ok (cpu.more s) \<Longrightarrow> half (ptr s) \<Longrightarrow> pushed s [] (s\<lparr>cpu_clk := c\<rparr>)"
  unfolding pushed_def
  by (rule exI [of _ "ptr s"], rule exI [of _ c], rule exI [of _ "cpu.more s"])
    (use ptr_set(3) [of "s\<lparr>cpu_clk := c\<rparr>"] in \<open>simp add: stacked_def half_def\<close>)

lemma pushed_trans:
  assumes "pushed s bs t" "pushed t cs u"
  shows "pushed s (cs @ bs) u"
proof -
  from assms(1) obtain p c m where t: "t = stacked p c m s" "(unat p + length bs) mod 65536 = unat (ptr s)"
    and h: "\<And>r. holds (cpu.more s) (unat (ptr s)) r \<Longrightarrow> length r + length bs \<le> 65536 \<Longrightarrow> holds m (unat p) (bs @ r)"
    unfolding pushed_def by blast
  from assms(2) obtain q d n where u: "u = stacked q d n t" "half q" "ok n" "(unat q + length cs) mod 65536 = unat (ptr t)"
    and k: "\<And>r. holds (cpu.more t) (unat (ptr t)) r \<Longrightarrow> length r + length cs \<le> 65536 \<Longrightarrow> holds n (unat q) (cs @ r)"
    unfolding pushed_def by blast
  have "u = stacked q d n s" using t u by simp
  moreover have "(unat q + length (cs @ bs)) mod 65536 = unat (ptr s)"
  proof -
    have "(unat q + length (cs @ bs)) mod 65536 = ((unat q + length cs) mod 65536 + length bs) mod 65536"
      by (simp add: mod_add_left_eq add.assoc)
    then show ?thesis using t u by simp
  qed
  moreover have "holds n (unat q) ((cs @ bs) @ r)"
    if "holds (cpu.more s) (unat (ptr s)) r" "length r + length (cs @ bs) \<le> 65536" for r
    using k [of "bs @ r"] h [of r] that t by simp
  ultimately show ?thesis
    unfolding pushed_def using u by blast
qed

lemma pushed_byte:
  assumes "ok (cpu.more s)" "half (ptr s)" "p = (ptr s - 1) AND 0xffff"
  shows "pushed s [v] (stacked p c (put (unat p) v (cpu.more s)) s)"
proof -
  have p: "half p" "unat p = (unat (ptr s) + 65535) mod 65536" using assms unat_step by simp_all
  have "(unat p + 1) mod 65536 = (unat (ptr s) + 65536) mod 65536"
    unfolding p mod_add_left_eq by (simp only: add.assoc) simp
  then have s: "(unat p + 1) mod 65536 = unat (ptr s)" using assms(2) by (simp add: half_def)
  have "holds (put (unat p) v (cpu.more s)) (unat p) (v # r)"
    if "holds (cpu.more s) (unat (ptr s)) r" "length r < 65536" for r
  proof (rule holds_put [OF assms(1)])
    show "unat p < 65536" using p by (simp add: half_def)
    show "holds (cpu.more s) (Suc (unat p)) r" using that(1) s holds_mod [of "cpu.more s" "unat p + 1" r] by simp
  qed (rule that)
  then show ?thesis
    unfolding pushed_def using p(1) s ok_put [OF assms(1), of "unat p" v]
    by (intro exI [of _ p] exI [of _ c] exI [of _ "put (unat p) v (cpu.more s)"]) (simp add: half_def)
qed

lemma set_ptr_stacked: "set_ptr p s = stacked p (cpu_clk s) (cpu.more s) s"
  by (simp add: stacked_def)

lemma clk_stacked: "s\<lparr>cpu_clk := c\<rparr> = stacked (ptr s) c (cpu.more s) s"
  using ptr_set(3) [of "s\<lparr>cpu_clk := c\<rparr>"] by (simp add: stacked_def)

lemma more_stacked: "(stacked p c m s)\<lparr>cpu.more := m'\<rparr> = stacked p c m' s"
  by (simp add: stacked_def)

lemma write_stack_ram:
  "ok (cpu.more s) \<Longrightarrow> half a \<Longrightarrow> write_stack io a v s = Ret () (s\<lparr>cpu.more := put (unat a) (ucast v) (cpu.more s)\<rparr>)"
  by (simp add: write_stack_def WRMEM_def write8_ram)

lemma push8_pushed:
  assumes "ok (cpu.more s)" "half (ptr s)" "\<And>p c m. f (stacked p c m s) = f s"
  shows "\<exists>t. push8 f s = Ret () t \<and> pushed s [ucast (f s)] t"
proof -
  let ?p = "(ptr s - 1) AND 0xffff"
  have "push8 f s = Ret () (stacked ?p (cpu_clk s) (put (unat ?p) (ucast (f s)) (cpu.more s)) s)"
    using assms by (simp add: push8 assign_def set_ptr_stacked write_stack_ram more_stacked)
  then show ?thesis using pushed_byte [OF assms(1,2) refl] by blast
qed

lemma push16_pushed:
  assumes "ok (cpu.more s)" "half (ptr s)" "\<And>p c m. f (stacked p c m s) = f s"
  shows "\<exists>t. push16 f s = Ret () t \<and> pushed s [ucast (drop_bit 8 (f s)), ucast (f s AND 0xff)] t"
proof -
  let ?p = "(ptr s - 1) AND 0xffff" and ?q = "(ptr s - 2) AND 0xffff"
  let ?m = "put (unat ?p) (ucast (f s AND 0xff)) (cpu.more s)"
  let ?t = "stacked ?p (cpu_clk s) ?m s"
  have lo: "pushed s [ucast (f s AND 0xff)] ?t" by (rule pushed_byte [OF assms(1,2) refl])
  have m: "ok ?m" by (rule ok_put [OF assms(1)]) simp
  have hi: "pushed ?t [ucast (drop_bit 8 (f s))] (stacked ?q (cpu_clk s) (put (unat ?q) (ucast (drop_bit 8 (f s))) ?m) ?t)"
    using pushed_byte [of ?t ?q] m by (simp add: step_twice)
  have "push16 f s = Ret () (stacked ?q (cpu_clk s) (put (unat ?q) (ucast (drop_bit 8 (f s))) ?m) ?t)"
    using assms m by (simp add: push16 assign_def set_ptr_stacked write_stack16_def write_stack_ram more_stacked step_twice)
  then show ?thesis using pushed_trans [OF lo hi] by auto
qed

lemma push_slot_pushed:
  assumes "ok (cpu.more s)" "half (ptr s)" "slot_ok (snd bx)"
  shows "\<exists>t. push_slot bx s = Ret () t \<and> pushed s (part s bx) t"
proof -
  obtain b x where bx: "bx = (b, x)" by (cases bx)
  let ?s = "s\<lparr>cpu_clk := cpu_clk s - cost x\<rparr>"
  have get: "getr x (stacked p c m u) = getr x u" for p c m u using assms(3) bx by (simp add: slot_ok_def)
  have gs: "getr x ?s = getr x s" unfolding clk_stacked by (rule get)
  have s: "ok (cpu.more ?s)" "half (ptr ?s)" using assms by simp_all
  note p8 = push8_pushed [OF s get] and p16 = push16_pushed [OF s get] and r = pushed_refl [OF assms(1,2)]
  show ?thesis
  proof (cases b)
    case True
    obtain t where t: "(if wide x then push16 (getr x) else push8 (getr x)) ?s = Ret () t" "pushed ?s (slot_bytes x (getr x s)) t"
      using p8 p16 gs by (cases "wide x") (auto simp: slot_bytes_def)
    have "push_slot bx s = Ret () t" using True t(1) by (simp add: bx push_slot_def doif_def clk_def)
    then show ?thesis using pushed_trans [OF r t(2)] True by (auto simp: bx part_def)
  next
    case False
    then show ?thesis using r [of "cpu_clk s"] by (simp add: bx push_slot_def doif_def part_def)
  qed
qed

lemma pushed_frame:
  assumes "pushed s bs t"
  shows "ok (cpu.more t)" "half (ptr t)" "slot_ok (snd bx) \<Longrightarrow> part t bx = part s bx"
proof -
  from assms obtain p c m where t: "t = stacked p c m s" "half p" "ok m" unfolding pushed_def by blast
  then show "ok (cpu.more t)" "half (ptr t)" by simp_all
  assume "slot_ok (snd bx)"
  then show "part t bx = part s bx" using t by (cases bx) (auto simp: part_def slot_ok_def)
qed

lemma push_slots_pushed:
  assumes "ok (cpu.more s)" "half (ptr s)" "\<forall>bx \<in> set xs. slot_ok (snd bx)"
  shows "\<exists>t. block (map push_slot xs) s = Ret () t \<and> pushed s (concat (map (part s) (rev xs))) t"
  using assms
proof (induction xs arbitrary: s)
  case Nil
  then show ?case using pushed_refl [of s "cpu_clk s"] by simp
next
  case (Cons x xs)
  then obtain u where u: "push_slot x s = Ret () u" "pushed s (part s x) u"
    using push_slot_pushed [of s x] by auto
  have eq: "map (part u) (rev xs) = map (part s) (rev xs)"
    using Cons.prems(3) pushed_frame(3) [OF u(2)] by simp
  have "\<exists>t. block (map push_slot xs) u = Ret () t \<and> pushed u (concat (map (part u) (rev xs))) t"
    using Cons.prems(3) pushed_frame(1,2) [OF u(2)] by (intro Cons.IH) auto
  then obtain t where t: "block (map push_slot xs) u = Ret () t" "pushed u (concat (map (part s) (rev xs))) t"
    unfolding eq by blast
  have "pushed s (concat (map (part s) (rev (x # xs)))) t" using pushed_trans [OF u(2) t(2)] by simp
  then show ?case using u t by auto
qed

lemma read_stack_ram:
  "ok (cpu.more s) \<Longrightarrow> half a \<Longrightarrow> read_stack io a s = Ret (ucast (mem (cpu.more s) (unat a))) s"
  by (simp add: read_stack_def RDMEM_def rd8_ram)

lemma setr_frame:
  assumes "slot_ok x"
  shows "ptr (setr x v s) = ptr s" "cpu.more (setr x v s) = cpu.more s" "cpu_clk (setr x v s) = cpu_clk s"
    "setr x v (stacked p c m s) = stacked p c m (setr x v s)"
proof -
  show st: "setr x v (stacked p c m s) = stacked p c m (setr x v s)" for p c m using assms by (simp add: slot_ok_def)
  from st [of "ptr s" "cpu_clk s" "cpu.more s"]
  have "setr x v s = stacked (ptr s) (cpu_clk s) (cpu.more s) (setr x v s)" by (simp only: stacked_self)
  then show "ptr (setr x v s) = ptr s" "cpu.more (setr x v s) = cpu.more s" "cpu_clk (setr x v s) = cpu_clk s"
    by (metis stacked_simps(1), metis stacked_simps(2), metis stacked_simps(3))
qed

lemma pull8_pulled:
  assumes "ok (cpu.more s)" "half (ptr s)" "slot_ok x" "byte v" "holds (cpu.more s) (unat (ptr s)) (ucast v # bs)"
  shows "pull8 (setr x) s = Ret () (stacked ((ptr s + 1) AND 0xffff) (cpu_clk s) (cpu.more s) (setr x v s))"
proof -
  have "mem (cpu.more s) (unat (ptr s)) = ucast v" using assms(2,5) by (simp add: holds_Cons half_def)
  then show ?thesis
    using assms(1-4) by (simp add: pull8 bindE_def assign_def read_stack_ram ucast_byte set_ptr_stacked setr_frame)
qed

lemma pull16_pulled:
  assumes "ok (cpu.more s)" "half (ptr s)" "slot_ok x" "half v"
    and "holds (cpu.more s) (unat (ptr s)) (ucast (drop_bit 8 v) # ucast (v AND 0xff) # bs)"
  shows "pull16 (setr x) s = Ret () (stacked ((ptr s + 2) AND 0xffff) (cpu_clk s) (cpu.more s) (setr x v s))"
proof -
  have "mem (cpu.more s) (unat (ptr s)) = ucast (drop_bit 8 v)"
    "mem (cpu.more s) (unat ((ptr s + 1) AND 0xffff)) = ucast (v AND 0xff)"
    using assms(2,5) unat_step(2) [OF assms(2)] by (simp_all add: holds_Cons half_def)
  then show ?thesis
    using assms(1-4) split_half [OF assms(4)] byte_shr8 [OF assms(4)]
    by (simp add: pull16 bindE_def assign_def read_stack16_def read_stack_ram ucast_byte set_ptr_stacked setr_frame)
qed

lemma pull_slot_pulled:
  assumes "ok (cpu.more s)" "half (ptr s)" "slot_ok (snd bx)" "slot_fits (snd bx) (getr (snd bx) s0)"
    and "holds (cpu.more s) (unat (ptr s)) (part s0 bx @ bs)"
  shows "\<exists>p c. pull_slot bx s = Ret () (stacked p c (cpu.more s) (restore s0 bx s)) \<and> half p
    \<and> unat p = (unat (ptr s) + length (part s0 bx)) mod 65536"
proof -
  obtain b x where bx: "bx = (b, x)" by (cases bx)
  let ?s = "s\<lparr>cpu_clk := cpu_clk s - cost x\<rparr>" and ?v = "getr x s0"
  have s: "ok (cpu.more ?s)" "half (ptr ?s)" using assms by simp_all
  have x: "slot_ok x" using assms(3) bx by simp
  have set: "setr x ?v ?s = stacked (ptr s) (cpu_clk s - cost x) (cpu.more s) (setr x ?v s)"
    unfolding clk_stacked [where s = s] setr_frame(4) [OF x] ..
  show ?thesis
  proof (cases b)
    case True
    let ?p = "if wide x then (ptr s + 2) AND 0xffff else (ptr s + 1) AND 0xffff"
    have "(if wide x then pull16 (setr x) else pull8 (setr x)) ?s
        = Ret () (stacked ?p (cpu_clk s - cost x) (cpu.more s) (setr x ?v s))"
      using pull8_pulled [OF s x, of ?v bs] pull16_pulled [OF s x, of ?v bs] assms(4,5) True
      by (cases "wide x") (simp_all add: bx set part_def slot_bytes_def slot_fits_def)
    then have "pull_slot bx s = Ret () (stacked ?p (cpu_clk s - cost x) (cpu.more s) (restore s0 bx s))"
      using True by (simp add: bx pull_slot_def doif_def clk_def restore_def)
    moreover have "half ?p" "unat ?p = (unat (ptr s) + length (part s0 bx)) mod 65536"
      using True unat_step(2) [OF assms(2)] assms(2)
      by (auto simp: bx part_def slot_bytes_def unat_word_ariths half_def)
    ultimately show ?thesis by blast
  next
    case False
    have "s = stacked (ptr s) (cpu_clk s) (cpu.more s) s" by (simp only: stacked_self)
    then show ?thesis
      using False assms(2) by (auto simp: bx pull_slot_def doif_def restore_def part_def half_def)
  qed
qed

lemma restore_frame:
  "slot_ok (snd bx) \<Longrightarrow> restore s0 bx (stacked p c m s) = stacked p c m (restore s0 bx s)"
  by (cases bx) (auto simp: restore_def setr_frame)

lemma fold_restore_frame:
  "\<forall>bx \<in> set ys. slot_ok (snd bx) \<Longrightarrow> fold (restore s0) ys (stacked p c m s) = stacked p c m (fold (restore s0) ys s)"
  by (induction ys arbitrary: s) (simp_all add: restore_frame)

lemma pull_slots_pulled:
  assumes "ok (cpu.more s)" "half (ptr s)" "\<forall>bx \<in> set ys. slot_ok (snd bx) \<and> slot_fits (snd bx) (getr (snd bx) s0)"
    and "holds (cpu.more s) (unat (ptr s)) (concat (map (part s0) ys) @ bs)"
  shows "\<exists>p c. block (map pull_slot ys) s = Ret () (stacked p c (cpu.more s) (fold (restore s0) ys s)) \<and> half p
    \<and> unat p = (unat (ptr s) + length (concat (map (part s0) ys))) mod 65536"
  using assms
proof (induction ys arbitrary: s)
  case Nil
  have "s = stacked (ptr s) (cpu_clk s) (cpu.more s) s" by (simp only: stacked_self)
  then show ?case using Nil.prems(2) by (auto simp: half_def)
next
  case (Cons y ys)
  let ?bs = "concat (map (part s0) ys)"
  from Cons.prems pull_slot_pulled [of s y s0 "?bs @ bs"] obtain p c where
    y: "pull_slot y s = Ret () (stacked p c (cpu.more s) (restore s0 y s))" "half p"
      "unat p = (unat (ptr s) + length (part s0 y)) mod 65536" by auto
  let ?t = "stacked p c (cpu.more s) (restore s0 y s)"
  have "holds (cpu.more s) (unat (ptr s) + length (part s0 y)) (?bs @ bs)"
    using Cons.prems(4) by (simp add: holds_append)
  then have "holds (cpu.more ?t) (unat (ptr ?t)) (?bs @ bs)" by (simp add: y(3) holds_mod)
  with Cons.prems y(2) obtain q d where
    q: "block (map pull_slot ys) ?t = Ret () (stacked q d (cpu.more s) (fold (restore s0) ys ?t))" "half q"
      "unat q = (unat p + length ?bs) mod 65536"
    using Cons.IH [of ?t] by auto
  have "unat q = (unat (ptr s) + length (concat (map (part s0) (y # ys)))) mod 65536"
    using q(3) by (simp add: y(3) mod_add_left_eq add.assoc)
  moreover have "block (map pull_slot (y # ys)) s = Ret () (stacked q d (cpu.more s) (fold (restore s0) (y # ys) s))"
    using y(1) q(1) Cons.prems(3) by (simp add: fold_restore_frame)
  ultimately show ?case using q(2) by blast
qed

text \<open>What was pushed comes back, whatever happened to the registers in between, provided the stack
  pointer and the memory are where the pushes left them.\<close>

lemma push_pull:
  assumes "ok (cpu.more s)" "half (ptr s)" "\<forall>bx \<in> set xs. slot_ok (snd bx) \<and> slot_fits (snd bx) (getr (snd bx) s)"
    and "length (concat (map (part s) (rev xs))) \<le> 65536"
  shows "\<exists>p c m. block (map push_slot xs) s = Ret () (stacked p c m s) \<and> ok m \<and> half p
    \<and> (\<forall>t. ptr t = p \<longrightarrow> cpu.more t = m \<longrightarrow>
         (\<exists>c. block (map pull_slot (rev xs)) t = Ret () (stacked (ptr s) c m (fold (restore s) (rev xs) t))))"
proof -
  let ?bs = "concat (map (part s) (rev xs))"
  from push_slots_pushed [OF assms(1,2)] assms(3) obtain p c m where
    push: "block (map push_slot xs) s = Ret () (stacked p c m s)" "half p" "ok m" "(unat p + length ?bs) mod 65536 = unat (ptr s)"
    and h: "\<And>r. holds (cpu.more s) (unat (ptr s)) r \<Longrightarrow> length r + length ?bs \<le> 65536 \<Longrightarrow> holds m (unat p) (?bs @ r)"
    unfolding pushed_def by (metis (no_types, lifting))
  have "holds m (unat p) (?bs @ [])" using h [of "[]"] assms(4) by (simp add: holds_def)
  then have "\<exists>c. block (map pull_slot (rev xs)) t = Ret () (stacked (ptr s) c m (fold (restore s) (rev xs) t))"
    if t: "ptr t = p" "cpu.more t = m" for t
  proof -
    from t push assms(3) \<open>holds m (unat p) (?bs @ [])\<close> pull_slots_pulled [of t "rev xs" s "[]"] obtain q d where
      "block (map pull_slot (rev xs)) t = Ret () (stacked q d m (fold (restore s) (rev xs) t))" "unat q = unat (ptr s)" by auto
    then show ?thesis using word_unat_eq_iff [of q "ptr s"] by blast
  qed
  then show ?thesis using push by blast
qed

text \<open>The same with the operand byte that both instructions fetch and that selects the registers.\<close>

lemma push_pull_instructions:
  assumes "ok (cpu.more s)" "half (ptr s)" "half (rPC s)"
  defines "post \<equiv> mem (cpu.more s) (unat (rPC s))" and "s1 \<equiv> s\<lparr>rPC := rPC s + 1, cpu_clk := cpu_clk s - 5\<rparr>"
  assumes "\<forall>bx \<in> set (xs (ucast post)). slot_ok (snd bx) \<and> slot_fits (snd bx) (getr (snd bx) s1)"
    and "length (concat (map (part s1) (rev (xs (ucast post))))) \<le> 65536"
  shows "\<exists>p c m. bindE (imm_byte io) (\<lambda>v. block (clk 5 # map push_slot (xs v))) s = Ret () (stacked p c m s1) \<and> half p
    \<and> (\<forall>t. ptr t = p \<longrightarrow> cpu.more t = m \<longrightarrow> half (rPC t) \<longrightarrow> mem m (unat (rPC t)) = post \<longrightarrow>
         (\<exists>c. bindE (imm_byte io) (\<lambda>v. block (clk 5 # map pull_slot (rev (xs v)))) t = Ret () (stacked (ptr s) c m
           (fold (restore s1) (rev (xs (ucast post))) (t\<lparr>rPC := rPC t + 1, cpu_clk := cpu_clk t - 5\<rparr>)))))"
proof -
  have s: "ok (cpu.more s1)" "half (ptr s1)" "ptr s1 = ptr s" using assms by (simp_all add: s1_def)
  from push_pull [OF s(1,2) assms(6,7)] obtain p c m where
    push: "block (map push_slot (xs (ucast post))) s1 = Ret () (stacked p c m s1)" "ok m" "half p"
    and pull: "\<And>t. ptr t = p \<Longrightarrow> cpu.more t = m \<Longrightarrow> \<exists>c. block (map pull_slot (rev (xs (ucast post)))) t
      = Ret () (stacked (ptr s) c m (fold (restore s1) (rev (xs (ucast post))) t))"
    unfolding s(3) by blast
  have "bindE (imm_byte io) (\<lambda>v. block (clk 5 # map push_slot (xs v))) s = Ret () (stacked p c m s1)"
    using push(1) assms(1,3) by (simp add: bindE_def imm_byte_ram clk_def s1_def flip: post_def)
  moreover have "\<exists>c. bindE (imm_byte io) (\<lambda>v. block (clk 5 # map pull_slot (rev (xs v)))) t = Ret () (stacked (ptr s) c m
           (fold (restore s1) (rev (xs (ucast post))) (t\<lparr>rPC := rPC t + 1, cpu_clk := cpu_clk t - 5\<rparr>)))"
    if "ptr t = p" "cpu.more t = m" "half (rPC t)" "mem m (unat (rPC t)) = post" for t
    using pull [of "t\<lparr>rPC := rPC t + 1, cpu_clk := cpu_clk t - 5\<rparr>"] push(2) that
    by (simp add: bindE_def imm_byte_ram clk_def)
  ultimately show ?thesis using push(3) by blast
qed

end

sublocale ram_bus \<subseteq> s_stack: machine_stack io ok mem put rS "\<lambda>p s. s\<lparr>rS := p\<rparr>" "push_s8 io" "push_s16 io" "pull_s8 io" "pull_s16 io"
  by unfold_locales (simp_all add: push_s8_def push_s16_def pull_s8_def pull_s16_def)

sublocale ram_bus \<subseteq> u_stack: machine_stack io ok mem put rU "\<lambda>p s. s\<lparr>rU := p\<rparr>" "push_u8 io" "push_u16 io" "pull_u8 io" "pull_u16 io"
  by unfold_locales (simp_all add: push_u8_def push_u16_def pull_u8_def pull_u16_def)

section \<open>Frames\<close>

text \<open>The registers in the order of the pushes; \<open>other\<close> is the stack pointer that is not in use.\<close>

definition slots :: "int \<Rightarrow> int \<Rightarrow> 'x slot \<Rightarrow> (nat \<Rightarrow> bool) \<Rightarrow> (bool \<times> 'x slot) list" where
  "slots c16 c8 other sel = [
     (sel 7, Slot True c16 (\<lambda>s. rPC s AND 0xffff) (\<lambda>v s. s\<lparr>rPC := v\<rparr>)),
     (sel 6, other),
     (sel 5, Slot True c16 rY (\<lambda>v s. s\<lparr>rY := v\<rparr>)),
     (sel 4, Slot True c16 rX (\<lambda>v s. s\<lparr>rX := v\<rparr>)),
     (sel 3, Slot False c8 (\<lambda>s. drop_bit 8 (rDP s)) (\<lambda>v s. s\<lparr>rDP := push_bit 8 v\<rparr>)),
     (sel 2, Slot False c8 rB (\<lambda>v s. s\<lparr>rB := v\<rparr>)),
     (sel 1, Slot False c8 rA (\<lambda>v s. s\<lparr>rA := v\<rparr>)),
     (sel 0, Slot False c8 get_cc set_cc)]"

definition slot_U :: "int \<Rightarrow> 'x slot" where "slot_U c = Slot True c rU (\<lambda>v s. s\<lparr>rU := v\<rparr>)"
definition slot_S :: "int \<Rightarrow> 'x slot" where "slot_S c = Slot True c rS (\<lambda>v s. s\<lparr>rS := v\<rparr>)"

text \<open>The registers hold values of their widths.\<close>

definition sized :: "'x cpu_scheme \<Rightarrow> bool" where
  "sized s \<longleftrightarrow> half (rX s) \<and> half (rY s) \<and> half (rS s) \<and> half (rU s) \<and> byte (rA s) \<and> byte (rB s)
     \<and> half (rDP s) \<and> rDP s AND 0xff = 0"

lemma slots_fit:
  assumes "sized s" "bx \<in> set (slots c16 c8 x sel)" "x = slot_U c \<or> x = slot_S c"
  shows "slot_fits (snd bx) (getr (snd bx) s)"
  using assms by (auto simp: slots_def slot_fits_def sized_def slot_U_def slot_S_def byte_shr8)

lemma dp_split: "half w \<Longrightarrow> w AND 0xff = 0 \<Longrightarrow> push_bit 8 (drop_bit 8 w) = w"
  using split_half [of w] by simp

lemma get_cc_frame [simp]:
  "get_cc (s\<lparr>rS := v\<rparr>) = get_cc s" "get_cc (s\<lparr>rU := v\<rparr>) = get_cc s" "get_cc (s\<lparr>rX := v\<rparr>) = get_cc s"
  "get_cc (s\<lparr>rY := v\<rparr>) = get_cc s" "get_cc (s\<lparr>rPC := v\<rparr>) = get_cc s" "get_cc (s\<lparr>rA := v\<rparr>) = get_cc s"
  "get_cc (s\<lparr>rB := v\<rparr>) = get_cc s" "get_cc (s\<lparr>rDP := v\<rparr>) = get_cc s" "get_cc (s\<lparr>cpu_clk := c\<rparr>) = get_cc s"
  "get_cc (s\<lparr>cpu.more := m\<rparr>) = get_cc s"
  by (simp_all add: get_cc_def)

lemma set_cc_frame [simp]:
  "rX (set_cc v s) = rX s" "rY (set_cc v s) = rY s" "rU (set_cc v s) = rU s" "rS (set_cc v s) = rS s"
  "rPC (set_cc v s) = rPC s" "rA (set_cc v s) = rA s" "rB (set_cc v s) = rB s" "rDP (set_cc v s) = rDP s"
  "cpu.more (set_cc v s) = cpu.more s" "cpu_clk (set_cc v s) = cpu_clk s"
  by (simp_all add: set_cc_def)

lemma get_cc_again: "get_cc (set_cc (get_cc s) t) = get_cc s"
  unfolding get_cc_set_cc by (simp add: byte_mask_self)

text \<open>The registers of \<open>u\<close> that \<open>sel\<close> selects are those of \<open>s\<close>, the others those of \<open>t\<close>.\<close>

definition regs_from :: "(nat \<Rightarrow> bool) \<Rightarrow> 'x cpu_scheme \<Rightarrow> 'x cpu_scheme \<Rightarrow> 'x cpu_scheme \<Rightarrow> bool" where
  "regs_from sel s t u \<longleftrightarrow> get_cc u = get_cc (if sel 0 then s else t) \<and> rA u = rA (if sel 1 then s else t)
     \<and> rB u = rB (if sel 2 then s else t) \<and> rDP u = rDP (if sel 3 then s else t) \<and> rX u = rX (if sel 4 then s else t)
     \<and> rY u = rY (if sel 5 then s else t) \<and> rPC u = (if sel 7 then rPC s AND 0xffff else rPC t)"

text \<open>Interrupt entry pushes PC and CC, and the other registers for the full frame.\<close>

definition entered :: "bool \<Rightarrow> 'x cpu_scheme \<Rightarrow> 'x cpu_scheme" where
  "entered full s = s\<lparr>cpu_clk := cpu_clk s - (if full then 19 else 6),
     EFI := (if full then EFI s OR E_FLAG else EFI s AND NOT E_FLAG)\<rparr>"

text \<open>An RTI with the stack and memory that \<open>t\<close> has brings the registers of \<open>s\<close> back: all of them
  after a full frame, PC and CC otherwise. CC comes back with the E flag that entry gave it.\<close>

definition resumes :: "'x cpu_scheme iface \<Rightarrow> bool \<Rightarrow> 'x cpu_scheme \<Rightarrow> 'x cpu_scheme \<Rightarrow> bool" where
  "resumes io full s t \<longleftrightarrow> (\<forall>t'. rS t' = rS t \<longrightarrow> cpu.more t' = cpu.more t
     \<longrightarrow> irq_cycle_entry t' < length (irq_cycle_tab t')
     \<longrightarrow> (\<exists>u. rti io t' = Ret () u \<and> regs_from (\<lambda>k. full \<or> k = 0 \<or> k = 7) (entered full s) t' u
           \<and> rU u = rU (if full then s else t') \<and> rS u = rS s \<and> cpu.more u = cpu.more t))"

lemma resumes_cong: "rS t = rS t' \<Longrightarrow> cpu.more t = cpu.more t' \<Longrightarrow> resumes io full s t = resumes io full s t'"
  by (simp add: resumes_def)

context ram_bus begin

lemma s_slots_ok: "bx \<in> set (slots c16 c8 (slot_U c) sel) \<Longrightarrow> s_stack.slot_ok (snd bx)"
  by (auto simp: slots_def slot_U_def s_stack.slot_ok_def s_stack.stacked_def set_cc_def)

lemma u_slots_ok: "bx \<in> set (slots c16 c8 (slot_S c) sel) \<Longrightarrow> u_stack.slot_ok (snd bx)"
  by (auto simp: slots_def slot_S_def u_stack.slot_ok_def u_stack.stacked_def set_cc_def)

lemma restore_fields:
  "rA (s_stack.restore s (b, Slot w c g h) t) = (if b then rA (h (g s) t) else rA t)"
  "rB (s_stack.restore s (b, Slot w c g h) t) = (if b then rB (h (g s) t) else rB t)"
  "rX (s_stack.restore s (b, Slot w c g h) t) = (if b then rX (h (g s) t) else rX t)"
  "rY (s_stack.restore s (b, Slot w c g h) t) = (if b then rY (h (g s) t) else rY t)"
  "rU (s_stack.restore s (b, Slot w c g h) t) = (if b then rU (h (g s) t) else rU t)"
  "rS (s_stack.restore s (b, Slot w c g h) t) = (if b then rS (h (g s) t) else rS t)"
  "rPC (s_stack.restore s (b, Slot w c g h) t) = (if b then rPC (h (g s) t) else rPC t)"
  "rDP (s_stack.restore s (b, Slot w c g h) t) = (if b then rDP (h (g s) t) else rDP t)"
  "get_cc (s_stack.restore s (b, Slot w c g h) t) = (if b then get_cc (h (g s) t) else get_cc t)"
  by (simp_all add: s_stack.restore_def)

lemma s_restored:
  assumes "sized s" and u: "u = s_stack.stacked p c m (fold (s_stack.restore s) (rev (slots c16 c8 (slot_U k) sel)) t)"
  shows "regs_from sel s t u" "rU u = rU (if sel 6 then s else t)" "rS u = p" "cpu.more u = m"
proof -
  have dp: "push_bit 8 (drop_bit 8 (rDP s)) = rDP s" using assms(1) by (simp add: sized_def dp_split)
  show "regs_from sel s t u" "rU u = rU (if sel 6 then s else t)" "rS u = p" "cpu.more u = m"
    unfolding u regs_from_def s_stack.stacked_def slots_def slot_U_def
    by (simp_all add: restore_fields dp get_cc_again)
qed

lemma u_restored:
  assumes "sized s" and u: "u = u_stack.stacked p c m (fold (u_stack.restore s) (rev (slots c16 c8 (slot_S k) sel)) t)"
  shows "regs_from sel s t u" "rS u = rS (if sel 6 then s else t)" "rU u = p" "cpu.more u = m"
proof -
  have dp: "push_bit 8 (drop_bit 8 (rDP s)) = rDP s" using assms(1) by (simp add: sized_def dp_split)
  show "regs_from sel s t u" "rS u = rS (if sel 6 then s else t)" "rU u = p" "cpu.more u = m"
    unfolding u regs_from_def u_stack.stacked_def slots_def slot_S_def
    by (simp_all add: restore_fields dp get_cc_again)
qed

lemma pshs_slots:
  "pshs io = bindE (imm_byte io) (\<lambda>post. block (clk 5 # map s_stack.push_slot (slots 2 1 (slot_U 2) (bit post))))"
  by (simp add: pshs_def slots_def slot_U_def s_stack.push_slot_def)

lemma puls_slots:
  "puls io = bindE (imm_byte io) (\<lambda>post. block (clk 5 # map s_stack.pull_slot (rev (slots 2 1 (slot_U 2) (bit post)))))"
  by (simp add: puls_def slots_def slot_U_def s_stack.pull_slot_def)

lemma pshu_slots:
  "pshu io = bindE (imm_byte io) (\<lambda>post. block (clk 5 # map u_stack.push_slot (slots 2 1 (slot_S 2) (bit post))))"
  by (simp add: pshu_def slots_def slot_S_def u_stack.push_slot_def)

lemma pulu_slots:
  "pulu io = bindE (imm_byte io) (\<lambda>post. block (clk 5 # map u_stack.pull_slot (rev (slots 2 1 (slot_S 2) (bit post)))))"
  by (simp add: pulu_def slots_def slot_S_def u_stack.pull_slot_def)

lemma frame_length:
  "length (concat (map (s_stack.part s) (rev (slots c16 c8 (slot_U c) sel)))) \<le> 65536"
  "length (concat (map (u_stack.part s) (rev (slots c16 c8 (slot_S c) sel)))) \<le> 65536"
  by (simp_all add: slots_def slot_U_def slot_S_def s_stack.part_def slot_bytes_def)

lemma bit_ucast_u8: "bit (ucast (w :: u8) :: u32) = bit w"
  by (simp add: fun_eq_iff bit_unsigned_iff) (use bit_imp_le_length in force)

lemma pshs_puls:
  assumes "ok (cpu.more s)" "sized s" "half (rPC s)" and post: "post = mem (cpu.more s) (unat (rPC s))"
  shows "\<exists>t. pshs io s = Ret () t \<and> (\<forall>t'. rS t' = rS t \<longrightarrow> cpu.more t' = cpu.more t \<longrightarrow> half (rPC t')
     \<longrightarrow> mem (cpu.more t') (unat (rPC t')) = post
     \<longrightarrow> (\<exists>u. puls io t' = Ret () u \<and> regs_from (bit post) (s\<lparr>rPC := rPC s + 1\<rparr>) (t'\<lparr>rPC := rPC t' + 1\<rparr>) u
           \<and> rU u = rU (if bit post 6 then s else t') \<and> rS u = rS s \<and> cpu.more u = cpu.more t))"
proof -
  let ?x = "\<lambda>v :: u32. slots 2 1 (slot_U 2) (bit v)" and ?s = "s\<lparr>rPC := rPC s + 1, cpu_clk := cpu_clk s - 5\<rparr>"
  have s: "half (rS s)" "sized ?s" using assms(2) by (simp_all add: sized_def)
  have "\<forall>bx \<in> set (?x (ucast post)). s_stack.slot_ok (snd bx) \<and> slot_fits (snd bx) (getr (snd bx) ?s)"
    using s_slots_ok slots_fit [OF s(2)] by blast
  from s_stack.push_pull_instructions [OF assms(1) s(1) assms(3), of ?x, folded post, OF this frame_length(1)]
  obtain p c m where psh: "pshs io s = Ret () (s_stack.stacked p c m ?s)"
    and pul: "\<And>t. rS t = p \<Longrightarrow> cpu.more t = m \<Longrightarrow> half (rPC t) \<Longrightarrow> mem m (unat (rPC t)) = post \<Longrightarrow>
      \<exists>c. puls io t = Ret () (s_stack.stacked (rS s) c m (fold (s_stack.restore ?s) (rev (?x (ucast post)))
        (t\<lparr>rPC := rPC t + 1, cpu_clk := cpu_clk t - 5\<rparr>)))"
    unfolding pshs_slots puls_slots by blast
  show ?thesis
  proof (rule exI, rule conjI, rule psh, intro allI impI)
    fix t'
    assume "rS t' = rS (s_stack.stacked p c m ?s)" "cpu.more t' = cpu.more (s_stack.stacked p c m ?s)"
      "half (rPC t')" "mem (cpu.more t') (unat (rPC t')) = post"
    with pul [of t'] obtain d where
      "puls io t' = Ret () (s_stack.stacked (rS s) d m (fold (s_stack.restore ?s) (rev (?x (ucast post)))
        (t'\<lparr>rPC := rPC t' + 1, cpu_clk := cpu_clk t' - 5\<rparr>)))" by auto
    with s_restored [OF s(2) refl] show "\<exists>u. puls io t' = Ret () u
        \<and> regs_from (bit post) (s\<lparr>rPC := rPC s + 1\<rparr>) (t'\<lparr>rPC := rPC t' + 1\<rparr>) u
        \<and> rU u = rU (if bit post 6 then s else t') \<and> rS u = rS s \<and> cpu.more u = cpu.more (s_stack.stacked p c m ?s)"
      by (auto simp: regs_from_def bit_ucast_u8)
  qed
qed

lemma pshu_pulu:
  assumes "ok (cpu.more s)" "sized s" "half (rPC s)" and post: "post = mem (cpu.more s) (unat (rPC s))"
  shows "\<exists>t. pshu io s = Ret () t \<and> (\<forall>t'. rU t' = rU t \<longrightarrow> cpu.more t' = cpu.more t \<longrightarrow> half (rPC t')
     \<longrightarrow> mem (cpu.more t') (unat (rPC t')) = post
     \<longrightarrow> (\<exists>u. pulu io t' = Ret () u \<and> regs_from (bit post) (s\<lparr>rPC := rPC s + 1\<rparr>) (t'\<lparr>rPC := rPC t' + 1\<rparr>) u
           \<and> rS u = rS (if bit post 6 then s else t') \<and> rU u = rU s \<and> cpu.more u = cpu.more t))"
proof -
  let ?x = "\<lambda>v :: u32. slots 2 1 (slot_S 2) (bit v)" and ?s = "s\<lparr>rPC := rPC s + 1, cpu_clk := cpu_clk s - 5\<rparr>"
  have s: "half (rU s)" "sized ?s" using assms(2) by (simp_all add: sized_def)
  have "\<forall>bx \<in> set (?x (ucast post)). u_stack.slot_ok (snd bx) \<and> slot_fits (snd bx) (getr (snd bx) ?s)"
    using u_slots_ok slots_fit [OF s(2)] by blast
  from u_stack.push_pull_instructions [OF assms(1) s(1) assms(3), of ?x, folded post, OF this frame_length(2)]
  obtain p c m where psh: "pshu io s = Ret () (u_stack.stacked p c m ?s)"
    and pul: "\<And>t. rU t = p \<Longrightarrow> cpu.more t = m \<Longrightarrow> half (rPC t) \<Longrightarrow> mem m (unat (rPC t)) = post \<Longrightarrow>
      \<exists>c. pulu io t = Ret () (u_stack.stacked (rU s) c m (fold (u_stack.restore ?s) (rev (?x (ucast post)))
        (t\<lparr>rPC := rPC t + 1, cpu_clk := cpu_clk t - 5\<rparr>)))"
    unfolding pshu_slots pulu_slots by blast
  show ?thesis
  proof (rule exI, rule conjI, rule psh, intro allI impI)
    fix t'
    assume "rU t' = rU (u_stack.stacked p c m ?s)" "cpu.more t' = cpu.more (u_stack.stacked p c m ?s)"
      "half (rPC t')" "mem (cpu.more t') (unat (rPC t')) = post"
    with pul [of t'] obtain d where
      "pulu io t' = Ret () (u_stack.stacked (rU s) d m (fold (u_stack.restore ?s) (rev (?x (ucast post)))
        (t'\<lparr>rPC := rPC t' + 1, cpu_clk := cpu_clk t' - 5\<rparr>)))" by auto
    with u_restored [OF s(2) refl] show "\<exists>u. pulu io t' = Ret () u
        \<and> regs_from (bit post) (s\<lparr>rPC := rPC s + 1\<rparr>) (t'\<lparr>rPC := rPC t' + 1\<rparr>) u
        \<and> rS u = rS (if bit post 6 then s else t') \<and> rU u = rU s \<and> cpu.more u = cpu.more (u_stack.stacked p c m ?s)"
      by (auto simp: regs_from_def bit_ucast_u8)
  qed
qed

definition frame :: "bool \<Rightarrow> (bool \<times> 'x slot) list" where
  "frame full = slots 0 0 (slot_U 0) (\<lambda>k. full \<or> k = 0 \<or> k = 7)"

lemma push_slot_0: "s_stack.push_slot (b, Slot w 0 g h) = doif b (if w then push_s16 io g else push_s8 io g)"
  by (simp add: fun_eq_iff s_stack.push_slot_def doif_def clk_def bindR_Ret)

lemma pull_slot_0: "s_stack.pull_slot (b, Slot w 0 g h) = doif b (if w then pull_s16 io h else pull_s8 io h)"
  by (simp add: fun_eq_iff s_stack.pull_slot_def doif_def clk_def bindR_Ret)

lemma stack_machine_state_slots:
  "stack_machine_state io full s = block (map s_stack.push_slot (frame full)) (entered full s)"
  by (cases full) (simp_all add: stack_machine_state_def frame_def slots_def slot_U_def push_slot_0 entered_def
      clk_def assign_def doif_def bindR_assoc)

lemma stack_machine_state_frame:
  assumes "ok (cpu.more s)" "sized s"
  shows "\<exists>p c m. stack_machine_state io full s = Ret () (s_stack.stacked p c m (entered full s)) \<and> half p \<and> ok m
    \<and> (unat p + length (concat (map (s_stack.part (entered full s)) (rev (frame full))))) mod 65536 = unat (rS s)
    \<and> holds m (unat p) (concat (map (s_stack.part (entered full s)) (rev (frame full))))"
proof -
  let ?s = "entered full s"
  have s: "ok (cpu.more ?s)" "half (rS ?s)" using assms by (simp_all add: entered_def sized_def)
  have "\<forall>bx \<in> set (frame full). s_stack.slot_ok (snd bx)" unfolding frame_def using s_slots_ok by blast
  from s_stack.push_slots_pushed [OF s this] obtain p c m where
    "block (map s_stack.push_slot (frame full)) ?s = Ret () (s_stack.stacked p c m ?s)" "half p" "ok m"
    "(unat p + length (concat (map (s_stack.part ?s) (rev (frame full))))) mod 65536 = unat (rS ?s)"
    and h: "\<And>r. holds (cpu.more ?s) (unat (rS ?s)) r \<Longrightarrow> length r + length (concat (map (s_stack.part ?s) (rev (frame full)))) \<le> 65536
       \<Longrightarrow> holds m (unat p) (concat (map (s_stack.part ?s) (rev (frame full))) @ r)"
    unfolding s_stack.pushed_def by blast
  moreover have "holds m (unat p) (concat (map (s_stack.part ?s) (rev (frame full))))"
    using h [of "[]"] frame_length(1) [of ?s 0 0 0] by (simp add: holds_def frame_def)
  moreover have "rS ?s = rS s" by (simp add: entered_def)
  ultimately show ?thesis unfolding stack_machine_state_slots by auto
qed

text \<open>What RTI pulls after the condition codes.\<close>

definition rti_slots :: "bool \<Rightarrow> (bool \<times> 'x slot) list" where
  "rti_slots full = [
     (full, Slot False 9 rA (\<lambda>v s. s\<lparr>rA := v\<rparr>)),
     (full, Slot False 0 rB (\<lambda>v s. s\<lparr>rB := v\<rparr>)),
     (full, Slot False 0 (\<lambda>s. drop_bit 8 (rDP s)) (\<lambda>v s. s\<lparr>rDP := push_bit 8 v\<rparr>)),
     (full, Slot True 0 rX (\<lambda>v s. s\<lparr>rX := v\<rparr>)),
     (full, Slot True 0 rY (\<lambda>v s. s\<lparr>rY := v\<rparr>)),
     (full, Slot True 0 rU (\<lambda>v s. s\<lparr>rU := v\<rparr>)),
     (True, Slot True 0 (\<lambda>s. rPC s AND 0xffff) (\<lambda>v s. s\<lparr>rPC := v\<rparr>))]"

definition rti_rest :: "'x cpu_scheme stmt" where
  "rti_rest = block [
     \<lambda>s. doif (EFI s AND E_FLAG \<noteq> 0) (block [
       clk 9,
       pull_s8 io (\<lambda>v s. s\<lparr>rA := v\<rparr>),
       pull_s8 io (\<lambda>v s. s\<lparr>rB := v\<rparr>),
       pull_s8 io (\<lambda>v s. s\<lparr>rDP := push_bit 8 v\<rparr>),
       pull_s16 io (\<lambda>v s. s\<lparr>rX := v\<rparr>),
       pull_s16 io (\<lambda>v s. s\<lparr>rY := v\<rparr>),
       pull_s16 io (\<lambda>v s. s\<lparr>rU := v\<rparr>)]) s,
     pull_s16 io (\<lambda>v s. s\<lparr>rPC := v\<rparr>)]"

lemma rti_parts:
  "rti io t = bindR (block [clk 6, \<lambda>s. command_exit_irq_hook (get_cycles s - irq_start_time s) s] t)
     (\<lambda>_ t. bindR (pull_s8 io set_cc t) (\<lambda>_. rti_rest))"
proof -
  have eq: "block (m # ms) = (\<lambda>s. bindR (m s) (\<lambda>_. block ms))" for m :: "'x cpu_scheme stmt" and ms
    by (simp add: fun_eq_iff)
  show ?thesis by (simp only: rti_def rti_rest_def eq bindR_assoc block.simps(1) bindR.simps(1))
qed

lemma rti_tail:
  assumes "bit (EFI s) 7 \<longleftrightarrow> full"
  shows "rti_rest s = block (map s_stack.pull_slot (rti_slots full)) s"
  using assms by (cases full)
    (simp_all add: rti_rest_def rti_slots_def pull_slot_0 s_stack.pull_slot_def [of "(True, Slot False 9 _ _)"]
      s_stack.pull_slot_def [of "(False, Slot False 9 _ _)"] doif_def clk_def bindR_assoc)

lemma rti_slots_ok: "bx \<in> set (rti_slots full) \<Longrightarrow> s_stack.slot_ok (snd bx)"
  by (auto simp: rti_slots_def s_stack.slot_ok_def s_stack.stacked_def)

lemma rti_slots_fit: "sized s \<Longrightarrow> bx \<in> set (rti_slots full) \<Longrightarrow> slot_fits (snd bx) (getr (snd bx) s)"
  by (auto simp: rti_slots_def slot_fits_def sized_def byte_shr8)

lemma frame_parts:
  "concat (map (s_stack.part s) (rev (frame full))) = ucast (get_cc s) # concat (map (s_stack.part s) (rti_slots full))"
  by (simp add: frame_def rti_slots_def slots_def slot_U_def s_stack.part_def slot_bytes_def)

lemma rti_restored:
  assumes "sized s" and u: "u = s_stack.stacked p c m (fold (s_stack.restore s) (rti_slots full) (s_stack.stacked q d n (set_cc (get_cc s) t)))"
  shows "regs_from (\<lambda>k. full \<or> k = 0 \<or> k = 7) s t u" "rU u = rU (if full then s else t)" "rS u = p" "cpu.more u = m"
proof -
  have dp: "push_bit 8 (drop_bit 8 (rDP s)) = rDP s" using assms(1) by (simp add: sized_def dp_split)
  show "regs_from (\<lambda>k. full \<or> k = 0 \<or> k = 7) s t u" "rU u = rU (if full then s else t)" "rS u = p" "cpu.more u = m"
    unfolding u regs_from_def s_stack.stacked_def rti_slots_def
    by (simp_all add: restore_fields dp get_cc_again)
qed

lemma rti_frame:
  assumes "ok (cpu.more t)" "half (rS t)" "irq_cycle_entry t < length (irq_cycle_tab t)" "sized s" "bit (EFI s) 7 \<longleftrightarrow> full"
    and "holds (cpu.more t) (unat (rS t)) (concat (map (s_stack.part s) (rev (frame full))))"
  shows "\<exists>u. rti io t = Ret () u \<and> regs_from (\<lambda>k. full \<or> k = 0 \<or> k = 7) s t u \<and> rU u = rU (if full then s else t)
    \<and> unat (rS u) = (unat (rS t) + length (concat (map (s_stack.part s) (rev (frame full))))) mod 65536
    \<and> cpu.more u = cpu.more t"
proof -
  let ?bs = "concat (map (s_stack.part s) (rti_slots full))"
  obtain t1 where t1: "block [clk 6, \<lambda>s. command_exit_irq_hook (get_cycles s - irq_start_time s) s] t = Ret () t1"
    and f: "rS t1 = rS t" "cpu.more t1 = cpu.more t" "rA t1 = rA t" "rB t1 = rB t" "rX t1 = rX t" "rY t1 = rY t"
      "rU t1 = rU t" "rPC t1 = rPC t" "rDP t1 = rDP t"
    using assms(3) by (simp add: clk_def command_exit_irq_hook_def Let_def)
  let ?p = "(rS t + 1) AND 0xffff"
  let ?t2 = "s_stack.stacked ?p (cpu_clk t1) (cpu.more t) (set_cc (get_cc s) t1)"
  have h: "holds (cpu.more t) (unat (rS t)) (ucast (get_cc s) # ?bs)" using assms(6) by (simp add: frame_parts)
  have cc: "s_stack.slot_ok (Slot False 0 get_cc set_cc)"
    by (simp add: s_stack.slot_ok_def s_stack.stacked_def set_cc_def)
  have pull: "pull_s8 io set_cc t1 = Ret () ?t2"
    using s_stack.pull8_pulled [OF _ _ cc byte_get_cc, of t1 s ?bs] h f assms(1,2) by simp
  have efi: "bit (EFI ?t2) 7 \<longleftrightarrow> full"
    using assms(5) by (simp add: s_stack.stacked_def set_cc_def bit_and_iff bit_or_iff bit_get_cc)
  have "holds (cpu.more ?t2) (unat (rS ?t2)) (?bs @ [])"
    using h unat_step(2) [OF assms(2)] holds_mod [of "cpu.more t" "unat (rS t) + 1"] by (simp add: holds_Cons)
  then obtain q d where q: "block (map s_stack.pull_slot (rti_slots full)) ?t2
      = Ret () (s_stack.stacked q d (cpu.more t) (fold (s_stack.restore s) (rti_slots full) ?t2))"
      "unat q = (unat ?p + length ?bs) mod 65536"
    using s_stack.pull_slots_pulled [of ?t2 "rti_slots full" s "[]"] rti_slots_ok rti_slots_fit [OF assms(4)] assms(1) by auto
  let ?u = "s_stack.stacked q d (cpu.more t) (fold (s_stack.restore s) (rti_slots full) ?t2)"
  have "rti io t = Ret () ?u"
    by (simp only: rti_parts t1 pull bindR.simps rti_tail [OF efi] q(1))
  moreover have "unat q = (unat (rS t) + length (concat (map (s_stack.part s) (rev (frame full))))) mod 65536"
    using unat_step(2) [OF assms(2)] by (simp add: q(2) frame_parts mod_add_left_eq)
  ultimately show ?thesis
    using rti_restored [OF assms(4) refl [of ?u]] f
    by (auto simp: regs_from_def)
qed

lemma entry_resumes:
  assumes "ok (cpu.more s)" "sized s"
  shows "\<exists>p c m. stack_machine_state io full s = Ret () (s_stack.stacked p c m (entered full s)) \<and> ok m
    \<and> resumes io full s (s_stack.stacked p c m (entered full s))"
proof -
  let ?s = "entered full s"
  have s: "sized ?s" "bit (EFI ?s) 7 \<longleftrightarrow> full" "rU ?s = rU s"
    using assms(2) by (auto simp: entered_def sized_def bit_or_iff bit_and_iff bit_not_iff)
  from stack_machine_state_frame [OF assms] obtain p c m where
    e: "stack_machine_state io full s = Ret () (s_stack.stacked p c m ?s)" "half p" "ok m"
      "(unat p + length (concat (map (s_stack.part ?s) (rev (frame full))))) mod 65536 = unat (rS s)"
      "holds m (unat p) (concat (map (s_stack.part ?s) (rev (frame full))))"
    by blast
  have "resumes io full s (s_stack.stacked p c m ?s)"
    unfolding resumes_def
  proof (intro allI impI)
    fix t'
    assume t': "rS t' = rS (s_stack.stacked p c m ?s)" "cpu.more t' = cpu.more (s_stack.stacked p c m ?s)"
      "irq_cycle_entry t' < length (irq_cycle_tab t')"
    then have "\<exists>u. rti io t' = Ret () u \<and> regs_from (\<lambda>k. full \<or> k = 0 \<or> k = 7) ?s t' u \<and> rU u = rU (if full then ?s else t')
      \<and> unat (rS u) = (unat (rS t') + length (concat (map (s_stack.part ?s) (rev (frame full))))) mod 65536
      \<and> cpu.more u = cpu.more t'"
      using e s by (intro rti_frame) simp_all
    then show "\<exists>u. rti io t' = Ret () u \<and> regs_from (\<lambda>k. full \<or> k = 0 \<or> k = 7) ?s t' u \<and> rU u = rU (if full then s else t')
      \<and> rS u = rS s \<and> cpu.more u = cpu.more (s_stack.stacked p c m ?s)"
      using t' e(4) s(3) by (auto simp: word_unat_eq_iff)
  qed
  then show ?thesis using e by blast
qed

text \<open>The word at a vector.\<close>

definition vector :: "'x \<Rightarrow> nat \<Rightarrow> u32" where
  "vector m a = ucast (push_bit 8 (ucast (mem m a)) OR ucast (mem m (a + 1)) :: u16)"

lemma goto_vector_ram:
  assumes "ok (cpu.more s)" "unat a < 0xffff"
  shows "goto_vector io a s = Ret () (s\<lparr>rPC := vector (cpu.more s) (unat a)\<rparr>)"
  using assms by (simp add: goto_vector_def bindE_def rd16_def read16_ram change_pc_def vector_def half_mask_self)

lemma interrupt_rti:
  assumes "ok (cpu.more s)" "sized s"
  shows "cwai_state s \<noteq> CWAI_STATE_WAIT \<Longrightarrow>
      \<exists>t. irq io s = Ret () t \<and> resumes io True s t \<and> bit (EFI t) 4 \<and> rPC t = vector (cpu.more t) 0xfff8"
    and "cwai_state s \<noteq> CWAI_STATE_WAIT \<Longrightarrow>
      \<exists>t. firq io s = Ret () t \<and> resumes io False s t \<and> bit (EFI t) 4 \<and> bit (EFI t) 6 \<and> rPC t = vector (cpu.more t) 0xfff6"
    and "\<exists>t. swi io s = Ret () t \<and> resumes io True s t \<and> bit (EFI t) 4 \<and> bit (EFI t) 6 \<and> rPC t = vector (cpu.more t) 0xfffa"
proof -
  { fix full
    from entry_resumes [OF assms, of full] obtain p c m where
      e: "stack_machine_state io full s = Ret () (s_stack.stacked p c m (entered full s))" "ok m"
        "resumes io full s (s_stack.stacked p c m (entered full s))"
      by blast
    then have "\<exists>t. stack_machine_state io full s = Ret () t \<and> ok (cpu.more t) \<and> resumes io full s t" by auto }
  note entry = this
  show "\<exists>t. irq io s = Ret () t \<and> resumes io True s t \<and> bit (EFI t) 4 \<and> rPC t = vector (cpu.more t) 0xfff8"
    if "cwai_state s \<noteq> CWAI_STATE_WAIT"
    using entry [of True] that by (auto simp: irq_def assign_def goto_vector_ram bit_or_iff elim!: resumes_cong [THEN iffD1, rotated 2])
  show "\<exists>t. firq io s = Ret () t \<and> resumes io False s t \<and> bit (EFI t) 4 \<and> bit (EFI t) 6 \<and> rPC t = vector (cpu.more t) 0xfff6"
    if "cwai_state s \<noteq> CWAI_STATE_WAIT"
    using entry [of False] that by (auto simp: firq_def assign_def goto_vector_ram bit_or_iff elim!: resumes_cong [THEN iffD1, rotated 2])
  show "\<exists>t. swi io s = Ret () t \<and> resumes io True s t \<and> bit (EFI t) 4 \<and> bit (EFI t) 6 \<and> rPC t = vector (cpu.more t) 0xfffa"
    using entry [of True] by (auto simp: swi_def assign_def goto_vector_ram bit_or_iff elim!: resumes_cong [THEN iffD1, rotated 2])
qed

lemma jsr_rts:
  assumes "ok (cpu.more s)" "half (rS s)"
  shows "\<exists>t. jsr io s = Ret () t \<and> rPC t = ea s AND 0xffff \<and> (\<forall>t'. rS t' = rS t \<longrightarrow> cpu.more t' = cpu.more t \<longrightarrow>
    (\<exists>u. rts io t' = Ret () u \<and> rPC u = rPC s AND 0xffff \<and> rS u = rS s \<and> cpu.more u = cpu.more t))"
proof -
  let ?x = "Slot True 0 (\<lambda>s. rPC s AND 0xffff) (\<lambda>v s. s\<lparr>rPC := v\<rparr>) :: 'x slot"
  have x: "\<forall>bx \<in> set [(True, ?x)]. s_stack.slot_ok (snd bx) \<and> slot_fits (snd bx) (getr (snd bx) s)"
    by (simp add: s_stack.slot_ok_def s_stack.stacked_def slot_fits_def)
  from s_stack.push_pull [OF assms x] obtain p c m where
    push: "push_s16 io (\<lambda>s. rPC s AND 0xffff) s = Ret () (s_stack.stacked p c m s)"
    and pull: "\<And>t. rS t = p \<Longrightarrow> cpu.more t = m \<Longrightarrow> \<exists>c. pull_s16 io (\<lambda>v s. s\<lparr>rPC := v\<rparr>) t
      = Ret () (s_stack.stacked (rS s) c m (s_stack.restore s (True, ?x) t))"
    by (auto simp: s_stack.part_def slot_bytes_def push_slot_0 pull_slot_0 doif_def bindR_Ret)
  have "jsr io s = Ret () ((s_stack.stacked p c m s)\<lparr>rPC := ea s AND 0xffff\<rparr>)"
    by (simp add: jsr_def push change_pc_def s_stack.stacked_def)
  moreover have "\<exists>u. rts io t' = Ret () u \<and> rPC u = rPC s AND 0xffff \<and> rS u = rS s \<and> cpu.more u = m"
    if "rS t' = p" "cpu.more t' = m" for t'
    using pull [of "t'\<lparr>cpu_clk := cpu_clk t' - 5\<rparr>"] that
    by (auto simp: rts_def clk_def s_stack.stacked_def restore_fields bindR_Ret)
  ultimately show ?thesis by (auto simp: s_stack.stacked_def)
qed

end

end
