(* ===== verification/System_Ram.thy ===== *)
theory System_Ram
  imports System_Contract Cpu_Ram
begin

text \<open>
  The system with 64 KB of memory, as the simple machine has it before the console is mapped. The
  bus of such a system meets the contract of \<open>ram_bus\<close>, so the stack and interrupt results of the
  processor hold on the bus of \<^verbatim>\<open>machine.c\<close>.
\<close>

section \<open>A machine of plain memory\<close>

definition linear_maps :: "nat \<Rightarrow> busmap list" where
  "linear_maps dv = map (\<lambda>i. \<lparr>bm_devid = dv, bm_offset = i * BUS_MAP_SIZE, bm_flags = MAP_READWRITE\<rparr>) [0..<NUM_BUS_MAPS]"

definition is_ram :: "priv \<Rightarrow> bool" where
  "is_ram p \<longleftrightarrow> (case p of Ram_dev buf \<Rightarrow> True | _ \<Rightarrow> False)"

text \<open>No watchpoint: an access passes the hooks without effect.\<close>

definition no_watch :: "machine_state \<Rightarrow> bool" where
  "no_watch m \<longleftrightarrow> active_break_count m = 0 \<or> (\<forall>br \<in> set (breaktab m). br_enabled br \<longrightarrow> \<not> br_on_read br \<and> \<not> br_on_write br)"

definition ram_machine :: "nat \<Rightarrow> machine_state \<Rightarrow> bool" where
  "ram_machine dv m \<longleftrightarrow> no_watch m
     \<and> thread_current m + thread_id_size m \<le> absolute_from_reladdr dv 0 \<and> busmaps m = linear_maps dv
     \<and> dv < 255 \<and> dv < length (device_table m) \<and> dev_size (device_table m ! dv) = MAX_CPU_ADDR
     \<and> is_ram (dev_priv (device_table m ! dv))"

definition ram_mem :: "nat \<Rightarrow> machine_state \<Rightarrow> nat \<Rightarrow> u8" where
  "ram_mem dv m a = (case dev_priv (device_table m ! dv) of Ram_dev buf \<Rightarrow> buf a | _ \<Rightarrow> 0)"

definition ram_put :: "nat \<Rightarrow> nat \<Rightarrow> u8 \<Rightarrow> machine_state \<Rightarrow> machine_state" where
  "ram_put dv a v m = m\<lparr>device_table := (device_table m)[dv := (device_table m ! dv)
     \<lparr>dev_priv := Ram_dev ((ram_mem dv m)(a := v))\<rparr>]\<rparr>"

lemma ram_machineD:
  assumes "ram_machine dv m"
  shows "dv < length (device_table m)" "device_table m ! dv = \<lparr>dev_size = 65536, dev_priv = Ram_dev (ram_mem dv m)\<rparr>"
proof -
  from assms show "dv < length (device_table m)" by (simp add: ram_machine_def)
  obtain buf where "dev_priv (device_table m ! dv) = Ram_dev buf"
    using assms by (cases "dev_priv (device_table m ! dv)") (auto simp: ram_machine_def is_ram_def)
  moreover from this have "ram_mem dv m = buf" by (simp add: fun_eq_iff ram_mem_def)
  ultimately show "device_table m ! dv = \<lparr>dev_size = 65536, dev_priv = Ram_dev (ram_mem dv m)\<rparr>"
    using assms by (cases "device_table m ! dv") (simp add: ram_machine_def MAX_CPU_ADDR_def)
qed

lemma find_map_ram:
  assumes "ram_machine dv (mch s)" "half a"
  shows "find_map a s = Ret \<lparr>bm_devid = dv, bm_offset = unat a div 128 * 128, bm_flags = MAP_READWRITE\<rparr> s"
proof -
  have "unat a div 128 < 512" using assms(2) by (simp add: half_def less_mult_imp_div_less)
  then show ?thesis using assms(1) by (simp add: find_map_def ram_machine_def linear_maps_def bus_sizes)
qed

lemma find_device_ram: "ram_machine dv (mch s) \<Longrightarrow> find_device a dv s = Ret dv s"
  by (simp add: find_device_def ram_machine_def INVALID_DEVID_def)

lemma dev_of_ram: "ram_machine dv (mch s) \<Longrightarrow> dev_of dv s = Some \<lparr>dev_size = 65536, dev_priv = Ram_dev (ram_mem dv (mch s))\<rparr>"
  using ram_machineD [of dv "mch s"] by (simp add: dev_of_def)

lemma dev_read_ram: "ram_machine dv (mch s) \<Longrightarrow> a < 65536 \<Longrightarrow> dev_read DEV_FUEL dv a s = Ret (ram_mem dv (mch s) a) s"
  by (simp add: DEV_FUEL_def dev_of_ram ram_read_def)

lemma no_watch_find:
  assumes "no_watch (mch s)" "active_break_count (mch s) \<noteq> 0" "brkfind_by_addr a s = Some n"
  shows "\<not> (br_enabled (breaktab (mch s) ! n) \<and> br_on_read (breaktab (mch s) ! n))"
    "\<not> (br_enabled (breaktab (mch s) ! n) \<and> br_on_write (breaktab (mch s) ! n))"
proof -
  have "n < length (breaktab (mch s))" using assms(3) by (auto simp: brkfind_by_addr_def find_Some_iff)
  then have "breaktab (mch s) ! n \<in> set (breaktab (mch s))" by simp
  then show "\<not> (br_enabled (breaktab (mch s) ! n) \<and> br_on_read (breaktab (mch s) ! n))"
    "\<not> (br_enabled (breaktab (mch s) ! n) \<and> br_on_write (breaktab (mch s) ! n))"
    using assms(1,2) unfolding no_watch_def by blast+
qed

lemma ram_hooks:
  assumes "ram_machine dv (mch s)"
  shows "command_read_hook dbg a s = Ret () s" "command_write_hook dbg (absolute_from_reladdr dv b) v s = Ret () s"
proof -
  have w: "no_watch (mch s)" "thread_current (mch s) + thread_id_size (mch s) \<le> absolute_from_reladdr dv 0"
    using assms by (simp_all add: ram_machine_def)
  show "command_read_hook dbg a s = Ret () s"
    using no_watch_find(1) [OF w(1)] by (auto simp: command_read_hook_def doif_def split: option.split)
  show "command_write_hook dbg (absolute_from_reladdr dv b) v s = Ret () s"
    using w(2) no_watch_find(2) [OF w(1), of "absolute_from_reladdr dv b"]
    by (auto simp: command_write_hook_def Let_def doif_def absolute_from_reladdr_def split: option.split)
qed

lemma ram_put_ok: "ram_machine dv m \<Longrightarrow> ram_machine dv (ram_put dv a v m)"
  by (simp add: ram_machine_def no_watch_def ram_put_def is_ram_def)

lemma ram_mem_put: "ram_machine dv m \<Longrightarrow> ram_mem dv (ram_put dv a v m) i = (if i = a then v else ram_mem dv m i)"
  using ram_machineD(1) [of dv m] by (simp add: ram_put_def ram_mem_def [of dv "m\<lparr>device_table := _\<rparr>"])

lemma cpu_read8_ram:
  assumes "ram_machine dv (mch s)" "half a"
  shows "cpu_read8 dbg a s = Ret (ram_mem dv (mch s) (unat a)) s"
proof -
  have "unat a < 65536" using assms(2) by (simp add: half_def)
  then show ?thesis
    using assms dev_read_ram [OF assms(1), of "unat a"] div_mult_mod_eq [of "unat a" 128]
    by (simp add: cpu_read8_def bindE_def find_map_ram find_device_ram ram_hooks doif_def MAP_READWRITE_def
        MAP_READABLE_def BUS_MAP_SIZE_def Let_def)
qed

lemma cpu_read16_ram:
  assumes "ram_machine dv (mch s)" "unat a < 0xffff"
  shows "cpu_read16 dbg a s = Ret (push_bit 8 (ucast (ram_mem dv (mch s) (unat a))) OR ucast (ram_mem dv (mch s) (unat a + 1))) s"
proof -
  have "half a" "unat a + 1 < 65536" using assms(2) by (simp_all add: half_def)
  then show ?thesis
    using assms dev_read_ram [OF assms(1), of "unat a"] dev_read_ram [OF assms(1), of "unat a + 1"]
      div_mult_mod_eq [of "unat a" 128]
    by (simp add: cpu_read16_def bindE_def find_map_ram find_device_ram ram_hooks doif_def MAP_READWRITE_def
        MAP_READABLE_def BUS_MAP_SIZE_def Let_def)
qed

lemma cpu_write8_ram:
  assumes "ram_machine dv (mch s)" "half a"
  shows "cpu_write8 dbg io a v s = Ret () (s\<lparr>cpu.more := ram_put dv (unat a) v (mch s)\<rparr>)"
proof -
  have a: "unat a < 65536" using assms(2) by (simp add: half_def)
  have w: "dev_write DEV_FUEL io dv (unat a) v s = Ret () (s\<lparr>cpu.more := ram_put dv (unat a) v (mch s)\<rparr>)"
    using assms(1) a by (simp add: DEV_FUEL_def dev_of_ram ram_write_def set_priv_def set_mch_def ram_put_def)
  show ?thesis
    using assms a w div_mult_mod_eq [of "unat a" 128]
      ram_hooks(2) [of dv "s\<lparr>cpu.more := ram_put dv (unat a) v (mch s)\<rparr>"] ram_put_ok [OF assms(1)]
    by (simp add: cpu_write8_def bindE_def find_map_ram find_device_ram ram_hooks MAP_READWRITE_def
        MAP_WRITABLE_def BUS_MAP_SIZE_def Let_def)
qed

interpretation sys_ram: ram_bus "sys_bus dbg (Suc n)" "ram_machine dv" "ram_mem dv" "ram_put dv" for dbg n dv
  by unfold_locales (simp_all add: cpu_read8_ram cpu_read16_ram cpu_write8_ram ram_put_ok ram_mem_put)

declare sys_bus.simps [simp del]

section \<open>A running system\<close>

definition ram_system :: "(nat \<Rightarrow> u8) \<Rightarrow> machine_state" where
  "ram_system buf = machine_power_on\<lparr>
     device_table := [\<lparr>dev_size = 0, dev_priv = Null_dev\<rparr>, \<lparr>dev_size = MAX_CPU_ADDR, dev_priv = Ram_dev buf\<rparr>],
     null_device := Some 0, busmaps := linear_maps 1, default_busmaps := linear_maps 1, cpu_running := True\<rparr>"

lemma ram_system_ok [simp]: "ram_machine (Suc 0) (ram_system buf)" "ram_mem (Suc 0) (ram_system buf) = buf"
  "mch_ok x (ram_system buf)"
  by (simp_all add: ram_machine_def no_watch_def ram_system_def machine_power_on_def absolute_from_reladdr_def is_ram_def ram_mem_def fun_eq_iff mch_ok_def linear_maps_def
      bus_sizes flat_def expands_def is_imux_def)

lemma power_on_simps [simp]:
  "\<not> debug_enabled (power_on m)" "\<not> monitor_on (power_on m)" "sized (power_on m)"
  "rPC (power_on m) = 0" "cpu_clk (power_on m) = 0" "\<not> cc_changed (power_on m)" "cwai_state (power_on m) = CWAI_STATE_IDLE"
  by (simp_all add: power_on_def sized_def)

definition no_debugger :: debugger where
  "no_debugger = \<lparr>dbg_eval = \<lambda>_. Ret 0, dbg_monitor = Ret 0\<rparr>"

lemma exec_nop:
  assumes "ram_machine dv (mch s)" "half (rPC s)" "ram_mem dv (mch s) (unat (rPC s)) = 0x12" "\<not> cc_changed s"
  shows "exec_insn (sys_bus dbg (Suc n)) s = Ret () (s\<lparr>iPC := rPC s, rPC := rPC s + 1, cpu_clk := cpu_clk s - 2\<rparr>)"
proof -
  let ?s = "s\<lparr>iPC := rPC s\<rparr>"
  have "imm_byte (sys_bus dbg (Suc n)) ?s = Ret 0x12 (?s\<lparr>rPC := rPC s + 1\<rparr>)"
    using sys_ram.imm_byte_ram [of dv ?s dbg n] assms by simp
  moreover have "switch (opcode_table (sys_bus dbg (Suc n))) invalid_opcode 0x12 = nop"
    by (simp add: switch_def opcode_table_def opcode_tables)
  ultimately show ?thesis
    using assms(4) by (simp add: exec_insn_def assign_def bindE_def nop_def clk_def doif_def)
qed

text \<open>(C1) A slice of execution ends: with one unit of fuel per requested cycle the loop never runs out, and
  when it returns it has used at least the cycles asked for. It holds for every content of the memory, on every
  machine without an interrupt multiplexer, when no breakpoint is set and the debugger is off.\<close>

theorem cpu_execute_returns:
  assumes "mch_ok True (mch s)" "\<not> debug_enabled s" "\<not> monitor_on s" "max 1 (nat cycles) \<le> fuel"
  shows "cpu_execute fuel (sys_bus dbg (Suc n)) cycles s \<noteq> NoFuel
    \<and> (\<forall>k t. cpu_execute fuel (sys_bus dbg (Suc n)) cycles s = Ret k t \<longrightarrow> cycles \<le> k \<and> 1 \<le> k)"
proof -
  have "calm (mch_ok True) s" using assms by (simp add: calm_def)
  from sys_clk.cpu_execute_ends [OF this assms(3,4)] show ?thesis by blast
qed

theorem cpu_execute_returns_witness:
  "cpu_execute 100 (sys_bus no_debugger (Suc 0)) 100 (power_on (ram_system (\<lambda>_. 0x12))) \<noteq> NoFuel"
  using cpu_execute_returns [of "power_on (ram_system (\<lambda>_. 0x12))" 100 100 no_debugger 0] by (simp)

text \<open>(C2) The register invariant: whatever the opcode, an instruction that returns leaves 8-bit registers below
  256, 16-bit registers below 65536, DP with a clear low byte and PC at most three past 0xffff.\<close>

theorem exec_insn_keeps_registers:
  assumes "wf_regs (mch_ok x) s" "exec_insn (sys_bus dbg n) s = Ret () t"
  shows "wf_regs (mch_ok x) t"
  by (rule keepsD [OF sys_reg.keeps_exec_insn assms])

theorem exec_insn_keeps_registers_witness:
  "wf_regs (mch_ok True) ((power_on (ram_system (\<lambda>_. 0x12)))\<lparr>iPC := 0, rPC := 1, cpu_clk := - 2\<rparr>)"
proof -
  let ?s = "power_on (ram_system (\<lambda>_. 0x12))"
  have "wf_regs (mch_ok True) ?s" by (simp add: wf_regs_def) (simp add: power_on_def)
  moreover have "exec_insn (sys_bus no_debugger (Suc 0)) ?s = Ret () (?s\<lparr>iPC := 0, rPC := 1, cpu_clk := - 2\<rparr>)"
    using exec_nop [of 1 ?s no_debugger 0] by simp
  ultimately show ?thesis by (rule exec_insn_keeps_registers)
qed

text \<open>(C5) PSHS and PULS with the same operand: the registers selected come back as they were when PSHS ran, the
  others keep the values they have, S is back where it was. This holds in a machine of plain 64 KB RAM wherever the
  stack lies, also across the end of the address space.\<close>

theorem pshs_puls_restores:
  assumes "ram_machine dv (mch s)" "sized s" "half (rPC s)" "post = ram_mem dv (mch s) (unat (rPC s))"
  shows "\<exists>t. pshs (sys_bus dbg (Suc n)) s = Ret () t \<and> (\<forall>t'. rS t' = rS t \<longrightarrow> mch t' = mch t \<longrightarrow> half (rPC t')
     \<longrightarrow> ram_mem dv (mch t') (unat (rPC t')) = post
     \<longrightarrow> (\<exists>u. puls (sys_bus dbg (Suc n)) t' = Ret () u
           \<and> regs_from (bit post) (s\<lparr>rPC := rPC s + 1\<rparr>) (t'\<lparr>rPC := rPC t' + 1\<rparr>) u
           \<and> rU u = rU (if bit post 6 then s else t') \<and> rS u = rS s \<and> mch u = mch t))"
  by (rule sys_ram.pshs_puls [OF assms])

theorem pshs_puls_restores_witness:
  "\<exists>t. pshs (sys_bus no_debugger (Suc 0)) (power_on (ram_system (\<lambda>_. 0xff))) = Ret () t"
  using pshs_puls_restores [of 1 "power_on (ram_system (\<lambda>_. 0xff))" "0xff" no_debugger 0]
  by (auto simp: half_def)

text \<open>The same for PSHU and PULU on the user stack.\<close>

theorem pshu_pulu_restores:
  assumes "ram_machine dv (mch s)" "sized s" "half (rPC s)" "post = ram_mem dv (mch s) (unat (rPC s))"
  shows "\<exists>t. pshu (sys_bus dbg (Suc n)) s = Ret () t \<and> (\<forall>t'. rU t' = rU t \<longrightarrow> mch t' = mch t \<longrightarrow> half (rPC t')
     \<longrightarrow> ram_mem dv (mch t') (unat (rPC t')) = post
     \<longrightarrow> (\<exists>u. pulu (sys_bus dbg (Suc n)) t' = Ret () u
           \<and> regs_from (bit post) (s\<lparr>rPC := rPC s + 1\<rparr>) (t'\<lparr>rPC := rPC t' + 1\<rparr>) u
           \<and> rS u = rS (if bit post 6 then s else t') \<and> rU u = rU s \<and> mch u = mch t))"
  by (rule sys_ram.pshu_pulu [OF assms])

theorem pshu_pulu_restores_witness:
  "\<exists>t. pshu (sys_bus no_debugger (Suc 0)) (power_on (ram_system (\<lambda>_. 0xff))) = Ret () t"
  using pshu_pulu_restores [of 1 "power_on (ram_system (\<lambda>_. 0xff))" "0xff" no_debugger 0]
  by (auto simp: half_def)

text \<open>(C3) Interrupt entry and RTI: IRQ and SWI save every register and FIRQ saves PC and CC, the vector is
  taken with the interrupt masked, and an RTI on that stack resumes the interrupted program, in a machine of plain 64 KB RAM.\<close>

theorem interrupts_resume:
  assumes "ram_machine dv (mch s)" "sized s" "cwai_state s \<noteq> CWAI_STATE_WAIT"
  shows "\<exists>i f w. irq (sys_bus dbg (Suc n)) s = Ret () i \<and> firq (sys_bus dbg (Suc n)) s = Ret () f
    \<and> swi (sys_bus dbg (Suc n)) s = Ret () w
    \<and> resumes (sys_bus dbg (Suc n)) True s i \<and> bit (EFI i) 4 \<and> rPC i = sys_ram.vector dv (mch i) 0xfff8
    \<and> resumes (sys_bus dbg (Suc n)) False s f \<and> bit (EFI f) 4 \<and> bit (EFI f) 6 \<and> rPC f = sys_ram.vector dv (mch f) 0xfff6
    \<and> resumes (sys_bus dbg (Suc n)) True s w \<and> bit (EFI w) 4 \<and> bit (EFI w) 6 \<and> rPC w = sys_ram.vector dv (mch w) 0xfffa"
  using sys_ram.interrupt_rti [OF assms(1,2), of dbg n] assms(3) by blast

theorem interrupts_resume_witness:
  "\<exists>i. irq (sys_bus no_debugger (Suc 0)) (power_on (ram_system (\<lambda>_. 0xff))) = Ret () i \<and> bit (EFI i) 4"
  using interrupts_resume [of 1 "power_on (ram_system (\<lambda>_. 0xff))" no_debugger 0]
  by (auto simp: CWAI_STATE_IDLE_def CWAI_STATE_WAIT_def)

text \<open>(C6) JSR and RTS: the subroutine starts at the effective address and an RTS on that stack returns behind
  the call with the stack pointer restored, in a machine of plain 64 KB RAM.\<close>

theorem jsr_rts_returns:
  assumes "ram_machine dv (mch s)" "half (rS s)"
  shows "\<exists>t. jsr (sys_bus dbg (Suc n)) s = Ret () t \<and> rPC t = ea s AND 0xffff
    \<and> (\<forall>t'. rS t' = rS t \<longrightarrow> mch t' = mch t \<longrightarrow>
         (\<exists>u. rts (sys_bus dbg (Suc n)) t' = Ret () u \<and> rPC u = rPC s AND 0xffff \<and> rS u = rS s \<and> mch u = mch t))"
  by (rule sys_ram.jsr_rts [OF assms])

theorem jsr_rts_returns_witness:
  "\<exists>t. jsr (sys_bus no_debugger (Suc 0)) (power_on (ram_system (\<lambda>_. 0xff))) = Ret () t \<and> rPC t = 0"
  using jsr_rts_returns [of 1 "power_on (ram_system (\<lambda>_. 0xff))" no_debugger 0]
  by (auto simp: power_on_def)

end
