(* ===== verification/Bus_Laws.thy ===== *)
theory Bus_Laws
  imports System_Contract
begin

text \<open>
  What the bus of \<^verbatim>\<open>machine.c\<close> promises: protected and unmapped addresses, and the address
  translation of the two memory management units.
\<close>

section \<open>Protection\<close>

text \<open>The processor runs, the debugger is off and no breakpoint or thread watch is concerned.\<close>

definition guarded :: "sys \<Rightarrow> bool" where
  "guarded s \<longleftrightarrow> cpu_running (mch s) \<and> \<not> debug_enabled s \<and> active_break_count (mch s) = 0
     \<and> length (busmaps (mch s)) = NUM_BUS_MAPS \<and> (\<exists>k. cur_machine (mch s) = Some k \<and> k \<noteq> Wpc_machine)"

definition unit_at :: "u32 \<Rightarrow> sys \<Rightarrow> busmap" where
  "unit_at a s = busmaps (mch s) ! (unat a div BUS_MAP_SIZE)"

definition present :: "nat \<Rightarrow> sys \<Rightarrow> bool" where
  "present d s \<longleftrightarrow> d < INVALID_DEVID \<and> d < length (device_table (mch s))"

lemma find_map_unit: "length (busmaps (mch s)) = NUM_BUS_MAPS \<Longrightarrow> half a \<Longrightarrow> find_map a s = Ret (unit_at a s) s"
  by (simp add: find_map_def unit_at_def bus_sizes half_def less_mult_imp_div_less)

lemma find_device_present: "present d s \<Longrightarrow> find_device a d s = Ret d s"
  by (simp add: find_device_def present_def INVALID_DEVID_def)

lemma fault_exits: "guarded s \<Longrightarrow> do_fault a k s = Exit 2 s" "guarded s \<Longrightarrow> machine_fault a k s = Exit 2 s"
  by (auto simp: guarded_def do_fault_def machine_fault_def fault_def sim_error_def)

text \<open>A small machine for the examples: every unit shows the first 128 bytes of device \<open>d\<close>.\<close>

definition flag_machine :: "nat \<Rightarrow> u8 \<Rightarrow> bool \<Rightarrow> sys" where
  "flag_machine d fl running = power_on (machine_power_on\<lparr>
     device_table := [\<lparr>dev_size = 0, dev_priv = Null_dev\<rparr>, \<lparr>dev_size = 128, dev_priv = Ram_dev (\<lambda>_. 0)\<rparr>],
     null_device := Some 0, cpu_running := running, cur_machine := Some Simple_machine,
     busmaps := replicate NUM_BUS_MAPS \<lparr>bm_devid = d, bm_offset = 0, bm_flags = fl\<rparr>\<rparr>)"

lemma flag_machine_unit: "half a \<Longrightarrow> unit_at a (flag_machine d fl r) = \<lparr>bm_devid = d, bm_offset = 0, bm_flags = fl\<rparr>"
  by (simp add: unit_at_def flag_machine_def bus_sizes half_def less_mult_imp_div_less)

lemma flag_machine_guarded: "guarded (flag_machine d fl True)"
  by (simp add: guarded_def flag_machine_def machine_power_on_def) (simp add: power_on_def)

text \<open>The hooks of an access do nothing while no breakpoint is enabled and the byte does not end the current thread's identifier.\<close>

definition unwatched :: "nat \<Rightarrow> sys \<Rightarrow> bool" where
  "unwatched x s \<longleftrightarrow> active_break_count (mch s) = 0 \<and> x + 1 \<noteq> thread_current (mch s) + thread_id_size (mch s)"

lemma unwatched_hooks:
  assumes "unwatched x s"
  shows "command_write_hook dbg x v s = Ret () s" "command_read_hook dbg x s = Ret () s"
  using assms by (simp_all add: unwatched_def command_write_hook_def command_read_hook_def Let_def doif_def)

text \<open>(C12) Protection, where the hooks have nothing to do. While the processor runs, a write to a unit without the write flag never reaches the device: with
  the ignore flag, and on the WPC machine, it has no effect; otherwise the debugger is entered when it is on, and the
  process ends with status 2 and the state as it was when it is off. A read from a unit without the read flag
  ends the process under the same conditions; on the WPC machine, and with the debugger on, which is
  entered, it still delivers the byte of the device. Before the processor runs neither flag counts: a write goes into
  a ROM of any unit, which is how programs are loaded.\<close>

theorem protected_access:
  assumes "length (busmaps (mch s)) = NUM_BUS_MAPS" "half a" and u: "u = unit_at a s"
    and "present (bm_devid u) s" "cur_machine (mch s) = Some k"
    and p: "p = bm_offset u + unat a mod BUS_MAP_SIZE" and "unwatched (absolute_from_reladdr (bm_devid u) p) s"
  shows "(cpu_running (mch s) \<and> bm_flags u AND MAP_WRITABLE = 0 \<longrightarrow> cpu_write8 dbg io a v s =
      (if bm_flags u AND MAP_IGNOREWRITE \<noteq> 0 \<or> k = Wpc_machine then Ret () s
       else if debug_enabled s then Ret () (s\<lparr>monitor_on := True\<rparr>) else Exit 2 s))
    \<and> (cpu_running (mch s) \<and> bm_flags u AND MAP_READABLE = 0 \<longrightarrow>
        cpu_read8 dbg a s = (if k = Wpc_machine then dev_read DEV_FUEL (bm_devid u) p s
          else if debug_enabled s then dev_read DEV_FUEL (bm_devid u) p (s\<lparr>monitor_on := True\<rparr>) else Exit 2 s)
        \<and> (k \<noteq> Wpc_machine \<and> \<not> debug_enabled s \<longrightarrow> cpu_read16 dbg a s = Exit 2 s))
    \<and> (\<not> cpu_running (mch s) \<and> dev_of (bm_devid u) s = Some e \<and> dev_priv e = Rom_dev mem \<and> p < dev_size e \<longrightarrow>
        cpu_write8 dbg io a v s = Ret () (set_priv (bm_devid u) (Rom_dev (mem(p := v))) s) \<and> cpu_read8 dbg a s = Ret (mem p) s)"
proof (intro conjI impI; (elim conjE)?)
  have m: "find_map a s = Ret u s" "find_device a (bm_devid u) s = Ret (bm_devid u) s"
    using find_map_unit [OF assms(1,2)] find_device_present [OF assms(4)] by (simp_all add: u)
  let ?x = "absolute_from_reladdr (bm_devid u) p"
  have w: "unwatched ?x (s\<lparr>monitor_on := b\<rparr>)" "unwatched ?x (set_priv (bm_devid u) q s)" for b q
    using assms(7) by (simp_all add: unwatched_def set_priv_def set_mch_def)
  note hooks = unwatched_hooks [OF assms(7)] unwatched_hooks [OF w(1)] unwatched_hooks [OF w(2)]
  note defs = cpu_write8_def cpu_read8_def cpu_read16_def bindE_def m Let_def doif_def do_fault_def machine_fault_def
    fault_def wpc_fault_def sim_error_def assms(5) p [symmetric]
  show "cpu_write8 dbg io a v s = (if bm_flags u AND MAP_IGNOREWRITE \<noteq> 0 \<or> k = Wpc_machine then Ret () s
       else if debug_enabled s then Ret () (s\<lparr>monitor_on := True\<rparr>) else Exit 2 s)"
    if "cpu_running (mch s)" "bm_flags u AND MAP_WRITABLE = 0"
    using that by (simp add: defs hooks)
  show "cpu_read8 dbg a s = (if k = Wpc_machine then dev_read DEV_FUEL (bm_devid u) p s
          else if debug_enabled s then dev_read DEV_FUEL (bm_devid u) p (s\<lparr>monitor_on := True\<rparr>) else Exit 2 s)"
    if "cpu_running (mch s)" "bm_flags u AND MAP_READABLE = 0"
    using that by (simp add: defs hooks)
  show "cpu_read16 dbg a s = Exit 2 s" if "cpu_running (mch s)" "bm_flags u AND MAP_READABLE = 0" "k \<noteq> Wpc_machine" "\<not> debug_enabled s"
    using that by (simp add: defs)
  show "cpu_write8 dbg io a v s = Ret () (set_priv (bm_devid u) (Rom_dev (mem(p := v))) s)"
    if "\<not> cpu_running (mch s)" "dev_of (bm_devid u) s = Some e" "dev_priv e = Rom_dev mem" "p < dev_size e"
    using that by (simp add: defs hooks DEV_FUEL_def ram_write_def)
  show "cpu_read8 dbg a s = Ret (mem p) s"
    if "\<not> cpu_running (mch s)" "dev_of (bm_devid u) s = Some e" "dev_priv e = Rom_dev mem" "p < dev_size e"
    using that by (simp add: defs hooks DEV_FUEL_def ram_read_def)
qed

theorem protected_access_witness:
  "cpu_write8 \<lparr>dbg_eval = \<lambda>_. Ret 0, dbg_monitor = Ret 0\<rparr> (sys_bus \<lparr>dbg_eval = \<lambda>_. Ret 0, dbg_monitor = Ret 0\<rparr> 0) 5 7
     (flag_machine 1 MAP_READABLE True) = Exit 2 (flag_machine 1 MAP_READABLE True)"
proof -
  let ?s = "flag_machine 1 MAP_READABLE True"
  have 5: "half 5" by (simp add: half_def)
  have "present 1 ?s" "unwatched (absolute_from_reladdr 1 5) ?s" "length (busmaps (mch ?s)) = NUM_BUS_MAPS"
      "cur_machine (mch ?s) = Some Simple_machine" "cpu_running (mch ?s)" "\<not> debug_enabled ?s"
    by (simp_all add: present_def flag_machine_def machine_power_on_def INVALID_DEVID_def unwatched_def absolute_from_reladdr_def)
      (simp add: power_on_def)
  then show ?thesis
    using protected_access [OF _ 5 refl, of ?s Simple_machine 5] flag_machine_unit [OF 5]
    by (simp add: map_flags BUS_MAP_SIZE_def)
qed

text \<open>Unmapped addresses: an access to a unit whose device does not exist ends the process with status 2, for
  reads and writes alike; before the processor runs, as when a program is loaded, the null device answers 0xff.\<close>

theorem unmapped_access:
  assumes "length (busmaps (mch s)) = NUM_BUS_MAPS" "half a" "bm_devid (unit_at a s) < 256" "\<not> present (bm_devid (unit_at a s)) s"
  shows "(guarded s \<longrightarrow> cpu_read8 dbg a s = Exit 2 s \<and> cpu_read16 dbg a s = Exit 2 s \<and> cpu_write8 dbg io a v s = Exit 2 s)
    \<and> (\<not> cpu_running (mch s) \<and> active_break_count (mch s) = 0 \<and> null_device (mch s) = Some d
        \<and> map_option dev_priv (dev_of d s) = Some Null_dev \<longrightarrow> cpu_read8 dbg a s = Ret 0xff s)"
proof -
  have dev: "find_device a (bm_devid (unit_at a s)) s = bindE (do_fault a FAULT_NO_RESPONSE) (\<lambda>_ s.
          case null_device (mch s) of Some d \<Rightarrow> Ret d s | None \<Rightarrow> UB) s"
    using assms(3,4) by (auto simp: find_device_def present_def INVALID_DEVID_def)
  have "cpu_read8 dbg a s = Exit 2 s \<and> cpu_read16 dbg a s = Exit 2 s \<and> cpu_write8 dbg io a v s = Exit 2 s" if "guarded s"
    using find_map_unit [OF assms(1,2)]
    by (simp add: cpu_read8_def cpu_read16_def cpu_write8_def bindE_def dev fault_exits [OF that])
  moreover have "cpu_read8 dbg a s = Ret 0xff s"
    if "\<not> cpu_running (mch s)" "active_break_count (mch s) = 0" "null_device (mch s) = Some d" "map_option dev_priv (dev_of d s) = Some Null_dev"
    using that find_map_unit [OF assms(1,2)]
    by (auto simp: cpu_read8_def bindE_def dev do_fault_def doif_def Let_def command_read_hook_def DEV_FUEL_def)
  ultimately show ?thesis by blast
qed

theorem unmapped_access_witness:
  "cpu_read8 \<lparr>dbg_eval = \<lambda>_. Ret 0, dbg_monitor = Ret 0\<rparr> 5 (flag_machine 255 0 True) = Exit 2 (flag_machine 255 0 True)"
proof -
  have 5: "half 5" by (simp add: half_def)
  have "\<not> present 255 (flag_machine 255 0 True)" "length (busmaps (mch (flag_machine 255 0 True))) = NUM_BUS_MAPS"
    by (simp_all add: present_def flag_machine_def INVALID_DEVID_def)
  then show ?thesis
    using unmapped_access [of "flag_machine 255 0 True" 5] flag_machine_unit [OF 5] flag_machine_guarded 5 by simp
qed

section \<open>Address translation\<close>

lemma round_up_units [simp]: "round_up (n * BUS_MAP_SIZE) = n * BUS_MAP_SIZE"
proof -
  have "(n * 128 + 127) div 128 = n" by (simp add: div_add1_eq)
  then show ?thesis by (simp add: round_up_def BUS_MAP_SIZE_def)
qed

lemma bus_map_units:
  assumes "length (busmaps (mch s)) = NUM_BUS_MAPS" "a + k \<le> NUM_BUS_MAPS"
  shows "bus_map (a * BUS_MAP_SIZE) d (off * BUS_MAP_SIZE) (k * BUS_MAP_SIZE) fl s =
    Ret () (set_mch (\<lambda>m. m\<lparr>busmaps := remapped a k d (off * BUS_MAP_SIZE) fl (busmaps m)\<rparr>) s)"
proof -
  have "n * BUS_MAP_SIZE div BUS_MAP_SIZE = n" for n by (simp add: BUS_MAP_SIZE_def)
  then show ?thesis using assms by (simp add: bus_map_def Let_def map_entries_remapped set_mch_def)
qed

text \<open>Where the processor's address \<open>a\<close> leads: a device, an offset and the access flags.\<close>

definition translate :: "u32 \<Rightarrow> sys \<Rightarrow> nat \<times> nat \<times> u8" where
  "translate a s = (bm_devid (unit_at a s), bm_offset (unit_at a s) + unat a mod BUS_MAP_SIZE, bm_flags (unit_at a s))"

lemma page_offset:
  fixes x y z w :: nat
  assumes "w = y - z" "z \<le> y"
  shows "x * 32 * 128 + w = x * 4096 + y - z"
  using assms by simp

lemma remapped_page:
  assumes "length (busmaps (mch s)) = NUM_BUS_MAPS" "half a"
  shows "unit_at a (set_mch (\<lambda>m. m\<lparr>busmaps := remapped (page * 32) 32 d off fl (busmaps m)\<rparr>) s) =
    (if unat a div 4096 = page \<and> bm_flags (unit_at a s) AND MAP_FIXED = 0
     then \<lparr>bm_devid = d, bm_offset = off + unat a mod 4096 div BUS_MAP_SIZE * BUS_MAP_SIZE, bm_flags = fl\<rparr> else unit_at a s)"
proof -
  let ?i = "unat a div 128"
  have i: "?i < 512" using assms(2) by (simp add: half_def less_mult_imp_div_less)
  have in_page: "page * 32 \<le> ?i \<and> ?i < page * 32 + 32 \<longleftrightarrow> unat a div 4096 = page"
    using div_mult2_eq [of "unat a" 128 32] by auto
  have "?i - page * 32 = unat a mod 4096 div 128" if "unat a div 4096 = page"
  proof -
    have "unat a = page * 4096 + unat a mod 4096" using that by auto
    then have "?i = (unat a mod 4096 + (page * 32) * 128) div 128" by (simp only: mult.assoc)
    then show ?thesis by simp
  qed
  then show ?thesis
    using assms i in_page by (auto simp: unit_at_def remapped_def set_mch_def bus_sizes)
qed

text \<open>(C13) The EON memory management unit: after a write to the register file of a page, the units of that
  page lead to the device and the 4 KB block its registers name, with its access flags, for the processor and for
  the absolute addresses of the debugger; a byte of a RAM there is what the processor reads. Units mapped as
  fixed, like the one of the registers themselves, and those of the other pages lead where they led before.\<close>

theorem mmu_translates:
  assumes "length (busmaps (mch s)) = NUM_BUS_MAPS" "length (mmu_regs (mch s)) = 16" "\<forall>r \<in> set (mmu_regs (mch s)). length r = 4"
    and r: "r = (mmu_regs (mch s) ! (addr div 4 mod 16))[addr mod 4 := val]" and "half a"
    and p: "p = unat (r ! 1) * 4096 + unat a mod 4096"
  shows "\<exists>t m. mmu_write addr val s = Ret () t \<and> mmu_regs (mch t) = (mmu_regs (mch s))[addr div 4 mod 16 := r]
    \<and> device_table (mch t) = device_table (mch s) \<and> find_map a s = Ret m s
    \<and> (if unat a div 4096 = addr div 4 mod 16 \<and> bm_flags m AND MAP_FIXED = 0
       then find_map a t = Ret \<lparr>bm_devid = unat (r ! 0), bm_offset = p - p mod BUS_MAP_SIZE, bm_flags = r ! 2 AND MAP_READWRITE\<rparr> t
         \<and> to_absolute (unat a) t = Ret (absolute_from_reladdr (unat (r ! 0)) p) t
         \<and> (\<forall>e mem. present (unat (r ! 0)) s \<and> dev_of (unat (r ! 0)) s = Some e \<and> dev_priv e = Ram_dev mem \<and> p < dev_size e
             \<and> r ! 2 AND MAP_READABLE \<noteq> 0 \<and> active_break_count (mch s) = 0 \<longrightarrow> cpu_read8 dbg a t = Ret (mem p) t)
       else find_map a t = Ret m t)"
proof -
  let ?p = "addr div 4 mod 16" and ?fl = "r ! 2 AND MAP_READWRITE" and ?d = "unat (r ! 0)"
  let ?regs = "(mmu_regs (mch s))[?p := r]" and ?u = "unit_at a s"
  let ?m = "\<lparr>bm_devid = ?d, bm_offset = p - p mod BUS_MAP_SIZE, bm_flags = ?fl\<rparr>"
  let ?s = "set_mch (\<lambda>m. m\<lparr>mmu_regs := ?regs\<rparr>) s"
  let ?t = "set_mch (\<lambda>m. m\<lparr>busmaps := remapped (?p * 32) 32 ?d (unat (r ! 1) * 32 * BUS_MAP_SIZE) ?fl (busmaps m)\<rparr>) ?s"
  have s: "length (busmaps (mch ?s)) = NUM_BUS_MAPS" "length (busmaps (mch ?t)) = NUM_BUS_MAPS" "unit_at a ?s = ?u"
    using assms(1) by (simp_all add: set_mch_def unit_at_def remapped_def)
  have regs: "?regs ! ?p = r" using assms(2) by simp
  have "bus_map (?p * MMU_PAGESIZE) ?d (unat (r ! 1) * MMU_PAGESIZE) MMU_PAGESIZE ?fl ?s = Ret () ?t"
    using bus_map_units [OF s(1), of "?p * 32" 32 ?d "unat (r ! 1) * 32"]
    by (simp add: MMU_PAGESIZE_def BUS_MAP_SIZE_def NUM_BUS_MAPS_def mult.commute)
  then have w: "mmu_write addr val s = Ret () ?t"
    using regs by (simp add: mmu_write_def MMU_PAGEREGS_def MMU_PAGECOUNT_def Let_def flip: r)
  have mod: "p mod 128 = unat a mod 128" using mod_mod_cancel [of 128 4096 "unat a"] by (simp add: p mod_add_eq [symmetric, of "_ * 4096"])
  have "unat a mod 4096 div 128 * 128 = unat a mod 4096 - unat a mod 128" "unat a mod 128 \<le> unat a mod 4096"
    using minus_mod_eq_div_mult [of "unat a mod 4096" 128] mod_less_eq_dividend [of "unat a mod 4096" 128] mod_mod_cancel [of 128 4096 "unat a"] by simp_all
  then have "unat (r ! 1) * 32 * BUS_MAP_SIZE + unat a mod 4096 div 128 * 128 = p - p mod 128"
    unfolding mod unfolding p BUS_MAP_SIZE_def by (rule page_offset)
  then have u: "unit_at a ?t = (if unat a div 4096 = ?p \<and> bm_flags ?u AND MAP_FIXED = 0 then ?m else ?u)"
    using remapped_page [OF s(1) assms(5), of ?p] s(3) by (simp add: BUS_MAP_SIZE_def)
  have "mmu_regs (mch ?t) = ?regs \<and> device_table (mch ?t) = device_table (mch s) \<and> active_break_count (mch ?t) = active_break_count (mch s)"
    by (simp add: set_mch_def)
  with w s(2) u obtain t where t: "mmu_write addr val s = Ret () t" "mmu_regs (mch t) = ?regs" "device_table (mch t) = device_table (mch s)"
      "active_break_count (mch t) = active_break_count (mch s)" "length (busmaps (mch t)) = NUM_BUS_MAPS"
      "unit_at a t = (if unat a div 4096 = ?p \<and> bm_flags ?u AND MAP_FIXED = 0 then ?m else ?u)"
    by blast
  have p': "p - p mod BUS_MAP_SIZE + unat a mod BUS_MAP_SIZE = p" using mod by (simp add: BUS_MAP_SIZE_def flip: mod)
  have m: "find_map a t = Ret (unit_at a t) t" "find_map a s = Ret ?u s" by (rule find_map_unit [OF t(5) assms(5)], rule find_map_unit [OF assms(1,5)])
  have "to_absolute (unat a) t = Ret (absolute_from_reladdr ?d p) t" if "unit_at a t = ?m"
    using m p' assms(5) that by (simp add: to_absolute_def bindE_def half_def)
  moreover have "cpu_read8 dbg a t = Ret (mem p) t"
    if "unit_at a t = ?m" "present ?d s" "dev_of ?d s = Some e" "dev_priv e = Ram_dev mem" "p < dev_size e"
      "r ! 2 AND MAP_READABLE \<noteq> 0" "active_break_count (mch s) = 0" for e mem
  proof -
    have "?fl AND MAP_READABLE \<noteq> 0" using that(6) by (simp add: map_flags and.assoc)
    moreover have "present ?d t" "dev_of ?d t = Some e" using that t(3) by (simp_all add: present_def dev_of_def)
    ultimately show ?thesis using m that p' t(4)
      by (simp add: cpu_read8_def bindE_def find_device_present Let_def doif_def command_read_hook_def DEV_FUEL_def ram_read_def)
  qed
  ultimately show ?thesis using t(1-3,6) m by (intro exI [of _ t] exI [of _ ?u]) (simp split: if_splits, blast?)
qed

theorem mmu_translates_witness:
  "\<exists>t. mmu_write 5 9 (power_on machine_power_on) = Ret () t \<and> to_absolute 0x1234 t = Ret 0x9234 t"
proof -
  let ?s = "power_on machine_power_on"
  have h: "half 0x1234" "find_map 0x1234 ?s = Ret \<lparr>bm_devid = 0, bm_offset = 0, bm_flags = 0\<rparr> ?s"
    by (simp_all add: half_def find_map_def machine_power_on_def bus_sizes)
  have r: "mmu_regs machine_power_on ! 1 = [0, 0, 0, 0]" "length (mmu_regs machine_power_on) = 16"
    "\<forall>r \<in> set (mmu_regs machine_power_on). length r = 4"
    by (simp_all add: machine_power_on_def) (simp add: numeral_eq_Suc)
  have "[0, 9, 0, 0 :: u8] = (mmu_regs (mch ?s) ! (5 div 4 mod 16))[5 mod 4 := 9]"
      "(0x9234 :: nat) = unat ([0, 9, 0, 0 :: u8] ! 1) * 4096 + unat (0x1234 :: u32) mod 4096" using r(1) by simp_all
  from mmu_translates [of ?s, OF _ _ _ this(1) h(1) this(2), of "\<lparr>dbg_eval = \<lambda>_. Ret 0, dbg_monitor = Ret 0\<rparr>"] r(2,3) h(2)
  show ?thesis by (auto simp: absolute_from_reladdr_def)
qed

end
