(* ===== verification/Device_Laws.thy ===== *)
theory Device_Laws
  imports System_Contract
begin

text \<open>
  What the devices promise: the ROM image, the interrupt multiplexer, the timers and the disk.
\<close>

section \<open>ROM\<close>

declare rom_fill.simps [simp del]

lemma rom_fill_repeats:
  assumes "0 < k" "k dvd pos" "k dvd rem" "\<And>a. a < pos + k \<Longrightarrow> buf a = img (a mod k)"
  shows "\<exists>f. rom_fill k pos rem buf = Some f \<and> (\<forall>a < pos + k + rem. f a = img (a mod k))"
  using assms
proof (induction k pos rem buf rule: rom_fill.induct)
  case (1 k pos rem buf)
  show ?case
  proof (cases "rem = 0")
    case True
    then show ?thesis using "1.prems"(4) by (simp add: rom_fill.simps)
  next
    case False
    then have le: "k \<le> rem" using "1.prems"(3) by (simp add: dvd_imp_le)
    let ?buf = "\<lambda>a. if pos + k \<le> a \<and> a < pos + 2 * k then buf (a - k) else buf a"
    have "?buf a = img (a mod k)" if "a < pos + k + k" for a
      using "1.prems"(4) [of "a - k"] "1.prems"(4) [of a] that by (auto simp: mod_if [of a k] not_less)
    moreover have "k dvd pos + k" "k dvd rem - k" using "1.prems" le by simp_all
    ultimately obtain f where "rom_fill k (pos + k) (rem - k) ?buf = Some f" "\<forall>a < pos + k + k + (rem - k). f a = img (a mod k)"
      using "1.IH" [OF False] "1.prems"(1) le by auto
    moreover have "pos + k + k + (rem - k) = pos + k + rem" using le by simp
    ultimately show ?thesis using False "1.prems"(1) le by (subst rom_fill.simps) simp
  qed
qed

lemma rom_fill_overruns: "0 < rem \<Longrightarrow> k = 0 \<or> \<not> k dvd rem \<Longrightarrow> rom_fill k pos rem buf = None"
proof (induction k pos rem buf rule: rom_fill.induct)
  case (1 k pos rem buf)
  show ?case
  proof (cases "k = 0 \<or> rem < k")
    case True
    then show ?thesis using "1.prems" by (subst rom_fill.simps) simp
  next
    case False
    then have "\<not> k dvd rem" "k \<le> rem" using "1.prems" by auto
    then have "0 < rem - k" "\<not> k dvd rem - k" using dvd_diffD [of k rem k] by (auto simp: le_less)
    then show ?thesis using "1.IH" False "1.prems" by (subst rom_fill.simps) simp
  qed
qed

text \<open>A ROM image is repeated to fill the part: when its length divides the size, the byte at every address is
  the image's byte at the address modulo the length; when it does not, or the image is empty and the part
  is not, the copy runs outside the buffer or never ends.\<close>

theorem rom_create_repeats:
  assumes "length img \<le> sz"
  shows "(img \<noteq> [] \<and> length img dvd sz \<longrightarrow> (\<exists>f. rom_create (Some img) sz s = device_attach (Rom_dev f) sz s
      \<and> (\<forall>a < sz. f a = img ! (a mod length img))))
    \<and> (0 < sz \<and> (img = [] \<or> \<not> length img dvd sz) \<longrightarrow> rom_create (Some img) sz s = UB)"
proof -
  let ?k = "length img" and ?buf = "\<lambda>a. if a < length img then img ! a else 0"
  have "\<exists>f. rom_create (Some img) sz s = device_attach (Rom_dev f) sz s \<and> (\<forall>a < sz. f a = img ! (a mod ?k))"
    if ne: "img \<noteq> []" and dv: "?k dvd sz"
  proof -
    have "?k dvd sz - ?k" using dv by (rule dvd_diff_nat) simp
    then obtain f where "rom_fill ?k 0 (sz - ?k) ?buf = Some f" "\<forall>a < 0 + ?k + (sz - ?k). f a = img ! (a mod ?k)"
      using rom_fill_repeats [of ?k 0 "sz - ?k" ?buf "\<lambda>i. img ! i"] ne by auto
    then show ?thesis using assms by (auto simp: rom_create_def)
  qed
  moreover have "rom_create (Some img) sz s = UB" if "0 < sz" "img = [] \<or> \<not> ?k dvd sz"
  proof -
    have "0 < sz - ?k" "?k = 0 \<or> \<not> ?k dvd sz - ?k"
      using that assms by (auto simp: le_less dest: dvd_diffD)
    then show ?thesis using assms rom_fill_overruns [of "sz - ?k" ?k 0 ?buf] by (simp add: rom_create_def)
  qed
  ultimately show ?thesis by blast
qed

theorem rom_create_repeats_witness:
  "\<exists>f. rom_create (Some [1, 2]) 6 (power_on machine_power_on) = device_attach (Rom_dev f) 6 (power_on machine_power_on) \<and> f 5 = 2"
proof -
  have "[1, 2 :: u8] \<noteq> [] \<and> length [1, 2 :: u8] dvd 6" by (simp flip: numeral_2_eq_2)
  with rom_create_repeats [of "[1, 2]" 6 "power_on machine_power_on"] obtain f where
    "rom_create (Some [1, 2]) 6 (power_on machine_power_on) = device_attach (Rom_dev f) 6 (power_on machine_power_on)"
    "\<forall>a < 6. f a = [1, 2] ! (a mod length [1, 2 :: u8])" by auto
  then show ?thesis by (intro exI [of _ f]) (simp flip: numeral_2_eq_2)
qed

section \<open>Disk\<close>

definition disk_at :: "nat \<Rightarrow> disk_priv \<Rightarrow> sys \<Rightarrow> bool" where
  "disk_at dv disk s \<longleftrightarrow> map_option dev_priv (dev_of dv s) = Some (Disk_dev disk)"

lemma disk_at_set: "disk_at dv disk s \<Longrightarrow> disk_at dv disk' (set_priv dv (Disk_dev disk') s)"
  by (auto simp: disk_at_def dest: dev_of_set_priv)

lemma disk_poke_at: "disk_at dv disk s \<Longrightarrow> disk_poke dv a v s = disk_write dv disk a v s"
  by (auto simp: disk_at_def disk_poke_def)

lemma ram_of_other: "e \<noteq> dv \<Longrightarrow> ram_of e (set_priv dv p s) = ram_of e s"
  by (simp add: ram_of_def dev_of_set_priv_other)

lemma file_write_back: "take (length data) (drop pos (file_write file pos data)) = data"
  by (simp add: file_write_def)

text \<open>Selecting a memory page and a sector.\<close>

definition disk_seek :: "nat \<Rightarrow> u8 \<Rightarrow> u8 \<Rightarrow> u8 \<Rightarrow> sys stmt" where
  "disk_seek dv page hi lo = block [disk_poke dv 1 page, disk_poke dv 2 hi, disk_poke dv 3 lo]"

lemma sector_offset:
  fixes hi lo :: u8
  defines "off \<equiv> (push_bit 8 (ucast hi :: u64) OR ucast lo) * of_nat SECTOR_SIZE"
  shows "unat off = (256 * unat hi + unat lo) * 512" "\<not> sint off < 0"
proof -
  have h: "unat (ucast hi :: u64) = unat hi" "unat (ucast lo :: u64) = unat lo"
    using unat_u8 [of hi] unat_u8 [of lo] by (simp_all add: unsigned_ucast_eq take_bit_nat_eq_self_iff)
  have "bit (ucast lo :: u64) n \<Longrightarrow> n < 8" for n by (auto simp: bit_unsigned_iff dest: bit_imp_le_length)
  then have "push_bit 8 (ucast hi :: u64) AND ucast lo = 0"
    by (auto simp: bit_eq_iff bit_and_iff bit_push_bit_iff dest: leD)
  then have "off = (push_bit 8 (ucast hi) + ucast lo) * of_nat SECTOR_SIZE" by (simp add: off_def disjunctive_add_eq_or)
  then show u: "unat off = (256 * unat hi + unat lo) * 512"
    using h unat_u8 [of hi] unat_u8 [of lo] by (simp add: push_bit_eq_mult unat_word_ariths SECTOR_SIZE_def)
  have "unat off < 2 ^ 63" using u unat_u8 [of hi] unat_u8 [of lo] by simp
  then have "\<not> bit off 63" using top_bit [of off 63] by simp
  then show "\<not> sint off < 0" using bit_last_iff [of off] by simp
qed

lemma disk_seek_at:
  assumes "disk_at dv disk s" "dk_fp disk \<noteq> None"
  shows "\<exists>t off. disk_seek dv page hi lo s = Ret () t
    \<and> disk_at dv (disk\<lparr>dk_ram := Some (unat page * SECTOR_SIZE), dk_offset := off, dk_pos := (256 * unat hi + unat lo) * 512\<rparr>) t
    \<and> (\<forall>e. e \<noteq> dv \<longrightarrow> dev_of e t = dev_of e s)"
proof -
  let ?d1 = "disk\<lparr>dk_ram := Some (unat page * SECTOR_SIZE)\<rparr>"
  let ?s1 = "set_priv dv (Disk_dev ?d1) s"
  let ?d2 = "?d1\<lparr>dk_offset := ucast hi\<rparr>"
  let ?s2 = "set_priv dv (Disk_dev ?d2) ?s1"
  let ?off = "(push_bit 8 (ucast hi :: u64) OR ucast lo) * of_nat SECTOR_SIZE"
  let ?d3 = "?d2\<lparr>dk_offset := ?off, dk_pos := (256 * unat hi + unat lo) * 512\<rparr>"
  let ?s3 = "set_priv dv (Disk_dev ?d3) ?s2"
  note d1 = disk_at_set [OF assms(1), of ?d1]
  note d2 = disk_at_set [OF d1, of ?d2]
  note d3 = disk_at_set [OF d2, of ?d3]
  have "disk_seek dv page hi lo s = Ret () ?s3"
    using assms sector_offset [of hi lo]
    by (simp add: disk_seek_def disk_poke_at [OF assms(1)] disk_poke_at [OF d1] disk_poke_at [OF d2] disk_write_def Let_def)
  moreover have "disk_at dv (disk\<lparr>dk_ram := Some (unat page * SECTOR_SIZE), dk_offset := ?off, dk_pos := (256 * unat hi + unat lo) * 512\<rparr>) ?s3"
    using d3 by simp
  moreover have "\<forall>e. e \<noteq> dv \<longrightarrow> dev_of e ?s3 = dev_of e s" by (simp add: dev_of_set_priv_other)
  ultimately show ?thesis by blast
qed

lemma disk_poke_write:
  assumes "disk_at dv disk s" "dk_fp disk = Some file" "dk_ram disk = Some ram" "ram_of (dk_ramdev disk) s = Some (sz, buf, mk)"
    and "ram + SECTOR_SIZE \<le> sz" "disk' = disk\<lparr>dk_fp := Some (file_write file (dk_pos disk) (map buf [ram..<ram + SECTOR_SIZE])),
      dk_pos := dk_pos disk + SECTOR_SIZE\<rparr>"
  shows "disk_poke dv 0 2 s = Ret () (set_priv dv (Disk_dev disk') s)"
  using assms(2-6) by (simp add: disk_poke_at [OF assms(1)] disk_write_def disk_ctrl_def disk_fwrite_def)

lemma ram_of_set:
  assumes "ram_of e s = Some (sz, buf, mk)"
  shows "ram_of e (set_priv e (mk buf') s) = Some (sz, buf', mk)"
  using assms by (auto simp: ram_of_def dev_of_set_priv split: option.splits priv.splits)

lemma disk_poke_read:
  assumes "disk_at dv disk s" "dk_fp disk = Some file" "dk_ram disk = Some ram" "ram_of (dk_ramdev disk) s = Some (sz, buf, mk)"
    and "ram + SECTOR_SIZE \<le> sz" "take SECTOR_SIZE (drop (dk_pos disk) file) = data" "length data = SECTOR_SIZE" "dk_ramdev disk \<noteq> dv"
    and "buf' = (\<lambda>a. if ram \<le> a \<and> a < ram + SECTOR_SIZE then data ! (a - ram) else buf a)"
  shows "\<exists>t. disk_poke dv 0 1 s = Ret () t \<and> ram_of (dk_ramdev disk) t = Some (sz, buf', mk)"
proof -
  have "disk_poke dv 0 1 s = Ret () (set_priv dv (Disk_dev (disk\<lparr>dk_pos := dk_pos disk + SECTOR_SIZE\<rparr>)) (set_priv (dk_ramdev disk) (mk buf') s))"
    using assms(2-9) by (simp add: disk_poke_at [OF assms(1)] disk_write_def disk_ctrl_def disk_fread_def Let_def)
  then show ?thesis using ram_of_set [OF assms(4)] assms(8) by (simp add: ram_of_other)
qed

lemma ram_of_cong: "dev_of e t = dev_of e s \<Longrightarrow> ram_of e t = ram_of e s"
  by (simp add: ram_of_def)

text \<open>(C17) The disk keeps what is written to it: a page of memory written to any sector and read back, into the same or
  another page, arrives byte for byte and nothing else in memory changes, also when the sector lies behind the
  end of the backing file.\<close>

theorem disk_sector_roundtrip:
  assumes disk: "disk_at dv disk s" "dk_fp disk = Some file" "dk_ramdev disk \<noteq> dv"
    and ram: "ram_of (dk_ramdev disk) s = Some (sz, buf, mk)"
    and page: "unat page * 512 + 512 \<le> sz" "unat page' * 512 + 512 \<le> sz"
  shows "\<exists>t. block [disk_seek dv page hi lo, disk_poke dv 0 2, disk_seek dv page' hi lo, disk_poke dv 0 1] s = Ret () t
    \<and> ram_of (dk_ramdev disk) t = Some (sz, \<lambda>a. if unat page' * 512 \<le> a \<and> a < unat page' * 512 + 512
         then buf (unat page * 512 + (a - unat page' * 512)) else buf a, mk)"
proof -
  let ?pos = "(256 * unat hi + unat lo) * 512" and ?r = "unat page * SECTOR_SIZE" and ?r' = "unat page' * SECTOR_SIZE"
  let ?data = "map buf [?r..<?r + SECTOR_SIZE]"
  from disk_seek_at [OF disk(1), of page hi lo] disk(2) obtain s1 off where
    s1: "disk_seek dv page hi lo s = Ret () s1" "disk_at dv (disk\<lparr>dk_ram := Some ?r, dk_offset := off, dk_pos := ?pos\<rparr>) s1"
      "\<forall>e. e \<noteq> dv \<longrightarrow> dev_of e s1 = dev_of e s" by auto
  define d2 where "d2 = disk\<lparr>dk_ram := Some ?r, dk_offset := off, dk_fp := Some (file_write file ?pos ?data), dk_pos := ?pos + SECTOR_SIZE\<rparr>"
  let ?s2 = "set_priv dv (Disk_dev d2) s1"
  have r1: "ram_of (dk_ramdev disk) s1 = Some (sz, buf, mk)" using ram s1(3) disk(3) ram_of_cong by metis
  have s2: "disk_poke dv 0 2 s1 = Ret () ?s2"
    by (rule disk_poke_write [OF s1(2)]) (use r1 page(1) disk(2) in \<open>simp_all add: SECTOR_SIZE_def d2_def\<close>)
  have d2: "disk_at dv d2 ?s2" by (rule disk_at_set [OF s1(2)])
  have "dk_fp d2 \<noteq> None" by (simp add: d2_def)
  from disk_seek_at [OF d2 this, of page' hi lo] obtain s3 off' where
    s3: "disk_seek dv page' hi lo ?s2 = Ret () s3" "disk_at dv (d2\<lparr>dk_ram := Some ?r', dk_offset := off', dk_pos := ?pos\<rparr>) s3"
      "\<forall>e. e \<noteq> dv \<longrightarrow> dev_of e s3 = dev_of e ?s2" by blast
  have "ram_of (dk_ramdev disk) s3 = ram_of (dk_ramdev disk) ?s2"
    by (rule ram_of_cong) (use s3(3) disk(3) in blast)
  then have r3: "ram_of (dk_ramdev disk) s3 = Some (sz, buf, mk)" using r1 disk(3) by (simp add: ram_of_other)
  have "\<exists>t. disk_poke dv 0 1 s3 = Ret () t \<and> ram_of (dk_ramdev (d2\<lparr>dk_ram := Some ?r', dk_offset := off', dk_pos := ?pos\<rparr>)) t
      = Some (sz, \<lambda>a. if ?r' \<le> a \<and> a < ?r' + SECTOR_SIZE then ?data ! (a - ?r') else buf a, mk)"
    by (rule disk_poke_read [OF s3(2) _ _ _ _ _ _ _ refl, where data = ?data])
      (use r3 page(2) disk(3) file_write_back [of ?data ?pos "file"] in \<open>simp_all add: SECTOR_SIZE_def d2_def\<close>)
  then obtain t where "disk_poke dv 0 1 s3 = Ret () t" "ram_of (dk_ramdev disk) t
      = Some (sz, \<lambda>a. if ?r' \<le> a \<and> a < ?r' + SECTOR_SIZE then ?data ! (a - ?r') else buf a, mk)" unfolding d2_def by auto
  moreover have "(\<lambda>a. if ?r' \<le> a \<and> a < ?r' + SECTOR_SIZE then ?data ! (a - ?r') else buf a)
      = (\<lambda>a. if unat page' * 512 \<le> a \<and> a < unat page' * 512 + 512 then buf (unat page * 512 + (a - unat page' * 512)) else buf a)"
    by (auto simp: fun_eq_iff SECTOR_SIZE_def)
  ultimately show ?thesis using s1(1) s2 s3(1) by (auto simp: bindR_Ret)
qed

definition disk_machine :: sys where
  "disk_machine = power_on (machine_power_on\<lparr>device_table := [\<lparr>dev_size = 1024, dev_priv = Ram_dev (\<lambda>a. of_nat a)\<rparr>,
     \<lparr>dev_size = 4, dev_priv = Disk_dev \<lparr>dk_fp = Some [], dk_pos = 0, dk_offset = 0, dk_ramdev = 0, dk_ram = None, dk_sectors = 65536\<rparr>\<rparr>]\<rparr>)"

theorem disk_sector_roundtrip_witness:
  "\<exists>t buf mk. block [disk_seek 1 0 0 3, disk_poke 1 0 2, disk_seek 1 1 0 3, disk_poke 1 0 1] disk_machine = Ret () t
    \<and> ram_of 0 t = Some (1024, buf, mk) \<and> buf 522 = 10"
  using disk_sector_roundtrip [of 1 "\<lparr>dk_fp = Some [], dk_pos = 0, dk_offset = 0, dk_ramdev = 0, dk_ram = None, dk_sectors = 65536\<rparr>"
      disk_machine "[]" 1024 "\<lambda>a. of_nat a" Ram_dev 0 1 0 3]
  by (auto simp: disk_machine_def disk_at_def dev_of_def ram_of_def)

section \<open>Interrupt multiplexer\<close>

definition imux_at :: "nat \<Rightarrow> imux \<Rightarrow> sys \<Rightarrow> bool" where
  "imux_at dv mux s \<longleftrightarrow> map_option dev_priv (dev_of dv s) = Some (Imux_dev mux)"

lemma imux_refresh_masked:
  assumes "src mux = 1" "bit (EFI s) 4"
  shows "imux_refresh io mux s = Ret () (s\<lparr>irqs_pending :=
    (if pending mux AND enabled mux \<noteq> 0 then irqs_pending s OR 2 else irqs_pending s AND NOT 2)\<rparr>)"
  using assms by (simp add: imux_refresh_def request_irq_def release_irq_def assign_def doif_def)

lemma imux_update_line:
  assumes "imux_at dv mux s" "src m = 1" "bit (EFI s) 4"
  shows "\<exists>t. block [assign (set_priv dv (Imux_dev m)), imux_refresh io m] s = Ret () t \<and> imux_at dv m t
    \<and> (bit (irqs_pending t) 1 \<longleftrightarrow> pending m AND enabled m \<noteq> 0)"
proof -
  let ?s = "set_priv dv (Imux_dev m) s"
  let ?w = "if pending m AND enabled m \<noteq> 0 then irqs_pending ?s OR 2 else irqs_pending ?s AND NOT 2"
  have "bit (EFI ?s) 4" using assms(3) by (simp add: set_priv_def set_mch_def)
  then have "block [assign (set_priv dv (Imux_dev m)), imux_refresh io m] s = Ret () (?s\<lparr>irqs_pending := ?w\<rparr>)"
    using imux_refresh_masked [OF assms(2)] by (simp add: assign_def)
  moreover have "imux_at dv m (?s\<lparr>irqs_pending := ?w\<rparr>)"
  proof -
    have "dev_of dv (?s\<lparr>irqs_pending := ?w\<rparr>) = dev_of dv ?s" by (simp add: dev_of_def)
    then show ?thesis using assms(1) by (auto simp: imux_at_def dest: dev_of_set_priv)
  qed
  moreover have "bit ?w 1 \<longleftrightarrow> pending m AND enabled m \<noteq> 0"
    by (simp add: bit_or_iff bit_and_iff bit_not_iff)
  ultimately show ?thesis by auto
qed

text \<open>(C18) The interrupt multiplexer on the IRQ line with interrupts masked: asserting a signal latches it, writing a
  mask to register 0 selects the signals that count and writing to register 1 acknowledges them, and after each of
  these the request line to the processor is up exactly when a latched signal is enabled.\<close>

theorem imux_line:
  assumes "imux_at dv mux s" "src mux = 1" "bit (EFI s) 4" "sig < 31"
  shows "\<exists>t u v. imux_assert io dv sig s = Ret () t \<and> imux_at dv (mux\<lparr>pending := pending mux OR push_bit sig 1\<rparr>) t
    \<and> (bit (irqs_pending t) 1 \<longleftrightarrow> (pending mux OR push_bit sig 1) AND enabled mux \<noteq> 0)
    \<and> imux_write io dv mux 0 val s = Ret () u \<and> imux_at dv (mux\<lparr>enabled := ucast val\<rparr>) u
    \<and> (bit (irqs_pending u) 1 \<longleftrightarrow> pending mux AND ucast val \<noteq> 0)
    \<and> imux_write io dv mux 1 val s = Ret () v \<and> imux_at dv (mux\<lparr>pending := pending mux AND NOT (ucast val)\<rparr>) v
    \<and> (bit (irqs_pending v) 1 \<longleftrightarrow> pending mux AND NOT (ucast val) AND enabled mux \<noteq> 0)"
proof -
  obtain d where d: "dev_of dv s = Some d" "dev_priv d = Imux_dev mux" using assms(1) by (auto simp: imux_at_def)
  have 1: "imux_assert io dv sig s = block [assign (set_priv dv (Imux_dev (mux\<lparr>pending := pending mux OR push_bit sig 1\<rparr>))),
      imux_refresh io (mux\<lparr>pending := pending mux OR push_bit sig 1\<rparr>)] s"
    using assms(4) d by (simp add: imux_assert_def Let_def)
  have 2: "imux_write io dv mux 0 val s = block [assign (set_priv dv (Imux_dev (mux\<lparr>enabled := ucast val\<rparr>))),
      imux_refresh io (mux\<lparr>enabled := ucast val\<rparr>)] s"
    by (simp add: imux_write_def Let_def)
  have 3: "imux_write io dv mux 1 val s = block [assign (set_priv dv (Imux_dev (mux\<lparr>pending := pending mux AND NOT (ucast val)\<rparr>))),
      imux_refresh io (mux\<lparr>pending := pending mux AND NOT (ucast val)\<rparr>)] s"
    by (simp add: imux_write_def Let_def)
  note line = imux_update_line [OF assms(1) _ assms(3), where io = io]
  show ?thesis
    unfolding 1 2 3
    using line [of "mux\<lparr>pending := pending mux OR push_bit sig 1\<rparr>"] line [of "mux\<lparr>enabled := ucast val\<rparr>"]
      line [of "mux\<lparr>pending := pending mux AND NOT (ucast val)\<rparr>"] assms(2) by (simp add: and.assoc)
qed

definition imux_machine :: sys where
  "imux_machine = (power_on (machine_power_on\<lparr>device_table := [\<lparr>dev_size = 128,
     dev_priv = Imux_dev \<lparr>in_use = 1, enabled = 1, pending = 0, src = 1\<rparr>\<rparr>]\<rparr>))\<lparr>EFI := I_FLAG\<rparr>"

theorem imux_line_witness:
  "\<exists>t. imux_assert (sys_bus \<lparr>dbg_eval = \<lambda>_. Ret 0, dbg_monitor = Ret 0\<rparr> 0) 0 0 imux_machine = Ret () t \<and> bit (irqs_pending t) 1"
  using imux_line [of 0 "\<lparr>in_use = 1, enabled = 1, pending = 0, src = 1\<rparr>" imux_machine 0
      "sys_bus \<lparr>dbg_eval = \<lambda>_. Ret 0, dbg_monitor = Ret 0\<rparr> 0" 0]
  by (auto simp: imux_machine_def imux_at_def dev_of_def I_FLAG_def simp del: sys_bus.simps)

section \<open>Timers\<close>

definition timer_at :: "nat \<Rightarrow> hwtimer \<Rightarrow> sys \<Rightarrow> bool" where
  "timer_at dv t s \<longleftrightarrow> map_option dev_priv (dev_of dv s) = Some (Hwtimer_dev t)"

lemma timer_access:
  assumes "timer_at dv t s"
  shows "with_timer dv f s = f t s" "upd_timer dv g s = Ret () (set_priv dv (Hwtimer_dev (g t)) s)"
    "timer_at dv t' (set_priv dv (Hwtimer_dev t') s)"
  using assms by (auto simp: timer_at_def with_timer_def get_timer_def upd_timer_def dest: dev_of_set_priv)

lemma sint_exact: "sint (word_of_int v :: u32) = v" if "- (2 ^ 31) \<le> v" "v < 2 ^ 31"
  using that by (simp add: sint_sbintrunc' signed_take_bit_int_eq_self)

lemma small_nat: "0 \<le> int n \<and> int n < 2 ^ 31" if "n < 2 ^ 31"
proof -
  have "int n < int (2 ^ 31)" using that by (simp only: of_nat_less_iff)
  then show ?thesis by simp
qed

lemma sint_diff_u32:
  assumes "unat a < 2 ^ 31" "unat (b :: u32) < 2 ^ 31"
  shows "sint (a - b) = int (unat a) - int (unat b)"
proof -
  have "a - b = word_of_int (int (unat a) - int (unat b))" by simp
  moreover have "- (2 ^ 31) \<le> int (unat a) - int (unat b)" "int (unat a) - int (unat b) < 2 ^ 31"
    using small_nat [OF assms(1)] small_nat [OF assms(2)] by linarith+
  ultimately show ?thesis using sint_exact by metis
qed

lemma sint_sum_u32:
  assumes "sint (a :: u32) < 0" "unat b < 2 ^ 31"
  shows "sint (a + b) = sint a + int (unat b)"
proof -
  have "a + b = word_of_int (sint a + int (unat b))" by simp
  moreover have "- (2 ^ 31) \<le> sint a" using sint_ge [of a] by simp
  then have "- (2 ^ 31) \<le> sint a + int (unat b)" "sint a + int (unat b) < 2 ^ 31"
    using assms(1) small_nat [OF assms(2)] by linarith+
  ultimately show ?thesis using sint_exact by metis
qed

lemma timer_step:
  assumes "timer_at dv t s" "int_dev t = None" "\<not> (tcount t = 0 \<and> reload t = 0)"
  shows "hwtimer_decrement io dv cycles s =
    (let c = tcount t - cycles; r = c + reload t in
     if 0 \<le> sint c then Ret () (set_priv dv (Hwtimer_dev (t\<lparr>tcount := c\<rparr>)) s)
     else if reload t = 0 then Ret () (set_priv dv (Hwtimer_dev (t\<lparr>tcount := 0\<rparr>)) (set_priv dv (Hwtimer_dev (t\<lparr>tcount := c\<rparr>)) s))
     else let u = set_priv dv (Hwtimer_dev (t\<lparr>tcount := r\<rparr>)) (set_priv dv (Hwtimer_dev (t\<lparr>tcount := c\<rparr>)) s) in
       if sint r < 0 then sim_error u else Ret () u)"
proof -
  let ?c = "tcount t - cycles"
  let ?s1 = "set_priv dv (Hwtimer_dev (t\<lparr>tcount := ?c\<rparr>)) s"
  let ?s2 = "set_priv dv (Hwtimer_dev (t\<lparr>tcount := ?c + reload t\<rparr>)) ?s1"
  have s1: "timer_at dv (t\<lparr>tcount := ?c\<rparr>) ?s1" by (rule timer_access(3) [OF assms(1)])
  have s2: "timer_at dv (t\<lparr>tcount := ?c + reload t\<rparr>) ?s2" by (rule timer_access(3) [OF s1])
  show ?thesis
    using assms(2,3)
    by (auto simp: hwtimer_decrement_def Let_def timer_access [OF assms(1)] timer_access [OF s1] timer_access [OF s2]
        doif_def word_neq_0_conv bindR_Ret)
qed

text \<open>(C19) A timer without an interrupt counts cycles exactly: it stays while there are cycles left, restarts from the
  reload value with the overshoot taken off when it passes zero, stops at zero when there is nothing to reload,
  and does nothing when both are zero. More cycles at once than the count and the reload value cover are an error.\<close>

theorem timer_countdown:
  assumes "timer_at dv t s" "int_dev t = None" "\<not> debug_enabled s"
    and "unat (tcount t) < 2 ^ 31" "unat (reload t) < 2 ^ 31" "unat cycles < 2 ^ 31"
  defines "left \<equiv> int (unat (tcount t)) - int (unat cycles)"
  shows "(tcount t = 0 \<and> reload t = 0 \<longrightarrow> hwtimer_decrement io dv cycles s = Ret () s)
    \<and> (\<not> (tcount t = 0 \<and> reload t = 0) \<and> (0 \<le> left \<or> 0 \<le> left + int (unat (reload t)) \<or> reload t = 0) \<longrightarrow>
        (\<exists>c u. hwtimer_decrement io dv cycles s = Ret () u \<and> timer_at dv (t\<lparr>tcount := c\<rparr>) u
          \<and> sint c = (if 0 \<le> left then left else if reload t = 0 then 0 else left + int (unat (reload t)))))
    \<and> (left < 0 \<and> 0 < reload t \<and> left + int (unat (reload t)) < 0 \<longrightarrow> (\<exists>u. hwtimer_decrement io dv cycles s = Exit 2 u))"
proof -
  have c: "sint (tcount t - cycles) = left" unfolding left_def by (rule sint_diff_u32 [OF assms(4,6)])
  have r: "sint (tcount t - cycles + reload t) = left + int (unat (reload t))" if "left < 0"
    using that c sint_sum_u32 [of "tcount t - cycles" "reload t"] assms(5) by simp
  have at: "timer_at dv (t\<lparr>tcount := c'\<rparr>) (set_priv dv (Hwtimer_dev (t\<lparr>tcount := c'\<rparr>)) s)"
    "timer_at dv (t\<lparr>tcount := c'\<rparr>) (set_priv dv (Hwtimer_dev (t\<lparr>tcount := c'\<rparr>)) (set_priv dv (Hwtimer_dev (t\<lparr>tcount := c''\<rparr>)) s))" for c' c''
    by (blast intro: timer_access(3) assms(1))+
  have dbg: "sim_error (set_priv dv p (set_priv dv q s)) = Exit 2 (set_priv dv p (set_priv dv q s))" for p q
    using assms(3) by (simp add: sim_error_def set_priv_def set_mch_def)
  show ?thesis
  proof (cases "tcount t = 0 \<and> reload t = 0")
    case True
    then have "left \<le> 0" by (simp add: left_def)
    then show ?thesis using True by (simp add: hwtimer_decrement_def timer_access [OF assms(1)])
  next
    case False
    note step = timer_step [OF assms(1,2) False, of io cycles]
    show ?thesis using False
      by (auto simp: step Let_def c r dbg word_neq_0_conv intro!: exI at)
  qed
qed

definition sample_timer :: hwtimer where
  "sample_timer = \<lparr>tcount = 100, reload = 50, resolution = 128, tflags = 0, prev_cycles = 0, int_dev = None, int_line = 0\<rparr>"

definition timer_machine :: sys where
  "timer_machine = power_on (machine_power_on\<lparr>device_table := [\<lparr>dev_size = 128, dev_priv = Hwtimer_dev sample_timer\<rparr>]\<rparr>)"

theorem timer_countdown_witness:
  "\<exists>c u. hwtimer_decrement (sys_bus \<lparr>dbg_eval = \<lambda>_. Ret 0, dbg_monitor = Ret 0\<rparr> 0) 0 120 timer_machine = Ret () u
    \<and> timer_at 0 (sample_timer\<lparr>tcount := c\<rparr>) u \<and> sint c = 30"
proof -
  have "timer_at 0 sample_timer timer_machine" "\<not> debug_enabled timer_machine"
    by (simp_all add: timer_at_def dev_of_def timer_machine_def power_on_def machine_power_on_def)
  then show ?thesis
    using timer_countdown [of 0 sample_timer timer_machine 120 "sys_bus \<lparr>dbg_eval = \<lambda>_. Ret 0, dbg_monitor = Ret 0\<rparr> 0"]
    by (simp add: sample_timer_def)
qed

end
