(* ===== verification/Symtab.thy ===== *)
theory Symtab
  imports Prelude
begin

text \<open>
  The symbol tables of the debugger (\<^verbatim>\<open>symtab.c\<close>): strings copied into string spaces, symbols allocated
  on a heap and linked into two hash chains each, by name and by value, and the operations that add, set and look up
  symbols. Pointers are positions in the lists of the state. The chain lemmas follow the pointers; the refinement
  at the end shows a table to be a map from names to values.
\<close>

section \<open>State\<close>

definition MAX_STRINGSPACE :: nat where "MAX_STRINGSPACE = 32000"

definition MAX_SYMBOL_HASH :: nat where "MAX_SYMBOL_HASH = 1009"

record stringspace =
  space :: "nat \<Rightarrow> char"
  used :: nat

record symbol =
  sym_name :: "nat \<times> nat"
  sym_value :: u64
  ty_format :: u8
  ty_size :: u32
  sym_type :: u32
  name_chain :: "nat option"
  value_chain :: "nat option"

record symtab =
  syms_by_name :: "nat option list"
  syms_by_value :: "nat option list"
  parent :: "nat option"

text \<open>The string spaces and symbols allocated so far, and the three tables of the program:
  0 \<^verbatim>\<open>program_symtab\<close>, 1 \<^verbatim>\<open>internal_symtab\<close>, 2 \<^verbatim>\<open>auto_symtab\<close>.\<close>

record symstate =
  spaces :: "stringspace list"
  current_stringspace :: nat
  symbols :: "symbol list"
  symtabs :: "symtab list"

section \<open>Strings\<close>

definition NUL :: char where "NUL = CHR 0x00"

definition stringspace_create :: stringspace where
  "stringspace_create = \<lparr>space = (\<lambda>_. NUL), used = 0\<rparr>"

definition stringspace_copy :: "string \<Rightarrow> (symstate, nat \<times> nat) expr" where
  "stringspace_copy str s =
     (let len = length str + 1;
          s = (if used (spaces s ! current_stringspace s) + len > MAX_STRINGSPACE
               then s\<lparr>spaces := spaces s @ [stringspace_create], current_stringspace := length (spaces s)\<rparr> else s);
          b = current_stringspace s; sp = spaces s ! b; p = used sp
      in if p + len > MAX_STRINGSPACE then UB
         else Ret (b, p) (s\<lparr>spaces := (spaces s)[b :=
           \<lparr>space = (\<lambda>a. if p \<le> a \<and> a < p + len then (str @ [NUL]) ! (a - p) else space sp a), used = p + len\<rparr>]\<rparr>))"

text \<open>\<^verbatim>\<open>!strcmp (name, p)\<close> for a string against memory: it reads up to the first difference, and outside
  the buffer is undefined.\<close>

fun strcmp_eq :: "string \<Rightarrow> nat \<Rightarrow> (nat \<Rightarrow> char) \<Rightarrow> nat \<Rightarrow> bool option" where
  "strcmp_eq str 0 f p = None"
| "strcmp_eq [] (Suc n) f p = Some (f p = NUL)"
| "strcmp_eq (c # cs) (Suc n) f p = (if f p = c then strcmp_eq cs n f (p + 1) else Some False)"

definition same_name :: "string \<Rightarrow> nat \<times> nat \<Rightarrow> symstate \<Rightarrow> bool option" where
  "same_name str = (\<lambda>(b, p) s.
     if b < length (spaces s) then strcmp_eq str (MAX_STRINGSPACE - p) (space (spaces s ! b)) p else None)"

section \<open>Hashing\<close>

text \<open>A plain \<^verbatim>\<open>char\<close> is signed, so that it is sign extended when it takes part in arithmetic.\<close>

definition char_at :: "string \<Rightarrow> nat \<Rightarrow> char" where
  "char_at str i = (if i < length str then str ! i else NUL)"

definition schar :: "char \<Rightarrow> u32" where
  "schar c = scast (of_char c :: u8)"

definition sym_hash_name :: "string \<Rightarrow> nat" where
  "sym_hash_name name =
     (let hash = schar (char_at name 0) AND 0x1F;
          hash = (if char_at name 0 \<noteq> NUL then
                    let hash = push_bit 11 hash + 544 * schar (char_at name 1)
                    in if char_at name 1 \<noteq> NUL then push_bit 5 hash + 17 * schar (char_at name 2) else hash
                  else hash)
      in unat (hash mod 1009))"

definition sym_hash_value :: "u64 \<Rightarrow> nat" where
  "sym_hash_value value = unat (value mod 1009)"

section \<open>Operations\<close>

text \<open>The loops over a chain and over the parents of a table. The fuel is the number of symbols, respectively
  of tables: neither a chain nor the line of parents visits one twice.\<close>

fun find_chain :: "nat \<Rightarrow> string \<Rightarrow> nat option \<Rightarrow> (symstate, nat option) expr" where
  "find_chain n name None s = Ret None s"
| "find_chain 0 name (Some p) s = NoFuel"
| "find_chain (Suc n) name (Some p) s =
     (if p < length (symbols s) then
        case same_name name (sym_name (symbols s ! p)) s of
          None \<Rightarrow> UB
        | Some True \<Rightarrow> Ret (Some p) s
        | Some False \<Rightarrow> find_chain n name (name_chain (symbols s ! p)) s
      else UB)"

fun find_tables :: "nat \<Rightarrow> string \<Rightarrow> nat option \<Rightarrow> u32 \<Rightarrow> (symstate, nat option) expr" where
  "find_tables n name None type s = Ret None s"
| "find_tables 0 name (Some t) type s = NoFuel"
| "find_tables (Suc n) name (Some t) type s =
     (if t < length (symtabs s) then
        bindR (find_chain (length (symbols s)) name (syms_by_name (symtabs s ! t) ! sym_hash_name name) s) (\<lambda>r s.
          case r of
            Some p \<Rightarrow> if type \<noteq> 0 \<and> sym_type (symbols s ! p) \<noteq> type then Ret None s else Ret (Some p) s
          | None \<Rightarrow> find_tables n name (parent (symtabs s ! t)) type s)
      else UB)"

definition sym_find1 :: "nat \<Rightarrow> string \<Rightarrow> u32 \<Rightarrow> (symstate, nat option) expr" where
  "sym_find1 t name type s = find_tables (length (symtabs s)) name (Some t) type s"

text \<open>The result and what is stored through the pointer \<^verbatim>\<open>value\<close>.\<close>

definition sym_find :: "nat \<Rightarrow> string \<Rightarrow> u32 \<Rightarrow> (symstate, int \<times> u64 option) expr" where
  "sym_find t name type = bindE (sym_find1 t name type) (\<lambda>r s.
     Ret (case r of Some p \<Rightarrow> (0, Some (sym_value (symbols s ! p))) | None \<Rightarrow> (- 1, None)) s)"

fun lookup_chain :: "nat \<Rightarrow> u64 \<Rightarrow> nat option \<Rightarrow> (symstate, nat option) expr" where
  "lookup_chain n value None s = Ret None s"
| "lookup_chain 0 value (Some p) s = NoFuel"
| "lookup_chain (Suc n) value (Some p) s =
     (if p < length (symbols s) then
        if value = sym_value (symbols s ! p) then Ret (Some p) s
        else lookup_chain n value (value_chain (symbols s ! p)) s
      else UB)"

fun lookup_tables :: "nat \<Rightarrow> u64 \<Rightarrow> nat option \<Rightarrow> (symstate, (nat \<times> nat) option) expr" where
  "lookup_tables n value None s = Ret None s"
| "lookup_tables 0 value (Some t) s = NoFuel"
| "lookup_tables (Suc n) value (Some t) s =
     (if t < length (symtabs s) then
        bindR (lookup_chain (length (symbols s)) value (syms_by_value (symtabs s ! t) ! sym_hash_value value) s) (\<lambda>r s.
          case r of
            Some p \<Rightarrow> Ret (Some (sym_name (symbols s ! p))) s
          | None \<Rightarrow> lookup_tables n value (parent (symtabs s ! t)) s)
      else UB)"

definition sym_lookup :: "nat \<Rightarrow> u64 \<Rightarrow> (symstate, (nat \<times> nat) option) expr" where
  "sym_lookup t value s = lookup_tables (length (symtabs s)) value (Some t) s"

definition sym_add :: "nat \<Rightarrow> string \<Rightarrow> u64 \<Rightarrow> u32 \<Rightarrow> (symstate, nat) expr" where
  "sym_add t name value type = bindE (stringspace_copy name) (\<lambda>str s.
     if t < length (symtabs s) then
       let p = length (symbols s); tab = symtabs s ! t; hn = sym_hash_name name; hv = sym_hash_value value
       in Ret p (s\<lparr>
            symbols := symbols s @ [\<lparr>sym_name = str, sym_value = value, ty_format = 0, ty_size = 0, sym_type = type,
              name_chain = syms_by_name tab ! hn, value_chain = syms_by_value tab ! hv\<rparr>],
            symtabs := (symtabs s)[t := tab\<lparr>syms_by_name := (syms_by_name tab)[hn := Some p],
              syms_by_value := (syms_by_value tab)[hv := Some p]\<rparr>]\<rparr>)
     else UB)"

definition sym_set :: "nat \<Rightarrow> string \<Rightarrow> u64 \<Rightarrow> u32 \<Rightarrow> symstate stmt" where
  "sym_set t name value type = bindE (sym_find1 t name type) (\<lambda>r.
     case r of
       Some p \<Rightarrow> assign (\<lambda>s. s\<lparr>symbols := (symbols s)[p := (symbols s ! p)\<lparr>sym_value := value\<rparr>]\<rparr>)
     | None \<Rightarrow> bindE (sym_add t name value type) (\<lambda>_. Ret ()))"

definition symtab_init :: "nat \<Rightarrow> symstate stmt" where
  "symtab_init t s = (if t < length (symtabs s) then
     Ret () (s\<lparr>symtabs := (symtabs s)[t := \<lparr>syms_by_name = replicate MAX_SYMBOL_HASH None,
       syms_by_value = replicate MAX_SYMBOL_HASH None, parent = None\<rparr>]\<rparr>) else UB)"

definition symtab_reset :: "nat \<Rightarrow> symstate stmt" where
  "symtab_reset t = symtab_init t"

definition sym_init :: "symstate stmt" where
  "sym_init = block [
     assign (\<lambda>s. s\<lparr>spaces := spaces s @ [stringspace_create], current_stringspace := length (spaces s)\<rparr>),
     symtab_init 0, symtab_init 1, symtab_init 2]"

section \<open>Strings stay\<close>

text \<open>A string lies at a pointer, below the mark up to which its space is used.\<close>

definition stored :: "symstate \<Rightarrow> nat \<times> nat \<Rightarrow> string \<Rightarrow> bool" where
  "stored s = (\<lambda>(b, p) str. NUL \<notin> set str \<and> b < length (spaces s)
     \<and> p + length str + 1 \<le> used (spaces s ! b) \<and> used (spaces s ! b) \<le> MAX_STRINGSPACE
     \<and> (\<forall>i \<le> length str. space (spaces s ! b) (p + i) = (str @ [NUL]) ! i))"

definition spaces_ok :: "symstate \<Rightarrow> bool" where
  "spaces_ok s \<longleftrightarrow> current_stringspace s < length (spaces s) \<and> (\<forall>sp \<in> set (spaces s). used sp \<le> MAX_STRINGSPACE)"

lemma strcmp_eq_correct:
  assumes "NUL \<notin> set name" "NUL \<notin> set str" "length str < n" "\<forall>i \<le> length str. f (p + i) = (str @ [NUL]) ! i"
  shows "strcmp_eq name n f p = Some (name = str)"
  using assms
proof (induction name n f p arbitrary: str rule: strcmp_eq.induct)
  case (1 str f p)
  then show ?case by simp
next
  case (2 n f p)
  then show ?case by (cases str) (auto dest: spec [of _ 0])
next
  case (3 c cs n f p)
  show ?case
  proof (cases str)
    case Nil
    then show ?thesis using 3 by auto
  next
    case (Cons d ds)
    have "f p = d" using 3(5) Cons by (auto dest: spec [of _ 0])
    moreover have "f (p + 1 + i) = (ds @ [NUL]) ! i" if "i \<le> length ds" for i
      using 3(5) [rule_format, of "Suc i"] that Cons by simp
    then have "strcmp_eq cs n f (p + 1) = Some (cs = ds)" if "f p = c"
      using 3(1) [OF that, of ds] 3(2-4) Cons by simp
    ultimately show ?thesis using Cons by auto
  qed
qed

lemma same_name_stored:
  assumes "stored s q str" "NUL \<notin> set name"
  shows "same_name name q s = Some (name = str)"
  using assms by (auto simp: stored_def same_name_def intro!: strcmp_eq_correct split: prod.splits)

lemma stored_mono:
  assumes "stored s q str"
    and "\<And>b. b < length (spaces s) \<Longrightarrow> b < length (spaces u) \<and> used (spaces s ! b) \<le> used (spaces u ! b)
      \<and> used (spaces u ! b) \<le> MAX_STRINGSPACE \<and> (\<forall>a < used (spaces s ! b). space (spaces u ! b) a = space (spaces s ! b) a)"
  shows "stored u q str"
proof -
  obtain b p where q: "q = (b, p)" by (cases q)
  then have "b < length (spaces s)" using assms(1) by (simp add: stored_def)
  with assms(2) [OF this] assms(1) show ?thesis by (auto simp: stored_def q)
qed

lemma stringspace_copy_ok:
  assumes "spaces_ok s" "NUL \<notin> set str" "length str < MAX_STRINGSPACE"
  shows "\<exists>q u. stringspace_copy str s = Ret q u \<and> spaces_ok u \<and> stored u q str
    \<and> (\<forall>q' str'. stored s q' str' \<longrightarrow> stored u q' str') \<and> symbols u = symbols s \<and> symtabs u = symtabs s"
proof -
  define s1 where "s1 = (if used (spaces s ! current_stringspace s) + (length str + 1) > MAX_STRINGSPACE
    then s\<lparr>spaces := spaces s @ [stringspace_create], current_stringspace := length (spaces s)\<rparr> else s)"
  define b where "b = current_stringspace s1"
  define p where "p = used (spaces s1 ! b)"
  define sp where "sp = \<lparr>space = (\<lambda>a. if p \<le> a \<and> a < p + (length str + 1) then (str @ [NUL]) ! (a - p)
    else space (spaces s1 ! b) a), used = p + (length str + 1)\<rparr>"
  define u where "u = s1\<lparr>spaces := (spaces s1)[b := sp]\<rparr>"
  have fit: "p + (length str + 1) \<le> MAX_STRINGSPACE"
    using assms(1,3) by (auto simp: p_def b_def s1_def stringspace_create_def nth_append)
  have ok: "spaces_ok s1" using assms(1) by (auto simp: spaces_ok_def s1_def stringspace_create_def)
  have b: "b < length (spaces s1)" using ok by (simp add: b_def spaces_ok_def)
  have run: "stringspace_copy str s = Ret (b, p) u"
    using fit unfolding stringspace_copy_def Let_def s1_def [symmetric] b_def [symmetric] p_def [symmetric]
      sp_def [symmetric] u_def [symmetric] by simp
  have "stored u (b, p) str" using b fit assms(2) by (simp add: stored_def u_def sp_def)
  moreover have "spaces_ok u"
    using ok fit b by (auto simp: spaces_ok_def u_def sp_def dest: set_update_subset_insert [THEN subsetD] simp flip: b_def)
  moreover have "stored u q' str'" if "stored s q' str'" for q' str'
  proof (rule stored_mono [OF stored_mono [OF that]])
    fix c assume c: "c < length (spaces s)"
    then show "c < length (spaces s1) \<and> used (spaces s ! c) \<le> used (spaces s1 ! c) \<and> used (spaces s1 ! c) \<le> MAX_STRINGSPACE
      \<and> (\<forall>a < used (spaces s ! c). space (spaces s1 ! c) a = space (spaces s ! c) a)"
      using assms(1) by (auto simp: s1_def nth_append spaces_ok_def)
  next
    fix c assume "c < length (spaces s1)"
    then show "c < length (spaces u) \<and> used (spaces s1 ! c) \<le> used (spaces u ! c) \<and> used (spaces u ! c) \<le> MAX_STRINGSPACE
      \<and> (\<forall>a < used (spaces s1 ! c). space (spaces u ! c) a = space (spaces s1 ! c) a)"
      using ok fit by (cases "c = b") (auto simp: u_def sp_def p_def spaces_ok_def)
  qed
  moreover have "symbols u = symbols s" "symtabs u = symtabs s" by (simp_all add: u_def s1_def)
  ultimately show ?thesis using run by blast
qed

lemma stringspace_copy_long: "MAX_STRINGSPACE \<le> length str \<Longrightarrow> stringspace_copy str s = UB"
  by (simp add: stringspace_copy_def Let_def)

section \<open>Chains\<close>

text \<open>The positions a chain of pointers visits.\<close>

primrec linked :: "(nat \<Rightarrow> nat option) \<Rightarrow> nat option \<Rightarrow> nat list \<Rightarrow> bool" where
  "linked nx p [] \<longleftrightarrow> p = None"
| "linked nx p (x # xs) \<longleftrightarrow> p = Some x \<and> linked nx (nx x) xs"

lemma linked_cong: "linked nx p xs \<Longrightarrow> (\<And>x. x \<in> set xs \<Longrightarrow> nx' x = nx x) \<Longrightarrow> linked nx' p xs"
  by (induction xs arbitrary: p) auto

lemma find_chain_linked:
  assumes "linked (\<lambda>p. name_chain (symbols s ! p)) p xs" "length xs \<le> n" "set xs \<subseteq> {..<length (symbols s)}"
    and "\<And>x. x \<in> set xs \<Longrightarrow> stored s (sym_name (symbols s ! x)) (nm x)" "NUL \<notin> set name"
  shows "find_chain n name p s = Ret (List.find (\<lambda>x. nm x = name) xs) s"
  using assms
proof (induction xs arbitrary: p n)
  case Nil
  then show ?case by simp
next
  case (Cons x xs)
  then obtain m where "n = Suc m" by (cases n) auto
  then show ?case using Cons same_name_stored [of s "sym_name (symbols s ! x)" "nm x" name] by simp
qed

lemma lookup_chain_linked:
  assumes "linked (\<lambda>p. value_chain (symbols s ! p)) p xs" "length xs \<le> n" "set xs \<subseteq> {..<length (symbols s)}"
  shows "lookup_chain n v p s = Ret (List.find (\<lambda>x. sym_value (symbols s ! x) = v) xs) s"
  using assms
proof (induction xs arbitrary: p n)
  case Nil
  then show ?case by simp
next
  case (Cons x xs)
  then obtain m where "n = Suc m" by (cases n) auto
  then show ?case using Cons by simp
qed

lemma chain_length: "distinct xs \<Longrightarrow> set xs \<subseteq> {..<n} \<Longrightarrow> length xs \<le> n"
  using card_mono [of "{..<n}" "set xs"] by (simp add: distinct_card)

text \<open>The invariant: \<open>N\<close> and \<open>V\<close> give the chains of every table and bucket, \<open>nm\<close> the name
  of every symbol. A symbol is in at most one chain of each kind and is filed under the hash of its name; its value
  may have changed since it was filed.\<close>

definition sym_inv :: "symstate \<Rightarrow> (nat \<Rightarrow> nat \<Rightarrow> nat list) \<Rightarrow> (nat \<Rightarrow> nat \<Rightarrow> nat list) \<Rightarrow> (nat \<Rightarrow> string) \<Rightarrow> bool" where
  "sym_inv s N V nm \<longleftrightarrow> spaces_ok s \<and> length (symtabs s) = 3
     \<and> (\<forall>t < 3. length (syms_by_name (symtabs s ! t)) = MAX_SYMBOL_HASH \<and> length (syms_by_value (symtabs s ! t)) = MAX_SYMBOL_HASH
          \<and> parent (symtabs s ! t) = None)
     \<and> (\<forall>t < 3. \<forall>h < MAX_SYMBOL_HASH. linked (\<lambda>p. name_chain (symbols s ! p)) (syms_by_name (symtabs s ! t) ! h) (N t h)
          \<and> distinct (N t h) \<and> set (N t h) \<subseteq> {..<length (symbols s)}
          \<and> linked (\<lambda>p. value_chain (symbols s ! p)) (syms_by_value (symtabs s ! t) ! h) (V t h)
          \<and> distinct (V t h) \<and> set (V t h) \<subseteq> {..<length (symbols s)})
     \<and> (\<forall>t < 3. \<forall>t' < 3. \<forall>h < MAX_SYMBOL_HASH. \<forall>h' < MAX_SYMBOL_HASH. \<forall>p. p \<in> set (N t h) \<longrightarrow> p \<in> set (N t' h') \<longrightarrow> t = t')
     \<and> (\<forall>t < 3. \<forall>h < MAX_SYMBOL_HASH. \<forall>p \<in> set (N t h). sym_hash_name (nm p) = h)
     \<and> (\<forall>p < length (symbols s). stored s (sym_name (symbols s ! p)) (nm p))"

lemma hash_bounds [simp]: "sym_hash_name name < MAX_SYMBOL_HASH" "sym_hash_value v < MAX_SYMBOL_HASH"
  by (simp_all add: sym_hash_name_def sym_hash_value_def MAX_SYMBOL_HASH_def Let_def unat_mod)

section \<open>Operations on the chains\<close>

lemma sym_invD:
  assumes "sym_inv s N V nm"
  shows "spaces_ok s" "length (symtabs s) = 3"
    and "t < 3 \<Longrightarrow> length (syms_by_name (symtabs s ! t)) = MAX_SYMBOL_HASH" "t < 3 \<Longrightarrow> length (syms_by_value (symtabs s ! t)) = MAX_SYMBOL_HASH"
    and "t < 3 \<Longrightarrow> parent (symtabs s ! t) = None"
    and "t < 3 \<Longrightarrow> h < MAX_SYMBOL_HASH \<Longrightarrow> linked (\<lambda>p. name_chain (symbols s ! p)) (syms_by_name (symtabs s ! t) ! h) (N t h)"
    and "t < 3 \<Longrightarrow> h < MAX_SYMBOL_HASH \<Longrightarrow> linked (\<lambda>p. value_chain (symbols s ! p)) (syms_by_value (symtabs s ! t) ! h) (V t h)"
    and "t < 3 \<Longrightarrow> h < MAX_SYMBOL_HASH \<Longrightarrow> distinct (N t h) \<and> distinct (V t h)"
    and "t < 3 \<Longrightarrow> h < MAX_SYMBOL_HASH \<Longrightarrow> p \<in> set (N t h) \<Longrightarrow> p < length (symbols s)"
    and "t < 3 \<Longrightarrow> h < MAX_SYMBOL_HASH \<Longrightarrow> p \<in> set (V t h) \<Longrightarrow> p < length (symbols s)"
    and "t < 3 \<Longrightarrow> t' < 3 \<Longrightarrow> h < MAX_SYMBOL_HASH \<Longrightarrow> h' < MAX_SYMBOL_HASH \<Longrightarrow> p \<in> set (N t h) \<Longrightarrow> p \<in> set (N t' h') \<Longrightarrow> t = t'"
    and "t < 3 \<Longrightarrow> h < MAX_SYMBOL_HASH \<Longrightarrow> p \<in> set (N t h) \<Longrightarrow> sym_hash_name (nm p) = h"
    and "p < length (symbols s) \<Longrightarrow> stored s (sym_name (symbols s ! p)) (nm p)"
  using assms unfolding sym_inv_def by blast+

lemma sym_find1_inv:
  assumes "sym_inv s N V nm" "t < 3" "NUL \<notin> set name"
  shows "sym_find1 t name ty s = Ret (case List.find (\<lambda>x. nm x = name) (N t (sym_hash_name name)) of
      None \<Rightarrow> None | Some p \<Rightarrow> if ty \<noteq> 0 \<and> sym_type (symbols s ! p) \<noteq> ty then None else Some p) s"
proof -
  note inv = sym_invD [OF assms(1)]
  let ?h = "sym_hash_name name"
  have sub: "set (N t ?h) \<subseteq> {..<length (symbols s)}" using inv(9) [OF assms(2) hash_bounds(1)] by auto
  have "find_chain (length (symbols s)) name (syms_by_name (symtabs s ! t) ! ?h) s = Ret (List.find (\<lambda>x. nm x = name) (N t ?h)) s"
    by (rule find_chain_linked [OF inv(6) [OF assms(2) hash_bounds(1)] chain_length [OF _ sub] sub])
      (use inv(8) [OF assms(2) hash_bounds(1)] inv(13) sub assms(3) in auto)
  then show ?thesis
    using inv(2,5) assms(2) by (simp add: sym_find1_def numeral_3_eq_3 split: option.split)
qed

lemma sym_lookup_inv:
  assumes "sym_inv s N V nm" "t < 3"
  shows "sym_lookup t v s = Ret (map_option (\<lambda>p. sym_name (symbols s ! p))
    (List.find (\<lambda>x. sym_value (symbols s ! x) = v) (V t (sym_hash_value v)))) s"
proof -
  note inv = sym_invD [OF assms(1)]
  let ?h = "sym_hash_value v"
  have sub: "set (V t ?h) \<subseteq> {..<length (symbols s)}" using inv(10) [OF assms(2) hash_bounds(2)] by auto
  have "lookup_chain (length (symbols s)) v (syms_by_value (symtabs s ! t) ! ?h) s
    = Ret (List.find (\<lambda>x. sym_value (symbols s ! x) = v) (V t ?h)) s"
    by (rule lookup_chain_linked [OF inv(7) [OF assms(2) hash_bounds(2)] chain_length [OF _ sub] sub])
      (use inv(8) [OF assms(2) hash_bounds(2)] in auto)
  then show ?thesis
    using inv(2,5) assms(2) by (simp add: sym_lookup_def numeral_3_eq_3 split: option.split)
qed

lemma set_value_inv:
  assumes "sym_inv s N V nm" "p < length (symbols s)"
  shows "sym_inv (s\<lparr>symbols := (symbols s)[p := (symbols s ! p)\<lparr>sym_value := v\<rparr>]\<rparr>) N V nm"
proof -
  have "f ((symbols s)[p := (symbols s ! p)\<lparr>sym_value := v\<rparr>] ! q) = f (symbols s ! q)"
    if "\<And>x. f (x\<lparr>sym_value := v\<rparr>) = f x" for f :: "symbol \<Rightarrow> 'b" and q
    using assms(2) that by (cases "q = p") auto
  from this [of name_chain] this [of value_chain] this [of sym_name] show ?thesis
    using assms(1) by (simp add: sym_inv_def spaces_ok_def stored_def)
qed

lemma sym_inv_link:
  assumes "sym_inv s N V nm" "t < 3" and p_def: "p = length (symbols s)" and tab: "tab = symtabs s ! t"
    and u: "symbols u = symbols s @ [sy]" "symtabs u = (symtabs s)[t := tab\<lparr>syms_by_name := (syms_by_name tab)[sym_hash_name name := Some p],
        syms_by_value := (syms_by_value tab)[hv := Some p]\<rparr>]"
      "spaces_ok u" "stored u (sym_name sy) name" "\<And>q' str'. stored s q' str' \<Longrightarrow> stored u q' str'"
      "name_chain sy = syms_by_name tab ! sym_hash_name name" "value_chain sy = syms_by_value tab ! hv" "hv < MAX_SYMBOL_HASH"
  shows "sym_inv u (N(t := (N t)(sym_hash_name name := p # N t (sym_hash_name name)))) (V(t := (V t)(hv := p # V t hv))) (nm(p := name))"
proof -
  note inv = sym_invD [OF assms(1)]
  let ?hn = "sym_hash_name name"
  have old: "symbols u ! i = symbols s ! i" if "i < p" for i using that by (simp add: u(1) p_def nth_append)
  have new: "symbols u ! p = sy" by (simp add: u(1) p_def nth_append)
  have fresh: "p \<notin> set (N t' h)" "p \<notin> set (V t' h)" if "t' < 3" "h < MAX_SYMBOL_HASH" for t' h
    using inv(9,10) [OF that, of p] by (auto simp: p_def)
  have keep: "linked (\<lambda>p. f (symbols u ! p)) r xs" if "linked (\<lambda>p. f (symbols s ! p)) r xs" "\<And>i. i \<in> set xs \<Longrightarrow> i < p"
    for f :: "symbol \<Rightarrow> nat option" and r xs
    using linked_cong [OF that(1)] old that(2) by metis
  let ?N = "N(t := (N t)(?hn := p # N t ?hn))" and ?V = "V(t := (V t)(hv := p # V t hv))"
  have tabs: "symtabs u ! t' = (if t' = t then tab\<lparr>syms_by_name := (syms_by_name tab)[?hn := Some p],
      syms_by_value := (syms_by_value tab)[hv := Some p]\<rparr> else symtabs s ! t')" if "t' < 3" for t'
    using that inv(2) by (simp add: u(2))
  have chains: "linked (\<lambda>p. name_chain (symbols u ! p)) (syms_by_name (symtabs u ! t') ! h) (?N t' h)
    \<and> linked (\<lambda>p. value_chain (symbols u ! p)) (syms_by_value (symtabs u ! t') ! h) (?V t' h)"
    if "t' < 3" "h < MAX_SYMBOL_HASH" for t' h
    using that keep [OF inv(6) [OF that] inv(9) [OF that, folded p_def]] keep [OF inv(7) [OF that] inv(10) [OF that, folded p_def]]
      inv(3,4) [OF assms(2), folded tab] by (auto simp: tabs new tab u(6,7))
  have len: "length (symbols u) = Suc p" by (simp add: u(1) p_def)
  show ?thesis
    unfolding sym_inv_def
  proof (intro conjI allI impI ballI)
    show "spaces_ok u" by (rule u(3))
    show "length (symtabs u) = 3" using inv(2) by (simp add: u(2))
  next
    fix t' assume t': "t' < (3 :: nat)"
    show "length (syms_by_name (symtabs u ! t')) = MAX_SYMBOL_HASH" "length (syms_by_value (symtabs u ! t')) = MAX_SYMBOL_HASH"
      "parent (symtabs u ! t') = None" using inv(3,4,5) t' by (simp_all add: tabs tab)
  next
    fix t' h assume th: "t' < (3 :: nat)" "h < MAX_SYMBOL_HASH"
    show "linked (\<lambda>p. name_chain (symbols u ! p)) (syms_by_name (symtabs u ! t') ! h) (?N t' h)"
      "linked (\<lambda>p. value_chain (symbols u ! p)) (syms_by_value (symtabs u ! t') ! h) (?V t' h)" using chains [OF th] by blast+
    show "distinct (?N t' h)" "distinct (?V t' h)" using inv(8) [OF th] fresh [OF th] by auto
    show "set (?N t' h) \<subseteq> {..<length (symbols u)}" "set (?V t' h) \<subseteq> {..<length (symbols u)}"
      using inv(9,10) [OF th] by (auto simp: len p_def less_Suc_eq)
  next
    fix t1 t2 h1 h2 i
    assume 1: "t1 < (3 :: nat)" "t2 < (3 :: nat)" "h1 < MAX_SYMBOL_HASH" "h2 < MAX_SYMBOL_HASH" "i \<in> set (?N t1 h1)" "i \<in> set (?N t2 h2)"
    show "t1 = t2"
    proof (cases "i = p")
      case True
      then show ?thesis using 1 fresh(1) [OF 1(1,3)] fresh(1) [OF 1(2,4)] by (auto split: if_splits)
    next
      case False
      then have "i \<in> set (N t1 h1)" "i \<in> set (N t2 h2)" using 1(5,6) by (auto split: if_splits)
      then show ?thesis by (rule inv(11) [OF 1(1-4)])
    qed
  next
    fix t' h i assume th: "t' < (3 :: nat)" "h < MAX_SYMBOL_HASH" "i \<in> set (?N t' h)"
    then show "sym_hash_name ((nm(p := name)) i) = h"
      using inv(12) [OF th(1,2), of i] fresh(1) [OF th(1,2)] by (auto split: if_splits)
  next
    fix i assume "i < length (symbols u)"
    then show "stored u (sym_name (symbols u ! i)) ((nm(p := name)) i)"
      using u(4) u(5) [OF inv(13), of i] old [of i] new by (cases "i = p") (auto simp: len less_Suc_eq p_def)
  qed
qed

lemma sym_add_inv:
  assumes "sym_inv s N V nm" "t < 3" "NUL \<notin> set name" "length name < MAX_STRINGSPACE"
  defines "p \<equiv> length (symbols s)"
  shows "\<exists>q u. sym_add t name v ty s = Ret p u
    \<and> sym_inv u (N(t := (N t)(sym_hash_name name := p # N t (sym_hash_name name))))
        (V(t := (V t)(sym_hash_value v := p # V t (sym_hash_value v)))) (nm(p := name))
    \<and> (\<forall>i < p. symbols u ! i = symbols s ! i)
    \<and> symbols u ! p = \<lparr>sym_name = q, sym_value = v, ty_format = 0, ty_size = 0, sym_type = ty,
         name_chain = syms_by_name (symtabs s ! t) ! sym_hash_name name, value_chain = syms_by_value (symtabs s ! t) ! sym_hash_value v\<rparr>
    \<and> (\<forall>q' str'. stored s q' str' \<longrightarrow> stored u q' str')"
proof -
  note inv = sym_invD [OF assms(1)]
  let ?hn = "sym_hash_name name" and ?hv = "sym_hash_value v"
  obtain q w where w: "stringspace_copy name s = Ret q w" "spaces_ok w" "stored w q name"
    "\<And>q' str'. stored s q' str' \<Longrightarrow> stored w q' str'" "symbols w = symbols s" "symtabs w = symtabs s"
    using stringspace_copy_ok [OF inv(1) assms(3,4)] by blast
  let ?tab = "symtabs s ! t"
  let ?new = "\<lparr>sym_name = q, sym_value = v, ty_format = 0, ty_size = 0, sym_type = ty,
    name_chain = syms_by_name ?tab ! ?hn, value_chain = syms_by_value ?tab ! ?hv\<rparr>"
  define u where "u = w\<lparr>symbols := symbols s @ [?new],
    symtabs := (symtabs s)[t := ?tab\<lparr>syms_by_name := (syms_by_name ?tab)[?hn := Some p],
      syms_by_value := (syms_by_value ?tab)[?hv := Some p]\<rparr>]\<rparr>"
  have run: "sym_add t name v ty s = Ret p u"
    using w(1,5,6) inv(2) assms(2) by (simp add: sym_add_def bindE_def Let_def u_def p_def)
  have old: "symbols u ! i = symbols s ! i" if "i < p" for i using that by (simp add: u_def p_def nth_append)
  have new: "symbols u ! p = ?new" by (simp add: u_def p_def nth_append)
  have st: "stored u q' str' \<longleftrightarrow> stored w q' str'" for q' str' by (simp add: stored_def u_def)
  have "sym_inv u (N(t := (N t)(?hn := p # N t ?hn))) (V(t := (V t)(?hv := p # V t ?hv))) (nm(p := name))"
    by (rule sym_inv_link [OF assms(1,2), where tab = ?tab and sy = ?new]) (use w st in \<open>auto simp: u_def p_def spaces_ok_def\<close>)
  moreover have "\<forall>q' str'. stored s q' str' \<longrightarrow> stored u q' str'" using w(4) st by blast
  ultimately show ?thesis using run old new by blast
qed

section \<open>A table is a map\<close>

text \<open>The abstract tables give every name a value and a type.\<close>

type_synonym tables = "nat \<Rightarrow> string \<Rightarrow> (u64 \<times> u32) option"

text \<open>A C string that fits a string space.\<close>

definition valid_name :: "string \<Rightarrow> bool" where
  "valid_name name \<longleftrightarrow> NUL \<notin> set name \<and> length name < MAX_STRINGSPACE"

definition type_ok :: "u32 \<Rightarrow> u32 \<Rightarrow> bool" where
  "type_ok type ty \<longleftrightarrow> type = 0 \<or> ty = type"

definition found :: "u32 \<Rightarrow> (u64 \<times> u32) option \<Rightarrow> int \<times> u64 option" where
  "found type e = (case e of Some (v, ty) \<Rightarrow> if type_ok type ty then (0, Some v) else (- 1, None) | None \<Rightarrow> (- 1, None))"

text \<open>What \<^verbatim>\<open>sym_set\<close> leaves for a name: the symbol found keeps its type.\<close>

definition reset_entry :: "u32 \<Rightarrow> u64 \<Rightarrow> (u64 \<times> u32) option \<Rightarrow> u64 \<times> u32" where
  "reset_entry type v e = (v, case e of Some (_, ty) \<Rightarrow> if type_ok type ty then ty else type | None \<Rightarrow> type)"

locale name_table =
  fixes rep :: "'s \<Rightarrow> tables \<Rightarrow> bool"
    and find :: "nat \<Rightarrow> string \<Rightarrow> u32 \<Rightarrow> ('s, int \<times> u64 option) expr"
    and add :: "nat \<Rightarrow> string \<Rightarrow> u64 \<Rightarrow> u32 \<Rightarrow> 's stmt"
    and set :: "nat \<Rightarrow> string \<Rightarrow> u64 \<Rightarrow> u32 \<Rightarrow> 's stmt"
  assumes find_law: "rep s A \<Longrightarrow> t < 3 \<Longrightarrow> valid_name name \<Longrightarrow> find t name type s = Ret (found type (A t name)) s"
    and add_law: "rep s A \<Longrightarrow> t < 3 \<Longrightarrow> valid_name name \<Longrightarrow>
      \<exists>u. add t name v type s = Ret () u \<and> rep u (A(t := (A t)(name \<mapsto> (v, type))))"
    and set_law: "rep s A \<Longrightarrow> t < 3 \<Longrightarrow> valid_name name \<Longrightarrow>
      \<exists>u. set t name v type s = Ret () u \<and> rep u (A(t := (A t)(name \<mapsto> reset_entry type v (A t name))))"
begin

text \<open>Loading a list of symbols: a later definition of a name hides an earlier one.\<close>

lemma add_all:
  assumes "rep s A" "t < 3" "\<forall>(name, v) \<in> List.set defs. valid_name name"
  shows "\<exists>u. block (map (\<lambda>(name, v). add t name v type) defs) s = Ret () u
    \<and> rep u (A(t := A t ++ map_of (rev (map (\<lambda>(name, v). (name, (v, type))) defs))))"
  using assms
proof (induction defs arbitrary: s A)
  case Nil
  then show ?case by simp
next
  case (Cons d defs)
  obtain name v where d: "d = (name, v)" by (cases d)
  obtain u where u: "add t name v type s = Ret () u" "rep u (A(t := (A t)(name \<mapsto> (v, type))))"
    using add_law [OF Cons(2,3), of name v type] Cons(4) d by auto
  let ?m = "map_of (rev (map (\<lambda>(name, v). (name, (v, type))) defs))"
  obtain w where w: "block (map (\<lambda>(name, v). add t name v type) defs) u = Ret () w" "rep w (A(t := (A t)(name \<mapsto> (v, type)) ++ ?m))"
    using Cons(1) [OF u(2) Cons(3)] Cons(4) by (auto simp del: fun_upd_apply simp: fun_upd_same)
  moreover have "(A t)(name \<mapsto> (v, type)) ++ ?m = A t ++ map_of (rev (map (\<lambda>(name, v). (name, (v, type))) (d # defs)))"
    by (auto simp: d fun_eq_iff map_add_def split: option.splits)
  ultimately have "rep w (A(t := A t ++ map_of (rev (map (\<lambda>(name, v). (name, (v, type))) (d # defs)))))" by metis
  moreover have "block (map (\<lambda>(name, v). add t name v type) (d # defs)) s = Ret () w" using u(1) w(1) d by simp
  ultimately show ?case by blast
qed

lemma find_after_adds:
  assumes "rep s A" "t < 3" "\<forall>(name, v) \<in> List.set defs. valid_name name" "valid_name name"
  shows "\<exists>u. block (map (\<lambda>(name, v). add t name v type) defs) s = Ret () u
    \<and> find t name 0 u = Ret (case map_of (rev defs) name of Some v \<Rightarrow> (0, Some v) | None \<Rightarrow> found 0 (A t name)) u"
proof -
  have "map_of (rev (map (\<lambda>(name, v). (name, (v, type))) defs)) name = map_option (\<lambda>v. (v, type)) (map_of (rev defs) name)"
    using map_of_map [of "\<lambda>v. (v, type)" "rev defs"] by (simp add: rev_map)
  moreover obtain u where "block (map (\<lambda>(name, v). add t name v type) defs) s = Ret () u"
    and u: "rep u (A(t := A t ++ map_of (rev (map (\<lambda>(name, v). (name, (v, type))) defs))))"
    using add_all [OF assms(1-3)] by blast
  moreover from find_law [OF u assms(2,4), of 0] have "find t name 0 u =
    Ret (found 0 ((A t ++ map_of (rev (map (\<lambda>(name, v). (name, (v, type))) defs))) name)) u" by simp
  ultimately show ?thesis
    by (cases "map_of (rev defs) name") (simp_all add: found_def type_ok_def map_add_def)
qed

lemma find_after_set:
  assumes "rep s A" "t < 3" "valid_name name"
  shows "\<exists>u. set t name v 0 s = Ret () u \<and> find t name 0 u = Ret (0, Some v) u
    \<and> (\<forall>t' name'. t' < 3 \<longrightarrow> valid_name name' \<longrightarrow> (t', name') \<noteq> (t, name) \<longrightarrow> find t' name' 0 u = Ret (found 0 (A t' name')) u)"
proof -
  obtain u where u: "set t name v 0 s = Ret () u" "rep u (A(t := (A t)(name \<mapsto> reset_entry 0 v (A t name))))"
    using set_law [OF assms] by blast
  have "find t name 0 u = Ret (0, Some v) u"
    using find_law [OF u(2) assms(2,3), of 0] by (simp add: found_def type_ok_def reset_entry_def)
  moreover have "find t' name' 0 u = Ret (found 0 (A t' name')) u" if "t' < 3" "valid_name name'" "(t', name') \<noteq> (t, name)" for t' name'
    using find_law [OF u(2) that(1,2), of 0] that(3) by auto
  ultimately show ?thesis using u(1) by blast
qed

end

definition rep_tables :: "symstate \<Rightarrow> tables \<Rightarrow> bool" where
  "rep_tables s A \<longleftrightarrow> (\<exists>N V nm. sym_inv s N V nm \<and> (\<forall>t < 3. \<forall>name. NUL \<notin> set name \<longrightarrow>
     A t name = map_option (\<lambda>p. (sym_value (symbols s ! p), sym_type (symbols s ! p)))
       (List.find (\<lambda>x. nm x = name) (N t (sym_hash_name name)))))"

lemma find_in: "List.find P xs = Some p \<Longrightarrow> p \<in> set xs \<and> P p"
  by (auto simp: find_Some_iff)

lemma map_find_cong:
  "(\<And>x. x \<in> set xs \<Longrightarrow> P x \<Longrightarrow> f x = g x) \<Longrightarrow> map_option f (List.find P xs) = map_option g (List.find P xs)"
  by (cases "List.find P xs") (auto dest: find_in)

lemma rep_find:
  assumes "rep_tables s A" "t < 3" "NUL \<notin> set name"
  shows "sym_find t name type s = Ret (found type (A t name)) s"
proof -
  obtain N V nm where inv: "sym_inv s N V nm" and A: "A t name = map_option (\<lambda>p. (sym_value (symbols s ! p), sym_type (symbols s ! p)))
       (List.find (\<lambda>x. nm x = name) (N t (sym_hash_name name)))"
    using assms by (auto simp: rep_tables_def)
  show ?thesis
    by (auto simp: sym_find_def bindE_def sym_find1_inv [OF inv assms(2,3)] A found_def type_ok_def split: option.splits)
qed

lemma rep_add:
  assumes "rep_tables s A" "t < 3" "valid_name name"
  shows "\<exists>p u. sym_add t name v type s = Ret p u \<and> rep_tables u (A(t := (A t)(name \<mapsto> (v, type))))"
proof -
  obtain N V nm where inv: "sym_inv s N V nm" and A: "\<And>t name. t < 3 \<Longrightarrow> NUL \<notin> set name \<Longrightarrow>
     A t name = map_option (\<lambda>p. (sym_value (symbols s ! p), sym_type (symbols s ! p)))
       (List.find (\<lambda>x. nm x = name) (N t (sym_hash_name name)))"
    using assms(1) by (auto simp: rep_tables_def)
  let ?p = "length (symbols s)"
  let ?N = "N(t := (N t)(sym_hash_name name := ?p # N t (sym_hash_name name)))"
  obtain q u V' nm' where u: "sym_add t name v type s = Ret ?p u" "sym_inv u ?N V' nm'" and nm': "nm' = nm(?p := name)"
    and u':     "\<forall>i < ?p. symbols u ! i = symbols s ! i" "sym_value (symbols u ! ?p) = v" "sym_type (symbols u ! ?p) = type"
    using sym_add_inv [OF inv assms(2), of name v type] assms(3) by (auto simp: valid_name_def)
  have "(A(t := (A t)(name \<mapsto> (v, type)))) t' name' = map_option (\<lambda>p. (sym_value (symbols u ! p), sym_type (symbols u ! p)))
       (List.find (\<lambda>x. nm' x = name') (?N t' (sym_hash_name name')))" if n: "t' < 3" "NUL \<notin> set name'" for t' name'
  proof -
    let ?xs = "N t' (sym_hash_name name')"
    have lt: "x < ?p" if "x \<in> set ?xs" for x using sym_invD(9) [OF inv n(1) hash_bounds(1) that] .
    have "List.find (\<lambda>x. nm' x = name') ?xs = List.find (\<lambda>x. nm x = name') ?xs"
      by (rule find_cong) (use lt nm' in auto)
    moreover have "map_option (\<lambda>p. (sym_value (symbols u ! p), sym_type (symbols u ! p))) (List.find (\<lambda>x. nm x = name') ?xs) = A t' name'"
      using lt u'(1) by (auto simp: A [OF n] dest: find_in intro!: option.map_cong)
    moreover have "nm' ?p = name" by (simp add: nm')
    ultimately show ?thesis using u'(2,3) by auto
  qed
  then show ?thesis using u(1,2) unfolding rep_tables_def by blast
qed

lemma rep_set:
  assumes "rep_tables s A" "t < 3" "valid_name name"
  shows "\<exists>u. sym_set t name v type s = Ret () u \<and> rep_tables u (A(t := (A t)(name \<mapsto> reset_entry type v (A t name))))"
proof -
  obtain N V nm where inv: "sym_inv s N V nm" and A: "\<And>t name. t < 3 \<Longrightarrow> NUL \<notin> set name \<Longrightarrow>
     A t name = map_option (\<lambda>p. (sym_value (symbols s ! p), sym_type (symbols s ! p)))
       (List.find (\<lambda>x. nm x = name) (N t (sym_hash_name name)))"
    using assms(1) by (auto simp: rep_tables_def)
  have nul: "NUL \<notin> set name" using assms(3) by (simp add: valid_name_def)
  show ?thesis
  proof (cases "\<exists>p. List.find (\<lambda>x. nm x = name) (N t (sym_hash_name name)) = Some p \<and> type_ok type (sym_type (symbols s ! p))")
    case True
    then obtain p where p: "List.find (\<lambda>x. nm x = name) (N t (sym_hash_name name)) = Some p" "type_ok type (sym_type (symbols s ! p))" by blast
    let ?u = "s\<lparr>symbols := (symbols s)[p := (symbols s ! p)\<lparr>sym_value := v\<rparr>]\<rparr>"
    have pin: "p \<in> set (N t (sym_hash_name name))" "nm p = name" using find_in [OF p(1)] by auto
    have lt: "p < length (symbols s)" by (rule sym_invD(9) [OF inv assms(2) hash_bounds(1) pin(1)])
    have run: "sym_set t name v type s = Ret () ?u"
      using p by (auto simp: sym_set_def bindE_def sym_find1_inv [OF inv assms(2) nul] type_ok_def assign_def)
    have "(A(t := (A t)(name \<mapsto> reset_entry type v (A t name)))) t' name' = map_option (\<lambda>p. (sym_value (symbols ?u ! p), sym_type (symbols ?u ! p)))
       (List.find (\<lambda>x. nm x = name') (N t' (sym_hash_name name')))" if n: "t' < 3" "NUL \<notin> set name'" for t' name'
    proof (cases "t' = t \<and> name' = name")
      case True
      then show ?thesis using p lt by (simp add: A [OF assms(2) nul] reset_entry_def)
    next
      case False
      have "symbols ?u ! x = symbols s ! x" if "x \<in> set (N t' (sym_hash_name name'))" "nm x = name'" for x
      proof -
        have "p \<noteq> x" using that False pin sym_invD(11) [OF inv n(1) assms(2) hash_bounds(1) hash_bounds(1)] by blast
        then show ?thesis by simp
      qed
      then have "map_option (\<lambda>p. (sym_value (symbols s ! p), sym_type (symbols s ! p))) (List.find (\<lambda>x. nm x = name') (N t' (sym_hash_name name')))
        = map_option (\<lambda>p. (sym_value (symbols ?u ! p), sym_type (symbols ?u ! p))) (List.find (\<lambda>x. nm x = name') (N t' (sym_hash_name name')))"
        by (intro map_find_cong) simp
      then show ?thesis using False A [OF n] by auto
    qed
    then show ?thesis using run set_value_inv [OF inv lt] unfolding rep_tables_def by blast
  next
    case False
    then have "sym_find1 t name type s = Ret None s" "reset_entry type v (A t name) = (v, type)"
      by (auto simp: sym_find1_inv [OF inv assms(2) nul] A [OF assms(2) nul] reset_entry_def type_ok_def split: option.splits)
    then show ?thesis using rep_add [OF assms, of v type] by (auto simp: sym_set_def bindE_def)
  qed
qed

interpretation symtab_map: name_table rep_tables sym_find "\<lambda>t name v type. bindE (sym_add t name v type) (\<lambda>_. Ret ())" sym_set
proof
  show "rep_tables s A \<Longrightarrow> t < 3 \<Longrightarrow> valid_name name \<Longrightarrow> sym_find t name type s = Ret (found type (A t name)) s" for s A t name type
    by (simp add: rep_find valid_name_def)
  show "rep_tables s A \<Longrightarrow> t < 3 \<Longrightarrow> valid_name name \<Longrightarrow>
      \<exists>u. bindE (sym_add t name v type) (\<lambda>_. Ret ()) s = Ret () u \<and> rep_tables u (A(t := (A t)(name \<mapsto> (v, type))))" for s A t name v type
    using rep_add [of s A t name v type] by (auto simp: bindE_def)
  show "rep_tables s A \<Longrightarrow> t < 3 \<Longrightarrow> valid_name name \<Longrightarrow>
      \<exists>u. sym_set t name v type s = Ret () u \<and> rep_tables u (A(t := (A t)(name \<mapsto> reset_entry type v (A t name))))" for s A t name v type
    by (rule rep_set)
qed

text \<open>The globals before \<^verbatim>\<open>sym_init\<close>: nothing allocated, the three tables zero.\<close>

definition empty_symtab :: symtab where
  "empty_symtab = \<lparr>syms_by_name = replicate MAX_SYMBOL_HASH None, syms_by_value = replicate MAX_SYMBOL_HASH None, parent = None\<rparr>"

definition sym_power_on :: symstate where
  "sym_power_on = \<lparr>spaces = [], current_stringspace = 0, symbols = [], symtabs = [empty_symtab, empty_symtab, empty_symtab]\<rparr>"

definition sym_start :: symstate where
  "sym_start = sym_power_on\<lparr>spaces := [stringspace_create]\<rparr>"

lemma sym_init_start: "sym_init sym_power_on = Ret () sym_start"
  by (simp add: sym_init_def assign_def symtab_init_def sym_power_on_def sym_start_def numeral_2_eq_2 flip: empty_symtab_def)

lemma rep_start: "rep_tables sym_start (\<lambda>_ _. None)"
proof -
  have tab: "symtabs sym_start ! t = empty_symtab" if "t < 3" for t
    using that by (simp add: sym_start_def sym_power_on_def nth_Cons split: nat.split)
  have "symbols sym_start = []" "length (symtabs sym_start) = 3" "spaces_ok sym_start"
    by (simp_all add: sym_start_def sym_power_on_def spaces_ok_def stringspace_create_def)
  then have "sym_inv sym_start (\<lambda>_ _. []) (\<lambda>_ _. []) (\<lambda>_. [])"
    by (simp add: sym_inv_def tab empty_symtab_def)
  then show ?thesis unfolding rep_tables_def by fastforce
qed

text \<open>(C31) The hash tables refine maps from names to values and types: looking up a name reads the map, adding a
  symbol overrides the entry of that name in that table only, setting one changes the value, keeping the type of
  the symbol it finds, or adds it; all three return, for every state that represents a map and every name that
  fits a string space. The tables that \<^verbatim>\<open>sym_init\<close> makes represent the empty map.\<close>

theorem symtab_refines_map:
  assumes "rep_tables s A" "t < 3" "valid_name name"
  shows "sym_find t name type s = Ret (found type (A t name)) s
    \<and> (\<exists>p u. sym_add t name v type s = Ret p u \<and> rep_tables u (A(t := (A t)(name \<mapsto> (v, type)))))
    \<and> (\<exists>u. sym_set t name v type s = Ret () u \<and> rep_tables u (A(t := (A t)(name \<mapsto> reset_entry type v (A t name)))))
    \<and> (\<exists>z. sym_init sym_power_on = Ret () z \<and> rep_tables z (\<lambda>_ _. None))"
  using symtab_map.find_law [OF assms] rep_add [OF assms] symtab_map.set_law [OF assms] sym_init_start rep_start by blast

theorem symtab_refines_map_witness:
  "\<exists>p u. sym_add 0 ''main'' 0x8000 0 sym_start = Ret p u \<and> rep_tables u ((\<lambda>_ _. None)(0 := [''main'' \<mapsto> (0x8000, 0)]))"
  using symtab_refines_map [OF rep_start, of 0 "''main''"] by (simp add: valid_name_def NUL_def MAX_STRINGSPACE_def)

text \<open>A symbol file loaded from the start of the program: after adding a list of definitions to a table, a name
  has the value of its last definition, and names without a definition are not found.\<close>

theorem symtab_load:
  assumes "t < 3" "\<forall>(name, v) \<in> set defs. valid_name name" "valid_name name"
  shows "\<exists>u. block (sym_init # map (\<lambda>(name, v). bindE (sym_add t name v 0) (\<lambda>_. Ret ())) defs) sym_power_on = Ret () u
    \<and> sym_find t name 0 u = Ret (case map_of (rev defs) name of Some v \<Rightarrow> (0, Some v) | None \<Rightarrow> (- 1, None)) u"
  using symtab_map.find_after_adds [OF rep_start assms] by (simp add: sym_init_start found_def cong: option.case_cong)

theorem symtab_load_witness:
  "\<exists>u. block (sym_init # map (\<lambda>(name, v). bindE (sym_add 0 name v 0) (\<lambda>_. Ret ())) [(''a'', 1), (''b'', 2), (''a'', 3)]) sym_power_on = Ret () u
    \<and> sym_find 0 ''a'' 0 u = Ret (0, Some 3) u"
  using symtab_load [of 0 "[(''a'', 1), (''b'', 2), (''a'', 3)]" "''a''"] by (simp add: valid_name_def NUL_def MAX_STRINGSPACE_def)

text \<open>From a value back to the name: after a symbol is added, its value leads to a copy of its name, and the
  lookup of any other value in that table gives what it gave before.\<close>

theorem sym_lookup_after_add:
  assumes "rep_tables s A" "t < 3" "valid_name name"
  shows "\<exists>p u q. sym_add t name v type s = Ret p u \<and> sym_lookup t v u = Ret (Some q) u \<and> stored u q name
    \<and> (\<forall>v' r. v' \<noteq> v \<longrightarrow> sym_lookup t v' s = Ret r s \<longrightarrow> sym_lookup t v' u = Ret r u)"
proof -
  obtain N V nm where inv: "sym_inv s N V nm" using assms(1) by (auto simp: rep_tables_def)
  let ?p = "length (symbols s)" and ?V = "V(t := (V t)(sym_hash_value v := length (symbols s) # V t (sym_hash_value v)))"
  obtain q u N' where u: "sym_add t name v type s = Ret ?p u" "sym_inv u N' ?V (nm(?p := name))"
    "\<And>i. i < ?p \<Longrightarrow> symbols u ! i = symbols s ! i" "sym_value (symbols u ! ?p) = v"
    using sym_add_inv [OF inv assms(2), of name v type] assms(3) by (auto simp: valid_name_def)
  note look = sym_lookup_inv [OF u(2) assms(2)]
  have "?p < length (symbols u)"
    by (rule sym_invD(10) [OF u(2) assms(2) hash_bounds(2), of _ v]) simp
  then have "stored u (sym_name (symbols u ! ?p)) name" using sym_invD(13) [OF u(2), of ?p] by simp
  moreover have "sym_lookup t v u = Ret (Some (sym_name (symbols u ! ?p))) u" using u(4) by (simp add: look)
  moreover have "sym_lookup t v' u = Ret r u" if "v' \<noteq> v" "sym_lookup t v' s = Ret r s" for v' r
  proof -
    let ?xs = "V t (sym_hash_value v')"
    have same: "symbols u ! x = symbols s ! x" if "x \<in> set ?xs" for x
      using u(3) sym_invD(10) [OF inv assms(2) hash_bounds(2) that] by blast
    then have "List.find (\<lambda>x. sym_value (symbols u ! x) = v') ?xs = List.find (\<lambda>x. sym_value (symbols s ! x) = v') ?xs"
      by (intro find_cong) auto
    moreover have "map_option (\<lambda>p. sym_name (symbols u ! p)) (List.find (\<lambda>x. sym_value (symbols s ! x) = v') ?xs)
      = map_option (\<lambda>p. sym_name (symbols s ! p)) (List.find (\<lambda>x. sym_value (symbols s ! x) = v') ?xs)"
      using same by (intro map_find_cong) simp
    ultimately show ?thesis using that u(4) by (auto simp: look sym_lookup_inv [OF inv assms(2)])
  qed
  ultimately show ?thesis using u(1) by blast
qed

theorem sym_lookup_after_add_witness:
  "\<exists>p u q. sym_add 0 ''main'' 0x8000 0 sym_start = Ret p u \<and> sym_lookup 0 0x8000 u = Ret (Some q) u \<and> stored u q ''main''"
  using sym_lookup_after_add [OF rep_start, of 0 "''main''" "0x8000" 0] by (auto simp: valid_name_def NUL_def MAX_STRINGSPACE_def)

lemma strcmp_numeral [simp]:
  "strcmp_eq [] (numeral k) f p = Some (f p = NUL)"
  "strcmp_eq (c # cs) (numeral k) f p = (if f p = c then strcmp_eq cs (pred_numeral k) f (p + 1) else Some False)"
  by (simp_all add: numeral_eq_Suc)

text \<open>Setting a symbol does not file it again under its new value: a symbol set from 5 to 6 is found by name with 6,
  and neither 5 nor 6 leads back to its name.\<close>

theorem sym_set_loses_value:
  "\<exists>u v w. block [sym_init, sym_set 1 ''k'' 5 0, sym_set 1 ''k'' 6 0] sym_power_on = Ret () u
    \<and> sym_find 1 ''k'' 0 u = Ret (0, Some 6) v \<and> sym_lookup 1 6 u = Ret None w \<and> sym_lookup 1 5 u = Ret None w"
proof -
  have h: "sym_hash_name ''k'' = 330" "sym_hash_value 5 = 5" "sym_hash_value 6 = 6" by code_simp+
  show ?thesis
    by (simp add: sym_init_start) (simp add: sym_set_def sym_find1_def sym_add_def sym_find_def sym_lookup_def bindE_def assign_def h
        stringspace_copy_def same_name_def sym_start_def sym_power_on_def empty_symtab_def MAX_SYMBOL_HASH_def MAX_STRINGSPACE_def stringspace_create_def Let_def)
qed

end
