(* ===== verification/Disasm.thy ===== *)
theory Disasm
  imports System Symtab
begin

text \<open>
  The disassembler of the debugger (\<^verbatim>\<open>dasm\<close> in \<^verbatim>\<open>monitor.c\<close>): the opcode and mnemonic tables,
  the formatting of \<^verbatim>\<open>sprintf\<close> it uses, names of addresses from the symbol table, and the decoding of one
  instruction into its text and its size in bytes. The lemmas relate its tables to the processor's switch, bound
  the size and the text, and show where the text is wrong.
\<close>

section \<open>Tables\<close>

datatype addr_mode =
    am_illegal | am_implied | am_imm_byte | am_imm_word | am_direct | am_extended | am_indexed | am_rel_byte |
    am_rel_word | am_reg_post | am_sys_post | am_usr_post

text \<open>The enumerators of \<^verbatim>\<open>enum opcode\<close>, kept in bytes in the tables.\<close>

type_synonym opcode = nat

abbreviation (input) op_undoc :: opcode where "op_undoc \<equiv> 0"
abbreviation (input) op_abx :: opcode where "op_abx \<equiv> 1"
abbreviation (input) op_adca :: opcode where "op_adca \<equiv> 2"
abbreviation (input) op_adcb :: opcode where "op_adcb \<equiv> 3"
abbreviation (input) op_adda :: opcode where "op_adda \<equiv> 4"
abbreviation (input) op_addb :: opcode where "op_addb \<equiv> 5"
abbreviation (input) op_addd :: opcode where "op_addd \<equiv> 6"
abbreviation (input) op_anda :: opcode where "op_anda \<equiv> 7"
abbreviation (input) op_andb :: opcode where "op_andb \<equiv> 8"
abbreviation (input) op_andcc :: opcode where "op_andcc \<equiv> 9"
abbreviation (input) op_asla :: opcode where "op_asla \<equiv> 10"
abbreviation (input) op_aslb :: opcode where "op_aslb \<equiv> 11"
abbreviation (input) op_asl :: opcode where "op_asl \<equiv> 12"
abbreviation (input) op_asra :: opcode where "op_asra \<equiv> 13"
abbreviation (input) op_asrb :: opcode where "op_asrb \<equiv> 14"
abbreviation (input) op_asr :: opcode where "op_asr \<equiv> 15"
abbreviation (input) op_bcc :: opcode where "op_bcc \<equiv> 16"
abbreviation (input) op_lbcc :: opcode where "op_lbcc \<equiv> 17"
abbreviation (input) op_bcs :: opcode where "op_bcs \<equiv> 18"
abbreviation (input) op_lbcs :: opcode where "op_lbcs \<equiv> 19"
abbreviation (input) op_beq :: opcode where "op_beq \<equiv> 20"
abbreviation (input) op_lbeq :: opcode where "op_lbeq \<equiv> 21"
abbreviation (input) op_bge :: opcode where "op_bge \<equiv> 22"
abbreviation (input) op_lbge :: opcode where "op_lbge \<equiv> 23"
abbreviation (input) op_bgt :: opcode where "op_bgt \<equiv> 24"
abbreviation (input) op_lbgt :: opcode where "op_lbgt \<equiv> 25"
abbreviation (input) op_bhi :: opcode where "op_bhi \<equiv> 26"
abbreviation (input) op_lbhi :: opcode where "op_lbhi \<equiv> 27"
abbreviation (input) op_bita :: opcode where "op_bita \<equiv> 28"
abbreviation (input) op_bitb :: opcode where "op_bitb \<equiv> 29"
abbreviation (input) op_ble :: opcode where "op_ble \<equiv> 30"
abbreviation (input) op_lble :: opcode where "op_lble \<equiv> 31"
abbreviation (input) op_bls :: opcode where "op_bls \<equiv> 32"
abbreviation (input) op_lbls :: opcode where "op_lbls \<equiv> 33"
abbreviation (input) op_blt :: opcode where "op_blt \<equiv> 34"
abbreviation (input) op_lblt :: opcode where "op_lblt \<equiv> 35"
abbreviation (input) op_bmi :: opcode where "op_bmi \<equiv> 36"
abbreviation (input) op_lbmi :: opcode where "op_lbmi \<equiv> 37"
abbreviation (input) op_bne :: opcode where "op_bne \<equiv> 38"
abbreviation (input) op_lbne :: opcode where "op_lbne \<equiv> 39"
abbreviation (input) op_bpl :: opcode where "op_bpl \<equiv> 40"
abbreviation (input) op_lbpl :: opcode where "op_lbpl \<equiv> 41"
abbreviation (input) op_bra :: opcode where "op_bra \<equiv> 42"
abbreviation (input) op_lbra :: opcode where "op_lbra \<equiv> 43"
abbreviation (input) op_brn :: opcode where "op_brn \<equiv> 44"
abbreviation (input) op_lbrn :: opcode where "op_lbrn \<equiv> 45"
abbreviation (input) op_bsr :: opcode where "op_bsr \<equiv> 46"
abbreviation (input) op_lbsr :: opcode where "op_lbsr \<equiv> 47"
abbreviation (input) op_bvc :: opcode where "op_bvc \<equiv> 48"
abbreviation (input) op_lbvc :: opcode where "op_lbvc \<equiv> 49"
abbreviation (input) op_bvs :: opcode where "op_bvs \<equiv> 50"
abbreviation (input) op_lbvs :: opcode where "op_lbvs \<equiv> 51"
abbreviation (input) op_clra :: opcode where "op_clra \<equiv> 52"
abbreviation (input) op_clrb :: opcode where "op_clrb \<equiv> 53"
abbreviation (input) op_clr :: opcode where "op_clr \<equiv> 54"
abbreviation (input) op_cmpa :: opcode where "op_cmpa \<equiv> 55"
abbreviation (input) op_cmpb :: opcode where "op_cmpb \<equiv> 56"
abbreviation (input) op_cmpd :: opcode where "op_cmpd \<equiv> 57"
abbreviation (input) op_cmps :: opcode where "op_cmps \<equiv> 58"
abbreviation (input) op_cmpu :: opcode where "op_cmpu \<equiv> 59"
abbreviation (input) op_cmpx :: opcode where "op_cmpx \<equiv> 60"
abbreviation (input) op_cmpy :: opcode where "op_cmpy \<equiv> 61"
abbreviation (input) op_coma :: opcode where "op_coma \<equiv> 62"
abbreviation (input) op_comb :: opcode where "op_comb \<equiv> 63"
abbreviation (input) op_com :: opcode where "op_com \<equiv> 64"
abbreviation (input) op_cwai :: opcode where "op_cwai \<equiv> 65"
abbreviation (input) op_daa :: opcode where "op_daa \<equiv> 66"
abbreviation (input) op_deca :: opcode where "op_deca \<equiv> 67"
abbreviation (input) op_decb :: opcode where "op_decb \<equiv> 68"
abbreviation (input) op_dec :: opcode where "op_dec \<equiv> 69"
abbreviation (input) op_eora :: opcode where "op_eora \<equiv> 70"
abbreviation (input) op_eorb :: opcode where "op_eorb \<equiv> 71"
abbreviation (input) op_exg :: opcode where "op_exg \<equiv> 72"
abbreviation (input) op_inca :: opcode where "op_inca \<equiv> 73"
abbreviation (input) op_incb :: opcode where "op_incb \<equiv> 74"
abbreviation (input) op_inc :: opcode where "op_inc \<equiv> 75"
abbreviation (input) op_jmp :: opcode where "op_jmp \<equiv> 76"
abbreviation (input) op_jsr :: opcode where "op_jsr \<equiv> 77"
abbreviation (input) op_lda :: opcode where "op_lda \<equiv> 78"
abbreviation (input) op_ldb :: opcode where "op_ldb \<equiv> 79"
abbreviation (input) op_ldd :: opcode where "op_ldd \<equiv> 80"
abbreviation (input) op_lds :: opcode where "op_lds \<equiv> 81"
abbreviation (input) op_ldu :: opcode where "op_ldu \<equiv> 82"
abbreviation (input) op_ldx :: opcode where "op_ldx \<equiv> 83"
abbreviation (input) op_ldy :: opcode where "op_ldy \<equiv> 84"
abbreviation (input) op_leas :: opcode where "op_leas \<equiv> 85"
abbreviation (input) op_leau :: opcode where "op_leau \<equiv> 86"
abbreviation (input) op_leax :: opcode where "op_leax \<equiv> 87"
abbreviation (input) op_leay :: opcode where "op_leay \<equiv> 88"
abbreviation (input) op_lsra :: opcode where "op_lsra \<equiv> 89"
abbreviation (input) op_lsrb :: opcode where "op_lsrb \<equiv> 90"
abbreviation (input) op_lsr :: opcode where "op_lsr \<equiv> 91"
abbreviation (input) op_mul :: opcode where "op_mul \<equiv> 92"
abbreviation (input) op_nega :: opcode where "op_nega \<equiv> 93"
abbreviation (input) op_negb :: opcode where "op_negb \<equiv> 94"
abbreviation (input) op_neg :: opcode where "op_neg \<equiv> 95"
abbreviation (input) op_nop :: opcode where "op_nop \<equiv> 96"
abbreviation (input) op_ora :: opcode where "op_ora \<equiv> 97"
abbreviation (input) op_orb :: opcode where "op_orb \<equiv> 98"
abbreviation (input) op_orcc :: opcode where "op_orcc \<equiv> 99"
abbreviation (input) op_pshs :: opcode where "op_pshs \<equiv> 100"
abbreviation (input) op_pshu :: opcode where "op_pshu \<equiv> 101"
abbreviation (input) op_puls :: opcode where "op_puls \<equiv> 102"
abbreviation (input) op_pulu :: opcode where "op_pulu \<equiv> 103"
abbreviation (input) op_rola :: opcode where "op_rola \<equiv> 104"
abbreviation (input) op_rolb :: opcode where "op_rolb \<equiv> 105"
abbreviation (input) op_rol :: opcode where "op_rol \<equiv> 106"
abbreviation (input) op_rora :: opcode where "op_rora \<equiv> 107"
abbreviation (input) op_rorb :: opcode where "op_rorb \<equiv> 108"
abbreviation (input) op_ror :: opcode where "op_ror \<equiv> 109"
abbreviation (input) op_rti :: opcode where "op_rti \<equiv> 110"
abbreviation (input) op_rts :: opcode where "op_rts \<equiv> 111"
abbreviation (input) op_sbca :: opcode where "op_sbca \<equiv> 112"
abbreviation (input) op_sbcb :: opcode where "op_sbcb \<equiv> 113"
abbreviation (input) op_sex :: opcode where "op_sex \<equiv> 114"
abbreviation (input) op_sta :: opcode where "op_sta \<equiv> 115"
abbreviation (input) op_stb :: opcode where "op_stb \<equiv> 116"
abbreviation (input) op_std :: opcode where "op_std \<equiv> 117"
abbreviation (input) op_sts :: opcode where "op_sts \<equiv> 118"
abbreviation (input) op_stu :: opcode where "op_stu \<equiv> 119"
abbreviation (input) op_stx :: opcode where "op_stx \<equiv> 120"
abbreviation (input) op_sty :: opcode where "op_sty \<equiv> 121"
abbreviation (input) op_suba :: opcode where "op_suba \<equiv> 122"
abbreviation (input) op_subb :: opcode where "op_subb \<equiv> 123"
abbreviation (input) op_subd :: opcode where "op_subd \<equiv> 124"
abbreviation (input) op_swi :: opcode where "op_swi \<equiv> 125"
abbreviation (input) op_swi2 :: opcode where "op_swi2 \<equiv> 126"
abbreviation (input) op_swi3 :: opcode where "op_swi3 \<equiv> 127"
abbreviation (input) op_sync :: opcode where "op_sync \<equiv> 128"
abbreviation (input) op_tfr :: opcode where "op_tfr \<equiv> 129"
abbreviation (input) op_tsta :: opcode where "op_tsta \<equiv> 130"
abbreviation (input) op_tstb :: opcode where "op_tstb \<equiv> 131"
abbreviation (input) op_tst :: opcode where "op_tst \<equiv> 132"
abbreviation (input) op_reset :: opcode where "op_reset \<equiv> 133"

definition mne :: "string list" where
  "mne = [
     ''???'', ''ABX'', ''ADCA'', ''ADCB'', ''ADDA'', ''ADDB'', ''ADDD'', ''ANDA'', ''ANDB'', ''ANDCC'',
     ''ASLA'', ''ASLB'', ''ASL'', ''ASRA'', ''ASRB'', ''ASR'', ''BCC'', ''LBCC'', ''BCS'', ''LBCS'', ''BEQ'',
     ''LBEQ'', ''BGE'', ''LBGE'', ''BGT'', ''LBGT'', ''BHI'', ''LBHI'', ''BITA'', ''BITB'', ''BLE'', ''LBLE'',
     ''BLS'', ''LBLS'', ''BLT'', ''LBLT'', ''BMI'', ''LBMI'', ''BNE'', ''LBNE'', ''BPL'', ''LBPL'', ''BRA'',
     ''LBRA'', ''BRN'', ''LBRN'', ''BSR'', ''LBSR'', ''BVC'', ''LBVC'', ''BVS'', ''LBVS'', ''CLRA'', ''CLRB'',
     ''CLR'', ''CMPA'', ''CMPB'', ''CMPD'', ''CMPS'', ''CMPU'', ''CMPX'', ''CMPY'', ''COMA'', ''COMB'', ''COM'',
     ''CWAI'', ''DAA'', ''DECA'', ''DECB'', ''DEC'', ''EORA'', ''EORB'', ''EXG'', ''INCA'', ''INCB'', ''INC'',
     ''JMP'', ''JSR'', ''LDA'', ''LDB'', ''LDD'', ''LDS'', ''LDU'', ''LDX'', ''LDY'', ''LEAS'', ''LEAU'',
     ''LEAX'', ''LEAY'', ''LSRA'', ''LSRB'', ''LSR'', ''MUL'', ''NEGA'', ''NEGB'', ''NEG'', ''NOP'', ''ORA'',
     ''ORB'', ''ORCC'', ''PSHS'', ''PSHU'', ''PULS'', ''PULU'', ''ROLA'', ''ROLB'', ''ROL'', ''RORA'', ''RORB'',
     ''ROR'', ''RTI'', ''RTS'', ''SBCA'', ''SBCB'', ''SEX'', ''STA'', ''STB'', ''STD'', ''STS'', ''STU'',
     ''STX'', ''STY'', ''SUBA'', ''SUBB'', ''SUBD'', ''SWI'', ''SWI2'', ''SWI3'', ''SYNC'', ''TFR'', ''TSTA'',
     ''TSTB'', ''TST'', ''RESET'']"

definition codes_lo :: "(opcode \<times> addr_mode) list" where
  "codes_lo = [
     (op_neg, am_direct), (op_undoc, am_illegal), (op_undoc, am_illegal), (op_com, am_direct),
     (op_lsr, am_direct), (op_undoc, am_illegal), (op_ror, am_direct), (op_asr, am_direct), (op_asl, am_direct),
     (op_rol, am_direct), (op_dec, am_direct), (op_undoc, am_illegal), (op_inc, am_direct), (op_tst, am_direct),
     (op_jmp, am_direct), (op_clr, am_direct), (op_undoc, am_illegal), (op_undoc, am_illegal),
     (op_nop, am_implied), (op_sync, am_implied), (op_undoc, am_illegal), (op_undoc, am_illegal),
     (op_lbra, am_rel_word), (op_lbsr, am_rel_word), (op_undoc, am_illegal), (op_daa, am_implied),
     (op_orcc, am_imm_byte), (op_undoc, am_illegal), (op_andcc, am_imm_byte), (op_sex, am_implied),
     (op_exg, am_reg_post), (op_tfr, am_reg_post), (op_bra, am_rel_byte), (op_brn, am_rel_byte),
     (op_bhi, am_rel_byte), (op_bls, am_rel_byte), (op_bcc, am_rel_byte), (op_bcs, am_rel_byte),
     (op_bne, am_rel_byte), (op_beq, am_rel_byte), (op_bvc, am_rel_byte), (op_bvs, am_rel_byte),
     (op_bpl, am_rel_byte), (op_bmi, am_rel_byte), (op_bge, am_rel_byte), (op_blt, am_rel_byte),
     (op_bgt, am_rel_byte), (op_ble, am_rel_byte), (op_leax, am_indexed), (op_leay, am_indexed),
     (op_leas, am_indexed), (op_leau, am_indexed), (op_pshs, am_sys_post), (op_puls, am_sys_post),
     (op_pshu, am_usr_post), (op_pulu, am_usr_post), (op_undoc, am_illegal), (op_rts, am_implied),
     (op_abx, am_implied), (op_rti, am_implied), (op_cwai, am_imm_byte), (op_mul, am_implied),
     (op_reset, am_implied), (op_swi, am_implied), (op_nega, am_implied), (op_undoc, am_illegal),
     (op_undoc, am_illegal), (op_coma, am_implied), (op_lsra, am_implied), (op_undoc, am_illegal),
     (op_rora, am_implied), (op_asra, am_implied), (op_asla, am_implied), (op_rola, am_implied),
     (op_deca, am_implied), (op_undoc, am_illegal), (op_inca, am_implied), (op_tsta, am_implied),
     (op_undoc, am_illegal), (op_clra, am_implied), (op_negb, am_implied), (op_undoc, am_illegal),
     (op_undoc, am_illegal), (op_comb, am_implied), (op_lsrb, am_implied), (op_undoc, am_illegal),
     (op_rorb, am_implied), (op_asrb, am_implied), (op_aslb, am_implied), (op_rolb, am_implied),
     (op_decb, am_implied), (op_undoc, am_illegal), (op_incb, am_implied), (op_tstb, am_implied),
     (op_undoc, am_illegal), (op_clrb, am_implied), (op_neg, am_indexed), (op_undoc, am_illegal),
     (op_undoc, am_illegal), (op_com, am_indexed), (op_lsr, am_indexed), (op_undoc, am_illegal),
     (op_ror, am_indexed), (op_asr, am_indexed), (op_asl, am_indexed), (op_rol, am_indexed),
     (op_dec, am_indexed), (op_undoc, am_illegal), (op_inc, am_indexed), (op_tst, am_indexed),
     (op_jmp, am_indexed), (op_clr, am_indexed), (op_neg, am_extended), (op_undoc, am_illegal),
     (op_undoc, am_illegal), (op_com, am_extended), (op_lsr, am_extended), (op_undoc, am_illegal),
     (op_ror, am_extended), (op_asr, am_extended), (op_asl, am_extended), (op_rol, am_extended),
     (op_dec, am_extended), (op_undoc, am_illegal), (op_inc, am_extended), (op_tst, am_extended),
     (op_jmp, am_extended), (op_clr, am_extended)]"

definition codes_hi :: "(opcode \<times> addr_mode) list" where
  "codes_hi = [
     (op_suba, am_imm_byte), (op_cmpa, am_imm_byte), (op_sbca, am_imm_byte), (op_subd, am_imm_word),
     (op_anda, am_imm_byte), (op_bita, am_imm_byte), (op_lda, am_imm_byte), (op_undoc, am_illegal),
     (op_eora, am_imm_byte), (op_adca, am_imm_byte), (op_ora, am_imm_byte), (op_adda, am_imm_byte),
     (op_cmpx, am_imm_word), (op_bsr, am_rel_byte), (op_ldx, am_imm_word), (op_undoc, am_illegal),
     (op_suba, am_direct), (op_cmpa, am_direct), (op_sbca, am_direct), (op_subd, am_direct),
     (op_anda, am_direct), (op_bita, am_direct), (op_lda, am_direct), (op_sta, am_direct), (op_eora, am_direct),
     (op_adca, am_direct), (op_ora, am_direct), (op_adda, am_direct), (op_cmpx, am_direct), (op_jsr, am_direct),
     (op_ldx, am_direct), (op_stx, am_direct), (op_suba, am_indexed), (op_cmpa, am_indexed),
     (op_sbca, am_indexed), (op_subd, am_indexed), (op_anda, am_indexed), (op_bita, am_indexed),
     (op_lda, am_indexed), (op_sta, am_indexed), (op_eora, am_indexed), (op_adca, am_indexed),
     (op_ora, am_indexed), (op_adda, am_indexed), (op_cmpx, am_indexed), (op_jsr, am_indexed),
     (op_ldx, am_indexed), (op_stx, am_indexed), (op_suba, am_extended), (op_cmpa, am_extended),
     (op_sbca, am_extended), (op_subd, am_extended), (op_anda, am_extended), (op_bita, am_extended),
     (op_lda, am_extended), (op_sta, am_extended), (op_eora, am_extended), (op_adca, am_extended),
     (op_ora, am_extended), (op_adda, am_extended), (op_cmpx, am_extended), (op_jsr, am_extended),
     (op_ldx, am_extended), (op_stx, am_extended), (op_subb, am_imm_byte), (op_cmpb, am_imm_byte),
     (op_sbcb, am_imm_byte), (op_addd, am_imm_word), (op_andb, am_imm_byte), (op_bitb, am_imm_byte),
     (op_ldb, am_imm_byte), (op_undoc, am_illegal), (op_eorb, am_imm_byte), (op_adcb, am_imm_byte),
     (op_orb, am_imm_byte), (op_addb, am_imm_byte), (op_ldd, am_imm_word), (op_undoc, am_illegal),
     (op_ldu, am_imm_word), (op_undoc, am_illegal), (op_subb, am_direct), (op_cmpb, am_direct),
     (op_sbcb, am_direct), (op_addd, am_direct), (op_andb, am_direct), (op_bitb, am_direct),
     (op_ldb, am_direct), (op_stb, am_direct), (op_eorb, am_direct), (op_adcb, am_direct), (op_orb, am_direct),
     (op_addb, am_direct), (op_ldd, am_direct), (op_std, am_direct), (op_ldu, am_direct), (op_stu, am_direct),
     (op_subb, am_indexed), (op_cmpb, am_indexed), (op_sbcb, am_indexed), (op_addd, am_indexed),
     (op_andb, am_indexed), (op_bitb, am_indexed), (op_ldb, am_indexed), (op_stb, am_indexed),
     (op_eorb, am_indexed), (op_adcb, am_indexed), (op_orb, am_indexed), (op_addb, am_indexed),
     (op_ldd, am_indexed), (op_std, am_indexed), (op_ldu, am_indexed), (op_stu, am_indexed),
     (op_subb, am_extended), (op_cmpb, am_extended), (op_sbcb, am_extended), (op_addd, am_extended),
     (op_andb, am_extended), (op_bitb, am_extended), (op_ldb, am_extended), (op_stb, am_extended),
     (op_eorb, am_extended), (op_adcb, am_extended), (op_orb, am_extended), (op_addb, am_extended),
     (op_ldd, am_extended), (op_std, am_extended), (op_ldu, am_extended), (op_stu, am_extended)]"

definition codes :: "(opcode \<times> addr_mode) list" where
  "codes = codes_lo @ codes_hi"

definition codes10_lo :: "(opcode \<times> addr_mode) list" where
  "codes10_lo = [
     (op_undoc, am_illegal), (op_undoc, am_illegal), (op_undoc, am_illegal), (op_undoc, am_illegal),
     (op_undoc, am_illegal), (op_undoc, am_illegal), (op_undoc, am_illegal), (op_undoc, am_illegal),
     (op_undoc, am_illegal), (op_undoc, am_illegal), (op_undoc, am_illegal), (op_undoc, am_illegal),
     (op_undoc, am_illegal), (op_undoc, am_illegal), (op_undoc, am_illegal), (op_undoc, am_illegal),
     (op_undoc, am_illegal), (op_undoc, am_illegal), (op_undoc, am_illegal), (op_undoc, am_illegal),
     (op_undoc, am_illegal), (op_undoc, am_illegal), (op_undoc, am_illegal), (op_undoc, am_illegal),
     (op_undoc, am_illegal), (op_undoc, am_illegal), (op_undoc, am_illegal), (op_undoc, am_illegal),
     (op_undoc, am_illegal), (op_undoc, am_illegal), (op_undoc, am_illegal), (op_undoc, am_illegal),
     (op_undoc, am_illegal), (op_lbrn, am_rel_word), (op_lbhi, am_rel_word), (op_lbls, am_rel_word),
     (op_lbcc, am_rel_word), (op_lbcs, am_rel_word), (op_lbne, am_rel_word), (op_lbeq, am_rel_word),
     (op_lbvc, am_rel_word), (op_lbvs, am_rel_word), (op_lbpl, am_rel_word), (op_lbmi, am_rel_word),
     (op_lbge, am_rel_word), (op_lblt, am_rel_word), (op_lbgt, am_rel_word), (op_lble, am_rel_word),
     (op_undoc, am_illegal), (op_undoc, am_illegal), (op_undoc, am_illegal), (op_undoc, am_illegal),
     (op_undoc, am_illegal), (op_undoc, am_illegal), (op_undoc, am_illegal), (op_undoc, am_illegal),
     (op_undoc, am_illegal), (op_undoc, am_illegal), (op_undoc, am_illegal), (op_undoc, am_illegal),
     (op_undoc, am_illegal), (op_undoc, am_illegal), (op_undoc, am_illegal), (op_swi2, am_implied),
     (op_undoc, am_illegal), (op_undoc, am_illegal), (op_undoc, am_illegal), (op_undoc, am_illegal),
     (op_undoc, am_illegal), (op_undoc, am_illegal), (op_undoc, am_illegal), (op_undoc, am_illegal),
     (op_undoc, am_illegal), (op_undoc, am_illegal), (op_undoc, am_illegal), (op_undoc, am_illegal),
     (op_undoc, am_illegal), (op_undoc, am_illegal), (op_undoc, am_illegal), (op_undoc, am_illegal),
     (op_undoc, am_illegal), (op_undoc, am_illegal), (op_undoc, am_illegal), (op_undoc, am_illegal),
     (op_undoc, am_illegal), (op_undoc, am_illegal), (op_undoc, am_illegal), (op_undoc, am_illegal),
     (op_undoc, am_illegal), (op_undoc, am_illegal), (op_undoc, am_illegal), (op_undoc, am_illegal),
     (op_undoc, am_illegal), (op_undoc, am_illegal), (op_undoc, am_illegal), (op_undoc, am_illegal),
     (op_undoc, am_illegal), (op_undoc, am_illegal), (op_undoc, am_illegal), (op_undoc, am_illegal),
     (op_undoc, am_illegal), (op_undoc, am_illegal), (op_undoc, am_illegal), (op_undoc, am_illegal),
     (op_undoc, am_illegal), (op_undoc, am_illegal), (op_undoc, am_illegal), (op_undoc, am_illegal),
     (op_undoc, am_illegal), (op_undoc, am_illegal), (op_undoc, am_illegal), (op_undoc, am_illegal),
     (op_undoc, am_illegal), (op_undoc, am_illegal), (op_undoc, am_illegal), (op_undoc, am_illegal),
     (op_undoc, am_illegal), (op_undoc, am_illegal), (op_undoc, am_illegal), (op_undoc, am_illegal),
     (op_undoc, am_illegal), (op_undoc, am_illegal), (op_undoc, am_illegal), (op_undoc, am_illegal),
     (op_undoc, am_illegal), (op_undoc, am_illegal), (op_undoc, am_illegal), (op_undoc, am_illegal)]"

definition codes10_hi :: "(opcode \<times> addr_mode) list" where
  "codes10_hi = [
     (op_undoc, am_illegal), (op_undoc, am_illegal), (op_undoc, am_illegal), (op_cmpd, am_imm_word),
     (op_undoc, am_illegal), (op_undoc, am_illegal), (op_undoc, am_illegal), (op_undoc, am_illegal),
     (op_undoc, am_illegal), (op_undoc, am_illegal), (op_undoc, am_illegal), (op_undoc, am_illegal),
     (op_cmpy, am_imm_word), (op_undoc, am_illegal), (op_ldy, am_imm_word), (op_undoc, am_illegal),
     (op_undoc, am_illegal), (op_undoc, am_illegal), (op_undoc, am_illegal), (op_cmpd, am_direct),
     (op_undoc, am_illegal), (op_undoc, am_illegal), (op_undoc, am_illegal), (op_undoc, am_illegal),
     (op_undoc, am_illegal), (op_undoc, am_illegal), (op_undoc, am_illegal), (op_undoc, am_illegal),
     (op_cmpy, am_direct), (op_undoc, am_illegal), (op_ldy, am_direct), (op_sty, am_direct),
     (op_undoc, am_illegal), (op_undoc, am_illegal), (op_undoc, am_illegal), (op_cmpd, am_indexed),
     (op_undoc, am_illegal), (op_undoc, am_illegal), (op_undoc, am_illegal), (op_undoc, am_illegal),
     (op_undoc, am_illegal), (op_undoc, am_illegal), (op_undoc, am_illegal), (op_undoc, am_illegal),
     (op_cmpy, am_indexed), (op_undoc, am_illegal), (op_ldy, am_indexed), (op_sty, am_indexed),
     (op_undoc, am_illegal), (op_undoc, am_illegal), (op_undoc, am_illegal), (op_cmpd, am_extended),
     (op_undoc, am_illegal), (op_undoc, am_illegal), (op_undoc, am_illegal), (op_undoc, am_illegal),
     (op_undoc, am_illegal), (op_undoc, am_illegal), (op_undoc, am_illegal), (op_undoc, am_illegal),
     (op_cmpy, am_extended), (op_undoc, am_illegal), (op_ldy, am_extended), (op_sty, am_extended),
     (op_undoc, am_illegal), (op_undoc, am_illegal), (op_undoc, am_illegal), (op_undoc, am_illegal),
     (op_undoc, am_illegal), (op_undoc, am_illegal), (op_undoc, am_illegal), (op_undoc, am_illegal),
     (op_undoc, am_illegal), (op_undoc, am_illegal), (op_undoc, am_illegal), (op_undoc, am_illegal),
     (op_undoc, am_illegal), (op_undoc, am_illegal), (op_lds, am_imm_word), (op_undoc, am_illegal),
     (op_undoc, am_illegal), (op_undoc, am_illegal), (op_undoc, am_illegal), (op_undoc, am_illegal),
     (op_undoc, am_illegal), (op_undoc, am_illegal), (op_undoc, am_illegal), (op_undoc, am_illegal),
     (op_undoc, am_illegal), (op_undoc, am_illegal), (op_undoc, am_illegal), (op_undoc, am_illegal),
     (op_undoc, am_illegal), (op_undoc, am_illegal), (op_lds, am_direct), (op_sts, am_direct),
     (op_undoc, am_illegal), (op_undoc, am_illegal), (op_undoc, am_illegal), (op_undoc, am_illegal),
     (op_undoc, am_illegal), (op_undoc, am_illegal), (op_undoc, am_illegal), (op_undoc, am_illegal),
     (op_undoc, am_illegal), (op_undoc, am_illegal), (op_undoc, am_illegal), (op_undoc, am_illegal),
     (op_undoc, am_illegal), (op_undoc, am_illegal), (op_lds, am_indexed), (op_sts, am_indexed),
     (op_undoc, am_illegal), (op_undoc, am_illegal), (op_undoc, am_illegal), (op_undoc, am_illegal),
     (op_undoc, am_illegal), (op_undoc, am_illegal), (op_undoc, am_illegal), (op_undoc, am_illegal),
     (op_undoc, am_illegal), (op_undoc, am_illegal), (op_undoc, am_illegal), (op_undoc, am_illegal),
     (op_undoc, am_illegal), (op_undoc, am_illegal), (op_lds, am_extended), (op_sts, am_extended)]"

definition codes10 :: "(opcode \<times> addr_mode) list" where
  "codes10 = codes10_lo @ codes10_hi"

definition codes11_lo :: "(opcode \<times> addr_mode) list" where
  "codes11_lo = [
     (op_undoc, am_illegal), (op_undoc, am_illegal), (op_undoc, am_illegal), (op_undoc, am_illegal),
     (op_undoc, am_illegal), (op_undoc, am_illegal), (op_undoc, am_illegal), (op_undoc, am_illegal),
     (op_undoc, am_illegal), (op_undoc, am_illegal), (op_undoc, am_illegal), (op_undoc, am_illegal),
     (op_undoc, am_illegal), (op_undoc, am_illegal), (op_undoc, am_illegal), (op_undoc, am_illegal),
     (op_undoc, am_illegal), (op_undoc, am_illegal), (op_undoc, am_illegal), (op_undoc, am_illegal),
     (op_undoc, am_illegal), (op_undoc, am_illegal), (op_undoc, am_illegal), (op_undoc, am_illegal),
     (op_undoc, am_illegal), (op_undoc, am_illegal), (op_undoc, am_illegal), (op_undoc, am_illegal),
     (op_undoc, am_illegal), (op_undoc, am_illegal), (op_undoc, am_illegal), (op_undoc, am_illegal),
     (op_undoc, am_illegal), (op_undoc, am_illegal), (op_undoc, am_illegal), (op_undoc, am_illegal),
     (op_undoc, am_illegal), (op_undoc, am_illegal), (op_undoc, am_illegal), (op_undoc, am_illegal),
     (op_undoc, am_illegal), (op_undoc, am_illegal), (op_undoc, am_illegal), (op_undoc, am_illegal),
     (op_undoc, am_illegal), (op_undoc, am_illegal), (op_undoc, am_illegal), (op_undoc, am_illegal),
     (op_undoc, am_illegal), (op_undoc, am_illegal), (op_undoc, am_illegal), (op_undoc, am_illegal),
     (op_undoc, am_illegal), (op_undoc, am_illegal), (op_undoc, am_illegal), (op_undoc, am_illegal),
     (op_undoc, am_illegal), (op_undoc, am_illegal), (op_undoc, am_illegal), (op_undoc, am_illegal),
     (op_undoc, am_illegal), (op_undoc, am_illegal), (op_undoc, am_illegal), (op_swi3, am_implied),
     (op_undoc, am_illegal), (op_undoc, am_illegal), (op_undoc, am_illegal), (op_undoc, am_illegal),
     (op_undoc, am_illegal), (op_undoc, am_illegal), (op_undoc, am_illegal), (op_undoc, am_illegal),
     (op_undoc, am_illegal), (op_undoc, am_illegal), (op_undoc, am_illegal), (op_undoc, am_illegal),
     (op_undoc, am_illegal), (op_undoc, am_illegal), (op_undoc, am_illegal), (op_undoc, am_illegal),
     (op_undoc, am_illegal), (op_undoc, am_illegal), (op_undoc, am_illegal), (op_undoc, am_illegal),
     (op_undoc, am_illegal), (op_undoc, am_illegal), (op_undoc, am_illegal), (op_undoc, am_illegal),
     (op_undoc, am_illegal), (op_undoc, am_illegal), (op_undoc, am_illegal), (op_undoc, am_illegal),
     (op_undoc, am_illegal), (op_undoc, am_illegal), (op_undoc, am_illegal), (op_undoc, am_illegal),
     (op_undoc, am_illegal), (op_undoc, am_illegal), (op_undoc, am_illegal), (op_undoc, am_illegal),
     (op_undoc, am_illegal), (op_undoc, am_illegal), (op_undoc, am_illegal), (op_undoc, am_illegal),
     (op_undoc, am_illegal), (op_undoc, am_illegal), (op_undoc, am_illegal), (op_undoc, am_illegal),
     (op_undoc, am_illegal), (op_undoc, am_illegal), (op_undoc, am_illegal), (op_undoc, am_illegal),
     (op_undoc, am_illegal), (op_undoc, am_illegal), (op_undoc, am_illegal), (op_undoc, am_illegal),
     (op_undoc, am_illegal), (op_undoc, am_illegal), (op_undoc, am_illegal), (op_undoc, am_illegal),
     (op_undoc, am_illegal), (op_undoc, am_illegal), (op_undoc, am_illegal), (op_undoc, am_illegal),
     (op_undoc, am_illegal), (op_undoc, am_illegal), (op_undoc, am_illegal), (op_undoc, am_illegal)]"

definition codes11_hi :: "(opcode \<times> addr_mode) list" where
  "codes11_hi = [
     (op_undoc, am_illegal), (op_undoc, am_illegal), (op_undoc, am_illegal), (op_cmpu, am_imm_word),
     (op_undoc, am_illegal), (op_undoc, am_illegal), (op_undoc, am_illegal), (op_undoc, am_illegal),
     (op_undoc, am_illegal), (op_undoc, am_illegal), (op_undoc, am_illegal), (op_undoc, am_illegal),
     (op_cmps, am_imm_word), (op_undoc, am_illegal), (op_undoc, am_illegal), (op_undoc, am_illegal),
     (op_undoc, am_illegal), (op_undoc, am_illegal), (op_undoc, am_illegal), (op_cmpu, am_direct),
     (op_undoc, am_illegal), (op_undoc, am_illegal), (op_undoc, am_illegal), (op_undoc, am_illegal),
     (op_undoc, am_illegal), (op_undoc, am_illegal), (op_undoc, am_illegal), (op_undoc, am_illegal),
     (op_cmps, am_direct), (op_undoc, am_illegal), (op_undoc, am_illegal), (op_undoc, am_illegal),
     (op_undoc, am_illegal), (op_undoc, am_illegal), (op_undoc, am_illegal), (op_cmpu, am_indexed),
     (op_undoc, am_illegal), (op_undoc, am_illegal), (op_undoc, am_illegal), (op_undoc, am_illegal),
     (op_undoc, am_illegal), (op_undoc, am_illegal), (op_undoc, am_illegal), (op_undoc, am_illegal),
     (op_cmps, am_indexed), (op_undoc, am_illegal), (op_undoc, am_illegal), (op_undoc, am_illegal),
     (op_undoc, am_illegal), (op_undoc, am_illegal), (op_undoc, am_illegal), (op_cmpu, am_extended),
     (op_undoc, am_illegal), (op_undoc, am_illegal), (op_undoc, am_illegal), (op_undoc, am_illegal),
     (op_undoc, am_illegal), (op_undoc, am_illegal), (op_undoc, am_illegal), (op_undoc, am_illegal),
     (op_cmps, am_extended), (op_undoc, am_illegal), (op_undoc, am_illegal), (op_undoc, am_illegal),
     (op_undoc, am_illegal), (op_undoc, am_illegal), (op_undoc, am_illegal), (op_undoc, am_illegal),
     (op_undoc, am_illegal), (op_undoc, am_illegal), (op_undoc, am_illegal), (op_undoc, am_illegal),
     (op_undoc, am_illegal), (op_undoc, am_illegal), (op_undoc, am_illegal), (op_undoc, am_illegal),
     (op_undoc, am_illegal), (op_undoc, am_illegal), (op_undoc, am_illegal), (op_undoc, am_illegal),
     (op_undoc, am_illegal), (op_undoc, am_illegal), (op_undoc, am_illegal), (op_undoc, am_illegal),
     (op_undoc, am_illegal), (op_undoc, am_illegal), (op_undoc, am_illegal), (op_undoc, am_illegal),
     (op_undoc, am_illegal), (op_undoc, am_illegal), (op_undoc, am_illegal), (op_undoc, am_illegal),
     (op_undoc, am_illegal), (op_undoc, am_illegal), (op_undoc, am_illegal), (op_undoc, am_illegal),
     (op_undoc, am_illegal), (op_undoc, am_illegal), (op_undoc, am_illegal), (op_undoc, am_illegal),
     (op_undoc, am_illegal), (op_undoc, am_illegal), (op_undoc, am_illegal), (op_undoc, am_illegal),
     (op_undoc, am_illegal), (op_undoc, am_illegal), (op_undoc, am_illegal), (op_undoc, am_illegal),
     (op_undoc, am_illegal), (op_undoc, am_illegal), (op_undoc, am_illegal), (op_undoc, am_illegal),
     (op_undoc, am_illegal), (op_undoc, am_illegal), (op_undoc, am_illegal), (op_undoc, am_illegal),
     (op_undoc, am_illegal), (op_undoc, am_illegal), (op_undoc, am_illegal), (op_undoc, am_illegal),
     (op_undoc, am_illegal), (op_undoc, am_illegal), (op_undoc, am_illegal), (op_undoc, am_illegal),
     (op_undoc, am_illegal), (op_undoc, am_illegal), (op_undoc, am_illegal), (op_undoc, am_illegal)]"

definition codes11 :: "(opcode \<times> addr_mode) list" where
  "codes11 = codes11_lo @ codes11_hi"

definition os9syscall :: "string list" where
  "os9syscall = [
     ''F$Link'', ''F$Load'', ''F$UnLink'', ''F$Fork'', ''F$Wait'', ''F$Chain'', ''F$Exit'', ''F$Mem'',
     ''F$Send'', ''F$Icpt'', ''F$Sleep'', ''F$SSpd'', ''F$ID'', ''F$SPrior'', ''F$SSWI'', ''F$PErr'',
     ''F$PrsNam'', ''F$CmpNam'', ''F$SchBit'', ''F$AllBit'', ''F$DelBit'', ''F$Time'', ''F$STime'', ''F$CRC'',
     ''F$GPrDsc'', ''F$GBlkMp'', ''F$GModDr'', ''F$CpyMem'', ''F$SUser'', ''F$UnLoad'', ''F$Alarm'', ''F$1F'',
     ''F$20'', ''F$NMLink'', ''F$NMLoad'', ''F$Debu'', ''F$24'', ''F$TPS'', ''F$TimAlm'', ''F$VIRQ'',
     ''F$SRqMem'', ''F$SRtMem'', ''F$IRQ'', ''F$IOQu'', ''F$AProc'', ''F$NProc'', ''F$VModul'', ''F$Find64'',
     ''F$All64'', ''F$Ret64'', ''F$SSvc'', ''F$IODel'', ''F$SLink'', ''F$Boot'', ''F$BtMem'', ''F$GProcP'',
     ''F$Move'', ''F$AllRAM'', ''F$AllImg'', ''F$DelImg'', ''F$SetImg'', ''F$FreeLB'', ''F$FreeHB'',
     ''F$AllTsk'', ''F$DelTsk'', ''F$SetTsk'', ''F$ResTsk'', ''F$RelTsk'', ''F$DATLog'', ''F$DATTmp'',
     ''F$LDAXY'', ''F$LDAXYP'', ''F$LDDDXY'', ''F$LDABX'', ''F$STABX'', ''F$AllPrc'', ''F$DelPrc'', ''F$ELink'',
     ''F$FModul'', ''F$MapBlk'', ''F$ClrBlk'', ''F$DelRAM'', ''F$GCMDir'', ''F$AlHRAM'', ''F$ReBoot'',
     ''F$CRCMod'', ''F$XTime'', ''F$VBlock'', ''F$58'', ''F$59'', ''F$5A'', ''F$5B'', ''F$5C'', ''F$5D'',
     ''F$5E'', ''F$5F'', ''F$60'', ''F$61'', ''F$62'', ''F$63'', ''F$64'', ''F$65'', ''F$66'', ''F$67'',
     ''F$68'', ''F$69'', ''F$6A'', ''F$6B'', ''F$6C'', ''F$6D'', ''F$6E'', ''F$6F'', ''F$RegDmp'', ''F$NVRAM'',
     ''F$72'', ''F$73'', ''F$74'', ''F$75'', ''F$76'', ''F$77'', ''F$78'', ''F$79'', ''F$7A'', ''F$7B'',
     ''F$7C'', ''F$7D'', ''F$7E'', ''F$7F'', ''I$Attach'', ''I$Detach'', ''I$Dup'', ''I$Create'', ''I$Open'',
     ''I$MakDir'', ''I$ChgDir'', ''I$Delete'', ''I$Seek'', ''I$Read'', ''I$Write'', ''I$ReadLn'', ''I$WritLn'',
     ''I$GetStt'', ''I$SetStt'', ''I$Close'', ''I$DeletX'']"

definition reg :: "string list" where
  "reg = [''D'', ''X'', ''Y'', ''U'', ''S'', ''PC'', ''??'', ''??'', ''A'', ''B'', ''CC'', ''DP'', ''??'', ''??'', ''??'', ''??'']"

definition index_reg_name :: "string" where
  "index_reg_name = ''XYUS''"

definition off4 :: "string list" where
  "off4 = [''0'', ''1'', ''2'', ''3'', ''4'', ''5'', ''6'', ''7'', ''8'', ''9'', ''10'', ''11'', ''12'', ''13'', ''14'', ''15'',
     ''-16'', ''-15'', ''-14'', ''-13'', ''-12'', ''-11'', ''-10'', ''-9'', ''-8'', ''-7'', ''-6'', ''-5'', ''-4'', ''-3'', ''-2'', ''-1'']"

section \<open>Formatting\<close>

text \<open>The conversions of \<^verbatim>\<open>sprintf\<close>: \<open>%X\<close> and \<open>%x\<close>, padding to a width on the left, and
  \<open>%-w.ws\<close>, which cuts and pads on the right.\<close>

definition HEX :: string where "HEX = ''0123456789ABCDEF''"

definition hex :: string where "hex = ''0123456789abcdef''"

fun digits :: "string \<Rightarrow> nat \<Rightarrow> string" where
  "digits d n = (if n < 16 then [d ! n] else digits d (n div 16) @ [d ! (n mod 16)])"

declare digits.simps [simp del]

definition pad_left :: "char \<Rightarrow> nat \<Rightarrow> string \<Rightarrow> string" where
  "pad_left c w str = replicate (w - length str) c @ str"

definition fmt_X :: "nat \<Rightarrow> nat \<Rightarrow> string" where
  "fmt_X w n = pad_left CHR ''0'' w (digits HEX n)"

definition fmt_s :: "nat \<Rightarrow> string \<Rightarrow> string" where
  "fmt_s w str = take w str @ replicate (w - length str) CHR '' ''"

section \<open>Names of addresses\<close>

text \<open>Reading a C string from a string space, as \<open>%s\<close> does.\<close>

fun read_string :: "nat \<Rightarrow> (nat \<Rightarrow> char) \<Rightarrow> nat \<Rightarrow> string option" where
  "read_string 0 f p = None"
| "read_string (Suc n) f p = (if f p = NUL then Some [] else map_option (Cons (f p)) (read_string n f (p + 1)))"

definition string_at :: "symstate \<Rightarrow> nat \<times> nat \<Rightarrow> string option" where
  "string_at syms = (\<lambda>(b, p). if b < length (spaces syms) then read_string (MAX_STRINGSPACE - p) (space (spaces syms ! b)) p else None)"

definition symbol_name :: "symstate \<Rightarrow> u64 \<Rightarrow> ('s, string option) expr" where
  "symbol_name syms addr s =
     (case sym_lookup 0 addr syms of
        Ret None _ \<Rightarrow> Ret None s
      | Ret (Some q) _ \<Rightarrow> (case string_at syms q of Some str \<Rightarrow> Ret (Some str) s | None \<Rightarrow> UB)
      | Exit c _ \<Rightarrow> Exit c s
      | UB \<Rightarrow> UB
      | NoFuel \<Rightarrow> NoFuel)"

text \<open>Both functions format into a static buffer of 256 bytes.\<close>

definition absolute_addr_name :: "symstate \<Rightarrow> u64 \<Rightarrow> ('s, string) expr" where
  "absolute_addr_name syms addr =
     (let text = fmt_X 2 (unat (drop_bit 28 addr)) @ '':0x'' @ fmt_X 4 (unat (addr AND 0xFFFFFF))
      in bindE (symbol_name syms addr) (\<lambda>name.
        Ret (case name of Some n \<Rightarrow> text @ ''  <'' @ fmt_s 16 n @ ''>'' | None \<Rightarrow> text)))"

definition monitor_addr_name :: "symstate \<Rightarrow> u16 \<Rightarrow> (sys, string) expr" where
  "monitor_addr_name syms target_addr =
     bindE (to_absolute (unat target_addr)) (\<lambda>addr.
     bindE (symbol_name syms (of_nat addr)) (\<lambda>name.
       case name of
         None \<Rightarrow> Ret (''$'' @ fmt_X 4 (unat target_addr))
       | Some n \<Rightarrow> if 5 + length n + 4 < 256 then Ret (''$'' @ fmt_X 4 (unat target_addr) @ ''  <'' @ n @ ''>'') else (\<lambda>_. UB)))"

section \<open>Decoding\<close>

definition fetch8 :: "u64 \<Rightarrow> (sys, u8 \<times> u64) expr" where
  "fetch8 pc = bindE (abs_read8 (unat pc)) (\<lambda>v. Ret (v, pc + 1))"

definition fetch16 :: "u64 \<Rightarrow> (sys, u16 \<times> u64) expr" where
  "fetch16 pc = bindE (abs_read8 (unat pc)) (\<lambda>hi. bindE (abs_read8 (unat (pc + 1))) (\<lambda>lo.
     Ret (push_bit 8 (ucast hi) OR ucast lo, pc + 2)))"

definition dasm_op :: "u64 \<Rightarrow> (sys, (opcode \<times> addr_mode) \<times> u64) expr" where
  "dasm_op pc = bindE (fetch8 pc) (\<lambda>(op, pc).
     if op = 0x10 then bindE (fetch8 pc) (\<lambda>(op, pc). Ret (codes10 ! unat op, pc))
     else if op = 0x11 then bindE (fetch8 pc) (\<lambda>(op, pc). Ret (codes11 ! unat op, pc))
     else Ret (codes ! unat op, pc))"

text \<open>Operands that need a byte or a word.\<close>

definition with8 :: "u64 \<Rightarrow> (nat \<Rightarrow> string) \<Rightarrow> (sys, string \<times> u64) expr" where
  "with8 pc f = bindE (fetch8 pc) (\<lambda>(v, pc). Ret (f (unat v), pc))"

definition with16 :: "u64 \<Rightarrow> (nat \<Rightarrow> string) \<Rightarrow> (sys, string \<times> u64) expr" where
  "with16 pc f = bindE (fetch16 pc) (\<lambda>(v, pc). Ret (f (unat v), pc))"

definition dasm_indexed :: "symstate \<Rightarrow> u64 \<Rightarrow> (sys, string \<times> u64) expr" where
  "dasm_indexed syms pc = bindE (fetch8 pc) (\<lambda>(op, pc).
     let R = index_reg_name ! unat (drop_bit 5 op AND 3); k = op AND 0x1f in
     if op AND 0x80 = 0 then Ret (off4 ! unat k @ '','' @ [R], pc)
     else if k = 0x00 then Ret ('','' @ [R] @ ''+'', pc)
     else if k = 0x01 then Ret ('','' @ [R] @ ''++'', pc)
     else if k = 0x02 then Ret ('',-'' @ [R], pc)
     else if k = 0x03 then Ret ('',--'' @ [R], pc)
     else if k = 0x04 then Ret ('','' @ [R], pc)
     else if k = 0x05 then Ret (''B,'' @ [R], pc)
     else if k = 0x06 then Ret (''A,'' @ [R], pc)
     else if k = 0x08 then with8 pc (\<lambda>v. ''$'' @ fmt_X 2 v @ '','' @ [R])
     else if k = 0x09 then with16 pc (\<lambda>v. ''$'' @ fmt_X 4 v @ '','' @ [R])
     else if k = 0x0B then Ret (''D,'' @ [R], pc)
     else if k = 0x0C then with8 pc (\<lambda>v. ''$'' @ fmt_X 2 v @ '',PC'')
     else if k = 0x0D then with16 pc (\<lambda>v. ''$'' @ fmt_X 4 v @ '',PC'')
     else if k = 0x11 then Ret (''[,'' @ [R] @ ''++]'', pc)
     else if k = 0x13 then Ret (''[,--'' @ [R] @ '']'', pc)
     else if k = 0x14 then Ret (''[,'' @ [R] @ '']'', pc)
     else if k = 0x15 then Ret (''[B,'' @ [R] @ '']'', pc)
     else if k = 0x16 then Ret (''[A,'' @ [R] @ '']'', pc)
     else if k = 0x18 then with8 pc (\<lambda>v. ''[$'' @ fmt_X 2 v @ '','' @ [R] @ '']'')
     else if k = 0x19 then with16 pc (\<lambda>v. ''[$'' @ fmt_X 4 v @ '','' @ [R] @ '']'')
     else if k = 0x1B then Ret (''[D,'' @ [R] @ '']'', pc)
     else if k = 0x1C then with8 pc (\<lambda>v. ''[$'' @ fmt_X 2 v @ '',PC]'')
     else if k = 0x1D then with16 pc (\<lambda>v. ''[$'' @ fmt_X 4 v @ '',PC]'')
     else if k = 0x1F then bindE (fetch16 pc) (\<lambda>(v, pc). bindE (monitor_addr_name syms v) (\<lambda>n. Ret (''['' @ n @ '']'', pc)))
     else Ret (''???'', pc))"

definition dasm_regs :: "addr_mode \<Rightarrow> u8 \<Rightarrow> string" where
  "dasm_regs am op =
     (if op AND 0x80 \<noteq> 0 then ''PC,'' else []) @
     (if op AND 0x40 \<noteq> 0 then (if am = am_usr_post then ''S,'' else ''U,'') else []) @
     (if op AND 0x20 \<noteq> 0 then ''Y,'' else []) @
     (if op AND 0x10 \<noteq> 0 then ''X,'' else []) @
     (if op AND 0x08 \<noteq> 0 then ''DP,'' else []) @
     (if op AND 0x06 = 0x06 then ''D,''
      else (if op AND 0x04 \<noteq> 0 then ''B,'' else []) @ (if op AND 0x02 \<noteq> 0 then ''A,'' else [])) @
     (if op AND 0x01 \<noteq> 0 then ''CC,'' else [])"

text \<open>The operand is appended to the text so far; the list of registers of a stack instruction overwrites the last
  character with the terminator, also when the list is empty.\<close>

definition dasm_operand :: "symstate \<Rightarrow> addr_mode \<Rightarrow> string \<Rightarrow> u64 \<Rightarrow> (sys, string \<times> u64) expr" where
  "dasm_operand syms am buf pc =
     (case am of
        am_illegal \<Rightarrow> Ret (buf @ ''???'', pc)
      | am_implied \<Rightarrow> Ret (buf, pc)
      | am_imm_byte \<Rightarrow> with8 pc (\<lambda>v. buf @ ''#$'' @ fmt_X 2 v)
      | am_imm_word \<Rightarrow> with16 pc (\<lambda>v. buf @ ''#$'' @ fmt_X 4 v)
      | am_direct \<Rightarrow> bindE (fetch8 pc) (\<lambda>(v, pc). bindE (monitor_addr_name syms (ucast v)) (\<lambda>n. Ret (buf @ ''<'' @ n, pc)))
      | am_extended \<Rightarrow> bindE (fetch16 pc) (\<lambda>(v, pc). bindE (monitor_addr_name syms v) (\<lambda>n. Ret (buf @ n, pc)))
      | am_indexed \<Rightarrow> bindE (dasm_indexed syms pc) (\<lambda>(n, pc). Ret (buf @ n, pc))
      | am_rel_byte \<Rightarrow> bindE (fetch8 pc) (\<lambda>(v, pc). bindE (absolute_addr_name syms (scast v + pc)) (\<lambda>n. Ret (buf @ n, pc)))
      | am_rel_word \<Rightarrow> bindE (fetch16 pc) (\<lambda>(v, pc). bindE (absolute_addr_name syms (pc + ucast v)) (\<lambda>n. Ret (buf @ n, pc)))
      | am_reg_post \<Rightarrow> with8 pc (\<lambda>v. buf @ reg ! (v div 16) @ '','' @ reg ! (v mod 16))
      | _ \<Rightarrow> bindE (fetch8 pc) (\<lambda>(v, pc). Ret (butlast (buf @ dasm_regs am v), pc)))"

text \<open>The text and the number of bytes. \<open>os9call\<close> is the command line option; the comparison of the
  mnemonic with the literal \<open>"SWI2"\<close> compares addresses and is taken to hold for equal literals.\<close>

definition dasm :: "bool \<Rightarrow> symstate \<Rightarrow> u64 \<Rightarrow> (sys, string \<times> nat) expr" where
  "dasm os9call syms opc = bindE (dasm_op opc) (\<lambda>((op, am), pc).
     bindE (if op = op_swi2 \<and> os9call
            then bindE (fetch8 pc) (\<lambda>(v, pc).
              Ret (if unat v < 0x91 then fmt_s 6 ''OS9'' @ os9syscall ! unat v
                   else fmt_s 6 ''OS9'' @ ''#$'' @ pad_left CHR '' '' 2 (digits hex (unat v)), pc))
            else Ret (fmt_s 6 (mne ! op), pc)) (\<lambda>(buf, pc).
     bindE (dasm_operand syms am buf pc) (\<lambda>(text, pc). Ret (text, unat (pc - opc)))))"

text \<open>\<^verbatim>\<open>print_insn\<close>: the text goes through a buffer of 64 bytes to the terminal.\<close>

definition print_insn :: "bool \<Rightarrow> symstate \<Rightarrow> u64 \<Rightarrow> (sys, string \<times> nat) expr" where
  "print_insn os9call syms addr = bindE (dasm os9call syms addr) (\<lambda>(buf, n).
     if length buf < 64 then Ret (buf, n) else (\<lambda>_. UB))"

end
