(* ===== verification/Disasm_Laws.thy ===== *)
theory Disasm_Laws
  imports Disasm System_Ram
begin

text \<open>
  The disassembler on plain memory: it always produces a text and a size, the text fits the buffer of its callers
  when the symbol names are short, and its tables know exactly the opcodes of the processor.
\<close>

section \<open>Sizes\<close>

text \<open>The bytes of the operand, given the first of them.\<close>

definition index_size :: "u8 \<Rightarrow> nat" where
  "index_size post = (let k = post AND 0x1f in
     if post AND 0x80 = 0 then 0
     else if k = 0x08 \<or> k = 0x0c \<or> k = 0x18 \<or> k = 0x1c then 1
     else if k = 0x09 \<or> k = 0x0d \<or> k = 0x19 \<or> k = 0x1d \<or> k = 0x1f then 2 else 0)"

fun operand_size :: "addr_mode \<Rightarrow> u8 \<Rightarrow> nat" where
  "operand_size am_illegal _ = 0"
| "operand_size am_implied _ = 0"
| "operand_size am_imm_word _ = 2"
| "operand_size am_extended _ = 2"
| "operand_size am_rel_word _ = 2"
| "operand_size am_indexed post = 1 + index_size post"
| "operand_size _ _ = 1"

text \<open>The table entry of an instruction and its size, from its bytes.\<close>

definition insn_entry :: "(nat \<Rightarrow> u8) \<Rightarrow> opcode \<times> addr_mode" where
  "insn_entry b = (if b 0 = 0x10 then codes10 ! unat (b 1) else if b 0 = 0x11 then codes11 ! unat (b 1) else codes ! unat (b 0))"

definition prefix_size :: "(nat \<Rightarrow> u8) \<Rightarrow> nat" where
  "prefix_size b = (if b 0 = 0x10 \<or> b 0 = 0x11 then 2 else 1)"

definition insn_size :: "(nat \<Rightarrow> u8) \<Rightarrow> nat" where
  "insn_size b = prefix_size b + operand_size (snd (insn_entry b)) (b (prefix_size b))"

lemma index_size_le: "index_size post \<le> 2"
  by (simp add: index_size_def Let_def)

lemma operand_size_le: "operand_size am post \<le> 3"
  using index_size_le [of post] by (cases am) simp_all

section \<open>Formatting\<close>

lemma digits_length: "n < 16 ^ Suc k \<Longrightarrow> 1 \<le> length (digits d n) \<and> length (digits d n) \<le> Suc k"
proof (induction k arbitrary: n)
  case 0
  then show ?case by (simp add: digits.simps [of d n])
next
  case (Suc k)
  show ?case
  proof (cases "n < 16")
    case False
    have "n div 16 < 16 ^ Suc k" using Suc.prems by (simp add: less_mult_imp_div_less)
    from Suc.IH [OF this] show ?thesis using False by (simp add: digits.simps [of d n])
  qed (simp add: digits.simps [of d n])
qed

lemma fmt_X_length: "n < 16 ^ k \<Longrightarrow> 0 < k \<Longrightarrow> length (fmt_X k n) = k"
  using digits_length [of n "k - 1" HEX] by (cases k) (auto simp: fmt_X_def pad_left_def)

lemma fmt_X_le: "n < 16 ^ k \<Longrightarrow> w \<le> k \<Longrightarrow> 0 < k \<Longrightarrow> length (fmt_X w n) \<le> k"
  using digits_length [of n "k - 1" HEX] by (cases k) (auto simp: fmt_X_def pad_left_def)

lemma fmt_s_length [simp]: "length (fmt_s w str) = w"
  by (simp add: fmt_s_def min_def)

lemma table_lengths: "length codes = 256" "length codes10 = 256" "length codes11 = 256" "length mne = 134"
  "length os9syscall = 0x91" "length reg = 16" "length off4 = 32" "length index_reg_name = 4"
  by (simp_all add: codes_def codes_lo_def codes_hi_def codes10_def codes10_lo_def codes10_hi_def codes11_def codes11_lo_def
      codes11_hi_def mne_def os9syscall_def reg_def off4_def index_reg_name_def)

section \<open>Names\<close>

definition names_fit :: "nat \<Rightarrow> symstate \<Rightarrow> bool" where
  "names_fit K syms \<longleftrightarrow> (\<forall>v. \<exists>r. (\<forall>s :: sys. symbol_name syms v s = Ret r s) \<and> (\<forall>n. r = Some n \<longrightarrow> length n \<le> K))"

lemma read_string_stored:
  assumes "NUL \<notin> set str" "length str < n" "\<forall>i \<le> length str. f (p + i) = (str @ [NUL]) ! i"
  shows "read_string n f p = Some str"
  using assms
proof (induction str arbitrary: n p)
  case Nil
  then show ?case by (cases n) auto
next
  case (Cons c cs)
  obtain m where m: "n = Suc m" using Cons.prems(2) by (cases n) auto
  have "f p = c" using Cons.prems(3) [rule_format, of 0] by simp
  moreover have "f (p + 1 + i) = (cs @ [NUL]) ! i" if "i \<le> length cs" for i
    using Cons.prems(3) [rule_format, of "Suc i"] that by simp
  then have "read_string m f (p + 1) = Some cs" using Cons.IH [of m "p + 1"] Cons.prems m by simp
  ultimately show ?case using m Cons.prems(1) by auto
qed

lemma string_at_stored: "stored syms q str \<Longrightarrow> string_at syms q = Some str"
  by (cases q) (auto simp: stored_def string_at_def intro!: read_string_stored)

text \<open>A well-formed table with short names.\<close>

lemma names_fit_tables:
  assumes "sym_inv syms N V nm" "\<forall>p < length (symbols syms). length (nm p) \<le> K"
  shows "names_fit K syms"
  unfolding names_fit_def
proof
  fix v
  let ?r = "List.find (\<lambda>x. sym_value (symbols syms ! x) = v) (V 0 (sym_hash_value v))"
  have look: "sym_lookup 0 v syms = Ret (map_option (\<lambda>p. sym_name (symbols syms ! p)) ?r) syms"
    by (rule sym_lookup_inv [OF assms(1)]) simp
  show "\<exists>r. (\<forall>s :: sys. symbol_name syms v s = Ret r s) \<and> (\<forall>n. r = Some n \<longrightarrow> length n \<le> K)"
  proof (cases ?r)
    case None
    then show ?thesis using look by (intro exI [of _ None]) (simp add: symbol_name_def)
  next
    case (Some p)
    then have p: "p < length (symbols syms)"
      using sym_invD(10) [OF assms(1) _ hash_bounds(2), of 0 p v] find_in by fastforce
    then show ?thesis
      using look Some string_at_stored [OF sym_invD(13) [OF assms(1) p]] assms(2)
      by (intro exI [of _ "Some (nm p)"]) (simp add: symbol_name_def)
  qed
qed

lemma names_fit_start: "names_fit 0 sym_start"
proof -
  obtain N V nm where "sym_inv sym_start N V nm" using rep_start by (auto simp: rep_tables_def)
  then show ?thesis by (rule names_fit_tables) (simp add: sym_start_def sym_power_on_def)
qed

lemma names_fitE:
  assumes "names_fit K syms"
  obtains r where "\<And>s :: sys. symbol_name syms v s = Ret r s" "\<And>n. r = Some n \<Longrightarrow> length n \<le> K"
  using assms unfolding names_fit_def by blast

lemma unat_u16_hex: "unat (v :: u16) < 16 ^ 4" "unat (w :: u8) < 16 ^ 2"
  using unat_u16 [of v] unat_u8 [of w] by simp_all

lemma monitor_addr_name_total:
  assumes "names_fit K syms" "K \<le> 246" "\<exists>r. to_absolute (unat v) s = Ret r s"
  shows "\<exists>n. monitor_addr_name syms v s = Ret n s \<and> length n \<le> 9 + K"
proof -
  obtain a where a: "to_absolute (unat v) s = Ret a s" using assms(3) by blast
  obtain r where r: "symbol_name syms (of_nat a) s = Ret r s" "\<And>n. r = Some n \<Longrightarrow> length n \<le> K"
    using names_fitE [OF assms(1)] by metis
  show ?thesis
    using r assms(2) fmt_X_length [OF unat_u16_hex(1), of v]
    by (cases r) (auto simp: monitor_addr_name_def bindE_def a)
qed

lemma absolute_addr_name_total:
  assumes "names_fit K syms"
  shows "\<exists>n. absolute_addr_name syms addr (s :: sys) = Ret n s \<and> length n \<le> 38"
proof -
  obtain r where r: "symbol_name syms addr s = Ret r s" using names_fitE [OF assms] by metis
  have "unat (drop_bit 28 addr) < 16 ^ 9"
  proof -
    have "unat addr < 2 ^ 64" by (rule order_less_le_trans [OF unsigned_less]) simp
    then show ?thesis by (simp add: unat_shr less_mult_imp_div_less)
  qed
  then have 1: "length (fmt_X 2 (unat (drop_bit 28 addr))) \<le> 9" by (rule fmt_X_le) simp_all
  have "unat (addr AND 0xFFFFFF) < 16 ^ 6"
    using unat_mask [of addr 24] by (simp add: mask_eq_exp_minus_1)
  then have 2: "length (fmt_X 4 (unat (addr AND 0xFFFFFF))) \<le> 6" by (rule fmt_X_le) simp_all
  show ?thesis
    using r 1 2 by (cases r) (auto simp: absolute_addr_name_def bindE_def Let_def)
qed

section \<open>Operands\<close>

text \<open>The bytes of an instruction, and addresses that can be translated.\<close>

definition code_at :: "u64 \<Rightarrow> (nat \<Rightarrow> u8) \<Rightarrow> sys \<Rightarrow> bool" where
  "code_at opc b s \<longleftrightarrow> (\<forall>i < 5. abs_read8 (unat (opc + of_nat i)) s = Ret (b i) s) \<and> (\<forall>a :: u16. \<exists>r. to_absolute (unat a) s = Ret r s)"

lemma fetch_reads:
  assumes "code_at opc b s"
  shows "i < 5 \<Longrightarrow> fetch8 (opc + of_nat i) s = Ret (b i, opc + of_nat (Suc i)) s"
    and "Suc i < 5 \<Longrightarrow> fetch16 (opc + of_nat i) s = Ret (push_bit 8 (ucast (b i)) OR ucast (b (Suc i)), opc + of_nat (i + 2)) s"
proof -
  have r: "abs_read8 (unat (opc + of_nat i)) s = Ret (b i) s" if "i < 5" for i using assms that by (simp add: code_at_def)
  show "i < 5 \<Longrightarrow> fetch8 (opc + of_nat i) s = Ret (b i, opc + of_nat (Suc i)) s"
    using r [of i] by (simp add: fetch8_def bindE_def algebra_simps)
  show "Suc i < 5 \<Longrightarrow> fetch16 (opc + of_nat i) s = Ret (push_bit 8 (ucast (b i)) OR ucast (b (Suc i)), opc + of_nat (i + 2)) s"
    using r [of i] r [of "Suc i"] by (simp add: fetch16_def bindE_def algebra_simps)
qed

lemma with_reads:
  assumes "code_at opc b s"
  shows "i < 5 \<Longrightarrow> with8 (opc + of_nat i) f s = Ret (f (unat (b i)), opc + of_nat (Suc i)) s"
    and "Suc i < 5 \<Longrightarrow> with16 (opc + of_nat i) f s = Ret (f (unat (push_bit 8 (ucast (b i)) OR ucast (b (Suc i)) :: u16)), opc + of_nat (i + 2)) s"
  using fetch_reads [OF assms] by (simp_all add: with8_def with16_def bindE_def)

lemma table_texts:
  "i < 32 \<Longrightarrow> length (off4 ! i) \<le> 3" "j < 16 \<Longrightarrow> length (reg ! j) \<le> 2" "k < 0x91 \<Longrightarrow> length (os9syscall ! k) \<le> 8"
proof -
  have "\<forall>x \<in> set off4. length x \<le> 3" "\<forall>x \<in> set reg. length x \<le> 2" "\<forall>x \<in> set os9syscall. length x \<le> 8"
    by (simp_all add: off4_def reg_def os9syscall_def)
  then show "i < 32 \<Longrightarrow> length (off4 ! i) \<le> 3" "j < 16 \<Longrightarrow> length (reg ! j) \<le> 2" "k < 0x91 \<Longrightarrow> length (os9syscall ! k) \<le> 8"
    using table_lengths nth_mem by metis+
qed

lemma dasm_indexed_core:
  assumes f: "fetch8 p0 s = Ret (post, p1) s" and w8: "\<And>f. with8 p1 f s = Ret (f (unat (lo :: u8)), p2) s"
    and w16: "fetch16 p1 s = Ret (w, p3) s" and n: "monitor_addr_name syms w s = Ret n s" "length n \<le> 9 + K"
  shows "\<exists>text. dasm_indexed syms p0 s = Ret (text, if index_size post = 0 then p1 else if index_size post = 1 then p2 else p3) s
    \<and> length text \<le> 11 + K"
proof -
  have "length (off4 ! unat (post AND 0x1f)) \<le> 3"
    by (rule table_texts(1)) (use unat_mask [of post 5] in \<open>simp add: mask_eq_exp_minus_1\<close>)
  moreover have "with16 p1 f s = Ret (f (unat w), p3) s" for f by (simp add: with16_def bindE_def w16)
  ultimately show ?thesis
    using n fmt_X_length [OF unat_u16_hex(1), of w] fmt_X_length [OF unat_u16_hex(2), of lo]
    by (simp add: dasm_indexed_def bindE_def f Let_def w8 w16 index_size_def)
qed

lemma dasm_indexed_total:
  assumes "code_at opc b s" "names_fit K syms" "K \<le> 246" "i < 3"
  shows "\<exists>text. dasm_indexed syms (opc + of_nat i) s = Ret (text, opc + of_nat (Suc i + index_size (b i))) s \<and> length text \<le> 11 + K"
proof -
  have "\<exists>n. monitor_addr_name syms v s = Ret n s \<and> length n \<le> 9 + K" for v
    by (rule monitor_addr_name_total [OF assms(2,3)]) (use assms(1) in \<open>simp add: code_at_def\<close>)
  then obtain n where n: "monitor_addr_name syms (push_bit 8 (ucast (b (Suc i))) OR ucast (b (Suc (Suc i)))) s = Ret n s" "length n \<le> 9 + K" by blast
  have "opc + of_nat (Suc i + k) = (if k = 0 then opc + of_nat (Suc i) else if k = 1 then opc + of_nat (Suc (Suc i)) else opc + of_nat (Suc i + 2))"
    if "k \<le> 2" for k
  proof -
    from that consider "k = 0" | "k = 1" | "k = 2" by linarith
    then show ?thesis by cases simp_all
  qed
  then show ?thesis
    using dasm_indexed_core [OF fetch_reads(1) [OF assms(1)] with_reads(1) [OF assms(1)] fetch_reads(2) [OF assms(1)] n] assms(4)
      index_size_le [of "b i"] by simp
qed

lemma dasm_regs_length: "length (dasm_regs am v) \<le> 19"
  by (simp add: dasm_regs_def)

lemma dasm_operand_total:
  assumes "code_at opc b s" "names_fit K syms" "K \<le> 246" "i < 3"
  shows "\<exists>text. dasm_operand syms am buf (opc + of_nat i) s = Ret (text, opc + of_nat (i + operand_size am (b i))) s
    \<and> length text \<le> length buf + max 38 (11 + K)"
proof -
  have f: "fetch8 (opc + of_nat i) s = Ret (b i, opc + of_nat (Suc i)) s" using fetch_reads(1) [OF assms(1)] assms(4) by simp
  have f16: "fetch16 (opc + of_nat i) s = Ret (push_bit 8 (ucast (b i)) OR ucast (b (Suc i)), opc + of_nat (i + 2)) s"
    using fetch_reads(2) [OF assms(1), of i] assms(4) by simp
  note w = with_reads [OF assms(1), of i]
  have m: "\<exists>n. monitor_addr_name syms v s = Ret n s \<and> length n \<le> 9 + K" for v
    by (rule monitor_addr_name_total [OF assms(2,3)]) (use assms(1) in \<open>simp add: code_at_def\<close>)
  have a: "\<exists>n. absolute_addr_name syms v s = Ret n s \<and> length n \<le> 38" for v by (rule absolute_addr_name_total [OF assms(2)])
  have r: "length (reg ! (unat (b i) div 16)) \<le> 2" "length (reg ! (unat (b i) mod 16)) \<le> 2"
    using unat_u8 [of "b i"] by (auto intro!: table_texts(2) simp: less_mult_imp_div_less)
  show ?thesis
  proof (cases am)
    case am_direct
    then show ?thesis using m [of "ucast (b i)"] f by (auto simp: dasm_operand_def bindE_def)
  next
    case am_extended
    then show ?thesis using m [of "push_bit 8 (ucast (b i)) OR ucast (b (Suc i))"] f16 by (auto simp: dasm_operand_def bindE_def)
  next
    case am_indexed
    then show ?thesis using dasm_indexed_total [OF assms] by (auto simp: dasm_operand_def bindE_def)
  next
    case am_rel_byte
    then show ?thesis using a [of "scast (b i) + (opc + of_nat (Suc i))"] f by (auto simp: dasm_operand_def bindE_def)
  next
    case am_rel_word
    then show ?thesis using a [of "opc + of_nat (i + 2) + ucast (push_bit 8 (ucast (b i)) OR ucast (b (Suc i)) :: u16)"] f16
      by (auto simp: dasm_operand_def bindE_def)
  qed (use assms(4) f w r dasm_regs_length [of am "b i"] fmt_X_length [OF unat_u16_hex(1)] fmt_X_length [OF unat_u16_hex(2)]
      in \<open>auto simp: dasm_operand_def bindE_def\<close>)
qed

lemma swi2_implied: "b < 256 \<Longrightarrow> e \<in> {codes ! b, codes10 ! b, codes11 ! b} \<Longrightarrow> fst e = op_swi2 \<Longrightarrow> snd e = am_implied"
proof -
  have "\<forall>e \<in> set codes \<union> set codes10 \<union> set codes11. fst e = op_swi2 \<longrightarrow> snd e = am_implied"
    by (simp add: codes_def codes_lo_def codes_hi_def codes10_def codes10_lo_def codes10_hi_def codes11_def codes11_lo_def codes11_hi_def)
  then show "b < 256 \<Longrightarrow> e \<in> {codes ! b, codes10 ! b, codes11 ! b} \<Longrightarrow> fst e = op_swi2 \<Longrightarrow> snd e = am_implied"
    using nth_mem table_lengths(1-3) by fastforce
qed

lemma prefix_size_range: "1 \<le> prefix_size b \<and> prefix_size b \<le> 2"
  by (simp add: prefix_size_def)

lemma dasm_op_at:
  assumes "code_at opc b s"
  shows "dasm_op opc s = Ret (insn_entry b, opc + of_nat (prefix_size b)) s"
  using fetch_reads(1) [OF assms, of 0] fetch_reads(1) [OF assms, of 1]
  by (simp add: dasm_op_def bindE_def insn_entry_def prefix_size_def)

lemma dasm_plain:
  assumes "code_at opc b s" "names_fit K syms" "K \<le> 246" "\<not> (fst (insn_entry b) = op_swi2 \<and> os9call)"
  shows "\<exists>text. dasm os9call syms opc s = Ret (text, insn_size b) s \<and> length text \<le> 6 + max 38 (11 + K)"
proof -
  obtain op am where e: "insn_entry b = (op, am)" by (cases "insn_entry b")
  have "prefix_size b < 3" by (simp add: prefix_size_def)
  from dasm_operand_total [OF assms(1-3) this, of am "fmt_s 6 (mne ! op)"]
  obtain tx where t: "dasm_operand syms am (fmt_s 6 (mne ! op)) (opc + of_nat (prefix_size b)) s = Ret (tx, opc + of_nat (insn_size b)) s"
      "length tx \<le> 6 + max 38 (11 + K)" by (auto simp: insn_size_def e)
  have "insn_size b < 2 ^ 64" using operand_size_le [of am "b (prefix_size b)"] prefix_size_range [of b] by (simp add: insn_size_def e)
  then have "unat (of_nat (insn_size b) :: u64) = insn_size b" by (simp add: unsigned_of_nat take_bit_nat_eq_self)
  moreover have "\<not> (op = op_swi2 \<and> os9call)" using assms(4) e by simp
  ultimately show ?thesis using t by (auto simp: dasm_def bindE_def dasm_op_at [OF assms(1)] e)
qed

lemma dasm_os9:
  assumes "code_at opc b s" "fst (insn_entry b) = op_swi2"
  shows "\<exists>text. dasm True syms opc s = Ret (text, Suc (insn_size b)) s \<and> length text \<le> 14"
proof -
  let ?v = "b (prefix_size b)"
  have "snd (insn_entry b) = am_implied"
    using swi2_implied [of "unat (b 0)"] swi2_implied [of "unat (b 1)"] assms(2) unat_u8 by (auto simp: insn_entry_def split: if_splits)
  then have e: "insn_entry b = (op_swi2, am_implied)" "insn_size b = prefix_size b" using assms(2) by (auto simp: insn_size_def prod_eq_iff)
  have p: "prefix_size b < 5" by (simp add: prefix_size_def)
  have "unat (of_nat (Suc (prefix_size b)) :: u64) = Suc (prefix_size b)" by (simp add: prefix_size_def)
  moreover have "length (digits hex (unat ?v)) \<le> 2" using digits_length [of "unat ?v" 1 hex] unat_u8 [of ?v] by simp
  moreover have "unat ?v < 0x91 \<Longrightarrow> length (os9syscall ! unat ?v) \<le> 8" by (rule table_texts(3))
  ultimately show ?thesis
    using fetch_reads(1) [OF assms(1) p]
    by (auto simp: dasm_def bindE_def dasm_op_at [OF assms(1)] e dasm_operand_def pad_left_def simp del: of_nat_Suc)
qed

text \<open>(C32) The disassembler is total and its text fits the 64 bytes of its callers: for every five bytes of readable
  memory, with or without OS-9 system calls, it gives a size between one and five bytes, the one the tables and the
  postbyte determine, and a text that the buffer holds when no symbol name is longer than 46 characters.\<close>

theorem dasm_fits:
  assumes "code_at opc b s" "names_fit K syms" "K \<le> 46"
  shows "\<exists>text. print_insn os9call syms opc s = Ret (text, insn_size b + (if os9call \<and> fst (insn_entry b) = op_swi2 then 1 else 0)) s
    \<and> length text < 64 \<and> 1 \<le> insn_size b \<and> insn_size b \<le> 5"
proof -
  have "1 \<le> insn_size b \<and> insn_size b \<le> 5"
    using operand_size_le [of "snd (insn_entry b)" "b (prefix_size b)"] prefix_size_range [of b] by (simp add: insn_size_def)
  moreover have "\<exists>text. dasm os9call syms opc s = Ret (text, insn_size b + (if os9call \<and> fst (insn_entry b) = op_swi2 then 1 else 0)) s \<and> length text \<le> 63"
    using dasm_plain [OF assms(1,2), of os9call] dasm_os9 [OF assms(1), of syms] assms(3)
    by (cases "fst (insn_entry b) = op_swi2 \<and> os9call") fastforce+
  ultimately show ?thesis by (auto simp: print_insn_def bindE_def)
qed

text \<open>The code of a machine of plain memory.\<close>

lemma unat_absolute: "dv < 255 \<Longrightarrow> a < 2 ^ 28 \<Longrightarrow> unat (of_nat (absolute_from_reladdr dv a) :: u64) = absolute_from_reladdr dv a"
proof -
  assume "dv < 255" "a < 2 ^ 28"
  then have "absolute_from_reladdr dv a < 2 ^ 64" by (simp add: absolute_from_reladdr_def)
  then show ?thesis by (simp add: unsigned_of_nat take_bit_nat_eq_self)
qed

lemma code_at_ram:
  assumes "ram_machine dv (mch s)" "p + 5 \<le> 65536"
  shows "code_at (of_nat (absolute_from_reladdr dv p)) (\<lambda>i. ram_mem dv (mch s) (p + i)) s"
  unfolding code_at_def
proof (intro conjI allI impI)
  fix i :: nat assume i: "i < 5"
  have dv: "dv < 255" "dv < length (device_table (mch s))" using assms(1) by (simp_all add: ram_machine_def)
  have "of_nat (absolute_from_reladdr dv p) + of_nat i = (of_nat (absolute_from_reladdr dv (p + i)) :: u64)"
    by (simp add: absolute_from_reladdr_def)
  then have "unat (of_nat (absolute_from_reladdr dv p) + of_nat i :: u64) = absolute_from_reladdr dv (p + i)"
    using unat_absolute [OF dv(1), of "p + i"] i assms(2) by simp
  moreover have "absolute_from_reladdr dv (p + i) div 2 ^ 28 = dv" "absolute_from_reladdr dv (p + i) mod 2 ^ 28 = p + i"
    using i assms(2) by (simp_all add: absolute_from_reladdr_def)
  ultimately show "abs_read8 (unat (of_nat (absolute_from_reladdr dv p) + of_nat i :: u64)) s = Ret (ram_mem dv (mch s) (p + i)) s"
    using i assms dv by (simp add: abs_read8_def bindE_def find_device_ram dev_read_ram)
next
  fix a :: u16
  have "half (of_nat (unat a))" using unat_u16 [of a] by (simp add: half_def unsigned_of_nat take_bit_nat_eq_self)
  then show "\<exists>r. to_absolute (unat a) s = Ret r s"
    using assms(1) unat_u16 [of a] by (simp add: to_absolute_def bindE_def find_map_ram)
qed

theorem dasm_fits_witness:
  "\<exists>text. print_insn False sym_start (of_nat (absolute_from_reladdr 1 0)) (power_on (ram_system (\<lambda>_. 0x12))) =
    Ret (text, 1) (power_on (ram_system (\<lambda>_. 0x12))) \<and> length text < 64"
  using dasm_fits [OF code_at_ram [of 1 "power_on (ram_system (\<lambda>_. 0x12))" 0] names_fit_start, of False]
  by (auto simp: insn_size_def prefix_size_def insn_entry_def codes_def codes_lo_def)

lemma half_lengths: "length codes_lo = 128" "length codes10_lo = 128" "length codes11_lo = 128"
  by (simp_all add: codes_lo_def codes10_lo_def codes11_lo_def)

lemma filter_positions:
  "filter (\<lambda>n. P (xs ! n) n) [0..<length xs] = map fst (filter (\<lambda>(n, x). P x n) (zip [0..<length xs] xs))"
proof -
  have "zip [0..<length xs] xs = map (\<lambda>n. (n, xs ! n)) [0..<length xs]"
    by (rule nth_equalityI) simp_all
  then show ?thesis by (simp add: filter_map comp_def)
qed

lemma tables_agree:
  "filter (\<lambda>n. snd (codes ! n) \<noteq> am_illegal \<and> n \<noteq> 0x3e) [0..<256] =
     filter (\<lambda>n. n \<noteq> 0x10 \<and> n \<noteq> 0x11) (map (\<lambda>p. unat (fst p)) (opcode_table io))
   \<and> codes ! 0x3e = (op_reset, am_implied) \<and> 0x3e \<notin> set (map (\<lambda>p. unat (fst p)) (opcode_table io))
   \<and> filter (\<lambda>n. snd (codes10 ! n) \<noteq> am_illegal) [0..<256] = map (\<lambda>p. unat (fst p)) (page2_20_table io @ page2_80_table io)
   \<and> filter (\<lambda>n. snd (codes11 ! n) \<noteq> am_illegal) [0..<256] = map (\<lambda>p. unat (fst p)) (page3_table io)"
proof -
  have up: "[0..<256] = [0..<128] @ [128..<256::nat]" using upt_add_eq_append [of 0 128 128] by simp
  have en: "zip [0..<256] codes = zip [0..<128] codes_lo @ zip [128..<256] codes_hi" "zip [0..<256] codes10 = zip [0..<128] codes10_lo @ zip [128..<256] codes10_hi"
    "zip [0..<256] codes11 = zip [0..<128] codes11_lo @ zip [128..<256] codes11_hi"
    unfolding up codes_def codes10_def codes11_def by (rule zip_append; simp add: half_lengths del: upt_rec_numeral)+
  have up0: "[0..<128] = 0 # 1 # [2..<128]" by (simp add: upt_conv_Cons numeral_2_eq_2)
  have "map fst (filter (\<lambda>(n, e). snd e \<noteq> am_illegal \<and> n \<noteq> 0x3e) (zip [0..<128] codes_lo)) =
      filter (\<lambda>n. n \<noteq> 0x10 \<and> n \<noteq> 0x11) (filter (\<lambda>n. n \<notin> set undefined_opcodes) [0..<128])"
    "map fst (filter (\<lambda>(n, e). snd e \<noteq> am_illegal \<and> n \<noteq> 0x3e) (zip [128..<256] codes_hi)) =
      filter (\<lambda>n. n \<noteq> 0x10 \<and> n \<noteq> 0x11) (filter (\<lambda>n. n \<notin> set undefined_opcodes) [128..<256])"
    by (simp_all add: up0 codes_lo_def codes_hi_def undefined_opcodes_def)
  then have 0: "map fst (filter (\<lambda>(n, e). snd e \<noteq> am_illegal \<and> n \<noteq> 0x3e) (zip [0..<256] codes)) =
      filter (\<lambda>n. n \<noteq> 0x10 \<and> n \<noteq> 0x11) (filter (\<lambda>n. n \<notin> set undefined_opcodes) [0..<256])"
    unfolding en unfolding up filter_append map_append by (rule arg_cong2)
  have "codes ! 0x3e = codes_lo ! 0x3e" by (simp add: codes_def nth_append half_lengths)
  then have 1: "codes ! 0x3e = (op_reset, am_implied)" by (simp add: codes_lo_def)
  have 2: "map fst (filter (\<lambda>(n, e). snd e \<noteq> am_illegal) (zip [0..<128] codes10_lo)) = map (\<lambda>p. unat (fst p)) (page2_20_table io)"
    "map fst (filter (\<lambda>(n, e). snd e \<noteq> am_illegal) (zip [128..<256] codes10_hi)) = map (\<lambda>p. unat (fst p)) (page2_80_table io)"
    by (simp_all add: up0 page2_20_table_def page2_80_table_def codes10_lo_def codes10_hi_def)
  have 3: "map fst (filter (\<lambda>(n, e). snd e \<noteq> am_illegal) (zip [0..<128] codes11_lo)) @ map fst (filter (\<lambda>(n, e). snd e \<noteq> am_illegal) (zip [128..<256] codes11_hi))
    = map (\<lambda>p. unat (fst p)) (page3_table io)"
    by (simp add: up0 page3_table_def codes11_lo_def codes11_hi_def)
  have 4: "0x3e \<notin> set (filter (\<lambda>n. n \<notin> set undefined_opcodes) [0..<256])" by (simp only: set_filter) (simp add: undefined_opcodes_def)
  show ?thesis
    unfolding opcode_keys filter_positions [of "\<lambda>e n. snd e \<noteq> am_illegal \<and> n \<noteq> 0x3e" codes, unfolded table_lengths]
      filter_positions [of "\<lambda>e n. snd e \<noteq> am_illegal" codes10, unfolded table_lengths]
      filter_positions [of "\<lambda>e n. snd e \<noteq> am_illegal" codes11, unfolded table_lengths]
    using 0 1 4 by (simp only: en filter_append map_append 2 3) blast
qed

text \<open>(C33) The tables of the disassembler and the switch of the processor know the same opcodes, on all three pages,
  with one exception: the disassembler lists 0x3e as RESET, which the processor treats as invalid.\<close>

theorem dasm_tables_agree:
  "filter (\<lambda>n. snd (codes ! n) \<noteq> am_illegal \<and> n \<noteq> 0x3e) [0..<256] =
     filter (\<lambda>n. n \<noteq> 0x10 \<and> n \<noteq> 0x11) (map (\<lambda>p. unat (fst p)) (opcode_table io))
   \<and> codes ! 0x3e = (op_reset, am_implied) \<and> 0x3e \<notin> set (map (\<lambda>p. unat (fst p)) (opcode_table io))
   \<and> filter (\<lambda>n. snd (codes10 ! n) \<noteq> am_illegal) [0..<256] = map (\<lambda>p. unat (fst p)) (page2_20_table io @ page2_80_table io)
   \<and> filter (\<lambda>n. snd (codes11 ! n) \<noteq> am_illegal) [0..<256] = map (\<lambda>p. unat (fst p)) (page3_table io)"
  by (rule tables_agree)

definition branch_code :: "nat \<Rightarrow> u8" where
  "branch_code a = (if a = 0x1000 then 0x16 else if a = 0x1001 then 0xff else if a = 0x1002 then 0xfd
     else if a = 0x2000 then 0x20 else if a = 0x2001 then 0xfe else 0x12)"

lemma symbol_name_start: "symbol_name sym_start v s = Ret None s"
proof -
  obtain N V nm where inv: "sym_inv sym_start N V nm" using rep_start by (auto simp: rep_tables_def)
  have "V 0 (sym_hash_value v) = []"
    using sym_invD(10) [OF inv _ hash_bounds(2), of 0 _ v] by (cases "V 0 (sym_hash_value v)") (auto simp: sym_start_def sym_power_on_def)
  then show ?thesis using sym_lookup_inv [OF inv, of 0 v] by (simp add: symbol_name_def)
qed

text \<open>The target of a long branch is shown without sign extension of the offset: a branch of an instruction at
  0x1000 to itself is disassembled with the target 0x11000, while the same offset of a short branch is
  shown as 0x1000.\<close>

theorem dasm_long_branch:
  "\<exists>s. dasm False sym_start (of_nat (absolute_from_reladdr 1 0x1000)) (power_on (ram_system branch_code)) = Ret (''LBRA  01:0x11000'', 3) s
    \<and> dasm False sym_start (of_nat (absolute_from_reladdr 1 0x2000)) (power_on (ram_system branch_code)) = Ret (''BRA   01:0x2000'', 2) s"
proof -
  let ?s = "power_on (ram_system branch_code)"
  have c: "code_at (of_nat (absolute_from_reladdr 1 p)) (\<lambda>i. branch_code (p + i)) ?s" if "p + 5 \<le> 65536" for p
    using code_at_ram [of 1 ?s p] that by simp
  have e: "insn_entry (\<lambda>i. branch_code (0x1000 + i)) = (op_lbra, am_rel_word)" "insn_entry (\<lambda>i. branch_code (0x2000 + i)) = (op_bra, am_rel_byte)"
    "prefix_size (\<lambda>i. branch_code (0x1000 + i)) = 1" "prefix_size (\<lambda>i. branch_code (0x2000 + i)) = 1"
    by (simp_all add: insn_entry_def prefix_size_def branch_code_def codes_def codes_lo_def)
  have d: "dasm_op 0x10001000 ?s = Ret ((op_lbra, am_rel_word), 0x10001001) ?s" "dasm_op 0x10002000 ?s = Ret ((op_bra, am_rel_byte), 0x10002001) ?s"
    using dasm_op_at [OF c [of "0x1000"]] dasm_op_at [OF c [of "0x2000"]] by (simp_all add: e absolute_from_reladdr_def)
  have f: "fetch16 0x10001001 ?s = Ret (0xfffd, 0x10001003) ?s" "fetch8 0x10002001 ?s = Ret (0xfe, 0x10002002) ?s"
    using fetch_reads(2) [OF c [of "0x1000"], of 1] fetch_reads(1) [OF c [of "0x2000"], of 1] by (simp_all add: absolute_from_reladdr_def branch_code_def)
  have t: "fmt_s 6 (mne ! op_lbra) = ''LBRA  ''" "fmt_s 6 (mne ! op_bra) = ''BRA   ''" by (simp_all add: mne_def fmt_s_def numeral_2_eq_2 numeral_3_eq_3)
  have n: "fmt_X 2 1 = ''01''" "fmt_X 4 0x11000 = ''11000''" "fmt_X 4 0x2000 = ''2000''"
    by (simp_all add: fmt_X_def pad_left_def digits.simps HEX_def)
  have a: "absolute_addr_name sym_start 0x10011000 ?s = Ret ''01:0x11000'' ?s" "absolute_addr_name sym_start 0x10002000 ?s = Ret ''01:0x2000'' ?s"
    using n by (simp_all add: absolute_addr_name_def symbol_name_start bindE_def Let_def)
  show ?thesis
    using d f a by (simp add: dasm_def bindE_def dasm_operand_def absolute_from_reladdr_def t)
qed

end
