(* ===== verification/Loader.thy ===== *)
theory Loader
  imports System_Ram
begin

text \<open>
  The program loaders of \<^verbatim>\<open>monitor.c\<close>: \<^verbatim>\<open>load_image\<close> detects the format, \<^verbatim>\<open>load_s19\<close> reads Motorola S
  records and \<^verbatim>\<open>load_hex\<close> Intel hex records and write their bytes through the bus. A file is the string of its
  characters; the scanner follows the C standard's \<^verbatim>\<open>fscanf\<close> for the conversions the loaders use. The results
  are for files written by an assembler: they load to the memory they describe.
\<close>

section \<open>Formatted input\<close>

definition isspace :: "char \<Rightarrow> bool" where
  "isspace c \<longleftrightarrow> c \<in> set [CHR '' '', CHR 0x09, CHR 0x0a, CHR 0x0b, CHR 0x0c, CHR 0x0d]"

definition code :: "char \<Rightarrow> nat" where "code c = of_char c"

definition xdigit :: "char \<Rightarrow> nat option" where
  "xdigit c = (let n = code c in
     if 0x30 \<le> n \<and> n \<le> 0x39 then Some (n - 0x30)
     else if 0x41 \<le> n \<and> n \<le> 0x46 then Some (n - 0x37)
     else if 0x61 \<le> n \<and> n \<le> 0x66 then Some (n - 0x57) else None)"

fun take_digits :: "nat \<Rightarrow> string \<Rightarrow> nat \<Rightarrow> nat \<times> string" where
  "take_digits (Suc w) (c # cs) acc = (case xdigit c of Some d \<Rightarrow> take_digits w cs (16 * acc + d) | None \<Rightarrow> (acc, c # cs))"
| "take_digits w cs acc = (acc, cs)"

text \<open>One conversion \<open>%wx\<close>: a value, a matching failure or the end of the input, and what is left of it. White
  space is skipped; a sign and the prefix 0x count towards the width.\<close>

datatype scanned = Scan u32 string | Mismatch string | End_of_file

definition scan_hex :: "nat \<Rightarrow> string \<Rightarrow> scanned" where
  "scan_hex w input =
     (let cs = dropWhile isspace input;
          signed = (cs \<noteq> [] \<and> (hd cs = CHR ''+'' \<or> hd cs = CHR ''-''));
          ds = (if signed then tl cs else cs); w = (if signed then w - 1 else w);
          prefix = (2 \<le> w \<and> 2 \<le> length ds \<and> ds ! 0 = CHR ''0'' \<and> (ds ! 1 = CHR ''x'' \<or> ds ! 1 = CHR ''X''));
          ds = (if prefix then drop 2 ds else ds); w = (if prefix then w - 2 else w);
          (v, rest) = take_digits w ds 0
      in if cs = [] then End_of_file
         else if length rest = length ds then Mismatch rest
         else Scan (if signed \<and> hd cs = CHR ''-'' then - of_nat v else of_nat v) rest)"

text \<open>A format of a literal character and hexadecimal fields: the values assigned before the first failure.\<close>

fun scan_fields :: "nat list \<Rightarrow> string \<Rightarrow> u32 list \<times> string" where
  "scan_fields [] input = ([], input)"
| "scan_fields (w # ws) input =
     (case scan_hex w input of
        Scan v rest \<Rightarrow> (let (vs, rest) = scan_fields ws rest in (v # vs, rest))
      | Mismatch rest \<Rightarrow> ([], rest)
      | End_of_file \<Rightarrow> ([], []))"

definition scan_record :: "char \<Rightarrow> nat list \<Rightarrow> string \<Rightarrow> u32 list \<times> string" where
  "scan_record c ws input = (if input \<noteq> [] \<and> hd input = c then scan_fields ws (tl input) else ([], input))"

definition skip_eol :: "string \<Rightarrow> string" where
  "skip_eol = dropWhile (\<lambda>c. c = CHR 0x0d \<or> c = CHR 0x0a)"

section \<open>Records\<close>

text \<open>The messages of the loaders, with the number of the record.\<close>

datatype message = Invalid_record nat | Inconsistent_data nat | Bad_checksum nat | Not_supported nat u32

text \<open>The data loop. \<open>data\<close> is \<open>None\<close> while the variable is uninitialised. At the end of the file
  \<^verbatim>\<open>fscanf\<close> returns \<^verbatim>\<open>EOF\<close>, which the loop takes for success, so that the old value is written again.\<close>

fun load_data :: "'s iface \<Rightarrow> nat \<Rightarrow> nat \<Rightarrow> u32 \<Rightarrow> u32 \<Rightarrow> u32 option \<Rightarrow> string \<Rightarrow> ('s, message list \<times> u32 \<times> u32 option \<times> string) expr" where
  "load_data io line 0 addr checksum data input = Ret ([], checksum, data, input)"
| "load_data io line (Suc count) addr checksum data input =
     (case scan_hex 2 input of
        Mismatch rest \<Rightarrow> Ret ([Inconsistent_data line], checksum, data, rest)
      | Scan v rest \<Rightarrow> bindE (write8 io addr (ucast v)) (\<lambda>_. load_data io line count (addr + 1) (checksum + v) (Some v) rest)
      | End_of_file \<Rightarrow> (case data of None \<Rightarrow> (\<lambda>_. UB)
          | Some v \<Rightarrow> bindE (write8 io addr (ucast v)) (\<lambda>_. load_data io line count (addr + 1) (checksum + v) data [])))"

text \<open>The check of the checksum: whether it is right, and the rest.\<close>

definition check_sum :: "u32 \<Rightarrow> string \<Rightarrow> bool \<times> u32 option \<times> string" where
  "check_sum checksum input =
     (case scan_hex 2 input of
        Scan v rest \<Rightarrow> (v = checksum, Some v, rest)
      | Mismatch rest \<Rightarrow> (False, None, rest)
      | End_of_file \<Rightarrow> (False, None, []))"

text \<open>A data record: \<open>compl\<close> is the complement of the sum that the format wants.\<close>

definition data_record :: "'s iface \<Rightarrow> (u32 \<Rightarrow> u32) \<Rightarrow> nat \<Rightarrow> nat \<Rightarrow> u32 \<Rightarrow> u32 \<Rightarrow> u32 option \<Rightarrow> string
    \<Rightarrow> ('s, message list \<times> (u32 option \<times> string) option) expr" where
  "data_record io compl line count addr checksum data input =
     bindE (load_data io line count addr checksum data input) (\<lambda>(msgs, checksum, data, rest).
       let (good, data, rest) = check_sum (compl checksum AND 0xff) rest
       in if good then Ret (msgs, Some (data, skip_eol rest)) else Ret (msgs @ [Bad_checksum line], None))"

text \<open>One turn of the loop of \<^verbatim>\<open>load_s19\<close>: the messages, and the rest of the file when the loop goes on. The
  value left in \<^verbatim>\<open>data\<close> is that of the checksum, which the next record may use at the end of the file.\<close>

definition s19_record :: "'s iface \<Rightarrow> nat \<Rightarrow> u32 option \<Rightarrow> string \<Rightarrow> ('s, message list \<times> (u32 option \<times> string) option) expr" where
  "s19_record io line data input =
     (case scan_record CHR ''S'' [1, 2, 4] input of
        ([type, count, addr], rest) \<Rightarrow>
          let checksum = count + drop_bit 8 addr + (addr AND 0xff) in
          if type = 1 then
            data_record io NOT line (unat (count - 3)) addr checksum data rest
          else if type = 9 then
            (if fst (check_sum (NOT checksum AND 0xff) rest) then Ret ([], None) else Ret ([Bad_checksum line], None))
          else Ret ([Not_supported line type], None)
      | _ \<Rightarrow> Ret ([Invalid_record line], None))"

definition hex_record :: "'s iface \<Rightarrow> nat \<Rightarrow> u32 option \<Rightarrow> string \<Rightarrow> ('s, message list \<times> (u32 option \<times> string) option) expr" where
  "hex_record io line data input =
     (case scan_record CHR '':'' [2, 4, 2] input of
        ([count, addr, type], rest) \<Rightarrow>
          let checksum = count + drop_bit 8 addr + (addr AND 0xff) + type in
          if type = 0 then
            data_record io uminus line (unat count) addr checksum data rest
          else if type = 1 then
            (if fst (check_sum (- checksum AND 0xff) rest) then Ret ([], None) else Ret ([Bad_checksum line], None))
          else Ret ([Not_supported line type], None)
      | _ \<Rightarrow> Ret ([Invalid_record line], None))"

section \<open>Files\<close>

text \<open>The loop over the records. Each takes at least one character off the input, so the length of the file is
  enough fuel.\<close>

fun load_records :: "(nat \<Rightarrow> u32 option \<Rightarrow> string \<Rightarrow> ('s, message list \<times> (u32 option \<times> string) option) expr)
    \<Rightarrow> nat \<Rightarrow> nat \<Rightarrow> u32 option \<Rightarrow> string \<Rightarrow> ('s, message list) expr" where
  "load_records rec 0 line data input = (\<lambda>_. NoFuel)"
| "load_records rec (Suc n) line data input = bindE (rec line data input) (\<lambda>(msgs, next).
     case next of
       None \<Rightarrow> Ret msgs
     | Some (data, rest) \<Rightarrow> bindE (load_records rec n (line + 1) data rest) (\<lambda>msgs'. Ret (msgs @ msgs')))"

definition load_s19 :: "'s iface \<Rightarrow> string \<Rightarrow> ('s, message list \<times> int) expr" where
  "load_s19 io input = bindE (load_records (s19_record io) (Suc (length input)) 1 None input) (\<lambda>msgs. Ret (msgs, 0))"

definition load_hex :: "'s iface \<Rightarrow> string \<Rightarrow> ('s, message list \<times> int) expr" where
  "load_hex io input = bindE (load_records (hex_record io) (Suc (length input)) 1 None input) (\<lambda>msgs. Ret (msgs, 0))"

text \<open>\<open>fp\<close> is what \<^verbatim>\<open>file_open\<close> finds under the name. The second attempt goes on where the first stopped.\<close>

definition load_image :: "'s iface \<Rightarrow> string option \<Rightarrow> ('s, message list \<times> int) expr" where
  "load_image io fp =
     (case fp of
        None \<Rightarrow> Ret ([], 1)
      | Some input \<Rightarrow>
          let (vs, rest) = scan_record CHR ''S'' [1, 2, 4] input in
          if length vs = 3 then load_s19 io input
          else if length (fst (scan_record CHR '':'' [2, 4, 2] rest)) = 3 then load_hex io input
          else Ret ([], 1))"

section \<open>Termination\<close>

lemma take_digits_length: "length (snd (take_digits w cs acc)) \<le> length cs"
  by (induction w cs acc rule: take_digits.induct) (auto split: option.split)

lemma scan_hex_length: "scan_hex w inp = Scan v rest \<or> scan_hex w inp = Mismatch rest \<Longrightarrow> length rest \<le> length inp"
proof -
  let ?cs = "dropWhile isspace inp"
  have cs: "length ?cs \<le> length inp" by (rule length_dropWhile_le)
  have t: "length ds \<le> length inp \<Longrightarrow> take_digits w' ds 0 = (v', rest') \<Longrightarrow> length rest' \<le> length inp" for w' ds v' rest'
    using take_digits_length [of w' ds 0] by simp
  assume "scan_hex w inp = Scan v rest \<or> scan_hex w inp = Mismatch rest"
  then show ?thesis
    using cs by (auto simp: scan_hex_def Let_def split: prod.splits if_splits elim!: t [rotated])
qed

lemma scan_fields_length: "length (snd (scan_fields ws inp)) \<le> length inp"
proof (induction ws inp rule: scan_fields.induct)
  case (2 w ws inp)
  then show ?case using scan_hex_length [of w inp] by (fastforce split: scanned.splits prod.splits)
qed simp

lemma scan_record_length:
  assumes "scan_record c ws inp = (v # vs, rest)"
  shows "length rest < length inp"
  using assms scan_fields_length [of ws "tl inp"] by (cases inp) (auto simp: scan_record_def split: if_splits)

lemma load_data_length:
  assumes "load_data io line n a ck dat inp s = Ret (msgs, ck', dat', rest) t"
  shows "length rest \<le> length inp"
  using assms
proof (induction io line n a ck dat inp arbitrary: s rule: load_data.induct)
  case (2 io line n a ck dat inp)
  then show ?case
    using scan_hex_length [of 2 inp]
    by (fastforce simp: bindE_def bindR_Ret_iff split: scanned.splits option.splits)
qed simp

lemma check_sum_length: "check_sum c inp = (b, d, rest) \<Longrightarrow> length rest \<le> length inp"
  using scan_hex_length [of 2 inp] by (auto simp: check_sum_def split: scanned.splits)

lemma skip_eol_length: "length (skip_eol inp) \<le> length inp"
  unfolding skip_eol_def by (rule length_dropWhile_le)

text \<open>A record function takes characters off the input whenever the loop is to go on, and does not run out of fuel.\<close>

definition consumes :: "(nat \<Rightarrow> u32 option \<Rightarrow> string \<Rightarrow> ('s, message list \<times> (u32 option \<times> string) option) expr) \<Rightarrow> bool" where
  "consumes rd \<longleftrightarrow> (\<forall>line dat inp s msgs dat' rest t. rd line dat inp s = Ret (msgs, Some (dat', rest)) t \<longrightarrow> length rest < length inp)"

lemma data_record_length:
  assumes "data_record io compl line n a ck dat inp s = Ret (msgs, Some (dat', rest)) t"
  shows "length rest \<le> length inp"
proof -
  obtain msgs1 ck1 dat1 rest1 t1 where 1: "load_data io line n a ck dat inp s = Ret (msgs1, ck1, dat1, rest1) t1"
    and 2: "(let (good, data, rest) = check_sum (compl ck1 AND 0xff) rest1
       in if good then Ret (msgs1, Some (data, skip_eol rest)) else Ret (msgs1 @ [Bad_checksum line], None)) t1 = Ret (msgs, Some (dat', rest)) t"
    using assms by (auto simp: data_record_def bindE_def bindR_Ret_iff)
  obtain good dat2 rest2 where 3: "check_sum (compl ck1 AND 0xff) rest1 = (good, dat2, rest2)" by (cases "check_sum (compl ck1 AND 0xff) rest1")
  then have "rest = skip_eol rest2" using 2 by (simp split: if_splits)
  then show ?thesis
    using load_data_length [OF 1] check_sum_length [OF 3] skip_eol_length [of rest2] by simp
qed

lemma consumes_records: "consumes (s19_record io)" "consumes (hex_record io)"
  unfolding consumes_def s19_record_def hex_record_def
  by (auto simp: Let_def split: prod.splits list.splits if_splits dest!: scan_record_length dest: data_record_length)

lemma load_records_fuel:
  assumes "consumes rd" "\<And>line dat inp. obeys P (\<lambda>s t. P t) (rd line dat inp)" "length inp < n" "P s"
  shows "load_records rd n line dat inp s \<noteq> NoFuel"
  using assms(3,4)
proof (induction n arbitrary: line dat inp s)
  case (Suc n)
  show ?case
  proof (cases "rd line dat inp s")
    case (Ret r t)
    obtain msgs nx where r: "r = (msgs, nx)" by (cases r)
    show ?thesis
    proof (cases nx)
      case (Some p)
      obtain dat' rest where p: "p = (dat', rest)" by (cases p)
      have "length rest < length inp" using assms(1) Ret r Some p unfolding consumes_def by blast
      moreover have "P t" using obeysD [OF assms(2) Suc.prems(2)] Ret by metis
      ultimately have "load_records rd n (line + 1) dat' rest t \<noteq> NoFuel" using Suc by simp
      then show ?thesis using Ret r Some p by (cases "load_records rd n (line + 1) dat' rest t") (auto simp: bindE_def)
    qed (use Ret r in \<open>simp add: bindE_def\<close>)
  qed (use obeys_NoFuel [OF assms(2) Suc.prems(2)] in \<open>auto simp: bindE_def\<close>)
qed simp

section \<open>Files an assembler writes\<close>

definition hexd :: "nat \<Rightarrow> char" where "hexd n = ''0123456789ABCDEF'' ! n"

definition hex2 :: "u8 \<Rightarrow> string" where "hex2 b = [hexd (unat b div 16), hexd (unat b mod 16)]"

definition hi8 :: "nat \<Rightarrow> u8" where "hi8 a = of_nat (a div 256)"
definition lo8 :: "nat \<Rightarrow> u8" where "lo8 a = of_nat a"

text \<open>Data records: the byte count, the address, the data and the checksum.\<close>

definition s19_line :: "nat \<times> u8 list \<Rightarrow> string" where
  "s19_line r = (case r of (a, bs) \<Rightarrow> let n = of_nat (length bs + 3) in
     ''S1'' @ hex2 n @ hex2 (hi8 a) @ hex2 (lo8 a) @ concat (map hex2 bs)
       @ hex2 (NOT (n + hi8 a + lo8 a + sum_list bs)) @ [CHR 0x0a])"

definition s19_file :: "(nat \<times> u8 list) list \<Rightarrow> string" where
  "s19_file recs = concat (map s19_line recs) @ ''S9030000FC'' @ [CHR 0x0a]"

definition hex_line :: "nat \<times> u8 list \<Rightarrow> string" where
  "hex_line r = (case r of (a, bs) \<Rightarrow> let n = of_nat (length bs) in
     '':'' @ hex2 n @ hex2 (hi8 a) @ hex2 (lo8 a) @ ''00'' @ concat (map hex2 bs)
       @ hex2 (- (n + hi8 a + lo8 a + sum_list bs)) @ [CHR 0x0a])"

definition hex_file :: "(nat \<times> u8 list) list \<Rightarrow> string" where
  "hex_file recs = concat (map hex_line recs) @ '':00000001FF'' @ [CHR 0x0a]"

lemma hexd_cases: "n < 16 \<Longrightarrow> P 0 \<and> P 1 \<and> P 2 \<and> P 3 \<and> P 4 \<and> P 5 \<and> P 6 \<and> P 7 \<and> P 8 \<and> P 9 \<and> P 10 \<and> P 11 \<and> P 12 \<and> P 13 \<and> P 14 \<and> P 15 \<Longrightarrow> P n" for n :: nat
  by (auto simp: less_Suc_eq numeral_eq_Suc)

lemma xdigit_hexd: "n < 16 \<Longrightarrow> xdigit (hexd n) = Some n"
  by (rule hexd_cases [of n]) (simp_all add: hexd_def xdigit_def code_def)

lemma hexd_plain: "n < 16 \<Longrightarrow> \<not> isspace (hexd n) \<and> hexd n \<noteq> CHR ''+'' \<and> hexd n \<noteq> CHR ''-'' \<and> hexd n \<noteq> CHR ''x'' \<and> hexd n \<noteq> CHR ''X''"
  by (rule hexd_cases [of n]) (simp_all add: hexd_def isspace_def)

lemma scan_hex_digits:
  assumes "list_all (\<lambda>d. d < 16) ds" "ds \<noteq> []" "take_digits (length ds) (map hexd ds @ rest) 0 = (v, rest)"
  shows "scan_hex (length ds) (map hexd ds @ rest) = Scan (of_nat v) rest"
proof -
  obtain d ds' where ds: "ds = d # ds'" "d < 16" using assms(1,2) by (cases ds) auto
  have "\<not> (2 \<le> length ds \<and> 2 \<le> length (map hexd ds @ rest) \<and> (map hexd ds @ rest) ! 0 = CHR ''0'' \<and>
     ((map hexd ds @ rest) ! 1 = CHR ''x'' \<or> (map hexd ds @ rest) ! 1 = CHR ''X''))"
    using assms(1) ds by (cases ds') (auto dest: hexd_plain)
  moreover have "dropWhile isspace (map hexd ds @ rest) = map hexd ds @ rest" using ds hexd_plain [of d] by simp
  moreover have "hd (map hexd ds @ rest) = hexd d" "map hexd ds @ rest \<noteq> []" using ds by simp_all
  ultimately show ?thesis
    using assms(2,3) hexd_plain [OF ds(2)] by (auto simp: scan_hex_def Let_def)
qed

lemma scan_hex2: "scan_hex 2 (hex2 b @ rest) = Scan (ucast b) rest"
proof -
  let ?d = "[unat b div 16, unat b mod 16]"
  have lt: "unat b div 16 < 16" using unat_u8 [of b] by (simp add: less_mult_imp_div_less)
  then have "take_digits (length ?d) (map hexd ?d @ rest) 0 = (unat b, rest)" by (simp add: xdigit_hexd)
  moreover have "list_all (\<lambda>d. d < 16) ?d" using lt by simp
  ultimately show ?thesis using scan_hex_digits [of ?d rest "unat b"] by (simp add: hex2_def numeral_2_eq_2)
qed

lemma take_digits4: "take_digits 4 (hex2 h @ hex2 l @ rest) 0 = (unat h * 256 + unat l, rest)"
proof -
  have lt: "unat h div 16 < 16" "unat l div 16 < 16" using unat_u8 [of h] unat_u8 [of l] by (simp_all add: less_mult_imp_div_less)
  have "((unat h div 16 * 16 + unat h mod 16) * 16 + unat l div 16) * 16 + unat l mod 16 = unat h * 256 + unat l"
    using div_mult_mod_eq [of "unat h" 16] div_mult_mod_eq [of "unat l" 16] by presburger
  then have "take_digits (Suc (Suc (Suc (Suc 0)))) (hex2 h @ hex2 l @ rest) 0 = (unat h * 256 + unat l, rest)"
    using lt by (simp add: hex2_def xdigit_hexd algebra_simps)
  moreover have "Suc (Suc (Suc (Suc 0))) = (4 :: nat)" by simp
  ultimately show ?thesis by (simp only:)
qed

lemma scan_hex4: "scan_hex 4 (hex2 h @ hex2 l @ rest) = Scan (of_nat (unat h * 256 + unat l)) rest"
proof -
  let ?d = "[unat h div 16, unat h mod 16, unat l div 16, unat l mod 16]"
  have d: "length ?d = 4" "map hexd ?d @ rest = hex2 h @ hex2 l @ rest" by (simp_all add: hex2_def)
  have "list_all (\<lambda>d. d < 16) ?d" using unat_u8 [of h] unat_u8 [of l] by (simp add: less_mult_imp_div_less)
  from scan_hex_digits [OF this, of rest "unat h * 256 + unat l", unfolded d] take_digits4 show ?thesis by blast
qed

lemma scan_hex1: "n < 16 \<Longrightarrow> scan_hex 1 (hexd n # rest) = Scan (of_nat n) rest"
  using scan_hex_digits [of "[n]" rest n] by (simp add: xdigit_hexd)

lemma address_halves: "a < 65536 \<Longrightarrow> unat (hi8 a) * 256 + unat (lo8 a) = a"
proof -
  assume "a < 65536"
  then have "unat (hi8 a) = a div 256" "unat (lo8 a) = a mod 256"
    by (simp_all add: hi8_def lo8_def unsigned_of_nat take_bit_eq_mod less_mult_imp_div_less)
  then show ?thesis using div_mult_mod_eq [of a 256] by simp
qed

text \<open>Checksums are computed in 32 bits and compared in eight.\<close>

lemma ucast_add8: "ucast (x + y :: u32) = (ucast x + ucast y :: u8)"
  by (simp add: word_unat_eq_iff unsigned_ucast_eq take_bit_eq_mod unat_word_ariths mod_mod_cancel mod_add_eq)

lemma ucast_ucast8: "ucast (ucast (b :: u8) :: u32) = b"
  by (rule bit_word_eqI) (simp add: bit_ucast_iff)

lemma low_byte: "(x AND 0xff) = ucast (ucast (x :: u32) :: u8)"
  by (simp add: word_unat_eq_iff) (simp add: unsigned_ucast_eq take_bit_eq_mod)

lemma compl_sum: "(NOT x AND 0xff) = ucast (NOT (ucast (x :: u32) :: u8))" "(- x AND 0xff) = ucast (- (ucast x :: u8))"
proof -
  have "ucast (NOT x) = NOT (ucast x :: u8)"
    by (rule bit_word_eqI) (simp add: bit_not_iff bit_ucast_iff)
  then show "(NOT x AND 0xff) = ucast (NOT (ucast x :: u8))" by (simp add: low_byte)
  have "ucast (- x) + ucast x = (0 :: u8)" using ucast_add8 [of "- x" x] by simp
  then have "ucast (- x) = - (ucast x :: u8)" by (simp add: eq_neg_iff_add_eq_0)
  then show "(- x AND 0xff) = ucast (- (ucast x :: u8))" by (simp add: low_byte)
qed

section \<open>Loading into memory\<close>

primrec sum32 :: "u8 list \<Rightarrow> u32 \<Rightarrow> u32" where
  "sum32 [] c = c"
| "sum32 (b # bs) c = sum32 bs (c + ucast b)"

lemma ucast_sum32: "ucast (sum32 bs c) = (ucast c + sum_list bs :: u8)"
  by (induction bs arbitrary: c) (simp_all add: ucast_add8 ucast_ucast8 algebra_simps)

text \<open>What the loaders need of the bus: a set of addresses at which a write stores the byte and does nothing else.\<close>

locale image_bus =
  fixes io :: "'x cpu_scheme iface" and ok :: "'x \<Rightarrow> bool"
    and mem :: "'x \<Rightarrow> nat \<Rightarrow> u8" and put :: "nat \<Rightarrow> u8 \<Rightarrow> 'x \<Rightarrow> 'x" and cells :: "nat set"
  assumes cells_mapped: "ok m \<Longrightarrow> a \<in> cells \<Longrightarrow> a < 65536"
    and write8_cell: "ok (cpu.more s) \<Longrightarrow> a \<in> cells \<Longrightarrow> write8 io (of_nat a) v s = Ret () (s\<lparr>cpu.more := put a v (cpu.more s)\<rparr>)"
    and ok_put: "ok m \<Longrightarrow> a \<in> cells \<Longrightarrow> ok (put a v m)"
    and mem_put: "ok m \<Longrightarrow> a \<in> cells \<Longrightarrow> i \<in> cells \<Longrightarrow> mem (put a v m) i = (if i = a then v else mem m i)"
begin

primrec put_bytes :: "nat \<Rightarrow> u8 list \<Rightarrow> 'x \<Rightarrow> 'x" where
  "put_bytes a [] m = m"
| "put_bytes a (b # bs) m = put_bytes (Suc a) bs (put a b m)"

lemma put_bytes_ok: "ok m \<Longrightarrow> {a..<a + length bs} \<subseteq> cells \<Longrightarrow> ok (put_bytes a bs m)"
proof (induction bs arbitrary: a m)
  case (Cons b bs)
  have a: "a \<in> cells" "{Suc a..<Suc a + length bs} \<subseteq> cells" using Cons.prems(2) by auto
  show ?case using Cons.IH [OF ok_put [OF Cons.prems(1) a(1)] a(2)] by simp
qed simp

lemma load_data_bytes:
  assumes "ok (cpu.more s)" "{a..<a + length bs} \<subseteq> cells"
  shows "\<exists>d. load_data io line (length bs) (of_nat a) ck dat (concat (map hex2 bs) @ rest) s =
    Ret ([], sum32 bs ck, d, rest) (s\<lparr>cpu.more := put_bytes a bs (cpu.more s)\<rparr>)"
  using assms
proof (induction bs arbitrary: a ck dat s)
  case (Cons b bs)
  let ?s = "s\<lparr>cpu.more := put a b (cpu.more s)\<rparr>"
  have a: "a \<in> cells" "{Suc a..<Suc a + length bs} \<subseteq> cells" using Cons.prems(2) by auto
  have w: "write8 io (of_nat a) b s = Ret () ?s" by (rule write8_cell [OF Cons.prems(1) a(1)])
  have "\<exists>d. load_data io line (length bs) (of_nat (Suc a)) (ck + ucast b) (Some (ucast b)) (concat (map hex2 bs) @ rest) ?s =
    Ret ([], sum32 bs (ck + ucast b), d, rest) (?s\<lparr>cpu.more := put_bytes (Suc a) bs (cpu.more ?s)\<rparr>)"
    by (rule Cons.IH) (use Cons.prems ok_put a in auto)
  then show ?case by (auto simp: scan_hex2 ucast_ucast8 bindE_def w add.commute)
qed (simp add: concat_def)

end

definition no_eol :: "string \<Rightarrow> bool" where
  "no_eol rest \<longleftrightarrow> rest = [] \<or> (hd rest \<noteq> CHR 0x0d \<and> hd rest \<noteq> CHR 0x0a)"

lemma skip_eol_line: "no_eol rest \<Longrightarrow> skip_eol (CHR 0x0a # rest) = rest"
  by (cases rest) (auto simp: skip_eol_def no_eol_def)

text \<open>The heads of the records.\<close>

lemma hexd_1: "hexd 1 = CHR ''1''" by (simp add: hexd_def)

lemma scan_s19: "scan_record CHR ''S'' [1, 2, 4] (''S1'' @ hex2 n @ hex2 h @ hex2 l @ rest) = ([1, ucast n, of_nat (unat h * 256 + unat l)], rest)"
  using scan_hex1 [of 1 "hex2 n @ hex2 h @ hex2 l @ rest", unfolded hexd_1] by (simp add: scan_record_def scan_hex2 scan_hex4)

lemma hex2_00: "''00'' @ rest = hex2 0 @ rest"
  by (simp add: hex2_def hexd_def)

lemma scan_ihex: "scan_record CHR '':'' [2, 4, 2] ('':'' @ hex2 n @ hex2 h @ hex2 l @ ''00'' @ rest) = ([ucast n, of_nat (unat h * 256 + unat l), 0], rest)"
  unfolding hex2_00 by (simp add: scan_record_def scan_hex2 scan_hex4)

lemma head_sum:
  assumes "a < 65536"
  shows "ucast (ucast n + drop_bit 8 (of_nat a) + (of_nat a AND 0xff) :: u32) = n + hi8 a + lo8 a"
proof -
  have "unat (of_nat a :: u32) = a" using assms by (simp add: unsigned_of_nat take_bit_nat_eq_self)
  then have "ucast (drop_bit 8 (of_nat a :: u32)) = hi8 a" "ucast (of_nat a AND 0xff :: u32) = lo8 a"
    by (simp_all add: word_unat_eq_iff unsigned_ucast_eq unat_shr hi8_def lo8_def unsigned_of_nat take_bit_eq_mod)
  then show ?thesis by (simp add: ucast_add8 ucast_ucast8)
qed

lemma small_count: "k < 256 \<Longrightarrow> unat (ucast (of_nat k :: u8) :: u32) = k"
  by (simp add: unsigned_of_nat take_bit_nat_eq_self)

context image_bus
begin

lemma data_record_line:
  assumes "ok (cpu.more s)" "{a..<a + length bs} \<subseteq> cells" "no_eol rest" "(compl (sum32 bs ck) AND 0xff) = ucast (c :: u8)"
  shows "\<exists>d. data_record io compl line (length bs) (of_nat a) ck dat (concat (map hex2 bs) @ hex2 c @ CHR 0x0a # rest) s =
    Ret ([], Some (d, rest)) (s\<lparr>cpu.more := put_bytes a bs (cpu.more s)\<rparr>)"
proof -
  obtain d where "load_data io line (length bs) (of_nat a) ck dat (concat (map hex2 bs) @ hex2 c @ CHR 0x0a # rest) s =
    Ret ([], sum32 bs ck, d, hex2 c @ CHR 0x0a # rest) (s\<lparr>cpu.more := put_bytes a bs (cpu.more s)\<rparr>)"
    using load_data_bytes [OF assms(1,2)] by blast
  then show ?thesis
    using assms(3,4) by (simp add: data_record_def bindE_def check_sum_def scan_hex2 skip_eol_line Let_def)
qed

lemma s19_record_line:
  assumes "ok (cpu.more s)" "length bs \<le> 252" "a < 65536" "{a..<a + length bs} \<subseteq> cells" "no_eol rest"
  shows "\<exists>d. s19_record io line dat (s19_line (a, bs) @ rest) s = Ret ([], Some (d, rest)) (s\<lparr>cpu.more := put_bytes a bs (cpu.more s)\<rparr>)"
proof -
  let ?n = "of_nat (length bs + 3) :: u8"
  let ?ck = "ucast ?n + drop_bit 8 (of_nat a) + (of_nat a AND 0xff) :: u32"
  let ?c = "NOT (?n + hi8 a + lo8 a + sum_list bs)"
  have "unat (ucast ?n :: u32) = length bs + 3" by (rule small_count) (use assms(2) in simp)
  then have n: "unat (ucast ?n - 3 :: u32) = length bs" by (simp add: unat_sub word_le_nat_alt del: of_nat_add)
  have c: "(NOT (sum32 bs ?ck) AND 0xff) = ucast ?c"
    by (simp only: compl_sum ucast_sum32 head_sum [OF assms(3)])
  have "s19_line (a, bs) @ rest = ''S1'' @ hex2 ?n @ hex2 (hi8 a) @ hex2 (lo8 a) @ concat (map hex2 bs) @ hex2 ?c @ CHR 0x0a # rest"
    by (simp add: s19_line_def Let_def)
  then have "s19_record io line dat (s19_line (a, bs) @ rest) s =
      data_record io NOT line (length bs) (of_nat a) ?ck dat (concat (map hex2 bs) @ hex2 ?c @ CHR 0x0a # rest) s"
    by (simp only: s19_record_def scan_s19 address_halves [OF assms(3)] n Let_def prod.case list.case if_True refl)
  then show ?thesis using data_record_line [where compl = NOT, OF assms(1,4,5) c] by simp
qed

lemma hex_record_line:
  assumes "ok (cpu.more s)" "length bs \<le> 255" "a < 65536" "{a..<a + length bs} \<subseteq> cells" "no_eol rest"
  shows "\<exists>d. hex_record io line dat (hex_line (a, bs) @ rest) s = Ret ([], Some (d, rest)) (s\<lparr>cpu.more := put_bytes a bs (cpu.more s)\<rparr>)"
proof -
  let ?n = "of_nat (length bs) :: u8"
  let ?ck = "ucast ?n + drop_bit 8 (of_nat a) + (of_nat a AND 0xff) + 0 :: u32"
  let ?c = "- (?n + hi8 a + lo8 a + sum_list bs)"
  have n: "unat (ucast ?n :: u32) = length bs" by (rule small_count) (use assms(2) in simp)
  have c: "(- (sum32 bs ?ck) AND 0xff) = ucast ?c"
    by (simp only: compl_sum ucast_sum32 add_0_right head_sum [OF assms(3)])
  have "hex_line (a, bs) @ rest = '':'' @ hex2 ?n @ hex2 (hi8 a) @ hex2 (lo8 a) @ ''00'' @ concat (map hex2 bs) @ hex2 ?c @ CHR 0x0a # rest"
    by (simp add: hex_line_def Let_def)
  then have "hex_record io line dat (hex_line (a, bs) @ rest) s =
      data_record io uminus line (length bs) (of_nat a) ?ck dat (concat (map hex2 bs) @ hex2 ?c @ CHR 0x0a # rest) s"
    by (simp only: hex_record_def scan_ihex address_halves [OF assms(3)] n Let_def prod.case list.case if_True refl)
  then show ?thesis using data_record_line [where compl = uminus, OF assms(1,4,5) c] by simp
qed

end

text \<open>A record that its format can hold, with all its bytes in the addresses \<open>cells\<close>.\<close>

definition fits :: "nat \<Rightarrow> nat set \<Rightarrow> nat \<times> u8 list \<Rightarrow> bool" where
  "fits k cells = (\<lambda>(a, bs). length bs \<le> k \<and> a < 65536 \<and> {a..<a + length bs} \<subseteq> cells)"

text \<open>The memory that a list of records describes, later records over earlier ones.\<close>

definition overlay :: "nat \<times> u8 list \<Rightarrow> (nat \<Rightarrow> u8) \<Rightarrow> nat \<Rightarrow> u8" where
  "overlay = (\<lambda>(a, bs) f i. if a \<le> i \<and> i < a + length bs then bs ! (i - a) else f i)"

definition end_s19 :: string where "end_s19 = ''S9030000FC'' @ [CHR 0x0a]"

definition end_hex :: string where "end_hex = '':00000001FF'' @ [CHR 0x0a]"

lemma end_records: "s19_record io line dat end_s19 s = Ret ([], None) s" "hex_record io line dat end_hex s = Ret ([], None) s"
proof -
  have "scan_record CHR ''S'' [1, 2, 4] end_s19 = ([9, 3, 0], ''FC'' @ [CHR 0x0a])" "check_sum 0xfc (''FC'' @ [CHR 0x0a]) = (True, Some 0xfc, [CHR 0x0a])"
    "scan_record CHR '':'' [2, 4, 2] end_hex = ([0, 0, 1], ''FF'' @ [CHR 0x0a])" "check_sum 0xff (''FF'' @ [CHR 0x0a]) = (True, Some 0xff, [CHR 0x0a])"
    by code_simp+
  then show "s19_record io line dat end_s19 s = Ret ([], None) s" "hex_record io line dat end_hex s = Ret ([], None) s"
    by (simp_all add: s19_record_def hex_record_def Let_def)
qed

lemma overlay_at: "f i = g i \<Longrightarrow> fold overlay recs f i = fold overlay recs g i"
proof (induction recs arbitrary: f g)
  case (Cons r recs)
  obtain a bs where "r = (a, bs)" by (cases r)
  then have "overlay r f i = overlay r g i" using Cons.prems by (simp add: overlay_def)
  then show ?case using Cons.IH [of "overlay r f" "overlay r g"] by simp
qed simp

context image_bus
begin

definition put_all :: "(nat \<times> u8 list) list \<Rightarrow> 'x \<Rightarrow> 'x" where
  "put_all recs m = fold (\<lambda>(a, bs). put_bytes a bs) recs m"

lemma mem_put_bytes:
  "ok m \<Longrightarrow> {a..<a + length bs} \<subseteq> cells \<Longrightarrow> i \<in> cells \<Longrightarrow> mem (put_bytes a bs m) i = overlay (a, bs) (mem m) i"
proof (induction bs arbitrary: a m)
  case (Cons b bs)
  have a: "a \<in> cells" "{Suc a..<Suc a + length bs} \<subseteq> cells" using Cons.prems(2) by auto
  have "mem (put_bytes (Suc a) bs (put a b m)) i = overlay (Suc a, bs) (mem (put a b m)) i"
    by (rule Cons.IH) (use Cons.prems ok_put a in auto)
  then show ?case using mem_put [OF Cons.prems(1) a(1) Cons.prems(3)] by (auto simp: overlay_def nth_Cons')
qed (auto simp: overlay_def)

lemma mem_put_all:
  "ok m \<Longrightarrow> \<forall>r \<in> set recs. fits k cells r \<Longrightarrow> i \<in> cells \<Longrightarrow> mem (put_all recs m) i = fold overlay recs (mem m) i"
proof (induction recs arbitrary: m)
  case (Cons r recs)
  obtain a bs where r: "r = (a, bs)" by (cases r)
  then have f: "{a..<a + length bs} \<subseteq> cells" using Cons.prems(2) by (simp add: fits_def)
  then have "mem (put_all recs (put_bytes a bs m)) i = fold overlay recs (mem (put_bytes a bs m)) i"
    using Cons.prems by (intro Cons.IH) (simp_all add: put_bytes_ok)
  moreover have "fold overlay recs (mem (put_bytes a bs m)) i = fold overlay recs (overlay (a, bs) (mem m)) i"
    by (rule overlay_at) (rule mem_put_bytes [OF Cons.prems(1) f Cons.prems(3)])
  ultimately show ?case by (simp add: put_all_def r)
qed (simp add: put_all_def)

text \<open>What a single write keeps the whole image keeps.\<close>

lemma put_bytes_keeps:
  assumes "\<And>a v m. ok m \<Longrightarrow> a \<in> cells \<Longrightarrow> P m \<Longrightarrow> P (put a v m)"
  shows "ok m \<Longrightarrow> {a..<a + length bs} \<subseteq> cells \<Longrightarrow> P m \<Longrightarrow> P (put_bytes a bs m)"
proof (induction bs arbitrary: a m)
  case (Cons b bs)
  have a: "a \<in> cells" "{Suc a..<Suc a + length bs} \<subseteq> cells" using Cons.prems(2) by auto
  show ?case using Cons.IH [OF ok_put [OF Cons.prems(1) a(1)] a(2) assms [OF Cons.prems(1) a(1) Cons.prems(3)]] by simp
qed simp

lemma put_all_keeps:
  assumes "\<And>a v m. ok m \<Longrightarrow> a \<in> cells \<Longrightarrow> P m \<Longrightarrow> P (put a v m)"
  shows "ok m \<Longrightarrow> \<forall>r \<in> set recs. fits k cells r \<Longrightarrow> P m \<Longrightarrow> P (put_all recs m)"
proof (induction recs arbitrary: m)
  case (Cons r recs)
  obtain a bs where r: "r = (a, bs)" by (cases r)
  then have f: "{a..<a + length bs} \<subseteq> cells" using Cons.prems(2) by (simp add: fits_def)
  have "P (put_all recs (put_bytes a bs m))"
    using Cons put_bytes_ok [OF Cons.prems(1) f] put_bytes_keeps [of P, OF assms Cons.prems(1) f Cons.prems(3)] by simp
  then show ?case by (simp add: put_all_def r)
qed (simp add: put_all_def)

lemma load_records_lines:
  assumes line: "\<And>s a bs rest line dat. ok (cpu.more s) \<Longrightarrow> fits k cells (a, bs) \<Longrightarrow> no_eol rest \<Longrightarrow>
      \<exists>d. rd line dat (ln (a, bs) @ rest) s = Ret ([], Some (d, rest)) (s\<lparr>cpu.more := put_bytes a bs (cpu.more s)\<rparr>)"
    and tr: "\<And>line dat s. rd line dat tr s = Ret ([], None) s" "no_eol tr" "\<And>r rest. no_eol (ln r @ rest)"
  shows "ok (cpu.more s) \<Longrightarrow> \<forall>r \<in> set recs. fits k cells r \<Longrightarrow> length recs < n \<Longrightarrow>
    load_records rd n line dat (concat (map ln recs) @ tr) s = Ret [] (s\<lparr>cpu.more := put_all recs (cpu.more s)\<rparr>)"
proof (induction recs arbitrary: s n line dat)
  case Nil
  then show ?case by (cases n) (simp_all add: tr(1) bindE_def put_all_def)
next
  case (Cons r recs)
  obtain a bs where r: "r = (a, bs)" by (cases r)
  obtain m where n: "n = Suc m" "length recs < m" using Cons.prems(3) by (cases n) auto
  have fit: "fits k cells (a, bs)" using Cons.prems(2) r by simp
  have "no_eol (concat (map ln recs) @ tr)" using tr(2,3) by (cases recs) simp_all
  from line [OF Cons.prems(1) fit this] obtain d where d: "rd line dat (ln r @ concat (map ln recs) @ tr) s =
    Ret ([], Some (d, concat (map ln recs) @ tr)) (s\<lparr>cpu.more := put_bytes a bs (cpu.more s)\<rparr>)" using r by blast
  let ?s = "s\<lparr>cpu.more := put_bytes a bs (cpu.more s)\<rparr>"
  have "load_records rd m (line + 1) d (concat (map ln recs) @ tr) ?s = Ret [] (?s\<lparr>cpu.more := put_all recs (cpu.more ?s)\<rparr>)"
    by (rule Cons.IH) (use Cons.prems fit n in \<open>auto simp: put_bytes_ok fits_def\<close>)
  then show ?case using d n by (simp add: bindE_def put_all_def r)
qed

lemma load_s19_lines:
  assumes "ok (cpu.more s)" "\<forall>r \<in> set recs. fits 252 cells r"
  shows "load_s19 io (s19_file recs) s = Ret ([], 0) (s\<lparr>cpu.more := put_all recs (cpu.more s)\<rparr>)"
proof -
  have "length recs \<le> length (s19_file recs)"
    unfolding s19_file_def by (induction recs) (auto simp: s19_line_def Let_def split: prod.split)
  then have "load_records (s19_record io) (Suc (length (s19_file recs))) 1 None (concat (map s19_line recs) @ end_s19) s =
    Ret [] (s\<lparr>cpu.more := put_all recs (cpu.more s)\<rparr>)"
    by (intro load_records_lines [where k = 252] end_records s19_record_line assms)
      (auto simp: fits_def no_eol_def end_s19_def s19_line_def Let_def split: prod.split)
  then show ?thesis by (simp add: load_s19_def bindE_def s19_file_def end_s19_def)
qed

lemma load_hex_lines:
  assumes "ok (cpu.more s)" "\<forall>r \<in> set recs. fits 255 cells r"
  shows "load_hex io (hex_file recs) s = Ret ([], 0) (s\<lparr>cpu.more := put_all recs (cpu.more s)\<rparr>)"
proof -
  have "length recs \<le> length (hex_file recs)"
    unfolding hex_file_def by (induction recs) (auto simp: hex_line_def Let_def split: prod.split)
  then have "load_records (hex_record io) (Suc (length (hex_file recs))) 1 None (concat (map hex_line recs) @ end_hex) s =
    Ret [] (s\<lparr>cpu.more := put_all recs (cpu.more s)\<rparr>)"
    by (intro load_records_lines [where k = 255] end_records hex_record_line assms)
      (auto simp: fits_def no_eol_def end_hex_def hex_line_def Let_def split: prod.split)
  then show ?thesis by (simp add: load_hex_def bindE_def hex_file_def end_hex_def)
qed

end

lemma image_formats:
  "length (fst (scan_record CHR ''S'' [1, 2, 4] (s19_file recs))) = 3"
  "scan_record CHR ''S'' [1, 2, 4] (hex_file recs) = ([], hex_file recs)"
  "length (fst (scan_record CHR '':'' [2, 4, 2] (hex_file recs))) = 3"
proof -
  have "scan_record CHR ''S'' [1, 2, 4] end_s19 = ([9, 3, 0], ''FC'' @ [CHR 0x0a])"
    "scan_record CHR '':'' [2, 4, 2] end_hex = ([0, 0, 1], ''FF'' @ [CHR 0x0a])" by code_simp+
  then show "length (fst (scan_record CHR ''S'' [1, 2, 4] (s19_file recs))) = 3"
    "length (fst (scan_record CHR '':'' [2, 4, 2] (hex_file recs))) = 3"
    using scan_s19 scan_ihex
    by (cases recs; force simp: s19_file_def hex_file_def end_s19_def end_hex_def s19_line_def hex_line_def Let_def split: prod.split)+
  show "scan_record CHR ''S'' [1, 2, 4] (hex_file recs) = ([], hex_file recs)"
    by (cases recs) (auto simp: scan_record_def hex_file_def hex_line_def Let_def split: prod.split)
qed

section \<open>Loading into a machine\<close>

text \<open>The byte of memory behind an address, in whatever RAM or ROM the memory map leads to. Before the processor runs
  a ROM takes writes too. Two addresses of the image must not lead to the same byte, and neither to one that a watchpoint
  or the thread variable depends on.\<close>

definition cell :: "machine_state \<Rightarrow> nat \<Rightarrow> nat \<times> nat" where
  "cell m a = (let u = busmaps m ! (a div BUS_MAP_SIZE) in (bm_devid u, bm_offset u + a mod BUS_MAP_SIZE))"

definition contents :: "priv \<Rightarrow> (nat \<Rightarrow> u8) option" where
  "contents p = (case p of Ram_dev buf \<Rightarrow> Some buf | Rom_dev buf \<Rightarrow> Some buf | _ \<Rightarrow> None)"

definition byte_of :: "machine_state \<Rightarrow> nat \<times> nat \<Rightarrow> u8" where
  "byte_of m = (\<lambda>(d, p). the (contents (dev_priv (device_table m ! d))) p)"

definition store :: "nat \<Rightarrow> u8 \<Rightarrow> priv \<Rightarrow> priv" where
  "store p v x = (case x of Ram_dev buf \<Rightarrow> Ram_dev (buf(p := v)) | Rom_dev buf \<Rightarrow> Rom_dev (buf(p := v)) | _ \<Rightarrow> x)"

definition put_cell :: "nat \<Rightarrow> u8 \<Rightarrow> machine_state \<Rightarrow> machine_state" where
  "put_cell a v m = (let (d, p) = cell m a in
     m\<lparr>device_table := (device_table m)[d := (device_table m ! d)\<lparr>dev_priv := store p v (dev_priv (device_table m ! d))\<rparr>]\<rparr>)"

definition writable_cell :: "machine_state \<Rightarrow> nat \<Rightarrow> bool" where
  "writable_cell m a \<longleftrightarrow> (let (d, p) = cell m a in
     a < 65536 \<and> d < 255 \<and> d < length (device_table m) \<and> contents (dev_priv (device_table m ! d)) \<noteq> None \<and> p < dev_size (device_table m ! d)
     \<and> (cpu_running m \<longrightarrow> bm_flags (busmaps m ! (a div BUS_MAP_SIZE)) AND MAP_WRITABLE \<noteq> 0)
     \<and> absolute_from_reladdr d p + 1 \<noteq> thread_current m + thread_id_size m)"

definition loadable :: "nat set \<Rightarrow> machine_state \<Rightarrow> bool" where
  "loadable cells m \<longleftrightarrow> length (busmaps m) = NUM_BUS_MAPS \<and> no_watch m \<and> inj_on (cell m) cells \<and> (\<forall>a \<in> cells. writable_cell m a)"

lemma contents_store: "contents (store p v x) = map_option (\<lambda>buf. buf(p := v)) (contents x)"
  by (cases x) (simp_all add: contents_def store_def)

lemma put_cell_frame:
  "busmaps (put_cell a v m) = busmaps m" "no_watch (put_cell a v m) = no_watch m" "cell (put_cell a v m) = cell m"
  "length (device_table (put_cell a v m)) = length (device_table m)" "cpu_running (put_cell a v m) = cpu_running m"
  "thread_current (put_cell a v m) = thread_current m" "thread_id_size (put_cell a v m) = thread_id_size m"
  "dev_size (device_table (put_cell a v m) ! d) = dev_size (device_table m ! d)"
proof -
  have "dev_size (dt[i := (dt ! i)\<lparr>dev_priv := x\<rparr>] ! d) = dev_size (dt ! d)" for dt :: "hw_device list" and i x
    by (cases "i < length dt") (simp_all add: nth_list_update list_update_beyond not_less)
  then show "dev_size (device_table (put_cell a v m) ! d) = dev_size (device_table m ! d)" by (simp add: put_cell_def split: prod.split)
qed (simp_all add: put_cell_def no_watch_def cell_def fun_eq_iff split: prod.split)

lemma put_cell_contents:
  assumes "writable_cell m a"
  shows "contents (dev_priv (device_table (put_cell a v m) ! d)) =
    (if d = fst (cell m a) then map_option (\<lambda>buf. buf(snd (cell m a) := v)) (contents (dev_priv (device_table m ! d)))
     else contents (dev_priv (device_table m ! d)))"
  using assms by (auto simp: put_cell_def writable_cell_def contents_store Let_def split: prod.splits)

lemma put_cell_byte:
  assumes "writable_cell m a"
  shows "byte_of (put_cell a v m) c = (if c = cell m a then v else byte_of m c)"
proof -
  obtain buf where "contents (dev_priv (device_table m ! fst (cell m a))) = Some buf"
    using assms by (auto simp: writable_cell_def split: prod.splits)
  then show ?thesis by (cases c; cases "cell m a") (simp add: byte_of_def put_cell_contents [OF assms])
qed

lemma put_cell_loadable: "loadable cells m \<Longrightarrow> a \<in> cells \<Longrightarrow> loadable cells (put_cell a v m)"
proof -
  assume l: "loadable cells m" "a \<in> cells"
  then have "writable_cell m a" by (simp add: loadable_def)
  note c = put_cell_contents [OF this]
  have "writable_cell (put_cell a v m) b" if "writable_cell m b" for b
    using that by (cases "cell m b") (auto simp: writable_cell_def put_cell_frame c)
  then show "loadable cells (put_cell a v m)" using l(1) by (simp add: loadable_def put_cell_frame)
qed

lemma write8_cell:
  assumes "loadable cells (mch s)" "a \<in> cells"
  shows "cpu_write8 dbg io (of_nat a) v s = Ret () (s\<lparr>cpu.more := put_cell a v (mch s)\<rparr>)"
proof -
  obtain d p where c: "cell (mch s) a = (d, p)" by fastforce
  let ?u = "busmaps (mch s) ! (a div BUS_MAP_SIZE)" and ?t = "s\<lparr>cpu.more := put_cell a v (mch s)\<rparr>"
  have w: "length (busmaps (mch s)) = NUM_BUS_MAPS" "no_watch (mch s)" "writable_cell (mch s) a" using assms by (simp_all add: loadable_def)
  then have a: "a < 65536" "d < 255" "d < length (device_table (mch s))" "p < dev_size (device_table (mch s) ! d)"
      "contents (dev_priv (device_table (mch s) ! d)) \<noteq> None" "\<not> cpu_running (mch s) \<or> bm_flags ?u AND MAP_WRITABLE \<noteq> 0"
      "absolute_from_reladdr d p + 1 \<noteq> thread_current (mch s) + thread_id_size (mch s)"
    by (auto simp: writable_cell_def c)
  have u: "unat (of_nat a :: u32) = a" "a div BUS_MAP_SIZE < NUM_BUS_MAPS"
    using a(1) by (simp_all add: unsigned_of_nat take_bit_nat_eq_self bus_sizes less_mult_imp_div_less)
  then have m: "find_map (of_nat a) s = Ret ?u s" using w(1) by (simp add: find_map_def)
  have f: "find_device x d s = Ret d s" for x using a(2,3) by (simp add: find_device_def INVALID_DEVID_def)
  have p: "bm_devid ?u = d" "bm_offset ?u + a mod BUS_MAP_SIZE = p" using c by (simp_all add: cell_def Let_def)
  have "dev_write DEV_FUEL io d p v s = Ret () ?t"
    using a(3-5) by (cases "dev_priv (device_table (mch s) ! d)")
      (simp_all add: contents_def DEV_FUEL_def dev_of_def ram_write_def set_priv_def set_mch_def put_cell_def c store_def)
  moreover have "command_write_hook dbg (absolute_from_reladdr d p) v ?t = Ret () ?t"
    using a(7) w(2) no_watch_find(2) [of ?t "absolute_from_reladdr d p"]
    by (auto simp: command_write_hook_def Let_def doif_def put_cell_frame split: option.split)
  ultimately show ?thesis using a(6) by (simp add: cpu_write8_def bindE_def m u p f Let_def)
qed

interpretation image: image_bus "sys_bus dbg (Suc n)" "loadable cells" "\<lambda>m a. byte_of m (cell m a)" put_cell cells for dbg n cells
proof unfold_locales
  show "write8 (sys_bus dbg (Suc n)) (of_nat a) v s = Ret () (s\<lparr>cpu.more := put_cell a v (mch s)\<rparr>)"
    if "loadable cells (mch s)" "a \<in> cells" for a v s
    using write8_cell [OF that] by (simp add: sys_bus.simps)
  show "byte_of (put_cell a v m) (cell (put_cell a v m) i) = (if i = a then v else byte_of m (cell m i))"
    if "loadable cells m" "a \<in> cells" "i \<in> cells" for m a v i
    using that inj_on_eq_iff [of "cell m" cells i a] by (auto simp: put_cell_frame put_cell_byte loadable_def)
  show "a < 65536" if "loadable cells m" "a \<in> cells" for m a
    using that by (cases "cell m a") (auto simp: loadable_def writable_cell_def)
qed (rule put_cell_loadable)

text \<open>A machine that differs from another in the bytes behind some addresses only.\<close>

definition only_cells :: "nat set \<Rightarrow> machine_state \<Rightarrow> machine_state \<Rightarrow> bool" where
  "only_cells cells m m' \<longleftrightarrow> m' = m\<lparr>device_table := device_table m'\<rparr> \<and> length (device_table m') = length (device_table m)
     \<and> (\<forall>d. contents (dev_priv (device_table m ! d)) = None \<longrightarrow> device_table m' ! d = device_table m ! d)
     \<and> (\<forall>c. c \<notin> cell m ` cells \<longrightarrow> byte_of m' c = byte_of m c)"

lemma put_cell_only:
  assumes "loadable cells m'" "a \<in> cells" "only_cells cells m m'"
  shows "only_cells cells m (put_cell a v m')"
proof -
  have w: "writable_cell m' a" using assms(1,2) by (simp add: loadable_def)
  have m': "m' = m\<lparr>device_table := device_table m'\<rparr>" using assms(3) by (simp add: only_cells_def)
  have cell: "cell m' = cell m" by (subst m') (simp add: cell_def fun_eq_iff)
  obtain d p where c: "cell m' a = (d, p)" by fastforce
  have p: "put_cell a v m' = m'\<lparr>device_table := device_table (put_cell a v m')\<rparr>" by (simp add: put_cell_def c)
  also have "\<dots> = m\<lparr>device_table := device_table (put_cell a v m')\<rparr>" by (subst m') simp
  finally have 1: "put_cell a v m' = m\<lparr>device_table := device_table (put_cell a v m')\<rparr>" .
  have "contents (dev_priv (device_table m' ! d)) \<noteq> None" using w by (simp add: writable_cell_def c)
  then have 2: "device_table (put_cell a v m') ! i = device_table m ! i" if "contents (dev_priv (device_table m ! i)) = None" for i
  proof -
    have "device_table m' ! i = device_table m ! i" using assms(3) that by (simp add: only_cells_def)
    moreover from this have "i \<noteq> d" using \<open>contents (dev_priv (device_table m' ! d)) \<noteq> None\<close> that by auto
    ultimately show ?thesis by (simp add: put_cell_def c)
  qed
  have 3: "byte_of (put_cell a v m') x = byte_of m x" if "x \<notin> cell m ` cells" for x
  proof -
    have "x \<noteq> cell m' a" "byte_of m' x = byte_of m x" using that assms(2,3) cell by (auto simp: only_cells_def simp del: split_paired_All)
    then show ?thesis by (simp add: put_cell_byte [OF w])
  qed
  show ?thesis using assms(3) 1 2 3 by (simp add: only_cells_def put_cell_frame)
qed

text \<open>(C38) Loading what an assembler writes: an S-record file or an Intel hex file of any data records that the format can
  hold is recognised and loaded without a message when its bytes go to memory, that is to writable RAM or, before
  the processor runs, to any RAM or ROM of the memory map. Afterwards memory holds the bytes of the records, later records over
  earlier ones, and every other byte and device is unchanged.\<close>

theorem load_image_roundtrip:
  assumes "loadable cells (mch s)"
    and "\<forall>r \<in> set recs. fits (if intel then 255 else 252) cells r" and inp: "inp = (if intel then hex_file recs else s19_file recs)"
  shows "\<exists>m. load_image (sys_bus dbg (Suc n)) (Some inp) s = Ret ([], 0) (s\<lparr>cpu.more := m\<rparr>)
    \<and> (\<forall>a \<in> cells. byte_of m (cell m a) = fold overlay recs (\<lambda>a. byte_of (mch s) (cell (mch s) a)) a)
    \<and> only_cells cells (mch s) m"
proof -
  let ?m = "image.put_all recs (mch s)"
  have "load_image (sys_bus dbg (Suc n)) (Some inp) s = Ret ([], 0) (s\<lparr>cpu.more := ?m\<rparr>)"
  proof (cases intel)
    case True
    then show ?thesis using image.load_hex_lines [OF assms(1), of recs] assms(2) image_formats(2,3) [of recs] by (simp add: load_image_def inp)
  next
    case False
    then show ?thesis using image.load_s19_lines [OF assms(1), of recs] assms(2) image_formats(1) [of recs] by (simp add: load_image_def split_beta inp)
  qed
  moreover have "\<forall>a \<in> cells. byte_of ?m (cell ?m a) = fold overlay recs (\<lambda>a. byte_of (mch s) (cell (mch s) a)) a"
    using image.mem_put_all [OF assms(1,2)] by blast
  moreover have "only_cells cells (mch s) ?m"
    by (rule image.put_all_keeps [OF _ assms(1,2)]) (simp_all add: put_cell_only, simp add: only_cells_def)
  ultimately show ?thesis by blast
qed

text \<open>A board with its program in a ROM.\<close>

definition rom_board :: sys where
  "rom_board = power_on (machine_power_on\<lparr>device_table := [\<lparr>dev_size = 0, dev_priv = Null_dev\<rparr>, \<lparr>dev_size = 128, dev_priv = Rom_dev (\<lambda>_. 0)\<rparr>],
     busmaps := replicate NUM_BUS_MAPS \<lparr>bm_devid = 1, bm_offset = 0, bm_flags = MAP_READABLE\<rparr>\<rparr>)"

theorem load_image_roundtrip_witness:
  "\<exists>m. load_image (sys_bus no_debugger 1) (Some (s19_file [(0x100, [0x86, 0x42])])) rom_board = Ret ([], 0) (rom_board\<lparr>cpu.more := m\<rparr>)
     \<and> byte_of m (cell m 0x101) = 0x42"
proof -
  let ?cells = "{0x100, 0x101} :: nat set"
  have c: "cell (mch rom_board) a = (1, a mod 128)" if "a < 65536" for a
    using that by (simp add: cell_def rom_board_def bus_sizes less_mult_imp_div_less Let_def)
  have l: "loadable ?cells (mch rom_board)"
    by (simp add: loadable_def writable_cell_def c) (simp add: rom_board_def machine_power_on_def no_watch_def contents_def absolute_from_reladdr_def bus_sizes)
  have "{0x100..<0x102 :: nat} = {0x100, 0x101}" by auto
  then have "fits 252 ?cells (0x100, [0x86, 0x42])" by (simp add: fits_def)
  then show ?thesis
    using load_image_roundtrip [OF l _ refl, of "[(0x100, [0x86, 0x42])]" False no_debugger 0] by (auto simp: overlay_def)
qed

lemma calm_load_data: "calmly True (load_data (sys_bus dbg (Suc n)) line k a ck dat inp)"
proof (induction k arbitrary: a ck dat inp)
  case (Suc k)
  have w: "calmly True (write8 (sys_bus dbg (Suc n)) b v)" for b v by (simp add: sys_bus.simps calmly_cpu_write8)
  show ?case by (auto split: scanned.split option.split intro!: calmly_bindE w Suc.IH calmly_Ret calmly_UB)
qed (simp add: calmly_Ret)

lemma calm_records:
  "calmly True (s19_record (sys_bus dbg (Suc n)) line dat inp)" "calmly True (hex_record (sys_bus dbg (Suc n)) line dat inp)"
proof -
  have d: "calmly True (data_record (sys_bus dbg (Suc n)) compl line k a ck dat inp)" for compl line k a ck dat inp
    unfolding data_record_def by (intro calmly_bindE calm_load_data) (auto simp: Let_def intro!: calmly_Ret split: prod.split)
  show "calmly True (s19_record (sys_bus dbg (Suc n)) line dat inp)" "calmly True (hex_record (sys_bus dbg (Suc n)) line dat inp)"
    unfolding s19_record_def hex_record_def Let_def
    by (auto intro!: calmly_Ret d split: prod.split list.split)
qed

text \<open>(C39) The loaders end on every input: whatever the file holds, well formed or not, the record loop never needs more
  turns than the file has characters, on every machine without an interrupt multiplexer.\<close>

theorem load_image_ends:
  assumes "mch_ok True (mch s)"
  shows "load_image (sys_bus dbg (Suc n)) fp s \<noteq> NoFuel"
proof -
  let ?P = "\<lambda>s. mch_ok True (mch s)"
  have o: "obeys ?P (\<lambda>s t. ?P t) m" if "calmly True m" for m :: "(sys, 'b) expr"
    using that unfolding calmly_def by (rule obeys_weaken) (simp add: mch_only_def)
  have "load_s19 (sys_bus dbg (Suc n)) inp s \<noteq> NoFuel" "load_hex (sys_bus dbg (Suc n)) inp s \<noteq> NoFuel" for inp
    using load_records_fuel [OF consumes_records(1) o [OF calm_records(1)], of inp "Suc (length inp)" s]
      load_records_fuel [OF consumes_records(2) o [OF calm_records(2)], of inp "Suc (length inp)" s] assms
    unfolding load_s19_def load_hex_def bindE_def
    by (auto simp del: load_records.simps elim!: bindR.elims)
  then show ?thesis by (auto simp: load_image_def split: option.split prod.split)
qed

theorem load_image_ends_witness:
  "load_image (sys_bus no_debugger 1) (Some ''S1FF'') (power_on (ram_system (\<lambda>_. 0))) \<noteq> NoFuel"
  using load_image_ends [of "power_on (ram_system (\<lambda>_. 0))" no_debugger 0] by simp

text \<open>A truncated file: the data loop takes the end of the file for a successful read and stores the last byte again
  for every byte that is missing. A record of two bytes of which only the first, 0xAA, is there stores 0xAA at both
  addresses, and the return value is that of success.\<close>

theorem load_s19_truncated:
  "\<exists>m. load_image (sys_bus no_debugger 1) (Some ''S1050100AA'') (power_on (ram_system (\<lambda>_. 0))) =
      Ret ([Bad_checksum 1], 0) ((power_on (ram_system (\<lambda>_. 0)))\<lparr>cpu.more := m\<rparr>)
    \<and> ram_mem 1 m 0x100 = 0xAA \<and> ram_mem 1 m 0x101 = 0xAA"
proof -
  let ?s = "power_on (ram_system (\<lambda>_. 0))"
  let ?m1 = "ram_put 1 0x100 0xAA (mch ?s)"
  let ?m2 = "ram_put 1 0x101 0xAA ?m1"
  have ok: "ram_machine 1 (mch ?s)" "ram_machine 1 ?m1" by (simp_all add: ram_put_ok)
  have scan: "scan_record CHR ''S'' [1, 2, 4] ''S1050100AA'' = ([1, 5, 0x100], ''AA'')" "scan_hex 2 ''AA'' = Scan 0xAA []" "scan_hex 2 [] = End_of_file"
    by code_simp+
  have w: "write8 (sys_bus no_debugger 1) 0x100 0xAA ?s = Ret () (?s\<lparr>cpu.more := ?m1\<rparr>)"
    "write8 (sys_bus no_debugger 1) 0x101 0xAA (?s\<lparr>cpu.more := ?m1\<rparr>) = Ret () (?s\<lparr>cpu.more := ?m2\<rparr>)"
    using cpu_write8_ram [OF ok(1), of "0x100" no_debugger "sys_bus no_debugger 0" "0xAA"]
      cpu_write8_ram [of 1 "?s\<lparr>cpu.more := ?m1\<rparr>" "0x101" no_debugger "sys_bus no_debugger 0" "0xAA"] ok
    by (simp_all add: half_def sys_bus.simps)
  have ld: "load_data io line (Suc (Suc 0)) a ck None ''AA'' s = Ret ([], ck + 0xAA + 0xAA, Some 0xAA, []) s2"
    if "write8 io a 0xAA s = Ret () s1" "write8 io (a + 1) 0xAA s1 = Ret () s2" for io :: "sys iface" and line a ck s s1 s2
    using that by (simp add: scan bindE_def)
  have "load_data (sys_bus no_debugger 1) 1 (Suc (Suc 0)) 0x100 ck None ''AA'' ?s = Ret ([], ck + 0xAA + 0xAA, Some 0xAA, []) (?s\<lparr>cpu.more := ?m2\<rparr>)" for ck
    by (rule ld [OF w(1)]) (use w(2) in simp)
  then have "s19_record (sys_bus no_debugger 1) 1 None ''S1050100AA'' ?s = Ret ([Bad_checksum 1], None) (?s\<lparr>cpu.more := ?m2\<rparr>)"
    by (simp add: s19_record_def scan [unfolded One_nat_def] data_record_def bindE_def check_sum_def Let_def numeral_2_eq_2 [symmetric] del: load_data.simps)
  then have "load_s19 (sys_bus no_debugger 1) ''S1050100AA'' ?s = Ret ([Bad_checksum 1], 0) (?s\<lparr>cpu.more := ?m2\<rparr>)"
    by (simp add: load_s19_def bindE_def)
  then have "load_image (sys_bus no_debugger 1) (Some ''S1050100AA'') ?s = Ret ([Bad_checksum 1], 0) (?s\<lparr>cpu.more := ?m2\<rparr>)"
    by (simp add: load_image_def scan [unfolded One_nat_def] Let_def)
  moreover have "ram_mem 1 ?m2 0x100 = 0xAA" "ram_mem 1 ?m2 0x101 = 0xAA" using ok by (simp_all add: ram_mem_put)
  ultimately show ?thesis by blast
qed

end
