(* ===== verification/Map_File.thy ===== *)
theory Map_File
  imports Loader Symtab
begin

text \<open>
  Symbols from the map file of a linker (\<^verbatim>\<open>load_map_file\<close> in \<^verbatim>\<open>monitor.c\<close>): lines are read with
  \<^verbatim>\<open>fgets\<close>, cut into words with \<^verbatim>\<open>strtok\<close>, and a line that starts with the word \<open>Symbol:\<close> adds a symbol to the
  program's table, under the absolute address that its value has in the current memory map.
\<close>

section \<open>Reading lines and words\<close>

text \<open>\<^verbatim>\<open>fgets (buf, 255, fp)\<close>: at most \<open>n\<close> characters, up to and including a line feed. The result says whether
  it reached the end of the file on the way.\<close>

fun fgets :: "nat \<Rightarrow> string \<Rightarrow> string \<times> bool \<times> string" where
  "fgets 0 input = ([], False, input)"
| "fgets (Suc n) [] = ([], True, [])"
| "fgets (Suc n) (c # cs) = (if c = CHR 0x0a then ([c], False, cs) else let (l, eof, rest) = fgets n cs in (c # l, eof, rest))"

definition delim :: "char \<Rightarrow> bool" where
  "delim c \<longleftrightarrow> c = CHR '' '' \<or> c = CHR 0x09 \<or> c = CHR 0x0a"

function strtok_words :: "string \<Rightarrow> string list" where
  "strtok_words str =
     (let s = dropWhile delim str in
      if s = [] then [] else takeWhile (\<lambda>c. \<not> delim c) s # strtok_words (dropWhile (\<lambda>c. \<not> delim c) s))"
  by auto
termination
proof (relation "measure length")
  fix str s :: string
  assume s: "s = dropWhile delim str" "s \<noteq> []"
  then have "\<not> delim (hd s)" by (metis hd_dropWhile)
  then have "length (dropWhile (\<lambda>c. \<not> delim c) s) < length s"
    using s(2) by (cases s) (auto intro: le_imp_less_Suc length_dropWhile_le)
  moreover have "length s \<le> length str" unfolding s(1) by (rule length_dropWhile_le)
  ultimately show "(dropWhile (\<lambda>c. \<not> delim c) s, str) \<in> measure length" by simp
qed simp

declare strtok_words.simps [simp del]

text \<open>\<^verbatim>\<open>strtoul (str, NULL, 16)\<close>: white space, a sign, the prefix 0x before a digit, and digits; a value that does not
  fit becomes the largest one.\<close>

definition strtoul16 :: "string \<Rightarrow> u64" where
  "strtoul16 str =
     (let cs = dropWhile isspace str;
          neg = (cs \<noteq> [] \<and> hd cs = CHR ''-'');
          ds = (if cs \<noteq> [] \<and> (hd cs = CHR ''+'' \<or> hd cs = CHR ''-'') then tl cs else cs);
          ds = (if 3 \<le> length ds \<and> ds ! 0 = CHR ''0'' \<and> (ds ! 1 = CHR ''x'' \<or> ds ! 1 = CHR ''X'') \<and> xdigit (ds ! 2) \<noteq> None
                then drop 2 ds else ds);
          v = fst (take_digits (length ds) ds 0)
      in if v \<ge> 2 ^ 64 then - 1 else if neg then - of_nat v else of_nat v)"

section \<open>Loading\<close>

text \<open>An operation on the symbol tables inside code over the machine.\<close>

definition on_symbols :: "(symstate, 'a) expr \<Rightarrow> symstate \<Rightarrow> (sys, 'a \<times> symstate) expr" where
  "on_symbols m syms s = (case m syms of Ret v syms' \<Rightarrow> Ret (v, syms') s | Exit c _ \<Rightarrow> Exit c s | UB \<Rightarrow> UB | NoFuel \<Rightarrow> NoFuel)"

text \<open>One line. A line without a word, or a symbol line with fewer than five words, dereferences a null pointer.\<close>

definition map_line :: "string \<Rightarrow> symstate \<Rightarrow> (sys, symstate) expr" where
  "map_line line syms =
     (case strtok_words line of
        [] \<Rightarrow> (\<lambda>_. UB)
      | w # ws \<Rightarrow>
          if w \<noteq> ''Symbol:'' then Ret syms
          else if length ws < 4 then (\<lambda>_. UB)
          else bindE (to_absolute (unat (ucast (strtoul16 (ws ! 3)) :: u16))) (\<lambda>addr.
            bindE (on_symbols (sym_add 0 (ws ! 0) (of_nat addr) 0) syms) (\<lambda>(_, syms). Ret syms)))"

fun map_lines :: "nat \<Rightarrow> string \<Rightarrow> symstate \<Rightarrow> (sys, symstate) expr" where
  "map_lines 0 input syms = (\<lambda>_. NoFuel)"
| "map_lines (Suc n) input syms =
     (let (line, eof, rest) = fgets 254 input
      in if eof then Ret syms else bindE (map_line line syms) (\<lambda>syms. map_lines n rest syms))"

text \<open>The two files are what \<^verbatim>\<open>file_open\<close> finds for the name with the suffix appended and with the suffix
  replaced.\<close>

definition load_map_file :: "string option \<Rightarrow> string option \<Rightarrow> symstate \<Rightarrow> (sys, int \<times> symstate) expr" where
  "load_map_file appended replaced syms =
     (case (case appended of Some f \<Rightarrow> Some f | None \<Rightarrow> replaced) of
        None \<Rightarrow> Ret (- 1, syms)
      | Some input \<Rightarrow> bindE (map_lines (Suc (length input)) input syms) (\<lambda>syms. Ret (0, syms)))"

section \<open>Well-formed map files\<close>

text \<open>A line is a sequence of words with a gap of blanks before each (before the first it may be empty) and
  blanks at its end.\<close>

type_synonym map_text = "(string \<times> string) list \<times> string"

definition blank :: "string \<Rightarrow> bool" where
  "blank g \<longleftrightarrow> set g \<subseteq> {CHR '' '', CHR 0x09}"

definition word_ok :: "string \<Rightarrow> bool" where
  "word_ok w \<longleftrightarrow> w \<noteq> [] \<and> NUL \<notin> set w \<and> (\<forall>c \<in> set w. \<not> delim c)"

definition line_text :: "map_text \<Rightarrow> string" where
  "line_text l = concat (map (\<lambda>(g, w). g @ w) (fst l)) @ snd l"

definition spaced :: "map_text \<Rightarrow> bool" where
  "spaced l \<longleftrightarrow> (\<forall>(g, w) \<in> set (fst l). blank g \<and> word_ok w) \<and> (\<forall>(g, w) \<in> set (tl (fst l)). g \<noteq> []) \<and> blank (snd l) \<and> fst l \<noteq> []"

text \<open>The value of a word of hexadecimal digits, and the symbol that a line lists: the word \<open>Symbol:\<close>, the name, two
  words of any kind, the value, and whatever follows.\<close>

definition hex_value :: "string \<Rightarrow> nat" where
  "hex_value w = foldl (\<lambda>v c. 16 * v + the (xdigit c)) 0 w"

fun listed :: "string list \<Rightarrow> (string \<times> nat) option" where
  "listed (w # name # _ # _ # v # _) = (if w = ''Symbol:'' then Some (name, hex_value v mod 65536) else None)"
| "listed _ = None"

definition line_ok :: "map_text \<Rightarrow> bool" where
  "line_ok l \<longleftrightarrow> spaced l \<and> length (line_text l) < 254 \<and>
     (let ws = map snd (fst l) in hd ws = ''Symbol:'' \<longrightarrow> 5 \<le> length ws \<and> length (ws ! 4) \<le> 16 \<and> (\<forall>c \<in> set (ws ! 4). xdigit c \<noteq> None))"

text \<open>The symbols of a file under the map of the machine, the last definition of a name first.\<close>

definition mapped_address :: "busmap list \<Rightarrow> nat \<Rightarrow> nat" where
  "mapped_address maps a = absolute_from_reladdr (bm_devid (maps ! (a div BUS_MAP_SIZE))) (bm_offset (maps ! (a div BUS_MAP_SIZE)) + a mod BUS_MAP_SIZE)"

definition symbol_map :: "busmap list \<Rightarrow> map_text list \<Rightarrow> string \<Rightarrow> (u64 \<times> u32) option" where
  "symbol_map maps lines = map_of (rev (map (\<lambda>(name, a). (name, (of_nat (mapped_address maps a), 0)))
     (List.map_filter (\<lambda>l. listed (map snd (fst l))) lines)))"

lemma blank_delim: "blank g \<Longrightarrow> c \<in> set g \<Longrightarrow> delim c"
  by (auto simp: blank_def delim_def)

lemma strtok_gap: "\<forall>c \<in> set g. delim c \<Longrightarrow> strtok_words (g @ rest) = strtok_words rest"
  by (simp add: strtok_words.simps [of "g @ rest"] strtok_words.simps [of rest] dropWhile_append2)

lemma strtok_word:
  assumes "word_ok w" "rest \<noteq> []" "delim (hd rest)"
  shows "strtok_words (w @ rest) = w # strtok_words rest"
proof -
  obtain d r where r: "rest = d # r" "delim d" using assms(2,3) by (cases rest) auto
  have "dropWhile delim (w @ rest) = w @ rest" using assms(1) by (cases w) (auto simp: word_ok_def)
  moreover have "takeWhile (\<lambda>c. \<not> delim c) (w @ rest) = w" "dropWhile (\<lambda>c. \<not> delim c) (w @ rest) = rest"
    using assms(1) r by (simp_all add: word_ok_def takeWhile_append2 dropWhile_append2)
  ultimately show ?thesis using assms(1) by (simp add: strtok_words.simps [of "w @ rest"] word_ok_def)
qed

lemma words_tail:
  assumes "\<forall>(g, w) \<in> set xs. blank g \<and> word_ok w \<and> g \<noteq> []" "blank e"
  shows "strtok_words (concat (map (\<lambda>(g, w). g @ w) xs) @ e @ [CHR 0x0a]) = map snd xs
    \<and> delim (hd (concat (map (\<lambda>(g, w). g @ w) xs) @ e @ [CHR 0x0a]))"
  using assms(1)
proof (induction xs)
  case Nil
  have "\<forall>c \<in> set (e @ [CHR 0x0a]). delim c" using blank_delim [OF assms(2)] by (auto simp: delim_def)
  then show ?case using strtok_gap [of "e @ [CHR 0x0a]" "[]"] strtok_words.simps [of "[]"] by (cases e) simp_all
next
  case (Cons x xs)
  obtain g w where x: "x = (g, w)" by (cases x)
  let ?t = "concat (map (\<lambda>(g, w). g @ w) xs) @ e @ [CHR 0x0a]"
  have g: "\<forall>c \<in> set g. delim c" "g \<noteq> []" "word_ok w" using Cons.prems blank_delim [of g] by (auto simp: x)
  have t: "strtok_words ?t = map snd xs" "delim (hd ?t)" using Cons by simp_all
  have "strtok_words (w @ ?t) = w # strtok_words ?t" by (rule strtok_word [OF g(3) _ t(2)]) simp
  then show ?case using t(1) g strtok_gap [OF g(1), of "w @ ?t"] by (simp add: x)
qed

lemma words_of_line:
  assumes "spaced l"
  shows "strtok_words (line_text l @ [CHR 0x0a]) = map snd (fst l)"
proof -
  obtain ys e where "l = (ys, e)" by (cases l)
  moreover obtain y xs where "ys = y # xs" using assms calculation by (cases ys) (simp_all add: spaced_def)
  moreover obtain g w where "y = (g, w)" by (cases y)
  ultimately have l: "l = ((g, w) # xs, e)" by simp
  let ?t = "concat (map (\<lambda>(g, w). g @ w) xs) @ e @ [CHR 0x0a]"
  have s: "\<forall>(g, w) \<in> set xs. blank g \<and> word_ok w \<and> g \<noteq> []" "blank e" "blank g" "word_ok w" using assms by (auto simp: spaced_def l)
  have "strtok_words (g @ w @ ?t) = strtok_words (w @ ?t)" by (rule strtok_gap) (use blank_delim [OF s(3)] in blast)
  moreover have "strtok_words (w @ ?t) = w # strtok_words ?t" by (rule strtok_word [OF s(4)]) (use words_tail [OF s(1,2)] in simp_all)
  ultimately show ?thesis using words_tail [OF s(1,2)] by (simp add: l line_text_def)
qed

lemma line_no_lf: "spaced l \<Longrightarrow> CHR 0x0a \<notin> set (line_text l)"
  by (fastforce simp: spaced_def line_text_def blank_def word_ok_def delim_def)

lemma take_digits_word: "\<forall>c \<in> set w. xdigit c \<noteq> None \<Longrightarrow> take_digits (length w) w v = (foldl (\<lambda>v c. 16 * v + the (xdigit c)) v w, [])"
  by (induction w arbitrary: v) auto

lemma xdigit_bound: "xdigit c = Some d \<Longrightarrow> d < 16"
  by (auto simp: xdigit_def Let_def split: if_splits)

lemma foldl_digits_bound: "\<forall>c \<in> set w. xdigit c \<noteq> None \<Longrightarrow> foldl (\<lambda>v c. 16 * v + the (xdigit c)) v w < (v + 1) * 16 ^ length w"
proof (induction w arbitrary: v)
  case (Cons c w)
  obtain d where d: "xdigit c = Some d" "d < 16" using Cons.prems xdigit_bound by fastforce
  have "foldl (\<lambda>v c. 16 * v + the (xdigit c)) (16 * v + d) w < (16 * v + d + 1) * 16 ^ length w" using Cons.IH Cons.prems by simp
  also have "\<dots> \<le> ((v + 1) * 16) * 16 ^ length w" using d(2) by (intro mult_right_mono) simp_all
  finally show ?case using d(1) by (simp only: foldl.simps option.sel length_Cons power_Suc mult.assoc)
qed simp

lemma xdigit_plain: "xdigit c \<noteq> None \<Longrightarrow> \<not> isspace c \<and> c \<noteq> CHR ''+'' \<and> c \<noteq> CHR ''-'' \<and> c \<noteq> CHR ''x'' \<and> c \<noteq> CHR ''X''"
  by (auto simp: xdigit_def code_def isspace_def Let_def)

lemma strtoul_word:
  assumes "\<forall>c \<in> set w. xdigit c \<noteq> None" "length w \<le> 16"
  shows "strtoul16 w = of_nat (hex_value w)"
proof -
  have d: "dropWhile isspace w = w" "w = [] \<or> hd w \<noteq> CHR ''+'' \<and> hd w \<noteq> CHR ''-''" using assms(1) xdigit_plain by (cases w; force)+
  have x: "\<not> (3 \<le> length w \<and> w ! 0 = CHR ''0'' \<and> (w ! 1 = CHR ''x'' \<or> w ! 1 = CHR ''X'') \<and> xdigit (w ! 2) \<noteq> None)"
  proof
    assume a: "3 \<le> length w \<and> w ! 0 = CHR ''0'' \<and> (w ! 1 = CHR ''x'' \<or> w ! 1 = CHR ''X'') \<and> xdigit (w ! 2) \<noteq> None"
    then have "xdigit (w ! 1) \<noteq> None" using assms(1) by simp
    then show False using a xdigit_plain by blast
  qed
  have "hex_value w < 16 ^ length w" using foldl_digits_bound [OF assms(1), of 0] by (simp add: hex_value_def)
  moreover have "(16 :: nat) ^ length w \<le> 16 ^ 16" using assms(2) by (intro power_increasing) simp_all
  ultimately have "hex_value w < 2 ^ 64" by simp
  then show ?thesis using d x take_digits_word [OF assms(1), of 0] by (auto simp: strtoul16_def Let_def hex_value_def)
qed

lemma fgets_line: "CHR 0x0a \<notin> set l \<Longrightarrow> length l < n \<Longrightarrow> fgets n (l @ CHR 0x0a # rest) = (l @ [CHR 0x0a], False, rest)"
proof (induction l arbitrary: n)
  case Nil
  then show ?case by (cases n) simp_all
next
  case (Cons c l)
  then show ?case by (cases n) (auto split: prod.split)
qed

lemma fgets_end: "CHR 0x0a \<notin> set l \<Longrightarrow> length l < n \<Longrightarrow> fgets n l = (l, True, [])"
proof (induction l arbitrary: n)
  case Nil
  then show ?case by (cases n) simp_all
next
  case (Cons c l)
  then show ?case by (cases n) (auto split: prod.split)
qed

lemma to_absolute_mapped:
  assumes "length (busmaps (mch s)) = NUM_BUS_MAPS" "a < 65536"
  shows "to_absolute a s = Ret (mapped_address (busmaps (mch s)) a) s"
proof -
  have "unat (of_nat a :: u32) = a" "a div 128 < 512" using assms(2) by (simp_all add: unsigned_of_nat take_bit_nat_eq_self less_mult_imp_div_less)
  then show ?thesis using assms by (simp add: to_absolute_def bindE_def find_map_def bus_sizes mapped_address_def Let_def)
qed

text \<open>What a line does to the tables.\<close>

lemma map_line_effect:
  assumes "length (busmaps (mch s)) = NUM_BUS_MAPS" "rep_tables syms A" "line_ok l"
  shows "\<exists>syms'. map_line (line_text l @ [CHR 0x0a]) syms s = Ret syms' s
    \<and> rep_tables syms' (A(0 := A 0 ++ symbol_map (busmaps (mch s)) [l]))"
proof (cases "hd (map snd (fst l)) = ''Symbol:''")
  case True
  have sp: "spaced l" "length (line_text l) < 254" "5 \<le> length (map snd (fst l))" using assms(3) True by (simp_all add: line_ok_def Let_def)
  then obtain name x1 x2 v rest where ws: "map snd (fst l) = ''Symbol:'' # name # x1 # x2 # v # rest"
    using True by (auto simp: numeral_eq_Suc Suc_le_length_iff)
  let ?a = "hex_value v mod 65536"
  let ?x = "of_nat (mapped_address (busmaps (mch s)) ?a) :: u64"
  have v: "\<forall>c \<in> set v. xdigit c \<noteq> None" "length v \<le> 16" using assms(3) True ws by (simp_all add: line_ok_def Let_def)
  have a: "unat (ucast (strtoul16 v) :: u16) = ?a"
    by (simp add: strtoul_word [OF v] unsigned_ucast_eq unsigned_of_nat take_bit_eq_mod mod_mod_cancel)
  have "name \<in> set (map snd (fst l))" by (simp add: ws)
  then obtain g where g: "(g, name) \<in> set (fst l)" by auto
  then have "length name \<le> length (line_text l)" "NUL \<notin> set name"
    using sp(1) member_le_sum_list [of "length (g @ name)" "map (length \<circ> (\<lambda>(g, w). g @ w)) (fst l)"]
    by (force simp: line_text_def length_concat comp_def, auto simp: spaced_def word_ok_def)
  then have "valid_name name" using sp(2) by (simp add: valid_name_def MAX_STRINGSPACE_def)
  then obtain p syms' where "sym_add 0 name ?x 0 syms = Ret p syms'" "rep_tables syms' (A(0 := (A 0)(name \<mapsto> (?x, 0))))"
    using rep_add [OF assms(2), of 0 name ?x 0] by (auto simp del: fun_upd_apply)
  moreover have "A 0 ++ symbol_map (busmaps (mch s)) [l] = (A 0)(name \<mapsto> (?x, 0))"
    using ws by (simp add: symbol_map_def map_filter_simps fun_eq_iff map_add_def)
  moreover have "to_absolute ?a s = Ret (mapped_address (busmaps (mch s)) ?a) s" by (rule to_absolute_mapped [OF assms(1)]) simp
  ultimately show ?thesis using ws a
    by (auto simp: map_line_def words_of_line [OF sp(1)] bindE_def on_symbols_def simp del: fun_upd_apply)
next
  case False
  have "fst l \<noteq> []" "spaced l" using assms(3) by (simp_all add: line_ok_def spaced_def)
  then obtain w ws where ws: "map snd (fst l) = w # ws" "w \<noteq> ''Symbol:''" using False by (cases "fst l") auto
  then have "listed (map snd (fst l)) = None" by (cases "w # ws" rule: listed.cases) auto
  then have "A 0 ++ symbol_map (busmaps (mch s)) [l] = A 0" by (simp add: symbol_map_def map_filter_simps)
  then show ?thesis using assms(2) ws words_of_line [OF \<open>spaced l\<close>] by (auto simp: map_line_def)
qed

lemma symbol_map_Cons: "f ++ symbol_map maps [l] ++ symbol_map maps ls = f ++ symbol_map maps (l # ls)"
  by (auto simp: symbol_map_def map_filter_simps split: option.split)

lemma map_lines_effect:
  assumes "length (busmaps (mch s)) = NUM_BUS_MAPS" "\<forall>l \<in> set lines. line_ok l" "CHR 0x0a \<notin> set rest" "length rest < 254"
    and "rep_tables syms A" "length lines < n"
  shows "\<exists>syms'. map_lines n (concat (map (\<lambda>l. line_text l @ [CHR 0x0a]) lines) @ rest) syms s = Ret syms' s
    \<and> rep_tables syms' (A(0 := A 0 ++ symbol_map (busmaps (mch s)) lines))"
  using assms(2,5,6)
proof (induction lines arbitrary: n syms A)
  case Nil
  then obtain m where "n = Suc m" by (cases n) auto
  then show ?case using Nil fgets_end [OF assms(3,4)] by (simp add: symbol_map_def map_filter_simps)
next
  case (Cons l lines)
  let ?B = "A(0 := A 0 ++ symbol_map (busmaps (mch s)) [l])"
  obtain m where n: "n = Suc m" "length lines < m" using Cons.prems(3) by (cases n) auto
  have ok: "line_ok l" using Cons.prems(1) by simp
  then have "CHR 0x0a \<notin> set (line_text l)" "length (line_text l) < 254" using line_no_lf by (simp_all add: line_ok_def)
  note f = fgets_line [OF this]
  obtain syms1 where 1: "map_line (line_text l @ [CHR 0x0a]) syms s = Ret syms1 s" "rep_tables syms1 ?B"
    using map_line_effect [OF assms(1) Cons.prems(2) ok] by blast
  obtain syms2 where 2: "map_lines m (concat (map (\<lambda>l. line_text l @ [CHR 0x0a]) lines) @ rest) syms1 s = Ret syms2 s"
    "rep_tables syms2 (?B(0 := ?B 0 ++ symbol_map (busmaps (mch s)) lines))"
    using Cons.IH [OF _ 1(2) n(2)] Cons.prems(1) by (auto simp del: fun_upd_apply)
  have "?B(0 := ?B 0 ++ symbol_map (busmaps (mch s)) lines) = A(0 := A 0 ++ symbol_map (busmaps (mch s)) (l # lines))"
    by (simp only: fun_upd_same fun_upd_upd symbol_map_Cons)
  then show ?case using 2 1(1) f n(1) by (simp add: bindE_def del: fun_upd_apply)
qed

text \<open>(C40) Loading a map file: its lines are words between blanks, those that begin with \<open>Symbol:\<close> list a symbol and all
  others are skipped. Afterwards the program's table maps every listed name to the absolute address that its last
  value has in the memory map of the machine, and keeps the names the file does not list; the machine is
  unchanged. What follows the last line feed is not read. Without a file the tables stay as they are.\<close>

theorem load_map_file_symbols:
  assumes "length (busmaps (mch s)) = NUM_BUS_MAPS" "\<forall>l \<in> set lines. line_ok l" "CHR 0x0a \<notin> set rest" "length rest < 254"
    and "rep_tables syms A" and inp: "inp = concat (map (\<lambda>l. line_text l @ [CHR 0x0a]) lines) @ rest"
  shows "\<exists>syms'. load_map_file (Some inp) f syms s = Ret (0, syms') s \<and> load_map_file None (Some inp) syms s = Ret (0, syms') s
      \<and> rep_tables syms' (A(0 := A 0 ++ symbol_map (busmaps (mch s)) lines))
      \<and> load_map_file None None syms s = Ret (- 1, syms) s"
proof -
  have "length lines \<le> length inp" unfolding inp by (induction lines) simp_all
  then obtain syms' where "map_lines (Suc (length inp)) inp syms s = Ret syms' s"
    "rep_tables syms' (A(0 := A 0 ++ symbol_map (busmaps (mch s)) lines))"
    using map_lines_effect [OF assms(1-5), of "Suc (length inp)"] by (auto simp: inp)
  then show ?thesis by (auto simp: load_map_file_def bindE_def simp del: map_lines.simps fun_upd_apply)
qed

definition sample_map_file :: "map_text list" where
  "sample_map_file = [([([], ''Section:''), ('' '', ''code'')], []),
     ([('' '', ''Symbol:''), ('' '', ''main''), ('' '', ''prog''), ('' '', ''=''), ('' '', ''8000'')], '' '')]"

theorem load_map_file_symbols_witness:
  "\<exists>syms'. load_map_file (Some (''Section: code'' @ [CHR 0x0a] @ '' Symbol: main prog = 8000 '' @ [CHR 0x0a] @ ''Symbol: x''))
       None sym_start (power_on (ram_system (\<lambda>_. 0))) = Ret (0, syms') (power_on (ram_system (\<lambda>_. 0)))
     \<and> rep_tables syms' ((\<lambda>_ _. None)(0 := [''main'' \<mapsto> (0x10008000, 0)]))"
proof -
  let ?s = "power_on (ram_system (\<lambda>_. 0))"
  have s: "busmaps (mch ?s) = linear_maps 1" "length (busmaps (mch ?s)) = NUM_BUS_MAPS" by (simp_all add: ram_system_def linear_maps_def)
  have ok: "\<forall>l \<in> set sample_map_file. line_ok l"
    by (simp add: sample_map_file_def line_ok_def spaced_def line_text_def blank_def word_ok_def delim_def NUL_def xdigit_def code_def)
  have "mapped_address (busmaps (mch ?s)) 0x8000 = 0x10008000"
    unfolding s(1) by (simp add: linear_maps_def mapped_address_def bus_sizes absolute_from_reladdr_def)
  then have "symbol_map (busmaps (mch ?s)) sample_map_file = [''main'' \<mapsto> (0x10008000, 0)]"
    by (simp add: symbol_map_def sample_map_file_def map_filter_simps hex_value_def xdigit_def code_def)
  moreover have f: "''Section: code'' @ [CHR 0x0a] @ '' Symbol: main prog = 8000 '' @ [CHR 0x0a] @ ''Symbol: x''
      = concat (map (\<lambda>l. line_text l @ [CHR 0x0a]) sample_map_file) @ ''Symbol: x''"
    by (simp add: sample_map_file_def line_text_def)
  ultimately show ?thesis
    using load_map_file_symbols [OF s(2) ok _ _ rep_start f, of None] by (simp only: fun_upd_same map_add_empty empty_map_add) auto
qed

end
