(* ===== verification/Debugger_Eval.thy ===== *)
theory Debugger_Eval
  imports Map_File
begin

text \<open>
  The expression evaluator of the debugger (\<^verbatim>\<open>eval\<close>, \<^verbatim>\<open>eval_mem\<close> and their helpers in \<^verbatim>\<open>command.c\<close>). An
  expression is a string; the evaluator cuts it at the first operator it finds, in the order of its tests, and works
  on the machine: it reads and writes memory, registers and the pointer to the current thread. The error flags, a
  \<^verbatim>\<open>char\<close> behind a pointer in the source, are passed in and returned. The symbol tables, the history of values and
  the addresses of the functions behind the automatic symbols are read only, and come with the environment. So does
  the order in which the compiler evaluates the two operands of a comparison or of an address with a device, which C
  leaves open.
\<close>

section \<open>Environment\<close>

text \<open>The functions \<^verbatim>\<open>pc_virtual\<close>, ..., \<^verbatim>\<open>et_virtual\<close>.\<close>

datatype virtual = Pc_v | X_v | Y_v | U_v | S_v | D_v | A_v | B_v | Dp_v | Cc_v | Irq_load_v | Cycles_v | Et_v

record eval_env =
  the_symbols :: symstate
  history_count :: u32
  historytab :: "u64 list"
  fnptr :: "virtual \<Rightarrow> u64"
  left_first :: bool

definition MAX_HISTORY :: nat where "MAX_HISTORY = 10"

abbreviation (input) program_symtab :: nat where "program_symtab \<equiv> 0"
abbreviation (input) internal_symtab :: nat where "internal_symtab \<equiv> 1"
abbreviation (input) auto_symtab :: nat where "auto_symtab \<equiv> 2"

definition all_virtuals :: "virtual list" where
  "all_virtuals = [Pc_v, X_v, Y_v, U_v, S_v, D_v, A_v, B_v, Dp_v, Cc_v, Irq_load_v, Cycles_v, Et_v]"

section \<open>Numbers\<close>

text \<open>\<^verbatim>\<open>strtoul (str, &end, base)\<close> for base 0, 8, 10 and 16: white space, a sign, the prefix of the base and digits; a value
  that does not fit becomes the largest one. Without a digit the end is the start of the string.\<close>

fun base_digits :: "nat \<Rightarrow> string \<Rightarrow> nat \<Rightarrow> nat \<times> string" where
  "base_digits b [] acc = (acc, [])"
| "base_digits b (c # cs) acc =
     (case xdigit c of Some d \<Rightarrow> if d < b then base_digits b cs (b * acc + d) else (acc, c # cs) | None \<Rightarrow> (acc, c # cs))"

definition strtoul :: "nat \<Rightarrow> string \<Rightarrow> u64 \<times> string" where
  "strtoul base str =
     (let cs = dropWhile isspace str;
          neg = (cs \<noteq> [] \<and> hd cs = CHR ''-'');
          ds = (if cs \<noteq> [] \<and> (hd cs = CHR ''+'' \<or> hd cs = CHR ''-'') then tl cs else cs);
          prefix = ((base = 0 \<or> base = 16) \<and> 3 \<le> length ds \<and> ds ! 0 = CHR ''0'' \<and> (ds ! 1 = CHR ''x'' \<or> ds ! 1 = CHR ''X'')
            \<and> xdigit (ds ! 2) \<noteq> None);
          b = (if base \<noteq> 0 then base else if prefix then 16 else if ds \<noteq> [] \<and> hd ds = CHR ''0'' then 8 else 10);
          ds' = (if prefix then drop 2 ds else ds);
          (v, rest) = base_digits b ds' 0
      in if length rest = length ds' then (0, str)
         else (if v \<ge> 2 ^ 64 then - 1 else if neg then - of_nat v else of_nat v, rest))"

section \<open>Values by name\<close>

definition BAD_SYMBOL :: u8 where "BAD_SYMBOL = 8"
definition BAD_VIRTUAL :: u8 where "BAD_VIRTUAL = 0x10"
definition BAD_NUMBER :: u8 where "BAD_NUMBER = 0x20"
definition BAD_ASSIGN :: u8 where "BAD_ASSIGN = 0x40"

text \<open>A read-only search in a symbol table, inside code over the machine.\<close>

definition find_symbol :: "eval_env \<Rightarrow> nat \<Rightarrow> string \<Rightarrow> (sys, u64 option) expr" where
  "find_symbol env t name = bindE (on_symbols (sym_find t name 0) (the_symbols env)) (\<lambda>((r, v), _). Ret (if r = 0 then v else None))"

definition virtual_get :: "virtual \<Rightarrow> u64 \<Rightarrow> (sys, u64) expr" where
  "virtual_get v val s =
     (case v of
        Pc_v \<Rightarrow> Ret (ucast (get_pc s)) s
      | X_v \<Rightarrow> Ret (ucast (get_x s)) s
      | Y_v \<Rightarrow> Ret (ucast (get_y s)) s
      | U_v \<Rightarrow> Ret (ucast (get_u s)) s
      | S_v \<Rightarrow> Ret (ucast (get_s s)) s
      | D_v \<Rightarrow> Ret (ucast (get_d s)) s
      | A_v \<Rightarrow> Ret (ucast (get_a s)) s
      | B_v \<Rightarrow> Ret (ucast (get_b s)) s
      | Dp_v \<Rightarrow> Ret (ucast (get_dp s)) s
      | Cc_v \<Rightarrow> Ret (ucast (get_cc s)) s
      | Irq_load_v \<Rightarrow> Ret (irq_cycles s div of_nat IRQ_CYCLE_COUNTS) s
      | Cycles_v \<Rightarrow> Ret (get_cycles s) s
      | Et_v \<Rightarrow> Ret (get_cycles s - et_last_cycles (mch s)) (set_mch (\<lambda>m. m\<lparr>et_last_cycles := get_cycles s\<rparr>) s))"

definition virtual_set :: "virtual \<Rightarrow> u64 \<Rightarrow> sys stmt" where
  "virtual_set v val s =
     (case v of
        Pc_v \<Rightarrow> Ret () (set_pc (ucast val) s)
      | X_v \<Rightarrow> Ret () (set_x (ucast val) s)
      | Y_v \<Rightarrow> Ret () (set_y (ucast val) s)
      | U_v \<Rightarrow> Ret () (set_u (ucast val) s)
      | S_v \<Rightarrow> Ret () (set_s (ucast val) s)
      | D_v \<Rightarrow> Ret () (set_d (ucast val) s)
      | A_v \<Rightarrow> Ret () (set_a (ucast val) s)
      | B_v \<Rightarrow> Ret () (set_b (ucast val) s)
      | Dp_v \<Rightarrow> Ret () (set_dp (ucast val) s)
      | Cc_v \<Rightarrow> Ret () (set_cc (ucast val) s)
      | Irq_load_v \<Rightarrow> Ret () s
      | Cycles_v \<Rightarrow> Ret () s
      | Et_v \<Rightarrow> Ret () (set_mch (\<lambda>m. m\<lparr>et_last_cycles := get_cycles s\<rparr>) s))"

text \<open>A call through a pointer: of the function at that address, if there is one.\<close>

definition call_virtual :: "eval_env \<Rightarrow> u64 \<Rightarrow> (virtual \<Rightarrow> ('s, 'a) expr) \<Rightarrow> ('s, 'a) expr" where
  "call_virtual env p f s = (case find (\<lambda>v. fnptr env v = p) all_virtuals of Some v \<Rightarrow> f v s | None \<Rightarrow> UB)"

definition assign_virtual :: "eval_env \<Rightarrow> string \<Rightarrow> u64 \<Rightarrow> u8 \<Rightarrow> (sys, u8) expr" where
  "assign_virtual env name val eflag = bindE (find_symbol env auto_symtab name) (\<lambda>r.
     case r of
       Some v_val \<Rightarrow> call_virtual env v_val (\<lambda>v. bindE (virtual_set v val) (\<lambda>_. Ret eflag))
     | None \<Rightarrow>
         if name = ''thread_current'' then (\<lambda>s. Ret eflag (set_mch (\<lambda>m. m\<lparr>thread_current := unat val\<rparr>) s))
         else Ret (eflag OR BAD_ASSIGN))"

definition eval_virtual :: "eval_env \<Rightarrow> string \<Rightarrow> u8 \<Rightarrow> (sys, u64 \<times> u8) expr" where
  "eval_virtual env name eflag = bindE (find_symbol env auto_symtab name) (\<lambda>r.
     case r of
       Some val \<Rightarrow> call_virtual env val (\<lambda>v. bindE (virtual_get v val) (\<lambda>x. Ret (x, eflag)))
     | None \<Rightarrow> Ret (0, eflag OR BAD_VIRTUAL))"

definition eval_historical :: "eval_env \<Rightarrow> u32 \<Rightarrow> ('s, u64) expr" where
  "eval_historical env n s =
     (let i = unat (n mod of_nat MAX_HISTORY) in if i < length (historytab env) then Ret (historytab env ! i) s else UB)"

text \<open>\<open>$$n\<close>, \<open>$n\<close>, \<open>$\<close> and \<open>$name\<close>.\<close>

definition eval_dollar :: "eval_env \<Rightarrow> string \<Rightarrow> u8 \<Rightarrow> (sys, u64 \<times> u8) expr" where
  "eval_dollar env expr eflag =
     (if char_at expr 1 = CHR ''$'' then
        bindE (eval_historical env (ucast (ucast (history_count env - 1) - fst (strtoul 10 (drop 2 expr))))) (\<lambda>v. Ret (v, eflag))
      else if isdigit (char_at expr 1) then
        bindE (eval_historical env (ucast (fst (strtoul 10 (drop 1 expr))))) (\<lambda>v. Ret (v, eflag))
      else if length expr \<le> 1 then
        bindE (eval_historical env (history_count env - 1)) (\<lambda>v. Ret (v, eflag))
      else eval_virtual env (drop 1 expr) eflag)"

section \<open>Expressions\<close>

datatype eval_mode = LVALUE | RVALUE

definition MAKE_ADDR :: "u64 \<Rightarrow> u64 \<Rightarrow> u64" where
  "MAKE_ADDR devno phyaddr = devno * 0x10000000 + phyaddr"

text \<open>Both operands of an operator that C does not sequence; the error flags pass through in the same order.\<close>

definition operands :: "bool \<Rightarrow> (u8 \<Rightarrow> ('s, u64 \<times> u8) expr) \<Rightarrow> (u8 \<Rightarrow> ('s, u64 \<times> u8) expr) \<Rightarrow> u8 \<Rightarrow> ('s, (u64 \<times> u64) \<times> u8) expr" where
  "operands first m1 m2 eflag =
     (if first then bindE (m1 eflag) (\<lambda>(a, eflag). bindE (m2 eflag) (\<lambda>(b, eflag). Ret ((a, b), eflag)))
      else bindE (m2 eflag) (\<lambda>(b, eflag). bindE (m1 eflag) (\<lambda>(a, eflag). Ret ((a, b), eflag))))"

text \<open>The arithmetic of \<^verbatim>\<open>fold_binary\<close>: the left operand first. A division by zero is undefined.\<close>

definition fold_op :: "char \<Rightarrow> (u8 \<Rightarrow> ('s, u64 \<times> u8) expr) \<Rightarrow> (u8 \<Rightarrow> ('s, u64 \<times> u8) expr) \<Rightarrow> u8 \<Rightarrow> ('s, u64 \<times> u8) expr" where
  "fold_op opc m1 m2 eflag = bindE (operands True m1 m2 eflag) (\<lambda>((a, b), eflag).
     if opc = CHR ''+'' then Ret (a + b, eflag)
     else if opc = CHR ''-'' then Ret (a - b, eflag)
     else if opc = CHR ''*'' then Ret (a * b, eflag)
     else if b = 0 then (\<lambda>_. UB) else Ret (a div b, eflag))"

definition of_bool64 :: "bool \<Rightarrow> u64" where "of_bool64 b = (if b then 1 else 0)"

definition symbol_address :: "eval_env \<Rightarrow> string \<Rightarrow> u8 \<Rightarrow> (sys, u64 \<times> u8) expr" where
  "symbol_address env name eflag = bindE (find_symbol env program_symtab name) (\<lambda>r.
     case r of
       Some v \<Rightarrow> Ret (v, eflag)
     | None \<Rightarrow> bindE (find_symbol env internal_symtab name) (\<lambda>r.
         case r of Some v \<Rightarrow> Ret (v, eflag) | None \<Rightarrow> Ret (0, eflag OR BAD_SYMBOL)))"

definition deref :: "eval_mode \<Rightarrow> u64 \<times> u8 \<Rightarrow> (sys, u64 \<times> u8) expr" where
  "deref mode = (\<lambda>(val, eflag).
     if mode = RVALUE then bindE (target_read (unat val) 1) (\<lambda>v. Ret (ucast v, eflag)) else Ret (val, eflag))"

definition literal :: "string \<Rightarrow> u8 \<Rightarrow> ('s, u64 \<times> u8) expr" where
  "literal expr eflag = (let (v, rest) = strtoul 0 expr in
     Ret (v, if length rest = length expr then eflag OR BAD_NUMBER else eflag))"

text \<open>\<^verbatim>\<open>eval_assign\<close>, with the evaluation of the left side as a memory expression as an argument.\<close>

definition eval_assign :: "sys iface \<Rightarrow> eval_env \<Rightarrow> string \<Rightarrow> (u8 \<Rightarrow> (sys, u64 \<times> u8) expr) \<Rightarrow> u64 \<times> u8 \<Rightarrow> (sys, u64 \<times> u8) expr" where
  "eval_assign io env expr lvalue = (\<lambda>(val, eflag).
     if expr \<noteq> [] \<and> hd expr = CHR ''$'' then bindE (assign_virtual env (tl expr) val eflag) (\<lambda>eflag. Ret (val, eflag))
     else bindE (lvalue eflag) (\<lambda>(dst, eflag).
       if eflag = 0 then bindE (abs_write8 io (unat dst) (ucast val)) (\<lambda>_. Ret (val, eflag)) else Ret (val, eflag)))"

function (sequential) eval :: "sys iface \<Rightarrow> eval_env \<Rightarrow> string \<Rightarrow> u8 \<Rightarrow> (sys, u64 \<times> u8) expr"
  and eval_mem :: "sys iface \<Rightarrow> eval_env \<Rightarrow> string \<Rightarrow> eval_mode \<Rightarrow> u8 \<Rightarrow> (sys, u64 \<times> u8) expr" where
  "eval io env expr = (\<lambda>eflag.
     case match_binary expr ''=='' of
       Some (l, r) \<Rightarrow> bindE (operands (left_first env) (eval io env l) (eval io env r) eflag)
         (\<lambda>((a, b), eflag). Ret (of_bool64 (a = b), eflag))
     | None \<Rightarrow> (case match_binary expr ''!='' of
       Some (l, r) \<Rightarrow> bindE (operands (left_first env) (eval io env l) (eval io env r) eflag)
         (\<lambda>((a, b), eflag). Ret (of_bool64 (a \<noteq> b), eflag))
     | None \<Rightarrow> (case strchr expr CHR ''='' of
       Some (l, r) \<Rightarrow> bindE (eval io env r eflag) (eval_assign io env l (eval_mem io env l LVALUE))
     | None \<Rightarrow> (case fold_binary expr CHR ''+'' of
       Some (l, r) \<Rightarrow> fold_op CHR ''+'' (eval io env l) (eval io env r) eflag
     | None \<Rightarrow> (case fold_binary expr CHR ''-'' of
       Some (l, r) \<Rightarrow> fold_op CHR ''-'' (eval io env l) (eval io env r) eflag
     | None \<Rightarrow> (case fold_binary expr CHR ''*'' of
       Some (l, r) \<Rightarrow> fold_op CHR ''*'' (eval io env l) (eval io env r) eflag
     | None \<Rightarrow> (case fold_binary expr CHR ''/'' of
       Some (l, r) \<Rightarrow> fold_op CHR ''/'' (eval io env l) (eval io env r) eflag
     | None \<Rightarrow>
         if expr \<noteq> [] \<and> hd expr = CHR ''$'' then eval_dollar env expr eflag
         else if expr \<noteq> [] \<and> hd expr = CHR ''&'' then eval_mem io env (tl expr) LVALUE eflag
         else if is_symbol expr then eval_mem io env expr RVALUE eflag
         else literal expr eflag)))))))"
| "eval_mem io env expr = (\<lambda>mode eflag.
     case strchr expr CHR '':'' of
       Some (l, r) \<Rightarrow> bindE (operands (left_first env) (eval io env l) (eval io env r) eflag)
         (\<lambda>((a, b), eflag). deref mode (MAKE_ADDR a b, eflag))
     | None \<Rightarrow>
         if is_symbol expr then bindE (symbol_address env expr eflag) (deref mode)
         else bindE (eval io env expr eflag) (\<lambda>(v, eflag).
           bindE (to_absolute (unat v)) (\<lambda>a. deref mode (of_nat a, eflag))))"
  by pat_completeness auto
termination
  apply (relation "measure (\<lambda>x. case x of Inl (_, _, e) \<Rightarrow> 2 * length e
    | Inr (_, _, e) \<Rightarrow> if is_symbol e then 2 * length e - 1 else 2 * length e + 1)")
                      apply (auto dest!: match_binary_length strchr_length fold_binary_length simp: is_symbol_def)
    apply (case_tac expr; simp)+
  done

declare eval.simps [simp del] eval_mem.simps [simp del]

text \<open>The debugger the hooks use to evaluate the conditions of breakpoints; the error flags are not looked at.\<close>

definition eval_debugger :: "sys iface \<Rightarrow> eval_env \<Rightarrow> (sys, int) expr \<Rightarrow> debugger" where
  "eval_debugger io env monitor = \<lparr>dbg_eval = (\<lambda>expr. bindE (eval io env expr 0) (\<lambda>(v, _). Ret v)), dbg_monitor = monitor\<rparr>"

end
