(* ===== verification/Debugger.thy ===== *)
theory Debugger
  imports Debugger_Eval Disasm
begin

text \<open>
  The commands of the debugger (\<^verbatim>\<open>command.c\<close>): a line is cut into words, the first word names a command of
  \<^verbatim>\<open>cmdtab\<close>, and the command takes the other words as its arguments. The state holds the machine, the symbol tables
  and histories, and what the commands keep from one line to the next. What is printed is a list of outputs: texts, and
  for the listings of other files (registers, symbols, devices) the fact that they are printed.
\<close>

section \<open>State\<close>

record datatype_t =
  ty_char :: char
  ty_bytes :: u32

record display =
  ds_used :: bool
  ds_type :: datatype_t
  ds_expr :: string

datatype shown =
    Out string
  | Err string
  | Registers
  | Symbols nat
  | Devices
  | Map_dump

text \<open>The words of the line that \<^verbatim>\<open>strtok\<close> has not returned yet are \<open>args\<close>. \<open>cmd_file\<close> is what is left of a
  command file, \<open>cmd_stdin\<close> of the terminal; the file, when there is one, is \<^verbatim>\<open>command_input\<close>. \<open>files\<close> are the
  files \<^verbatim>\<open>file_open\<close> finds.\<close>

record console =
  dsys :: sys
  denv :: eval_env
  examine_addr :: u64
  examine_repeat :: u32
  examine_type :: datatype_t
  print_type :: datatype_t
  displaytab :: "display list"
  args :: "string list"
  command_flags :: string
  exit_command_loop :: int
  cpu_quit :: int
  stop_after_ms :: int
  dump_every_insn :: bool
  os9call :: bool
  tx_trace :: bool
  default_port :: "nat option"
  lastpc :: u64
  lastaddr :: u64
  prev_buffer :: string
  cmd_file :: "string option"
  cmd_stdin :: string
  files :: "string \<Rightarrow> string option"
  outp :: "shown list"

definition MAX_DISPLAYS :: nat where "MAX_DISPLAYS = 32"
definition CONDITION_SIZE :: nat where "CONDITION_SIZE = 128"

text \<open>Code over the machine, and an output.\<close>

definition on_sys :: "(sys, 'a) expr \<Rightarrow> (console, 'a) expr" where
  "on_sys m c = (case m (dsys c) of Ret v s \<Rightarrow> Ret v (c\<lparr>dsys := s\<rparr>) | Exit n s \<Rightarrow> Exit n (c\<lparr>dsys := s\<rparr>) | UB \<Rightarrow> UB | NoFuel \<Rightarrow> NoFuel)"

definition print :: "shown list \<Rightarrow> console stmt" where
  "print os c = Ret () (c\<lparr>outp := outp c @ os\<rparr>)"

definition with_sys :: "(sys \<Rightarrow> 'a) \<Rightarrow> (console, 'a) expr" where
  "with_sys f c = Ret (f (dsys c)) c"

definition edit_breakpoint :: "nat \<Rightarrow> (breakpoint \<Rightarrow> breakpoint) \<Rightarrow> sys \<Rightarrow> sys" where
  "edit_breakpoint n f = set_mch (\<lambda>m. m\<lparr>breaktab := (breaktab m)[n := f (breaktab m ! n)]\<rparr>)"

section \<open>Printing\<close>

abbreviation (input) LF :: string where "LF \<equiv> [CHR 0x0a]"

definition print_addr :: "u64 \<Rightarrow> console stmt" where
  "print_addr addr = bindE (\<lambda>c. symbol_name (the_symbols (denv c)) addr c) (\<lambda>name.
     print [Out (fmt_X 2 (unat (drop_bit 28 addr)) @ '':0x'' @ fmt_X 4 (unat (addr AND 0xFFFFFF))
       @ (case name of Some n \<Rightarrow> ''  '' @ fmt_s 18 n | None \<Rightarrow> replicate 20 CHR '' ''))])"

definition error_texts :: "(u8 \<times> string) list" where
  "error_texts = [(1, ''error: bad operator in expression''), (2, ''error: bad lvalue in expression''),
     (4, ''error: bad rvalue in expression''), (8, ''error: non-existent symbol in expression''),
     (0x10, ''error: non-existent $symbol in expression''), (0x20, ''error: bad numeric literal''),
     (0x40, ''error: unrecognised $symbol in assignment''), (0x80, ''error: missing assignment'')]"

definition report_errors :: "u8 \<Rightarrow> console stmt" where
  "report_errors eflag = print (map (\<lambda>(_, text). Err (text @ LF)) (filter (\<lambda>(bit, _). eflag AND bit \<noteq> 0) error_texts))"

definition save_value :: "u64 \<Rightarrow> console stmt" where
  "save_value val c =
     (let e = denv c; i = unat (history_count e mod of_nat MAX_HISTORY)
      in if i < length (historytab e)
         then Ret () (c\<lparr>denv := e\<lparr>historytab := (historytab e)[i := val], history_count := history_count e + 1\<rparr>\<rparr>) else UB)"

definition is_format :: "char \<Rightarrow> bool" where
  "is_format c \<longleftrightarrow> c \<in> set ''Xxduoasc''"

definition parse_format_flag :: "string \<Rightarrow> char \<Rightarrow> char" where
  "parse_format_flag flags f = foldl (\<lambda>f c. if is_format c then c else f) f flags"

definition parse_size_flag :: "string \<Rightarrow> u32 \<Rightarrow> u32" where
  "parse_size_flag flags sz = foldl (\<lambda>sz c. if c = CHR ''b'' then 1 else if c = CHR ''w'' then 2 else sz) sz flags"

definition parse_flags :: "string \<Rightarrow> datatype_t \<Rightarrow> datatype_t" where
  "parse_flags flags ty = ty\<lparr>ty_char := parse_format_flag flags (ty_char ty), ty_bytes := parse_size_flag flags (ty_bytes ty)\<rparr>"

text \<open>\<^verbatim>\<open>printf\<close> of a value with the directives \<open>%0wX\<close>, \<open>%0wx\<close>, \<open>%o\<close>, \<open>%u\<close> and \<open>%d\<close>, which take its low 32 bits.
  The formats that print nothing sensible are left as their directive.\<close>

fun digits_in :: "string \<Rightarrow> nat \<Rightarrow> string" where
  "digits_in d n = (if length d \<le> 1 \<or> n < length d then [d ! n] else digits_in d (n div length d) @ [d ! (n mod length d)])"

declare digits_in.simps [simp del]

definition decimal :: "nat \<Rightarrow> string" where "decimal n = digits_in ''0123456789'' n"

definition format_value :: "datatype_t \<Rightarrow> u64 \<Rightarrow> string" where
  "format_value ty val =
     (let v = ucast val :: u32; f = ty_char ty
      in if f = CHR ''X'' then ''0x'' @ fmt_X (unat (2 * ty_bytes ty)) (unat v)
         else if f = CHR ''x'' then ''0x'' @ pad_left CHR ''0'' (unat (2 * ty_bytes ty)) (digits_in hex (unat v))
         else if f = CHR ''o'' then ''0'' @ digits_in ''01234567'' (unat v)
         else if f = CHR ''u'' then decimal (unat v)
         else if f = CHR ''d'' then (if sint v < 0 then CHR ''-'' # decimal (nat (- sint v)) else decimal (unat v))
         else ''%'' @ [f])"

text \<open>The string at an address, up to a NUL; \<open>n\<close> bounds its length.\<close>

fun print_string :: "nat \<Rightarrow> u64 \<Rightarrow> (sys, string) expr" where
  "print_string 0 addr = (\<lambda>_. NoFuel)"
| "print_string (Suc n) addr = bindE (abs_read8 (unat addr)) (\<lambda>v.
     if v = 0 then Ret [] else bindE (print_string n (addr + 1)) (\<lambda>str. Ret (char_of (unat v) # str)))"

definition print_value :: "nat \<Rightarrow> u64 \<Rightarrow> datatype_t \<Rightarrow> console stmt" where
  "print_value n val ty =
     (if ty_char ty = CHR ''a'' then print_addr val
      else if ty_char ty = CHR ''c'' then
        print [Out [if sint (ucast val :: u8) < 32 \<or> sint (ucast val :: u8) > 126 then CHR ''.'' else char_of (unat (ucast val :: u8))]]
      else if ty_char ty = CHR ''s'' then bindE (on_sys (print_string n val)) (\<lambda>str. print [Out (CHR 0x22 # str @ [CHR 0x22])])
      else print [Out (format_value ty val)])"

section \<open>Arguments and expressions\<close>

definition getarg :: "(console, string option) expr" where
  "getarg c = (case args c of [] \<Rightarrow> Ret None c | a # as \<Rightarrow> Ret (Some a) (c\<lparr>args := as\<rparr>))"

text \<open>\<^verbatim>\<open>atoi\<close>: a decimal number with a sign, clamped to a \<^verbatim>\<open>long\<close> and cut to an \<^verbatim>\<open>int\<close>.\<close>

definition atoi :: "string \<Rightarrow> int" where
  "atoi str =
     (let cs = dropWhile isspace str;
          ds = (if cs \<noteq> [] \<and> (hd cs = CHR ''+'' \<or> hd cs = CHR ''-'') then tl cs else cs);
          v = int (fst (base_digits 10 ds 0));
          w = (if cs \<noteq> [] \<and> hd cs = CHR ''-'' then max (- (2 ^ 63)) (- v) else min (2 ^ 63 - 1) v)
      in sint (of_int w :: u32))"

definition run_eval :: "sys iface \<Rightarrow> string \<Rightarrow> (console, u64 \<times> u8) expr" where
  "run_eval io expr c = on_sys (eval io (denv c) expr 0) c"

definition run_mem :: "sys iface \<Rightarrow> string \<Rightarrow> (console, u64 \<times> u8) expr" where
  "run_mem io expr c = on_sys (eval_mem io (denv c) expr LVALUE 0) c"

definition unless_error :: "u8 \<Rightarrow> console stmt \<Rightarrow> console stmt" where
  "unless_error eflag m = (if eflag \<noteq> 0 then report_errors eflag else m)"

definition on_table :: "(symstate, 'a) expr \<Rightarrow> (console, 'a) expr" where
  "on_table m c =
     (case m (the_symbols (denv c)) of
        Ret v t \<Rightarrow> Ret v (c\<lparr>denv := (denv c)\<lparr>the_symbols := t\<rparr>\<rparr>)
      | Exit n t \<Rightarrow> Exit n (c\<lparr>denv := (denv c)\<lparr>the_symbols := t\<rparr>\<rparr>) | UB \<Rightarrow> UB | NoFuel \<Rightarrow> NoFuel)"

definition signed_decimal :: "u32 \<Rightarrow> string" where
  "signed_decimal v = (if sint v < 0 then CHR ''-'' # decimal (nat (- sint v)) else decimal (unat v))"

section \<open>Print, set and examine\<close>

definition do_print :: "sys iface \<Rightarrow> nat \<Rightarrow> string \<Rightarrow> console stmt" where
  "do_print io n expr = bindE (run_eval io expr) (\<lambda>(val, eflag). block [
     assign (\<lambda>c. c\<lparr>print_type := parse_flags (command_flags c) (print_type c)\<rparr>),
     unless_error eflag (block [
       \<lambda>c. print [Out (''$'' @ signed_decimal (history_count (denv c)) @ '' = '')] c,
       \<lambda>c. print_value n val (print_type c) c,
       print [Out LF],
       save_value val])])"

definition cmd_print :: "sys iface \<Rightarrow> nat \<Rightarrow> console stmt" where
  "cmd_print io n = bindE getarg (\<lambda>arg. do_print io n (case arg of Some a \<Rightarrow> a | None \<Rightarrow> ''$''))"

definition do_set :: "sys iface \<Rightarrow> string \<Rightarrow> console stmt" where
  "do_set io expr = bindE (run_eval io expr) (\<lambda>(val, eflag). unless_error eflag (Ret ()))"

definition cmd_set :: "sys iface \<Rightarrow> console stmt" where
  "cmd_set io = bindE getarg (\<lambda>arg.
     case arg of
       None \<Rightarrow> (\<lambda>_. UB)
     | Some a \<Rightarrow>
         if a = ''var'' then bindE getarg (\<lambda>arg.
           case arg of
             None \<Rightarrow> (\<lambda>_. UB)
           | Some a \<Rightarrow> (case strchr a CHR ''='' of
               Some (name, p) \<Rightarrow> bindE (run_eval io p) (\<lambda>(val, eflag).
                 unless_error eflag (on_table (sym_set internal_symtab name val 0)))
             | None \<Rightarrow> report_errors 0x80))
         else do_set io a)"

definition objs_per_line :: "char \<Rightarrow> nat" where
  "objs_per_line f = (if f = CHR ''i'' then 1 else if f = CHR ''w'' then 8 else if f = CHR ''c'' then 32 else 16)"

definition examine_one :: "nat \<Rightarrow> console stmt" where
  "examine_one n = (\<lambda>c.
     let f = ty_char (examine_type c) in
     if f = CHR ''s'' then Ret () c
     else if f = CHR ''i'' then
       bindE (on_sys (print_insn (os9call c) (the_symbols (denv c)) (examine_addr c))) (\<lambda>(text, sz). block [
         print [Out text], assign (\<lambda>c. c\<lparr>examine_addr := examine_addr c + of_nat sz\<rparr>)]) c
     else
       bindE (on_sys (target_read (unat (examine_addr c)) (unat (ty_bytes (examine_type c))))) (\<lambda>v. block [
         print_value n (ucast v) (examine_type c),
         doif (f \<noteq> CHR ''c'') (print [Out '' '']),
         assign (\<lambda>c. c\<lparr>examine_addr := examine_addr c + ucast (ty_bytes (examine_type c))\<rparr>)]) c)"

fun examine_loop :: "nat \<Rightarrow> nat \<Rightarrow> nat \<Rightarrow> nat \<Rightarrow> console stmt" where
  "examine_loop fuel per_line i 0 = Ret ()"
| "examine_loop fuel per_line i (Suc k) = block [
     doif (i mod per_line = 0) (block [
       doif (i > 0) (print [Out LF]), \<lambda>c. print_addr (examine_addr c) c, print [Out '': '']]),
     examine_one fuel,
     examine_loop fuel per_line (i + 1) k]"

definition examine_flags :: "console \<Rightarrow> console" where
  "examine_flags c =
     (let (v, rest) = strtoul 0 (command_flags c);
          c = (if isdigit (char_at (command_flags c) 0) then c\<lparr>examine_repeat := ucast v, command_flags := rest\<rparr> else c);
          fl = command_flags c; ty = examine_type c;
          f = (if char_at fl 0 = CHR ''i'' then CHR ''i'' else parse_format_flag fl (ty_char ty))
      in c\<lparr>examine_type := \<lparr>ty_char = f, ty_bytes = parse_size_flag fl (ty_bytes ty)\<rparr>\<rparr>)"

definition do_examine :: "nat \<Rightarrow> console stmt" where
  "do_examine n = block [
     assign examine_flags,
     \<lambda>c. examine_loop n (objs_per_line (ty_char (examine_type c))) 0 (unat (examine_repeat c)) c,
     print [Out LF]]"

definition cmd_examine :: "sys iface \<Rightarrow> nat \<Rightarrow> console stmt" where
  "cmd_examine io n = bindE getarg (\<lambda>arg.
     case arg of
       Some a \<Rightarrow> bindE (run_mem io a) (\<lambda>(addr, eflag). block [
         assign (\<lambda>c. c\<lparr>examine_addr := addr\<rparr>), unless_error eflag (do_examine n)])
     | None \<Rightarrow> do_examine n)"

section \<open>Breakpoints\<close>

definition brkprint :: "nat \<Rightarrow> console stmt" where
  "brkprint n = (\<lambda>c.
     let br = breaktab (mch (dsys c)) ! n in
     doif (br_used br) (block [
       print [Out (if br_on_execute br then ''Breakpoint''
         else ''Watchpoint'' @ (if br_on_read br then ''('' @ (if br_on_write br then ''RW'' else ''RO'') @ '')'' else [])),
         Out ('' '' @ decimal n @ '' at '')],
       print_addr (of_nat (br_addr br)),
       print [Out ((if br_enabled br then [] else '' (disabled)'')
         @ (if br_conditional br then '' if '' @ br_condition br else [])
         @ (if br_threaded br then '' on thread '' @ signed_decimal (of_nat (br_tid br)) else [])
         @ (if br_keep_running br then '', print-only'' else [])
         @ (if br_temp br then '', temp'' else [])
         @ (if br_ignore_count br \<noteq> 0 then '', ignore '' @ signed_decimal (of_nat (br_ignore_count br)) @ '' times'' @ LF else [])
         @ (if br_write_mask br \<noteq> 0 then '', mask 0x'' @ fmt_X 2 (unat (br_write_mask br)) @ LF else [])
         @ LF)]]) c)"

text \<open>The entry that \<^verbatim>\<open>brkalloc\<close> returns is used without a check.\<close>

definition new_breakpoint :: "(breakpoint \<Rightarrow> breakpoint) \<Rightarrow> (console, nat) expr" where
  "new_breakpoint f c =
     (case brkalloc (dsys c) of Some (n, s) \<Rightarrow> Ret n (c\<lparr>dsys := edit_breakpoint n f s\<rparr>) | None \<Rightarrow> UB)"

definition change_breakpoint :: "nat \<Rightarrow> (breakpoint \<Rightarrow> breakpoint) \<Rightarrow> console stmt" where
  "change_breakpoint n f c = Ret () (c\<lparr>dsys := edit_breakpoint n f (dsys c)\<rparr>)"

text \<open>\<^verbatim>\<open>strcpy (br->condition, arg)\<close>.\<close>

definition set_condition :: "nat \<Rightarrow> string option \<Rightarrow> console stmt" where
  "set_condition n arg =
     (case arg of
        Some e \<Rightarrow> if length e < CONDITION_SIZE then change_breakpoint n (\<lambda>br. br\<lparr>br_conditional := True, br_condition := e\<rparr>)
                  else (\<lambda>_. UB)
      | None \<Rightarrow> (\<lambda>_. UB))"

definition cmd_break :: "sys iface \<Rightarrow> console stmt" where
  "cmd_break io = bindE getarg (\<lambda>arg.
     case arg of
       None \<Rightarrow> Ret ()
     | Some a \<Rightarrow> bindE (run_mem io a) (\<lambda>(val, eflag). unless_error eflag
         (bindE (new_breakpoint (\<lambda>br. br\<lparr>br_addr := unat val, br_on_execute := True\<rparr>)) (\<lambda>n. bindE getarg (\<lambda>arg. block [
            if arg = Some ''if'' then bindE getarg (set_condition n)
            else if arg = Some ''ignore'' then bindE getarg (\<lambda>arg.
              case arg of
                Some k \<Rightarrow> change_breakpoint n (\<lambda>br. br\<lparr>br_ignore_count := unat (of_int (atoi k) :: u32)\<rparr>)
              | None \<Rightarrow> (\<lambda>_. UB))
            else Ret (),
            brkprint n])))))"

text \<open>The options of a watchpoint, to the end of the line.\<close>

fun watch_options :: "nat \<Rightarrow> string list \<Rightarrow> console stmt" where
  "watch_options n [] = Ret ()"
| "watch_options n [a] =
     (if a = ''print'' then change_breakpoint n (\<lambda>br. br\<lparr>br_keep_running := True\<rparr>)
      else if a = ''mask'' \<or> a = ''if'' then (\<lambda>_. UB) else Ret ())"
| "watch_options n (a # b # as) =
     (if a = ''print'' then block [change_breakpoint n (\<lambda>br. br\<lparr>br_keep_running := True\<rparr>), watch_options n (b # as)]
      else if a = ''mask'' then block [change_breakpoint n (\<lambda>br. br\<lparr>br_write_mask := ucast (fst (strtoul 0 b))\<rparr>), watch_options n as]
      else if a = ''if'' then block [set_condition n (Some b), watch_options n as]
      else watch_options n (b # as))"

definition cmd_watch1 :: "sys iface \<Rightarrow> bool \<Rightarrow> bool \<Rightarrow> console stmt" where
  "cmd_watch1 io on_read on_write = bindE getarg (\<lambda>arg.
     case arg of
       None \<Rightarrow> Ret ()
     | Some a \<Rightarrow> bindE (run_mem io a) (\<lambda>(addr, eflag). unless_error eflag
         (bindE (new_breakpoint (\<lambda>br. br\<lparr>br_addr := unat addr, br_on_read := on_read, br_on_write := on_write\<rparr>)) (\<lambda>n. block [
            \<lambda>c. watch_options n (args c) (c\<lparr>args := []\<rparr>),
            brkprint n]))))"

definition cmd_break_list :: "console stmt" where
  "cmd_break_list = block (map brkprint [0..<MAX_BREAKS])"

definition cmd_delete :: "console stmt" where
  "cmd_delete = bindE getarg (\<lambda>arg.
     case arg of
       None \<Rightarrow> block [print [Out (''Deleting all breakpoints.'' @ LF)],
         assign (\<lambda>c. c\<lparr>dsys := foldl (\<lambda>s n. brkfree n s) (dsys c) [0..<MAX_BREAKS]\<rparr>)]
     | Some a \<Rightarrow> (\<lambda>c.
         let n = unat (of_int (atoi a) :: u32) in
         if n < length (breaktab (mch (dsys c))) then
           doif (br_used (breaktab (mch (dsys c)) ! n)) (block [
             print [Out (''Deleting breakpoint '' @ decimal n @ LF)],
             assign (\<lambda>c. c\<lparr>dsys := brkfree n (dsys c)\<rparr>)]) c
         else UB))"

section \<open>Running the program\<close>

definition leave :: "int \<Rightarrow> console stmt" where
  "leave rc c = Ret () (c\<lparr>exit_command_loop := rc\<rparr>)"

definition cmd_step :: "console stmt" where
  "cmd_step = bindE getarg (\<lambda>arg. block [
     (let k = (case arg of Some a \<Rightarrow> if atoi a \<noteq> 0 then atoi a else 1 | None \<Rightarrow> 1)
      in assign (\<lambda>c. c\<lparr>dsys := set_mch (\<lambda>m. m\<lparr>auto_break_insn_count := k\<rparr>) (dsys c)\<rparr>)),
     leave 0])"

text \<open>The text goes to a buffer of 128 bytes.\<close>

definition cmd_next :: "console stmt" where
  "cmd_next = (\<lambda>c.
     bindE (on_sys (\<lambda>s. to_absolute (unat (get_pc s)) s)) (\<lambda>addr.
     bindE (on_sys (dasm (os9call c) (the_symbols (denv c)) (of_nat addr))) (\<lambda>(text, sz).
       if length text < 128 then
         bindE (new_breakpoint (\<lambda>br. br\<lparr>br_addr := unat (of_nat addr + of_nat sz :: u64), br_on_execute := True, br_temp := True\<rparr>))
           (\<lambda>_. leave 0)
       else (\<lambda>_. UB))) c)"

definition cmd_continue :: "console stmt" where
  "cmd_continue = leave 0"

definition cmd_quit :: "console stmt" where
  "cmd_quit c = leave 1 (c\<lparr>cpu_quit := 0\<rparr>)"

end
