(* ===== verification/Debugger_Shell.thy ===== *)
theory Debugger_Shell
  imports Debugger
begin

text \<open>
  The rest of the commands of \<^verbatim>\<open>command.c\<close>, the command table and its search, reading and running command lines, and
  the command loop the processor enters at a breakpoint.
\<close>

section \<open>Listing and displays\<close>

text \<open>One line of a listing, through a buffer of 64 bytes: address, bytes, name and text.\<close>

definition print_insn_long :: "u64 \<Rightarrow> (console, nat) expr" where
  "print_insn_long addr = (\<lambda>c.
     bindE (on_sys (print_insn (os9call c) (the_symbols (denv c)) addr)) (\<lambda>(text, sz).
     bindE (block [
       print [Out (fmt_X 2 (unat (drop_bit 28 addr)) @ '':0x'' @ fmt_X 4 (unat (addr AND 0xFFFFFF)) @ '' '')],
       block (map (\<lambda>i. bindE (on_sys (abs_read8 (unat (addr + of_nat i)))) (\<lambda>v. print [Out (fmt_X 2 (unat v))])) [0..<sz]),
       print [Out (concat (replicate (4 - sz) ''  ''))],
       bindE (\<lambda>c. symbol_name (the_symbols (denv c)) addr c) (\<lambda>name.
         print [Out (case name of Some n \<Rightarrow> ''  '' @ fmt_s 12 n | None \<Rightarrow> replicate 14 CHR '' '')]),
       print [Out (text @ LF)]]) (\<lambda>_. Ret sz)) c)"

fun list_loop :: "nat \<Rightarrow> u64 \<Rightarrow> (console, u64) expr" where
  "list_loop 0 addr = Ret addr"
| "list_loop (Suc k) addr = bindE (print_insn_long addr) (\<lambda>sz. list_loop k (addr + of_nat sz))"

definition list_from :: "u64 \<Rightarrow> console stmt" where
  "list_from addr = bindE (list_loop 16 addr) (\<lambda>a. assign (\<lambda>c. c\<lparr>lastaddr := a\<rparr>))"

definition cmd_list :: "sys iface \<Rightarrow> console stmt" where
  "cmd_list io = bindE getarg (\<lambda>arg.
     case arg of
       Some a \<Rightarrow> bindE (run_mem io a) (\<lambda>(addr, eflag). unless_error eflag (list_from addr))
     | None \<Rightarrow> bindE (on_sys (\<lambda>s. to_absolute (unat (get_pc s)) s)) (\<lambda>addr c.
         if of_nat addr = lastpc c then list_from (lastaddr c) c
         else list_from (of_nat addr) (c\<lparr>lastpc := of_nat addr, lastaddr := of_nat addr\<rparr>)))"

definition print_current_insn :: "console stmt" where
  "print_current_insn = bindE (on_sys (\<lambda>s. to_absolute (unat (get_pc s)) s)) (\<lambda>addr.
     bindE (print_insn_long (of_nat addr)) (\<lambda>_. Ret ()))"

text \<open>\<^verbatim>\<open>display_alloc\<close> and the loop over the arguments of \<^verbatim>\<open>display\<close>; an expression is cut to 127 characters.\<close>

definition display_alloc :: "console \<Rightarrow> nat option" where
  "display_alloc c = find (\<lambda>n. \<not> ds_used (displaytab c ! n)) [0..<length (displaytab c)]"

fun display_args :: "string list \<Rightarrow> console stmt" where
  "display_args [] c = Ret () (c\<lparr>args := []\<rparr>)"
| "display_args (a # as) c =
     (case display_alloc c of
        None \<Rightarrow> print [Err (''error: no more display slots available'' @ LF)] (c\<lparr>args := as\<rparr>)
      | Some n \<Rightarrow> display_args as (c\<lparr>displaytab := (displaytab c)[n :=
          \<lparr>ds_used = True, ds_type = parse_flags (command_flags c) (print_type c), ds_expr = take 127 a\<rparr>]\<rparr>))"

definition cmd_display :: "console stmt" where
  "cmd_display c = display_args (args c) c"

text \<open>The displays are evaluated in a copy of their expression, with one set of error flags.\<close>

fun display_loop :: "sys iface \<Rightarrow> nat \<Rightarrow> nat list \<Rightarrow> string \<Rightarrow> u8 \<Rightarrow> (console, string \<times> u8) expr" where
  "display_loop io n [] comma eflag = Ret (comma, eflag)"
| "display_loop io n (i # is) comma eflag = (\<lambda>c.
     let ds = displaytab c ! i in
     if ds_used ds then
       bindE (print [Out (comma @ '' '' @ ds_expr ds @ '' = '')]) (\<lambda>_.
       bindE (\<lambda>c. on_sys (eval io (denv c) (ds_expr ds) eflag) c) (\<lambda>(val, eflag).
       bindE (print_value n val (ds_type ds)) (\<lambda>_. display_loop io n is '','' eflag))) c
     else display_loop io n is comma eflag c)"

definition display_print :: "sys iface \<Rightarrow> nat \<Rightarrow> console stmt" where
  "display_print io n = (\<lambda>c. bindE (display_loop io n [0..<length (displaytab c)] [NUL] 0) (\<lambda>(comma, eflag). block [
     doif (comma \<noteq> [NUL]) (print [Out LF]),
     doif (eflag \<noteq> 0) (report_errors eflag)]) c)"

section \<open>Other commands\<close>

definition command_exec_file :: "string \<Rightarrow> (console, bool) expr" where
  "command_exec_file name c =
     (case files c name of None \<Rightarrow> Ret False c | Some text \<Rightarrow> Ret True (c\<lparr>cmd_file := Some text\<rparr>))"

definition cmd_source :: "console stmt" where
  "cmd_source = bindE getarg (\<lambda>arg.
     case arg of
       None \<Rightarrow> Ret ()
     | Some a \<Rightarrow> bindE (command_exec_file a) (\<lambda>ok. doif (\<not> ok) (print [Err (''can't open '' @ a @ LF)])))"

text \<open>\<^verbatim>\<open>file_concat\<close> of a map file name is the name with the suffix .map; \<open>map_files\<close> gives both candidates.\<close>

definition cmd_symbol_file :: "(string \<Rightarrow> string option \<times> string option) \<Rightarrow> console stmt" where
  "cmd_symbol_file map_files = bindE getarg (\<lambda>arg.
     case arg of
       None \<Rightarrow> Ret ()
     | Some a \<Rightarrow> (\<lambda>c. bindE (on_sys (load_map_file (fst (map_files a)) (snd (map_files a)) (the_symbols (denv c))))
         (\<lambda>(_, syms). assign (\<lambda>c. c\<lparr>denv := (denv c)\<lparr>the_symbols := syms\<rparr>\<rparr>)) c))"

definition cmd_pc :: "sys iface \<Rightarrow> console stmt" where
  "cmd_pc io = bindE getarg (\<lambda>arg.
     case arg of
       None \<Rightarrow> Ret ()
     | Some a \<Rightarrow> bindE (run_mem io a) (\<lambda>(val, eflag). unless_error eflag (block [
         assign (\<lambda>c. c\<lparr>dsys := set_pc (ucast val) (dsys c)\<rparr>), cmd_list io])))"

definition cmd_vars :: "console stmt" where
  "cmd_vars = bindE getarg (\<lambda>arg.
     if arg = Some ''auto'' then print [Out (''Print auto'' @ LF), Symbols auto_symtab]
     else if arg = Some ''internal'' then print [Out (''Print internal'' @ LF), Symbols internal_symtab]
     else print [Symbols program_symtab])"

definition cmd_runfor :: "console stmt" where
  "cmd_runfor = bindE getarg (\<lambda>arg.
     case arg of
       None \<Rightarrow> Ret ()
     | Some a \<Rightarrow>
         let val = of_int (atoi a) :: u64 in
         bindE (\<lambda>c. doif (stop_after_ms c \<noteq> 0) (print [Out (''Previous 'runfor' abandoned'' @ LF)]) c) (\<lambda>_.
         bindE getarg (\<lambda>units.
           if units = None \<or> units = Some ''ms'' \<or> units = Some ''s'' then
             let ms = (if units = Some ''s'' then val * 1000 else val) in block [
               assign (\<lambda>c. c\<lparr>stop_after_ms := sint (ucast ms :: u32)\<rparr>),
               if val = 0 then print [Err (''error: bad time value'' @ LF)] else leave 0]
           else print [Err (''error: bad time units'' @ LF)])))"

definition command_periodic :: "console stmt" where
  "command_periodic c =
     (if stop_after_ms c = 0 then Ret () c
      else let ms = stop_after_ms c - 100 in
        if ms \<le> 0 then print [Out (''Stopping after time elapsed.'' @ LF)] (c\<lparr>stop_after_ms := 0, dsys := (dsys c)\<lparr>monitor_on := True\<rparr>\<rparr>)
        else Ret () (c\<lparr>stop_after_ms := ms\<rparr>))"

text \<open>\<^verbatim>\<open>write16\<close> is a macro of two byte writes, the low byte first, without a mask on the second address.\<close>

definition cmd_measure :: "sys iface \<Rightarrow> console stmt" where
  "cmd_measure io = (\<lambda>c.
     let retaddr = get_pc (dsys c) in bindE getarg (\<lambda>arg.
     case arg of
       None \<Rightarrow> Ret ()
     | Some a \<Rightarrow> bindE (run_mem io a) (\<lambda>(addr, eflag). unless_error eflag (block [
         print [Out ''Measuring ''],
         print_addr addr,
         print [Out '' back to ''],
         bindE (on_sys (to_absolute (unat retaddr))) (\<lambda>r. print_addr (of_nat r)),
         print [Out LF],
         assign (\<lambda>c. c\<lparr>dsys := set_s (get_s (dsys c) - 2) (dsys c)\<rparr>),
         on_sys (\<lambda>s. write8 io (get_s s + 1) (ucast (retaddr AND 0xFF)) s),
         on_sys (\<lambda>s. write8 io (get_s s) (ucast (drop_bit 8 retaddr AND 0xFF)) s),
         bindE (on_sys (to_absolute (unat retaddr))) (\<lambda>r.
           bindE (new_breakpoint (\<lambda>br. br\<lparr>br_addr := r, br_on_execute := True, br_temp := True\<rparr>)) (\<lambda>_. Ret ())),
         assign (\<lambda>c. c\<lparr>dsys := set_cc (get_cc (dsys c) OR 0x50) (dsys c)\<rparr>),
         assign (\<lambda>c. c\<lparr>dsys := set_pc (ucast addr) (dsys c)\<rparr>),
         leave 0]))) c)"

definition cmd_dump_insns :: "console stmt" where
  "cmd_dump_insns = bindE getarg (\<lambda>arg. block [
     (case arg of Some a \<Rightarrow> assign (\<lambda>c. c\<lparr>dump_every_insn := (ucast (fst (strtoul 0 a)) :: u32) \<noteq> 0\<rparr>) | None \<Rightarrow> Ret ()),
     \<lambda>c. print [Out (''Instruction dump is '' @ (if dump_every_insn c then ''on'' else ''off'') @ LF)] c])"

text \<open>The trace buffer from the entry behind the next free one, round to the next free one, which is left out.\<close>

definition cmd_trace_dump :: "console stmt" where
  "cmd_trace_dump = (\<lambda>c. block (map (\<lambda>i c.
       let off = (trace_offset (mch (dsys c)) + 1 + i) mod MAX_TRACE in
       if off < length (trace_buffer (mch (dsys c))) then
         bindE (on_sys (to_absolute (unat (ucast (trace_buffer (mch (dsys c)) ! off) :: u16)))) (\<lambda>addr.
           bindE (print_insn_long (of_nat addr)) (\<lambda>_. Ret ())) c
       else UB) [0..<MAX_TRACE - 1]) c)"

section \<open>Serial port\<close>

definition serial_port_of :: "console \<Rightarrow> (nat \<times> serial_port) option" where
  "serial_port_of c =
     (case default_port c of
        Some d \<Rightarrow> if d < length (device_table (mch (dsys c)))
                  then (case dev_priv (device_table (mch (dsys c)) ! d) of Serial_dev p \<Rightarrow> Some (d, p) | _ \<Rightarrow> None) else None
      | None \<Rightarrow> None)"

text \<open>Whether the byte was taken.\<close>

definition serial_inject_byte :: "u8 \<Rightarrow> (console, bool) expr" where
  "serial_inject_byte val c =
     (case serial_port_of c of
        None \<Rightarrow> Ret False c
      | Some (d, p) \<Rightarrow> (case serial_queue_push p val of
          None \<Rightarrow> Ret False c
        | Some p' \<Rightarrow> Ret True (c\<lparr>dsys := set_mch (\<lambda>m. m\<lparr>device_table := (device_table m)[d :=
            (device_table m ! d)\<lparr>dev_priv := Serial_dev p'\<rparr>]\<rparr>) (dsys c)\<rparr>)))"

definition rx_pending :: "console \<Rightarrow> int" where
  "rx_pending c = (case serial_port_of c of Some (_, p) \<Rightarrow> int (serial_get_rx_pending p) | None \<Rightarrow> - 1)"

text \<open>The loop over the bytes; the result is their number, or nothing after an error.\<close>

fun serial_rx_args :: "string list \<Rightarrow> nat \<Rightarrow> (console, nat option) expr" where
  "serial_rx_args [] k = Ret (Some k)"
| "serial_rx_args (a # as) k =
     (let (v, rest) = strtoul 0 a in
      if rest \<noteq> [] \<or> v > 0xFF then
        bindE (print [Err (''error: bad byte '' @ CHR 0x27 # a @ CHR 0x27 # '' (expected 0..255)'' @ LF)]) (\<lambda>_. Ret None)
      else bindE (serial_inject_byte (ucast v)) (\<lambda>ok.
        if ok then serial_rx_args as (k + 1)
        else bindE (print [Err (''error: serial RX queue full or no serial device'' @ LF)]) (\<lambda>_. Ret None)))"

definition cmd_serial_rx :: "console stmt" where
  "cmd_serial_rx = (\<lambda>c. bindE (serial_rx_args (args c) 0) (\<lambda>r c.
     case r of
       None \<Rightarrow> Ret () c
     | Some k \<Rightarrow> if k = 0 then print [Err (''usage: serrx <byte> [byte...]'' @ LF)] c
         else print [Out (''Injected '' @ decimal k @ '' byte(s), pending RX='' @ signed_decimal (of_int (rx_pending c)) @ LF)] c)
     (c\<lparr>args := []\<rparr>))"

definition on_off :: "bool \<Rightarrow> string" where "on_off b = (if b then ''on'' else ''off'')"

definition cmd_serial_stat :: "console stmt" where
  "cmd_serial_stat c =
     (if rx_pending c < 0 then print [Out (''No active serial device'' @ LF)] c
      else print [Out (''Serial RX pending: '' @ signed_decimal (of_int (rx_pending c)) @ '', TX trace: '' @ on_off (tx_trace c) @ LF)] c)"

definition cmd_serial_tx_trace :: "console stmt" where
  "cmd_serial_tx_trace = bindE getarg (\<lambda>arg.
     let show = (\<lambda>c. print [Out (''TX trace is '' @ on_off (tx_trace c) @ LF)] c);
         on = (arg = Some ''1'' \<or> arg = Some ''on''); off = (arg = Some ''0'' \<or> arg = Some ''off'')
     in if arg = None then show
        else if on \<or> off then block [assign (\<lambda>c. c\<lparr>tx_trace := on\<rparr>), show]
        else print [Err (''usage: sertx [on|off|1|0]'' @ LF)])"

section \<open>The command table\<close>

datatype handler =
    Cmd_print
  | Cmd_set
  | Cmd_examine
  | Cmd_break
  | Cmd_break_list
  | Cmd_delete
  | Cmd_step
  | Cmd_next
  | Cmd_continue
  | Cmd_quit
  | Cpu_reset
  | Cmd_help
  | Cmd_watch
  | Cmd_rwatch
  | Cmd_awatch
  | Cmd_list
  | Cmd_symbol_file
  | Cmd_display
  | Cmd_source
  | Cmd_regs
  | Cmd_vars
  | Cmd_runfor
  | Cmd_measure
  | Cmd_dump_insns
  | Cmd_trace_dump
  | Cmd_dump
  | Cmd_restore
  | Cmd_info
  | Cmd_pc
  | Cmd_serial_rx
  | Cmd_serial_stat
  | Cmd_serial_tx_trace

definition cmdtab :: "(string \<times> string \<times> handler \<times> string option) list" where
  "cmdtab =
     [(''p'', ''print'', Cmd_print, Some ''Print the value of an expression''),
      (''set'', ''set'', Cmd_set, Some ''Set an internal variable/target memory''),
      (''x'', ''examine'', Cmd_examine, Some ''Examine raw memory''),
      (''b'', ''break'', Cmd_break, Some ''Set a breakpoint''),
      (''bl'', ''blist'', Cmd_break_list, Some ''List all breakpoints/watchpoints''),
      (''d'', ''delete'', Cmd_delete, Some ''Delete a breakpoint/watchpoint''),
      (''s'', ''step'', Cmd_step, Some ''Step one (or more) instructions''),
      (''n'', ''next'', Cmd_next, Some ''Break at the next instruction''),
      (''c'', ''continue'', Cmd_continue, Some ''Continue the program''),
      (''fg'', ''foreground'', Cmd_continue, None),
      (''q'', ''quit'', Cmd_quit, Some ''Quit the simulator''),
      (''re'', ''reset'', Cpu_reset, Some ''Reset the CPU''),
      (''h'', ''help'', Cmd_help, Some ''Display this help''),
      (''wa'', ''watch'', Cmd_watch, Some ''Add a watchpoint on write''),
      (''rwa'', ''rwatch'', Cmd_rwatch, Some ''Add a watchpoint on read''),
      (''awa'', ''awatch'', Cmd_awatch, Some ''Add a watchpoint on read/write''),
      (''?'', ''?'', Cmd_help, None),
      (''l'', ''list'', Cmd_list, None),
      (''sym'', ''symbol-file'', Cmd_symbol_file, Some ''Open a symbol table file''),
      (''di'', ''display'', Cmd_display, Some ''Add a display expression''),
      (''so'', ''source'', Cmd_source, Some ''Run a command script''),
      (''regs'', ''regs'', Cmd_regs, Some ''Show all CPU registers''),
      (''vars'', ''vars'', Cmd_vars, Some ''Show all program variables''),
      (''runfor'', ''runfor'', Cmd_runfor, Some ''Run for a certain amount of time''),
      (''me'', ''measure'', Cmd_measure, Some ''Measure time that a function takes''),
      (''dumpi'', ''dumpi'', Cmd_dump_insns, Some ''Set dump-instruction flag''),
      (''td'', ''tracedump'', Cmd_trace_dump, Some ''Dump the trace buffer''),
      (''dump'', ''du'', Cmd_dump, Some ''Dump contents of memory to a file''),
      (''restore'', ''res'', Cmd_restore, Some ''Restore contents of memory from a file''),
      (''i'', ''info'', Cmd_info, Some ''Describe machine, devices and address mapping''),
      (''pc'', ''pc'', Cmd_pc, Some ''Set program counter''),
      (''serrx'', ''serrx'', Cmd_serial_rx, Some ''Inject bytes into emulated serial RX queue''),
      (''serstat'', ''serstat'', Cmd_serial_stat, Some ''Show serial communicator status''),
      (''sertx'', ''sertx'', Cmd_serial_tx_trace, Some ''Set/get serial TX tracing (on/off)'')]"

definition cmd_help :: "console stmt" where
  "cmd_help = block (map (\<lambda>(prefix, name, _, help).
     case help of Some h \<Rightarrow> print [Out (name @ '' ('' @ prefix @ '') - '' @ h @ LF)] | None \<Rightarrow> Ret ()) cmdtab)"

text \<open>The first entry whose prefix or name is the word; behind a slash are the flags.\<close>

definition find_command :: "string \<Rightarrow> handler option" where
  "find_command cmd = map_option (\<lambda>(_, _, h, _). h) (find (\<lambda>(prefix, name, _, _). cmd = prefix \<or> cmd = name) cmdtab)"

definition command_lookup :: "string \<Rightarrow> (console, handler option) expr" where
  "command_lookup cmd c =
     (case strchr cmd CHR ''/'' of
        Some (w, flags) \<Rightarrow> Ret (find_command w) (c\<lparr>command_flags := flags\<rparr>)
      | None \<Rightarrow> Ret (find_command cmd) (c\<lparr>command_flags := []\<rparr>))"

definition run_command :: "sys iface \<Rightarrow> (string \<Rightarrow> string option \<times> string option) \<Rightarrow> nat \<Rightarrow> handler \<Rightarrow> console stmt" where
  "run_command io map_files n h =
     (case h of
        Cmd_print \<Rightarrow> cmd_print io n
      | Cmd_set \<Rightarrow> cmd_set io
      | Cmd_examine \<Rightarrow> cmd_examine io n
      | Cmd_break \<Rightarrow> cmd_break io
      | Cmd_break_list \<Rightarrow> cmd_break_list
      | Cmd_delete \<Rightarrow> cmd_delete
      | Cmd_step \<Rightarrow> cmd_step
      | Cmd_next \<Rightarrow> cmd_next
      | Cmd_continue \<Rightarrow> cmd_continue
      | Cmd_quit \<Rightarrow> cmd_quit
      | Cpu_reset \<Rightarrow> on_sys (cpu_reset io)
      | Cmd_help \<Rightarrow> cmd_help
      | Cmd_watch \<Rightarrow> cmd_watch1 io False True
      | Cmd_rwatch \<Rightarrow> cmd_watch1 io True False
      | Cmd_awatch \<Rightarrow> cmd_watch1 io True True
      | Cmd_list \<Rightarrow> cmd_list io
      | Cmd_symbol_file \<Rightarrow> cmd_symbol_file map_files
      | Cmd_display \<Rightarrow> cmd_display
      | Cmd_source \<Rightarrow> cmd_source
      | Cmd_regs \<Rightarrow> print [Registers]
      | Cmd_vars \<Rightarrow> cmd_vars
      | Cmd_runfor \<Rightarrow> cmd_runfor
      | Cmd_measure \<Rightarrow> cmd_measure io
      | Cmd_dump_insns \<Rightarrow> cmd_dump_insns
      | Cmd_trace_dump \<Rightarrow> cmd_trace_dump
      | Cmd_dump \<Rightarrow> print [Map_dump]
      | Cmd_restore \<Rightarrow> print [Out (''not implemented'' @ LF)]
      | Cmd_info \<Rightarrow> print [Devices]
      | Cmd_pc \<Rightarrow> cmd_pc io
      | Cmd_serial_rx \<Rightarrow> cmd_serial_rx
      | Cmd_serial_stat \<Rightarrow> cmd_serial_stat
      | Cmd_serial_tx_trace \<Rightarrow> cmd_serial_tx_trace)"

section \<open>Command lines\<close>

text \<open>One line of the current input, with the prompt on the terminal; whether the input ended.\<close>

definition read_line :: "(console, string \<times> bool) expr" where
  "read_line c =
     (case cmd_file c of
        Some text \<Rightarrow> (let (line, eof, rest) = fgets 254 text in Ret (line, eof) (c\<lparr>cmd_file := Some rest\<rparr>))
      | None \<Rightarrow> (let (line, eof, rest) = fgets 254 (cmd_stdin c) in
          Ret (line, eof) (c\<lparr>cmd_stdin := rest, outp := outp c @ [Out ''(dbg) '']\<rparr>)))"

text \<open>\<^verbatim>\<open>command_exec\<close>: -1 at the end of the input, else 0. Of the previous command only the first word is kept.\<close>

definition command_exec :: "sys iface \<Rightarrow> (string \<Rightarrow> string option \<times> string option) \<Rightarrow> nat \<Rightarrow> (console, int) expr" where
  "command_exec io map_files n = bindE read_line (\<lambda>(line, eof) c.
     if eof then Ret (- 1) c
     else
       let buf = (if line \<noteq> [] \<and> hd line = CHR 0x0a then prev_buffer c else line) in
       if buf \<noteq> [] \<and> hd buf = CHR ''#'' then Ret 0 c
       else case strtok_words buf of
           [] \<Rightarrow> Ret 0 c
         | cmd # words \<Rightarrow>
             bindE (command_lookup cmd) (\<lambda>h. bindE (case h of
                 None \<Rightarrow> print [Err (''error: no such command'' @ LF)]
               | Some h \<Rightarrow> run_command io map_files n h) (\<lambda>_. Ret 0)) (c\<lparr>args := words, prev_buffer := cmd\<rparr>))"

text \<open>The loop over the lines of one input: it stops when a command leaves or the input ends. The fuel is a number
  of lines.\<close>

fun exec_lines :: "sys iface \<Rightarrow> (string \<Rightarrow> string option \<times> string option) \<Rightarrow> nat \<Rightarrow> nat \<Rightarrow> (console, bool) expr" where
  "exec_lines io map_files n 0 = (\<lambda>_. NoFuel)"
| "exec_lines io map_files n (Suc k) = (\<lambda>c.
     if exit_command_loop c \<ge> 0 then Ret False c
     else bindE (command_exec io map_files n) (\<lambda>rc. if rc < 0 then Ret True else exec_lines io map_files n k) c)"

text \<open>\<^verbatim>\<open>command_loop\<close>: at the end of a command file it starts again on the terminal.\<close>

definition command_session :: "sys iface \<Rightarrow> (string \<Rightarrow> string option \<times> string option) \<Rightarrow> nat \<Rightarrow> nat \<Rightarrow> (console, bool) expr" where
  "command_session io map_files n k = (\<lambda>c. bindE (doif (cmd_file c = None) (block [display_print io n, print_current_insn])) (\<lambda>_.
     bindE (assign (\<lambda>c. c\<lparr>exit_command_loop := - 1\<rparr>)) (\<lambda>_. exec_lines io map_files n k)) c)"

primrec sessions :: "sys iface \<Rightarrow> (string \<Rightarrow> string option \<times> string option) \<Rightarrow> nat \<Rightarrow> nat \<Rightarrow> nat \<Rightarrow> (console, int) expr" where
  "sessions io map_files n k 0 = (\<lambda>_. NoFuel)"
| "sessions io map_files n k (Suc m) = bindE (command_session io map_files n k) (\<lambda>eof c.
     if eof \<and> cmd_file c \<noteq> None then sessions io map_files n k m (c\<lparr>cmd_file := None\<rparr>)
     else Ret (exit_command_loop c) c)"

definition command_loop :: "sys iface \<Rightarrow> (string \<Rightarrow> string option \<times> string option) \<Rightarrow> nat \<Rightarrow> nat \<Rightarrow> nat \<Rightarrow> (console, int) expr" where
  "command_loop io map_files n k m = bindE (assign (\<lambda>c. c\<lparr>dsys := brkfree_temps (dsys c)\<rparr>)) (\<lambda>_. sessions io map_files n k m)"

text \<open>\<^verbatim>\<open>monitor6809\<close>: the processor enters the command loop, and leaves with the monitor off.\<close>

definition debug_monitor :: "sys iface \<Rightarrow> (string \<Rightarrow> string option \<times> string option) \<Rightarrow> nat \<Rightarrow> nat \<Rightarrow> nat \<Rightarrow> (console, int) expr" where
  "debug_monitor io map_files n k m = bindE (command_loop io map_files n k m) (\<lambda>rc.
     bindE (assign (\<lambda>c. c\<lparr>dsys := (dsys c)\<lparr>monitor_on := False\<rparr>\<rparr>)) (\<lambda>_. Ret rc))"

section \<open>Start\<close>

definition SYM_AUTO :: u32 where "SYM_AUTO = 1"

definition virtual_names :: "(string \<times> virtual) list" where
  "virtual_names = [(''pc'', Pc_v), (''x'', X_v), (''y'', Y_v), (''u'', U_v), (''s'', S_v), (''d'', D_v), (''a'', A_v), (''b'', B_v),
     (''dp'', Dp_v), (''cc'', Cc_v), (''cycles'', Cycles_v), (''et'', Et_v), (''irqload'', Irq_load_v)]"

text \<open>The automatic symbols, and the whole of \<^verbatim>\<open>command_init\<close>.\<close>

definition install_virtuals :: "(virtual \<Rightarrow> u64) \<Rightarrow> symstate stmt" where
  "install_virtuals fp = block (map (\<lambda>(name, v). bindE (sym_add auto_symtab name (fp v) SYM_AUTO) (\<lambda>_. Ret ())) virtual_names)"

definition command_init :: "console stmt" where
  "command_init = (\<lambda>c. block [
     on_table (install_virtuals (fnptr (denv c))),
     assign (\<lambda>c. c\<lparr>examine_type := \<lparr>ty_char = CHR ''X'', ty_bytes = 1\<rparr>, print_type := \<lparr>ty_char = CHR ''X'', ty_bytes = 1\<rparr>, cmd_file := None\<rparr>),
     bindE (command_exec_file ''.dbinit'') (\<lambda>_. Ret ())] c)"

end
