(* ===== verification/Debugger_Laws.thy ===== *)
theory Debugger_Laws
  imports Debugger_Shell System_Ram
begin

text \<open>
  Laws of the debugger: the evaluator against a grammar of expressions, printed values read back, assignments to
  registers and memory read back, breakpoints, the command table and command lines.
\<close>

section \<open>Arithmetic\<close>

text \<open>The grammar the evaluator really has: an operator binds to the right, also the minus and the slash, and each
  operator has its own level, division the tightest, then multiplication, subtraction and addition.\<close>

datatype binop = Add | Sub | Mul | Div

datatype arith = Atom string | Op binop arith arith

fun binop_char :: "binop \<Rightarrow> char" where
  "binop_char Add = CHR ''+''"
| "binop_char Sub = CHR ''-''"
| "binop_char Mul = CHR ''*''"
| "binop_char Div = CHR 0x2f"

fun prec :: "binop \<Rightarrow> nat" where
  "prec Add = 4" | "prec Sub = 3" | "prec Mul = 2" | "prec Div = 1"

fun level :: "arith \<Rightarrow> nat" where
  "level (Atom a) = 0"
| "level (Op f l r) = prec f"

text \<open>The trees that have a text: at most the level of the operator on the right, a lower one on the left.\<close>

fun canonical :: "arith \<Rightarrow> bool" where
  "canonical (Atom a) \<longleftrightarrow> a \<noteq> [] \<and> set a \<inter> set ''=!+-*/'' = {}"
| "canonical (Op f l r) \<longleftrightarrow> canonical l \<and> canonical r \<and> level l < prec f \<and> level r \<le> prec f"

fun arith_text :: "arith \<Rightarrow> string" where
  "arith_text (Atom a) = a"
| "arith_text (Op f l r) = arith_text l @ binop_char f # arith_text r"

fun apply_op :: "binop \<Rightarrow> u64 \<Rightarrow> u64 \<Rightarrow> u64" where
  "apply_op Add a b = a + b"
| "apply_op Sub a b = a - b"
| "apply_op Mul a b = a * b"
| "apply_op Div a b = a div b"

fun arith_value :: "(string \<Rightarrow> u64) \<Rightarrow> arith \<Rightarrow> u64" where
  "arith_value val (Atom a) = val a"
| "arith_value val (Op f l r) = apply_op f (arith_value val l) (arith_value val r)"

fun divisors_ok :: "(string \<Rightarrow> u64) \<Rightarrow> arith \<Rightarrow> bool" where
  "divisors_ok val (Atom a) \<longleftrightarrow> True"
| "divisors_ok val (Op f l r) \<longleftrightarrow> divisors_ok val l \<and> divisors_ok val r \<and> (f = Div \<longrightarrow> arith_value val r \<noteq> 0)"

fun atoms :: "arith \<Rightarrow> string set" where
  "atoms (Atom a) = {a}"
| "atoms (Op f l r) = atoms l \<union> atoms r"

lemma arith_text_nonempty: "canonical t \<Longrightarrow> arith_text t \<noteq> []"
  by (induction t) auto

lemma arith_chars:
  "canonical t \<Longrightarrow> CHR ''='' \<notin> set (arith_text t) \<and> CHR ''!'' \<notin> set (arith_text t)
    \<and> (binop_char f \<in> set (arith_text t) \<longrightarrow> prec f \<le> level t)"
proof (induction t)
  case (Atom a)
  then show ?case by (cases f) auto
next
  case (Op g l r)
  have "binop_char g \<noteq> CHR ''=''" "binop_char g \<noteq> CHR ''!''" by (cases g; simp)+
  moreover have "binop_char f = binop_char g \<Longrightarrow> f = g" by (cases f; cases g) simp_all
  ultimately show ?case using Op by auto
qed

lemma arith_no_op: "canonical t \<Longrightarrow> level t < prec f \<Longrightarrow> binop_char f \<notin> set (arith_text t)"
  using arith_chars [of t f] by auto

lemma eval_arith_op:
  assumes "canonical (Op f l r)"
  shows "eval io env (arith_text (Op f l r)) = fold_op (binop_char f) (eval io env (arith_text l)) (eval io env (arith_text r))"
proof -
  let ?t = "Op f l r"
  have eq: "match_binary (arith_text ?t) ''=='' = None" "match_binary (arith_text ?t) ''!='' = None" "strchr (arith_text ?t) CHR ''='' = None"
    using arith_chars [OF assms] by (simp_all add: match_binary_None strchr_None)
  have higher: "fold_binary (arith_text ?t) (binop_char g) = None" if "prec f < prec g" for g
    using that assms arith_no_op [of ?t g] by (simp add: fold_binary_None)
  have "fold_binary (arith_text ?t) (binop_char f) = Some (arith_text l, arith_text r)"
    using assms arith_no_op [of l f] by (simp add: fold_binary_first arith_text_nonempty)
  then show ?thesis using higher [of Add] higher [of Sub] higher [of Mul] unfolding eval.simps [of io env "arith_text ?t"] eq option.case
    by (cases f) simp_all
qed

text \<open>(C8) The evaluator against the grammar: a text of operators over atoms that evaluate without an effect has the
  value of the tree that this grammar gives it, and leaves the machine and the error flags alone. The minus and the
  slash bind to the right, and a slash tighter than a multiplication on its left.\<close>

theorem eval_matches_grammar:
  assumes "canonical t" "divisors_ok val t" "\<forall>a \<in> atoms t. \<forall>f. eval io env a f s = Ret (val a, f) s"
  shows "eval io env (arith_text t) eflag s = Ret (arith_value val t, eflag) s"
  using assms
proof (induction t arbitrary: eflag)
  case (Op f l r)
  have "eval io env (arith_text l) e s = Ret (arith_value val l, e) s" "eval io env (arith_text r) e s = Ret (arith_value val r, e) s" for e
    using Op by auto
  then show ?case using Op.prems(2) unfolding eval_arith_op [OF Op.prems(1)]
    by (cases f) (simp_all add: fold_op_def operands_def bindE_def)
qed simp

section \<open>Numbers\<close>

text \<open>Printed digits read back.\<close>

lemma base_digits_append:
  "(\<And>c. c \<in> set ds \<Longrightarrow> \<exists>d. xdigit c = Some d \<and> d < b) \<Longrightarrow>
   base_digits b (ds @ es) acc = base_digits b es (fst (base_digits b ds acc))"
proof (induction ds arbitrary: acc)
  case (Cons c ds)
  obtain d where "xdigit c = Some d" "d < b" using Cons.prems [of c] by auto
  then show ?case using Cons.IH [of "b * acc + d"] Cons.prems by simp
qed simp

definition digit_set :: "string \<Rightarrow> bool" where
  "digit_set D \<longleftrightarrow> 1 < length D \<and> (\<forall>i < length D. xdigit (D ! i) = Some i)"

lemma digits_chars: "digit_set D \<Longrightarrow> c \<in> set (digits_in D n) \<Longrightarrow> \<exists>d. xdigit c = Some d \<and> d < length D"
proof (induction D n rule: digits_in.induct)
  case (1 D n)
  have l: "1 < length D" using 1(2) by (simp add: digit_set_def)
  show ?case
  proof (cases "n < length D")
    case True
    then have "c = D ! n" using 1(3) by (subst (asm) digits_in.simps) simp
    then show ?thesis using True 1(2) by (simp add: digit_set_def)
  next
    case False
    then have "c \<in> set (digits_in D (n div length D)) \<or> c = D ! (n mod length D)"
      using 1(3) l False digits_in.simps [of D n] by auto
    moreover have "n mod length D < length D" using mod_less_divisor [of "length D" n] l by linarith
    ultimately show ?thesis using 1(1,2) False l by (auto simp: digit_set_def)
  qed
qed

lemma digits_value: "digit_set D \<Longrightarrow> fst (base_digits (length D) (digits_in D n) 0) = n"
proof (induction D n rule: digits_in.induct)
  case (1 D n)
  have l: "1 < length D" using 1(2) by (simp add: digit_set_def)
  show ?case
  proof (cases "n < length D")
    case True
    then have "digits_in D n = [D ! n]" by (subst digits_in.simps) simp
    then show ?thesis using True 1(2) by (simp add: digit_set_def)
  next
    case False
    then have d: "digits_in D n = digits_in D (n div length D) @ [D ! (n mod length D)]" using l by (subst digits_in.simps) simp
    have m: "n mod length D < length D" using mod_less_divisor [of "length D" n] l by linarith
    have "base_digits (length D) (digits_in D (n div length D) @ [D ! (n mod length D)]) 0 =
        base_digits (length D) [D ! (n mod length D)] (fst (base_digits (length D) (digits_in D (n div length D)) 0))"
      by (rule base_digits_append) (rule digits_chars [OF 1(2)])
    then show ?thesis unfolding d
      using 1(1) [OF _ 1(2)] False l m 1(2) by (simp add: digit_set_def)
  qed
qed

lemma base_digits_end:
  "(\<And>c. c \<in> set ds \<Longrightarrow> \<exists>d. xdigit c = Some d \<and> d < b) \<Longrightarrow> base_digits b ds acc = (fst (base_digits b ds acc), [])"
proof (induction ds arbitrary: acc)
  case (Cons c ds)
  obtain d where "xdigit c = Some d" "d < b" using Cons.prems [of c] by auto
  then show ?case using Cons.IH [of "b * acc + d"] Cons.prems by simp
qed simp

lemma digits_nonempty: "digits_in D n \<noteq> []"
  by (subst digits_in.simps) simp

lemma base_digits_zeros: "0 < b \<Longrightarrow> base_digits b (replicate k CHR ''0'' @ ds) 0 = base_digits b ds 0"
  by (induction k) (simp_all add: xdigit_def code_def)

lemma fmt_X_digits: "digits HEX n = digits_in HEX n"
proof (induction HEX n rule: digits.induct)
  case (1 n)
  have l: "length HEX = 16" by (simp add: HEX_def)
  show ?case using 1 by (subst digits.simps, subst digits_in.simps) (simp add: l)
qed

lemma digit_sets: "digit_set HEX" "digit_set hex" "digit_set ''0123456789''" "digit_set ''01234567''"
  by (simp_all add: digit_set_def HEX_def hex_def xdigit_def code_def All_less_Suc nth_Cons')

text \<open>A text of digits and letters from the front is a literal.\<close>

lemma eval_literal:
  assumes "set e \<inter> set ''=!+-*/'' = {}" "e \<noteq> []" "isdigit (hd e)"
  shows "eval io env e = literal e"
proof -
  have h: "hd e \<noteq> CHR ''$''" "hd e \<noteq> CHR ''&''" "\<not> is_symbol e"
    using assms(3) by (auto simp: isdigit_def is_symbol_def isalpha_def Let_def)
  have n: "CHR ''='' \<notin> set e" "CHR ''!'' \<notin> set e" "CHR ''+'' \<notin> set e" "CHR ''-'' \<notin> set e" "CHR ''*'' \<notin> set e" "CHR 0x2f \<notin> set e"
    using assms(1) by auto
  show ?thesis unfolding eval.simps [of io env e]
    by (simp add: match_binary_None strchr_None fold_binary_None n h assms(2))
qed

lemma xdigit_chars: "xdigit c = Some d \<Longrightarrow> c \<notin> set ''=!+-*/'' \<and> \<not> isspace c"
  by (auto simp: xdigit_def code_def isspace_def Let_def)

lemma literal_digits:
  assumes "digit_set D" "length D = b" "b = 10 \<and> p = [] \<and> hd ds \<noteq> CHR ''0'' \<or> b = 8 \<and> p = [] \<and> hd ds = CHR ''0'' \<or> b = 16 \<and> p = ''0x''"
    and ds: "ds = replicate k CHR ''0'' @ digits_in D n" and n: "n < 2 ^ 64"
  shows "literal (p @ ds) f = Ret (of_nat n, f)"
proof -
  have b: "0 < b" using assms(3) by auto
  have chars: "\<exists>d. xdigit c = Some d \<and> d < b" if "c \<in> set ds" for c
  proof -
    have "xdigit CHR ''0'' = Some 0" by (simp add: xdigit_def code_def)
    then show ?thesis using that digits_chars [OF assms(1)] assms(2) b unfolding ds by auto
  qed
  have ne: "ds \<noteq> []" unfolding ds by (simp add: digits_nonempty)
  have "fst (base_digits b ds 0) = n"
    unfolding ds base_digits_zeros [OF b] using digits_value [OF assms(1)] assms(2) by simp
  then have v: "base_digits b ds 0 = (n, [])" using base_digits_end [of ds b 0, OF chars] by simp
  obtain d where hd: "xdigit (hd ds) = Some d" "d < b" using chars [of "hd ds"] ne by auto
  have plain: "\<not> isspace (hd ds)" "hd ds \<noteq> CHR ''+''" "hd ds \<noteq> CHR ''-''" using xdigit_chars [OF hd(1)] by auto
  show ?thesis
  proof (cases "p = []")
    case True
    have no_prefix: "ds ! 1 \<noteq> CHR ''x'' \<and> ds ! 1 \<noteq> CHR ''X''" if "3 \<le> length ds"
    proof -
      obtain d where "xdigit (ds ! 1) = Some d" using chars [of "ds ! 1"] \<open>3 \<le> length ds\<close> by auto
      then show ?thesis by (auto simp: xdigit_def code_def)
    qed
    have "dropWhile isspace ds = ds" using plain(1) ne by (cases ds) simp_all
    then have "strtoul 0 ds = (of_nat n, [])"
      using v plain ne no_prefix n assms(3) True by (auto simp: strtoul_def Let_def)
    then show ?thesis using ne True by (simp add: literal_def)
  next
    case False
    then have p: "p = ''0x''" "b = 16" using assms(3) by auto
    have "strtoul 0 (''0x'' @ ds) = (of_nat n, [])"
      using v ne n p hd by (cases ds) (auto simp: strtoul_def Let_def isspace_def)
    then show ?thesis using ne p by (simp add: literal_def)
  qed
qed

lemma digits_first: "digit_set D \<Longrightarrow> hd (digits_in D n) = D ! 0 \<longleftrightarrow> n = 0"
proof (induction D n rule: digits_in.induct)
  case (1 D n)
  have l: "1 < length D" using 1(2) by (simp add: digit_set_def)
  show ?case
  proof (cases "n < length D")
    case True
    then have "digits_in D n = [D ! n]" by (subst digits_in.simps) simp
    moreover have "D ! n = D ! 0 \<longleftrightarrow> n = 0" using True 1(2) unfolding digit_set_def by (metis l less_trans option.inject zero_less_one)
    ultimately show ?thesis by simp
  next
    case False
    then have "digits_in D n = digits_in D (n div length D) @ [D ! (n mod length D)]" using l by (subst digits_in.simps) simp
    moreover have "n div length D \<noteq> 0" using False l div_greater_zero_iff [of n "length D"] by linarith
    moreover have "n \<noteq> 0" using False l by linarith
    ultimately show ?thesis using 1(1) [OF _ 1(2)] False l by (simp add: digits_nonempty)
  qed
qed

lemma literal_digits_eval:
  assumes "digit_set D" "length D = b" "b = 10 \<and> p = [] \<and> hd ds \<noteq> CHR ''0'' \<or> b = 8 \<and> p = [] \<and> hd ds = CHR ''0'' \<or> b = 16 \<and> p = ''0x''"
    and "ds = replicate k CHR ''0'' @ digits_in D n" "n < 2 ^ 64"
  shows "eval io env (p @ ds) f s = Ret (of_nat n, f) s"
proof -
  have z: "xdigit CHR ''0'' = Some 0" by (simp add: xdigit_def code_def)
  have b: "0 < b" using assms(3) by auto
  have chars: "\<exists>d. xdigit c = Some d \<and> d < b" if "c \<in> set ds" for c
    using that digits_chars [OF assms(1)] assms(2) b z unfolding assms(4) by auto
  have ne: "ds \<noteq> []" unfolding assms(4) by (simp add: digits_nonempty)
  have "set ds \<inter> set ''=!+-*/'' = {}" using chars xdigit_chars by fastforce
  then have 1: "set (p @ ds) \<inter> set ''=!+-*/'' = {}" using assms(3) by auto
  obtain d where hd: "xdigit (hd ds) = Some d" "d < b" using chars [of "hd ds"] ne by auto
  have "isdigit (hd (p @ ds))"
  proof (cases "p = []")
    case True
    then have "d < 10" using hd(2) assms(3) by auto
    then have "isdigit (hd ds)" using hd(1) by (auto simp: isdigit_def xdigit_def code_def Let_def split: if_splits)
    then show ?thesis using True by simp
  next
    case False
    then have "p = ''0x''" using assms(3) by auto
    then show ?thesis by (simp add: isdigit_def)
  qed
  then have "eval io env (p @ ds) = literal (p @ ds)" using 1 ne by (intro eval_literal) simp_all
  then show ?thesis by (simp add: literal_digits [OF assms])
qed

text \<open>What the debugger prints can be typed back: a value shown in hexadecimal, octal or unsigned decimal is, as an
  expression, that value again (its low 32 bits, which are what is printed).\<close>

theorem print_reads_back:
  assumes "ty_char ty \<in> set ''Xxou''"
  shows "eval io env (format_value ty v) f s = Ret (ucast (ucast v :: u32), f) s"
proof -
  let ?n = "unat (ucast v :: u32)"
  have n: "?n < 2 ^ 64" by (rule order_less_le_trans [OF unsigned_less]) simp
  have val: "of_nat ?n = (ucast (ucast v :: u32) :: u64)" by (rule of_nat_unat)
  consider "ty_char ty = CHR ''X''" | "ty_char ty = CHR ''x''" | "ty_char ty = CHR ''o''" | "ty_char ty = CHR ''u''" using assms by auto
  then show ?thesis
  proof cases
    case 1
    have "format_value ty v = ''0x'' @ (replicate (unat (2 * ty_bytes ty) - length (digits_in HEX ?n)) CHR ''0'' @ digits_in HEX ?n)"
      by (simp add: format_value_def Let_def 1 fmt_X_def pad_left_def fmt_X_digits)
    then show ?thesis using literal_digits_eval [OF digit_sets(1), of 16 "''0x''" _ _ ?n] n val by (simp add: HEX_def)
  next
    case 2
    have "format_value ty v = ''0x'' @ (replicate (unat (2 * ty_bytes ty) - length (digits_in hex ?n)) CHR ''0'' @ digits_in hex ?n)"
      by (simp add: format_value_def Let_def 2 pad_left_def)
    then show ?thesis using literal_digits_eval [OF digit_sets(2), of 16 "''0x''" _ _ ?n] n val by (simp add: hex_def)
  next
    case 3
    have "format_value ty v = [] @ (replicate 1 CHR ''0'' @ digits_in ''01234567'' ?n)"
      by (simp add: format_value_def Let_def 3)
    then show ?thesis using literal_digits_eval [OF digit_sets(4), of 8 "[]" _ 1 ?n] n val by simp
  next
    case 4
    show ?thesis
    proof (cases "?n = 0")
      case True
      then have "format_value ty v = [] @ (replicate 1 CHR ''0'' @ [])"
        by (simp add: format_value_def Let_def 4 decimal_def digits_in.simps)
      moreover have "eval io env ''0'' f s = Ret (0, f) s"
        by (simp add: eval_literal isdigit_def) (simp add: literal_def strtoul_def isspace_def xdigit_def code_def)
      ultimately show ?thesis using True by (simp add: unat_eq_0)
    next
      case False
      have "format_value ty v = [] @ (replicate 0 CHR ''0'' @ digits_in ''0123456789'' ?n)"
        by (simp add: format_value_def Let_def 4 decimal_def)
      then show ?thesis using literal_digits_eval [OF digit_sets(3), of 10 "[]" _ 0 ?n] n val False digits_first [OF digit_sets(3), of ?n] by simp
    qed
  qed
qed

theorem print_reads_back_witness:
  "\<forall>io env s. eval io env (format_value \<lparr>ty_char = CHR ''x'', ty_bytes = 2\<rparr> 0x1ab) 0 s = Ret (0x1ab, 0) s"
proof (intro allI)
  fix io env s
  show "eval io env (format_value \<lparr>ty_char = CHR ''x'', ty_bytes = 2\<rparr> 0x1ab) 0 s = Ret (0x1ab, 0) s"
    using print_reads_back [of "\<lparr>ty_char = CHR ''x'', ty_bytes = 2\<rparr>" io env "0x1ab" 0 s] by simp
qed

theorem eval_matches_grammar_witness:
  "\<forall>io env s. eval io env ''10-3-2'' 0 s = Ret (9, 0) s"
proof (intro allI)
  fix io env s
  have lit: "eval io env ''10'' e s = Ret (10, e) s" "eval io env ''3'' e s = Ret (3, e) s" "eval io env ''2'' e s = Ret (2, e) s" for e
    by (simp_all add: eval_literal isdigit_def) (simp_all add: literal_def strtoul_def isspace_def xdigit_def code_def)
  let ?t = "Op Sub (Atom ''10'') (Op Sub (Atom ''3'') (Atom ''2''))"
  have "eval io env (arith_text ?t) 0 s = Ret (arith_value (\<lambda>a. if a = ''10'' then 10 else if a = ''3'' then 3 else 2) ?t, 0) s"
    by (rule eval_matches_grammar) (simp_all add: lit)
  then show "eval io env ''10-3-2'' 0 s = Ret (9, 0) s" by simp
qed

section \<open>Registers\<close>

text \<open>The automatic symbols are installed: each name leads to the address of its function, and no two functions share
  one.\<close>

definition auto_ready :: "eval_env \<Rightarrow> bool" where
  "auto_ready env \<longleftrightarrow> inj (fnptr env) \<and> (\<forall>(name, v) \<in> set virtual_names.
     sym_find auto_symtab name 0 (the_symbols env) = Ret (0, Some (fnptr env v)) (the_symbols env))"

lemma find_virtual:
  "auto_ready env \<Longrightarrow> (name, v) \<in> set virtual_names \<Longrightarrow> find_symbol env auto_symtab name s = Ret (Some (fnptr env v)) s"
  unfolding auto_ready_def by (fastforce simp: find_symbol_def bindE_def on_symbols_def)

lemma call_virtual_fnptr: "inj (fnptr env) \<Longrightarrow> call_virtual env (fnptr env v) f s = f v s"
  by (cases v) (simp_all add: call_virtual_def all_virtuals_def inj_eq)

lemma virtual_name_chars:
  "(name, v) \<in> set virtual_names \<Longrightarrow> set name \<inter> set ''$&:=!+-*/'' = {} \<and> name \<noteq> [] \<and> \<not> isdigit (hd name)"
  by (auto simp: virtual_names_def isdigit_def)

lemma eval_register:
  assumes "auto_ready env" "(name, v) \<in> set virtual_names"
  shows "eval io env (CHR ''$'' # name) f s = bindE (virtual_get v (fnptr env v)) (\<lambda>x. Ret (x, f)) s"
proof -
  have n: "CHR ''='' \<notin> set name" "CHR ''!'' \<notin> set name" "CHR ''+'' \<notin> set name" "CHR ''-'' \<notin> set name" "CHR ''*'' \<notin> set name"
    "CHR 0x2f \<notin> set name" "CHR ''$'' \<notin> set name" "name \<noteq> []" "\<not> isdigit (hd name)"
    using virtual_name_chars [OF assms(2)] by auto
  then have "hd name \<noteq> CHR ''$''" by (metis list.set_sel(1))
  then have h: "char_at (CHR ''$'' # name) 1 \<noteq> CHR ''$''" "\<not> isdigit (char_at (CHR ''$'' # name) 1)"
    using n by (simp_all add: char_at_def hd_conv_nth)
  have "eval io env (CHR ''$'' # name) f s = eval_dollar env (CHR ''$'' # name) f s"
    unfolding eval.simps [of io env "CHR ''$'' # name"] using n by (simp add: match_binary_None strchr_None fold_binary_None)
  then show ?thesis
    using h n(8) by (simp add: eval_dollar_def eval_virtual_def bindE_def find_virtual [OF assms] call_virtual_fnptr [OF assms(1) [unfolded auto_ready_def, THEN conjunct1]])
qed

lemma one_equal_sign:
  assumes "CHR ''='' \<notin> set l" "CHR ''='' \<notin> set r"
  shows "match_binary (l @ CHR ''='' # r) ''=='' = None"
proof (rule ccontr)
  assume "match_binary (l @ CHR ''='' # r) ''=='' \<noteq> None"
  then obtain a b where "l @ CHR ''='' # r = a @ ''=='' @ b" using match_binary_Some by fast
  then have "count_list (l @ CHR ''='' # r) CHR ''='' = count_list (a @ ''=='' @ b) CHR ''=''" by simp
  moreover have "count_list l CHR ''='' = 0" "count_list r CHR ''='' = 0" using assms by (simp_all add: count_list_0_iff)
  ultimately show False by simp
qed

lemma eval_assignment:
  assumes "CHR ''='' \<notin> set l" "CHR ''='' \<notin> set r" "CHR ''!'' \<notin> set l" "CHR ''!'' \<notin> set r"
  shows "eval io env (l @ CHR ''='' # r) f = bindE (eval io env r f) (eval_assign io env l (eval_mem io env l LVALUE))"
  unfolding eval.simps [of io env "l @ CHR ''='' # r"] using assms
  by (simp add: one_equal_sign match_binary_None strchr_first)

lemma eval_assign_register:
  assumes "auto_ready env" "(name, v) \<in> set virtual_names"
  shows "eval_assign io env (CHR ''$'' # name) m = (\<lambda>(val, g). bindE (virtual_set v val) (\<lambda>_. Ret (val, g)))"
proof (rule ext, clarify)
  fix val g
  have "inj (fnptr env)" using assms(1) by (simp add: auto_ready_def)
  then show "eval_assign io env (CHR ''$'' # name) m (val, g) = bindE (virtual_set v val) (\<lambda>_. Ret (val, g))"
    by (simp add: fun_eq_iff eval_assign_def assign_virtual_def bindE_def bindR_assoc find_virtual [OF assms] call_virtual_fnptr)
qed

lemma eval_register_assign:
  assumes "auto_ready env" "(name, v) \<in> set virtual_names" "CHR ''='' \<notin> set r" "CHR ''!'' \<notin> set r"
  shows "eval io env (CHR ''$'' # name @ CHR ''='' # r) f s =
    bindE (eval io env r f) (\<lambda>(val, g). bindE (virtual_set v val) (\<lambda>_. Ret (val, g))) s"
  using eval_assignment [of "CHR ''$'' # name" r io env f] assms virtual_name_chars [OF assms(2)]
  by (auto simp: eval_assign_register [OF assms(1,2)])

text \<open>What a register keeps of a value.\<close>

fun register_mask :: "virtual \<Rightarrow> u64" where
  "register_mask v = (if v \<in> {A_v, B_v, Dp_v, Cc_v} then 0xff else 0xffff)"

lemma kept_bits:
  "ucast (ucast (x :: u64) AND 0xff :: u32) = x AND 0xff" "ucast (ucast x AND 0xffff :: u32) = x AND 0xffff"
  "push_bit 8 (drop_bit 8 y) AND 0xff00 OR y AND 0xff = (y :: u32) AND 0xffff" "drop_bit 8 (push_bit 8 y) AND 0xff = y AND 0xff"
proof -
  have m: "(0xff :: u32) = mask 8" "(0xffff :: u32) = mask 16" "(0xff :: u64) = mask 8" "(0xffff :: u64) = mask 16"
    "(0xff00 :: u32) = push_bit 8 (mask 8)" by (simp_all add: mask_eq_exp_minus_1)
  show "ucast (ucast (x :: u64) AND 0xff :: u32) = x AND 0xff" "ucast (ucast x AND 0xffff :: u32) = x AND 0xffff"
    unfolding m take_bit_eq_mask [symmetric] by (rule bit_eqI; auto simp: bit_simps)+
  show "push_bit 8 (drop_bit 8 y) AND 0xff00 OR y AND 0xff = (y :: u32) AND 0xffff" "drop_bit 8 (push_bit 8 y) AND 0xff = y AND 0xff"
    unfolding m by (rule bit_eqI; auto simp: bit_simps)+
qed

text \<open>(C35) A register of the processor set by an assignment reads back as what it can hold of the value, the other
  parts of the machine keep their state, and \<^verbatim>\<open>command_init\<close> after \<^verbatim>\<open>sym_init\<close> installs the names for this.\<close>

theorem registers_read_back:
  assumes "auto_ready env" "(name, v) \<in> set (take 10 virtual_names)" "CHR ''='' \<notin> set rhs" "CHR ''!'' \<notin> set rhs"
    and "eval io env rhs f s = Ret (val, g) u"
  shows "\<exists>t. eval io env (CHR ''$'' # name @ CHR ''='' # rhs) f s = Ret (val, g) t
    \<and> eval io env (CHR ''$'' # name) h t = Ret (val AND register_mask v, h) t \<and> mch t = mch u"
proof -
  have v: "(name, v) \<in> set virtual_names" using assms(2) by (rule in_set_takeD)
  have "\<exists>t. virtual_set v val u = Ret () t \<and> virtual_get v p t = Ret (val AND register_mask v) t \<and> mch t = mch u" for p
    using assms(2)
    by (auto simp: virtual_names_def virtual_set_def virtual_get_def get_cc_set_cc set_pc_def get_pc_def set_x_def get_x_def set_y_def
        get_y_def set_u_def get_u_def set_s_def get_s_def set_d_def get_d_def set_a_def get_a_def set_b_def get_b_def set_dp_def get_dp_def
        kept_bits)
  then obtain t where "virtual_set v val u = Ret () t" "virtual_get v (fnptr env v) t = Ret (val AND register_mask v) t" "mch t = mch u"
    by blast
  then show ?thesis using assms(5)
    by (simp add: eval_register_assign [OF assms(1) v assms(3,4)] eval_register [OF assms(1) v] bindE_def del: register_mask.simps)
qed

lemma virtuals_installed:
  "\<exists>u. block [sym_init, install_virtuals fp] sym_power_on = Ret () u
    \<and> (\<forall>env. inj fp \<longrightarrow> fnptr env = fp \<longrightarrow> the_symbols env = u \<longrightarrow> auto_ready env)"
proof -
  let ?defs = "map (\<lambda>(name, v). (name, fp v)) virtual_names"
  have names: "\<forall>(name, v) \<in> set virtual_names. valid_name name \<and> map_of (rev ?defs) name = Some (fp v)"
    by (simp add: virtual_names_def valid_name_def NUL_def MAX_STRINGSPACE_def)
  have inst: "block (map (\<lambda>(name, v). bindE (sym_add auto_symtab name v SYM_AUTO) (\<lambda>_. Ret ())) ?defs) = install_virtuals fp"
    by (simp add: install_virtuals_def comp_def case_prod_unfold)
  have valid: "\<forall>(name, v) \<in> set ?defs. valid_name name" using names by auto
  have "\<exists>u. install_virtuals fp sym_start = Ret () u
      \<and> sym_find auto_symtab name 0 u = Ret (case map_of (rev ?defs) name of Some v \<Rightarrow> (0, Some v) | None \<Rightarrow> found 0 None) u"
    if "valid_name name" for name
    using symtab_map.find_after_adds [OF rep_start _ valid that, of auto_symtab SYM_AUTO] unfolding inst by simp
  moreover obtain u where u: "install_virtuals fp sym_start = Ret () u"
    using calculation [of "[]"] by (auto simp: valid_name_def MAX_STRINGSPACE_def)
  ultimately have "\<forall>(name, v) \<in> set virtual_names. sym_find auto_symtab name 0 u = Ret (0, Some (fp v)) u"
    using names by fastforce
  then show ?thesis using u by (auto simp: sym_init_start auto_ready_def)
qed

text \<open>A closed environment for the examples: the functions at addresses 0x1000, 0x1001, ...\<close>

primrec sample_address :: "virtual \<Rightarrow> u64" where
  "sample_address Pc_v = 0x1000" | "sample_address X_v = 0x1001" | "sample_address Y_v = 0x1002" | "sample_address U_v = 0x1003"
| "sample_address S_v = 0x1004" | "sample_address D_v = 0x1005" | "sample_address A_v = 0x1006" | "sample_address B_v = 0x1007"
| "sample_address Dp_v = 0x1008" | "sample_address Cc_v = 0x1009" | "sample_address Irq_load_v = 0x100a"
| "sample_address Cycles_v = 0x100b" | "sample_address Et_v = 0x100c"

lemma sample_inj: "inj sample_address"
proof (rule injI)
  fix v w :: virtual
  show "sample_address v = sample_address w \<Longrightarrow> v = w" by (cases v; cases w) simp_all
qed

definition sample_env :: eval_env where
  "sample_env = \<lparr>the_symbols = (case block [sym_init, install_virtuals sample_address] sym_power_on of Ret _ u \<Rightarrow> u | _ \<Rightarrow> sym_start),
     history_count = 0, historytab = replicate MAX_HISTORY 0, fnptr = sample_address, left_first = True\<rparr>"

lemma sample_ready: "auto_ready sample_env"
  using virtuals_installed [of sample_address] sample_inj by (auto simp: sample_env_def)

lemma eval_literals:
  "eval io env ''5'' f s = Ret (5, f) s" "eval io env ''0x12345'' f s = Ret (0x12345, f) s"
  by (simp_all add: eval_literal isdigit_def) (simp_all add: literal_def strtoul_def isspace_def xdigit_def code_def)

theorem registers_read_back_witness:
  "\<forall>io s. \<exists>t. eval io sample_env ''$x=0x12345'' 0 s = Ret (0x12345, 0) t \<and> eval io sample_env ''$x'' 0 t = Ret (0x2345, 0) t"
proof (intro allI)
  fix io s
  show "\<exists>t. eval io sample_env ''$x=0x12345'' 0 s = Ret (0x12345, 0) t \<and> eval io sample_env ''$x'' 0 t = Ret (0x2345, 0) t"
    using registers_read_back [OF sample_ready, of "''x''" X_v "''0x12345''" io 0 s "0x12345" 0 s 0] eval_literals(2) [of io sample_env 0 s]
    by (auto simp: virtual_names_def)
qed

section \<open>Conditions of breakpoints\<close>

lemma register_pure:
  assumes "auto_ready env" "(name, v) \<in> set (take 10 virtual_names)"
  shows "\<exists>x. \<forall>f. eval io env (CHR ''$'' # name) f s = Ret (x, f) s"
proof -
  obtain x where "virtual_get v (fnptr env v) s = Ret x s"
    using assms(2) by (auto simp: virtual_names_def virtual_get_def)
  then show ?thesis by (simp add: eval_register [OF assms(1) in_set_takeD [OF assms(2)]] bindE_def)
qed

lemma comparison_cut:
  assumes "CHR ''='' \<notin> set l"
  shows "match_binary (l @ CHR ''='' # CHR ''='' # r) ''=='' = Some (l, r)"
  using assms by (induction l) auto

lemma breakpoint_hit_condition:
  assumes "n < length (breaktab (mch s))" "br = breaktab (mch s) ! n" "br_conditional br" "\<not> br_threaded br"
    "br_ignore_count br = 0" "\<not> br_keep_running br"
    and "dbg_eval dbg (br_condition br) s = Ret v s"
  shows "\<exists>u. breakpoint_hit dbg n s = Ret () u \<and> (monitor_on u \<longleftrightarrow> monitor_on s \<or> v \<noteq> 0)
    \<and> breaktab (mch u) = (breaktab (mch s))[n := br\<lparr>br_condition := eval_rest (br_condition br)\<rparr>]"
  using assms by (simp add: breakpoint_hit_def bindE_def set_mch_def Let_def)

text \<open>(C37) A condition is destroyed by its first evaluation: a breakpoint on the comparison of a register with a number
  decides correctly once, and then holds only the left side, so that it stops whenever the register is not zero.\<close>

theorem breakpoint_condition_cut:
  assumes "auto_ready env" "(name, v) \<in> set (take 10 virtual_names)" "\<forall>f s. eval io env rhs f s = Ret (k, f) s"
    and "n < length (breaktab (mch s))" "br = breaktab (mch s) ! n" "br_conditional br" "\<not> br_threaded br"
    "br_ignore_count br = 0" "\<not> br_keep_running br" "br_condition br = CHR ''$'' # name @ ''=='' @ rhs"
  shows "\<exists>x u. eval io env (CHR ''$'' # name) 0 s = Ret (x, 0) s \<and> breakpoint_hit (eval_debugger io env mon) n s = Ret () u
    \<and> (monitor_on u \<longleftrightarrow> monitor_on s \<or> x = k)
    \<and> (\<forall>s'. breaktab (mch s') = breaktab (mch u) \<longrightarrow> \<not> monitor_on s' \<longrightarrow>
         (\<exists>y w. eval io env (CHR ''$'' # name) 0 s' = Ret (y, 0) s' \<and> breakpoint_hit (eval_debugger io env mon) n s' = Ret () w
           \<and> (monitor_on w \<longleftrightarrow> y \<noteq> 0)))"
proof -
  let ?l = "CHR ''$'' # name"
  let ?dbg = "eval_debugger io env mon"
  have chars: "CHR ''='' \<notin> set ?l" "CHR ''!'' \<notin> set ?l" "CHR ''+'' \<notin> set ?l" "CHR ''-'' \<notin> set ?l" "CHR ''*'' \<notin> set ?l" "CHR 0x2f \<notin> set ?l"
    using virtual_name_chars [OF in_set_takeD [OF assms(2)]] by auto
  have cond: "br_condition br = ?l @ CHR ''='' # CHR ''='' # rhs" using assms(10) by simp
  have rest: "eval_rest ?l = ?l"
    unfolding eval_rest.simps [of ?l] using chars by (simp add: match_binary_None strchr_None fold_binary_None is_symbol_def isalpha_def)
  have cut: "eval_rest (br_condition br) = ?l"
    unfolding cond eval_rest.simps [of "?l @ CHR ''='' # CHR ''='' # rhs"] comparison_cut [OF chars(1)] using rest by simp
  obtain x where x: "\<And>f. eval io env ?l f s = Ret (x, f) s" using register_pure [OF assms(1,2)] by blast
  have "eval io env (br_condition br) 0 s = Ret (of_bool64 (x = k), 0) s"
    unfolding cond eval.simps [of io env "?l @ CHR ''='' # CHR ''='' # rhs"] comparison_cut [OF chars(1)]
    using assms(3) x by (simp add: operands_def bindE_def)
  then have "dbg_eval ?dbg (br_condition br) s = Ret (of_bool64 (x = k)) s" by (simp add: eval_debugger_def bindE_def)
  from breakpoint_hit_condition [OF assms(4-9) this] obtain u where u: "breakpoint_hit ?dbg n s = Ret () u"
    "monitor_on u \<longleftrightarrow> monitor_on s \<or> x = k" "breaktab (mch u) = (breaktab (mch s))[n := br\<lparr>br_condition := ?l\<rparr>]"
    unfolding cut by (auto simp: of_bool64_def split: if_splits)
  have "\<exists>y w. eval io env ?l 0 s' = Ret (y, 0) s' \<and> breakpoint_hit ?dbg n s' = Ret () w \<and> (monitor_on w \<longleftrightarrow> y \<noteq> 0)"
    if tab: "breaktab (mch s') = breaktab (mch u)" and off: "\<not> monitor_on s'" for s'
  proof -
    obtain y where y: "eval io env ?l 0 s' = Ret (y, 0) s'" using register_pure [OF assms(1,2)] by blast
    have br': "breaktab (mch s') ! n = br\<lparr>br_condition := ?l\<rparr>" "n < length (breaktab (mch s'))" using tab u(3) assms(4) by simp_all
    have "dbg_eval ?dbg ?l s' = Ret y s'" using y by (simp add: eval_debugger_def bindE_def)
    then show ?thesis
      using breakpoint_hit_condition [OF br'(2) br'(1) [symmetric], of ?dbg y] assms(6-9) y off by auto
  qed
  then show ?thesis using x u(1,2) by blast
qed

definition stopping_machine :: "u32 \<Rightarrow> sys" where
  "stopping_machine a = (power_on machine_power_on)\<lparr>rA := a, cpu.more := machine_power_on\<lparr>breaktab := [(breaktab machine_power_on ! 0)\<lparr>
     br_used := True, br_enabled := True, br_conditional := True, br_on_execute := True, br_addr := 0x8000, br_condition := ''$a==5''\<rparr>]\<rparr>\<rparr>"

theorem breakpoint_condition_cut_witness:
  "\<forall>io mon. \<exists>x u. eval io sample_env ''$a'' 0 (stopping_machine 5) = Ret (x, 0) (stopping_machine 5)
    \<and> breakpoint_hit (eval_debugger io sample_env mon) 0 (stopping_machine 5) = Ret () u \<and> (monitor_on u \<longleftrightarrow> x = 5)"
proof (intro allI)
  fix io mon
  have "\<exists>x u. eval io sample_env ''$a'' 0 (stopping_machine 5) = Ret (x, 0) (stopping_machine 5)
      \<and> breakpoint_hit (eval_debugger io sample_env mon) 0 (stopping_machine 5) = Ret () u
      \<and> (monitor_on u \<longleftrightarrow> monitor_on (stopping_machine 5) \<or> x = 5)"
    using breakpoint_condition_cut [OF sample_ready, of "''a''" A_v io "''5''" 5 0 "stopping_machine 5" _ mon, OF _ _ _ refl] eval_literals(1) [of io sample_env]
    by (auto simp: virtual_names_def stopping_machine_def machine_power_on_def MAX_BREAKS_def)
  then show "\<exists>x u. eval io sample_env ''$a'' 0 (stopping_machine 5) = Ret (x, 0) (stopping_machine 5)
      \<and> breakpoint_hit (eval_debugger io sample_env mon) 0 (stopping_machine 5) = Ret () u \<and> (monitor_on u \<longleftrightarrow> x = 5)" by (simp add: stopping_machine_def power_on_def)
qed

section \<open>Memory\<close>

lemma find_symbol_read:
  "sym_find t name 0 (the_symbols env) = Ret (0, Some a) (the_symbols env) \<Longrightarrow> find_symbol env t name s = Ret (Some a) s"
  by (simp add: find_symbol_def bindE_def on_symbols_def)

lemma eval_symbol:
  assumes "is_symbol name" "set name \<inter> set '':=!+-*/'' = {}"
    and "sym_find program_symtab name 0 (the_symbols env) = Ret (0, Some a) (the_symbols env)"
  shows "eval_mem io env name mode f = deref mode (a, f)" "eval io env name f = deref RVALUE (a, f)"
proof -
  have n: "CHR '':'' \<notin> set name" "CHR ''='' \<notin> set name" "CHR ''!'' \<notin> set name" "CHR ''+'' \<notin> set name" "CHR ''-'' \<notin> set name"
    "CHR ''*'' \<notin> set name" "CHR 0x2f \<notin> set name" using assms(2) by auto
  have h: "name \<noteq> []" "hd name \<noteq> CHR ''$''" "hd name \<noteq> CHR ''&''" using assms(1) by (auto simp: is_symbol_def isalpha_def)
  show mem: "eval_mem io env name mode f = deref mode (a, f)" for mode
    unfolding eval_mem.simps [of io env name] using n assms(1)
    by (auto simp: strchr_None fun_eq_iff bindE_def symbol_address_def find_symbol_read [OF assms(3)])
  show "eval io env name f = deref RVALUE (a, f)"
    unfolding eval.simps [of io env name] using n h assms(1) mem [of RVALUE] by (simp add: match_binary_None strchr_None fold_binary_None)
qed

text \<open>A cell of a memory device at an absolute address.\<close>

definition ram_cell :: "sys \<Rightarrow> u64 \<Rightarrow> nat \<Rightarrow> nat \<Rightarrow> (nat \<Rightarrow> u8) \<Rightarrow> bool" where
  "ram_cell s a d off buf \<longleftrightarrow> unat a = d * 2 ^ 28 + off \<and> off < 2 ^ 28 \<and> d < 255 \<and> d < length (device_table (mch s))
    \<and> dev_priv (device_table (mch s) ! d) = Ram_dev buf \<and> off < dev_size (device_table (mch s) ! d)"

lemma ram_cell_address: "ram_cell s a d off buf \<Longrightarrow> unat a div 2 ^ 28 mod 2 ^ 32 = d \<and> unat a mod 2 ^ 28 = off \<and> d mod 256 = d"
  by (simp add: ram_cell_def)

lemma ram_cell_write:
  assumes "ram_cell s a d off buf"
  shows "abs_write8 io (unat a) v s = Ret () (set_priv d (Ram_dev (buf(off := v))) s)"
    "ram_cell (set_priv d (Ram_dev (buf(off := v))) s) a d off (buf(off := v))"
  using assms ram_cell_address [OF assms]
  by (simp_all add: abs_write8_def DEV_FUEL_def dev_of_def ram_write_def ram_cell_def set_priv_def set_mch_def del: fun_upd_apply)

lemma ucast_8_16_64: "ucast (ucast (x :: u8) :: u16) = (ucast x :: u64)"
  by (rule bit_eqI) (auto simp: bit_simps dest: bit_imp_le_length)

lemma ram_cell_read:
  assumes "ram_cell s a d off buf"
  shows "deref RVALUE (a, f) s = Ret (ucast (buf off), f) s"
  using assms ram_cell_address [OF assms]
  by (simp add: deref_def target_read_def abs_read8_def find_device_def DEV_FUEL_def dev_of_def ram_read_def ram_cell_def bindE_def
      INVALID_DEVID_def Let_def ucast_8_16_64)

lemma assignment_stores:
  assumes "is_symbol name" "set name \<inter> set '':=!+-*/'' = {}" "CHR ''='' \<notin> set rhs" "CHR ''!'' \<notin> set rhs"
    and "sym_find program_symtab name 0 (the_symbols env) = Ret (0, Some a) (the_symbols env)"
    and "eval io env rhs 0 s = Ret (val, 0) u" "ram_cell u a d off buf"
  shows "eval io env (name @ CHR ''='' # rhs) 0 s = Ret (val, 0) (set_priv d (Ram_dev (buf(off := ucast val))) u)"
proof -
  have n: "CHR ''='' \<notin> set name" "CHR ''!'' \<notin> set name" "name \<noteq> []" "hd name \<noteq> CHR ''$''"
    using assms(1,2) by (auto simp: is_symbol_def isalpha_def)
  show ?thesis
    using n assms(6) ram_cell_write(1) [OF assms(7)]
    by (simp add: eval_assignment assms(3,4) bindE_def eval_assign_def eval_symbol(1) [OF assms(1,2,5)] deref_def)
qed

text \<open>(C36) Memory set through a symbol reads back through it: an assignment to a name whose address is a cell of
  RAM stores the low byte of the value there and changes nothing else, and the name then evaluates to that byte.\<close>

theorem memory_reads_back:
  assumes "is_symbol name" "set name \<inter> set '':=!+-*/'' = {}" "CHR ''='' \<notin> set rhs" "CHR ''!'' \<notin> set rhs"
    and "sym_find program_symtab name 0 (the_symbols env) = Ret (0, Some a) (the_symbols env)"
    and "eval io env rhs 0 s = Ret (val, 0) u" "ram_cell u a d off buf"
  shows "\<exists>t. eval io env (name @ CHR ''='' # rhs) 0 s = Ret (val, 0) t \<and> t = set_priv d (Ram_dev (buf(off := ucast val))) u
    \<and> eval io env name f t = Ret (ucast (ucast val :: u8), f) t"
proof -
  let ?t = "set_priv d (Ram_dev (buf(off := ucast val))) u"
  have "eval io env name f ?t = Ret (ucast (ucast val :: u8), f) ?t"
    using ram_cell_read [OF ram_cell_write(2) [OF assms(7), of "ucast val"]] by (simp add: eval_symbol(2) [OF assms(1,2,5)])
  then show ?thesis using assignment_stores [OF assms] by blast
qed

definition one_symbol :: symstate where
  "one_symbol = (case block [sym_init, bindE (sym_add 0 ''var'' 0x10 0) (\<lambda>_. Ret ())] sym_power_on of Ret _ u \<Rightarrow> u | _ \<Rightarrow> sym_start)"

lemma one_symbol_find: "sym_find program_symtab ''var'' 0 one_symbol = Ret (0, Some 0x10) one_symbol"
  using symtab_map.find_after_adds [OF rep_start, of 0 "[(''var'', 0x10)]" "''var''" 0]
  by (auto simp: one_symbol_def sym_init_start valid_name_def NUL_def MAX_STRINGSPACE_def)

definition memory_machine :: sys where
  "memory_machine = power_on (machine_power_on\<lparr>device_table := [\<lparr>dev_size = 256, dev_priv = Ram_dev (\<lambda>_. 0)\<rparr>]\<rparr>)"

theorem memory_reads_back_witness:
  "\<forall>io. \<exists>t. eval io (sample_env\<lparr>the_symbols := one_symbol\<rparr>) ''var=0x12345'' 0 memory_machine = Ret (0x12345, 0) t
    \<and> eval io (sample_env\<lparr>the_symbols := one_symbol\<rparr>) ''var'' 0 t = Ret (0x45, 0) t"
proof (intro allI)
  fix io
  have "\<exists>t. eval io (sample_env\<lparr>the_symbols := one_symbol\<rparr>) (''var'' @ CHR ''='' # ''0x12345'') 0 memory_machine = Ret (0x12345, 0) t
      \<and> t = set_priv 0 (Ram_dev ((\<lambda>_. 0)(0x10 := ucast (0x12345 :: u64)))) memory_machine
      \<and> eval io (sample_env\<lparr>the_symbols := one_symbol\<rparr>) ''var'' 0 t = Ret (ucast (ucast (0x12345 :: u64) :: u8), 0) t"
    by (rule memory_reads_back [where a = "0x10"])
      (simp_all add: is_symbol_def isalpha_def one_symbol_find eval_literals ram_cell_def memory_machine_def power_on_def)
  then show "\<exists>t. eval io (sample_env\<lparr>the_symbols := one_symbol\<rparr>) ''var=0x12345'' 0 memory_machine = Ret (0x12345, 0) t
    \<and> eval io (sample_env\<lparr>the_symbols := one_symbol\<rparr>) ''var'' 0 t = Ret (0x45, 0) t" by auto
qed

section \<open>The breakpoint table\<close>

text \<open>The counter that lets the hooks skip the table is the number of enabled entries, and only entries in use are
  enabled.\<close>

definition breaks_good :: "breakpoint list \<Rightarrow> u32 \<Rightarrow> bool" where
  "breaks_good tab c \<longleftrightarrow> length tab = MAX_BREAKS \<and> c = of_nat (length (filter br_enabled tab))
    \<and> (\<forall>n < length tab. br_enabled (tab ! n) \<longrightarrow> br_used (tab ! n))"

definition breaks_ok :: "sys \<Rightarrow> bool" where
  "breaks_ok s \<longleftrightarrow> breaks_good (breaktab (mch s)) (active_break_count (mch s))"

lemma count_update:
  "n < length xs \<Longrightarrow> (of_nat (length (filter P (xs[n := x]))) :: u32) =
    of_nat (length (filter P xs)) + (if P x then 1 else 0) - (if P (xs ! n) then 1 else 0)"
proof (induction xs arbitrary: n)
  case (Cons y ys)
  then show ?case by (cases n) auto
qed simp

lemma breaks_good_update:
  assumes "breaks_good tab c" "n < MAX_BREAKS" "br_enabled br \<longrightarrow> br_used br"
    and "c' = c + (if br_enabled br then 1 else 0) - (if br_enabled (tab ! n) then 1 else 0)"
  shows "breaks_good (tab[n := br]) c'"
  using assms by (auto simp: breaks_good_def count_update nth_list_update)

lemma brkfree_tab:
  assumes "n < length (breaktab (mch s))"
  shows "breaktab (mch (brkfree n s)) = (breaktab (mch s))[n := (breaktab (mch s) ! n)\<lparr>br_enabled := False, br_used := False\<rparr>]"
    and "active_break_count (mch (brkfree n s)) = active_break_count (mch s) - (if br_enabled (breaktab (mch s) ! n) then 1 else 0)"
  using assms by (auto simp: brkfree_def brk_enable_def set_mch_def intro!: nth_equalityI simp: nth_list_update)

lemma brkfree_ok: "breaks_ok s \<Longrightarrow> n < MAX_BREAKS \<Longrightarrow> breaks_ok (brkfree n s)"
  unfolding breaks_ok_def using brkfree_tab [of n s] breaks_good_update [of "breaktab (mch s)" "active_break_count (mch s)" n]
  by (simp add: breaks_good_def)

lemma brkfree_temps_ok: "breaks_ok s \<Longrightarrow> breaks_ok (brkfree_temps s)"
proof -
  have "breaks_ok (foldl (\<lambda>s n. if br_used (breaktab (mch s) ! n) \<and> br_temp (breaktab (mch s) ! n) then brkfree n s else s) s ns)"
    if "breaks_ok s" "\<forall>n \<in> set ns. n < MAX_BREAKS" for s ns
    using that by (induction ns arbitrary: s) (simp_all add: brkfree_ok)
  then show "breaks_ok s \<Longrightarrow> breaks_ok (brkfree_temps s)"
    by (simp add: brkfree_temps_def breaks_ok_def breaks_good_def)
qed

lemma delete_all_ok: "breaks_ok s \<Longrightarrow> breaks_ok (foldl (\<lambda>s n. brkfree n s) s [0..<MAX_BREAKS])"
proof -
  have "breaks_ok (foldl (\<lambda>s n. brkfree n s) s ns)" if "breaks_ok s" "\<forall>n \<in> set ns. n < MAX_BREAKS" for s ns
    using that by (induction ns arbitrary: s) (simp_all add: brkfree_ok)
  then show "breaks_ok s \<Longrightarrow> breaks_ok (foldl (\<lambda>s n. brkfree n s) s [0..<MAX_BREAKS])" by simp
qed

lemma brkalloc_Some:
  assumes "brkalloc s = Some (n, t)" "breaks_ok s"
  shows "n < MAX_BREAKS \<and> \<not> br_used (breaktab (mch s) ! n) \<and> breaks_ok t
    \<and> active_break_count (mch t) = active_break_count (mch s) + 1
    \<and> breaktab (mch t) = (breaktab (mch s))[n := (breaktab (mch s) ! n)\<lparr>br_used := True, br_enabled := True, br_conditional := False,
        br_threaded := False, br_keep_running := False, br_ignore_count := 0, br_temp := False, br_on_execute := False\<rparr>]"
proof -
  let ?tab = "breaktab (mch s)"
  from assms(1) have n: "n < length ?tab" "\<not> br_used (?tab ! n)"
    by (auto simp: brkalloc_def find_Some_iff split: option.splits)
  then have e: "\<not> br_enabled (?tab ! n)" using assms(2) by (auto simp: breaks_ok_def breaks_good_def)
  then have tab: "breaktab (mch t) = ?tab[n := (?tab ! n)\<lparr>br_used := True, br_enabled := True, br_conditional := False,
      br_threaded := False, br_keep_running := False, br_ignore_count := 0, br_temp := False, br_on_execute := False\<rparr>]"
    "active_break_count (mch t) = active_break_count (mch s) + 1"
    using assms(1) n(1) by (auto simp: brkalloc_def brk_enable_def set_mch_def split: option.splits intro!: nth_equalityI simp: nth_list_update)
  have "n < MAX_BREAKS" using n(1) assms(2) by (simp add: breaks_ok_def breaks_good_def)
  then show ?thesis
    using breaks_good_update [of ?tab "active_break_count (mch s)" n _ "active_break_count (mch t)"] assms(2) n e tab
    by (simp add: breaks_ok_def)
qed

text \<open>Changes of the other fields of an entry.\<close>

lemma edit_breakpoint_ok:
  assumes "breaks_ok s" "\<And>br. br_enabled (f br) = br_enabled br \<and> br_used (f br) = br_used br"
  shows "breaks_ok (edit_breakpoint n f s)"
proof (cases "n < MAX_BREAKS")
  case True
  let ?br = "breaktab (mch s) ! n"
  have "br_enabled (f ?br) \<longrightarrow> br_used (f ?br)" using assms True by (simp add: breaks_ok_def breaks_good_def)
  then have "breaks_good ((breaktab (mch s))[n := f ?br]) (active_break_count (mch s))"
    using assms True by (intro breaks_good_update [of _ "active_break_count (mch s)"]) (simp_all add: breaks_ok_def)
  then show ?thesis by (simp add: breaks_ok_def edit_breakpoint_def set_mch_def)
next
  case False
  then show ?thesis using assms by (simp add: breaks_ok_def breaks_good_def edit_breakpoint_def set_mch_def list_update_beyond)
qed

definition same_table :: "sys \<Rightarrow> sys \<Rightarrow> bool" where
  "same_table s t \<longleftrightarrow> breaktab (mch t) = breaktab (mch s) \<and> active_break_count (mch t) = active_break_count (mch s)"

text \<open>Code that keeps the invariant.\<close>

definition table_safe :: "(sys, 'a) expr \<Rightarrow> bool" where
  "table_safe m \<longleftrightarrow> triple breaks_ok m (\<lambda>_. breaks_ok)"

lemma table_safeI: "(\<And>s v t. breaks_ok s \<Longrightarrow> m s = Ret v t \<Longrightarrow> breaks_ok t) \<Longrightarrow> table_safe m"
  by (simp add: table_safe_def triple_def)

lemma table_safeD: "table_safe m \<Longrightarrow> m s = Ret v t \<Longrightarrow> breaks_ok s \<Longrightarrow> breaks_ok t"
  unfolding table_safe_def by (rule tripleD)

lemma breaks_ok_same: "same_table s t \<Longrightarrow> breaks_ok s \<Longrightarrow> breaks_ok t"
  by (simp add: same_table_def breaks_ok_def)

lemma breakpoint_hit_ok:
  assumes "\<forall>e. table_safe (dbg_eval dbg e)" "breaks_ok s" "breakpoint_hit dbg n s = Ret () t"
  shows "breaks_ok t"
proof -
  let ?br = "breaktab (mch s) ! n"
  have tail: "breaks_ok t'"
    if "(if v = 0 then Ret () u
       else if br_ignore_count (breaktab (mch u) ! n) > 0 then
         Ret () (set_mch (\<lambda>m. m\<lparr>breaktab := (breaktab m)[n :=
           (breaktab m ! n)\<lparr>br_ignore_count := br_ignore_count (breaktab m ! n) - 1\<rparr>]\<rparr>) u)
       else Ret () (u\<lparr>monitor_on := \<not> br_keep_running (breaktab (mch u) ! n)\<rparr>)) = Ret () t'" "breaks_ok u" for v :: u64 and u t'
  proof -
    have "breaks_ok (edit_breakpoint n (\<lambda>br. br\<lparr>br_ignore_count := br_ignore_count br - 1\<rparr>) u)"
      using that(2) by (rule edit_breakpoint_ok) simp
    moreover have "breaks_ok (u\<lparr>monitor_on := \<not> br_keep_running (breaktab (mch u) ! n)\<rparr>)" using that(2) by (simp add: breaks_ok_def)
    ultimately show ?thesis using that by (auto simp: edit_breakpoint_def split: if_splits)
  qed
  show ?thesis
  proof (cases "br_threaded ?br \<and> thread_id (mch s) \<noteq> br_tid ?br")
    case True
    then show ?thesis using assms by (simp add: breakpoint_hit_def)
  next
    case False
    show ?thesis
    proof (cases "br_conditional ?br")
      case c: True
      obtain v u where u: "dbg_eval dbg (br_condition ?br) s = Ret v u"
        using assms(3) False c by (cases "dbg_eval dbg (br_condition ?br) s") (auto simp: breakpoint_hit_def bindE_def)
      have "breaks_ok u" by (rule table_safeD [OF assms(1) [rule_format] u assms(2)])
      then have "breaks_ok (edit_breakpoint n (\<lambda>br. br\<lparr>br_condition := eval_rest (br_condition ?br)\<rparr>) u)"
        by (rule edit_breakpoint_ok) simp
      then show ?thesis using tail [of v _ t] u assms(3) False c by (simp add: breakpoint_hit_def bindE_def Let_def edit_breakpoint_def)
    next
      case c: False
      then show ?thesis using tail [of 1 s t] assms(2,3) False by (simp add: breakpoint_hit_def bindE_def Let_def)
    qed
  qed
qed

lemma insn_hook_ok:
  assumes "\<forall>e. table_safe (dbg_eval dbg e)" "breaks_ok s" "command_insn_hook dbg s = Ret () t"
  shows "breaks_ok t"
proof -
  obtain u where u: "command_trace_insn (get_pc s) s = Ret () u" "active_break_count (mch u) = 0 \<longrightarrow> t = u" "same_table s u"
    using assms(3) by (auto simp: command_insn_hook_def Let_def command_trace_insn_def doif_def same_table_def set_mch_def split: if_splits)
  have ok: "breaks_ok u" using breaks_ok_same [OF u(3) assms(2)] .
  show ?thesis
  proof (cases "active_break_count (mch u) = 0")
    case True
    then show ?thesis using u(2) ok by simp
  next
    case False
    then obtain a v where a: "to_absolute (unat (get_pc s)) u = Ret a v"
      using assms(3) u(1) by (cases "to_absolute (unat (get_pc s)) u") (auto simp: command_insn_hook_def Let_def doif_def bindE_def)
    then have v: "v = u" by (auto simp: to_absolute_def bindE_def find_map_def Let_def split: if_splits)
    show ?thesis
    proof (cases "brkfind_by_addr a u")
      case None
      then show ?thesis using assms(3) u(1) False a v ok by (simp add: command_insn_hook_def Let_def doif_def bindE_def)
    next
      case (Some n)
      then have n: "n < MAX_BREAKS" using ok by (auto simp: brkfind_by_addr_def find_Some_iff breaks_ok_def breaks_good_def)
      show ?thesis
      proof (cases "br_enabled (breaktab (mch u) ! n) \<and> br_on_execute (breaktab (mch u) ! n)")
        case True
        then obtain w where w: "breakpoint_hit dbg n u = Ret () w" "t = w \<or> t = brkfree n w"
          using assms(3) u(1) False a v Some
          by (cases "breakpoint_hit dbg n u") (auto simp: command_insn_hook_def Let_def doif_def bindE_def assign_def split: if_splits)
        then show ?thesis using breakpoint_hit_ok [OF assms(1) ok w(1)] brkfree_ok [OF _ n] by auto
      next
        case False
        then show ?thesis using assms(3) u(1) \<open>active_break_count (mch u) \<noteq> 0\<close> a v Some ok
          by (auto simp: command_insn_hook_def Let_def doif_def bindE_def split: if_splits)
      qed
    qed
  qed
qed

lemma new_breakpoint_tab:
  assumes "new_breakpoint f c = Ret n c'" "breaks_ok (dsys c)" "\<And>br. br_enabled (f br) = br_enabled br \<and> br_used (f br) = br_used br"
  shows "breaks_ok (dsys c') \<and> n < MAX_BREAKS \<and> \<not> br_used (breaktab (mch (dsys c)) ! n)
    \<and> active_break_count (mch (dsys c')) = active_break_count (mch (dsys c)) + 1
    \<and> breaktab (mch (dsys c')) = (breaktab (mch (dsys c)))[n := f ((breaktab (mch (dsys c)) ! n)\<lparr>br_used := True, br_enabled := True,
        br_conditional := False, br_threaded := False, br_keep_running := False, br_ignore_count := 0, br_temp := False, br_on_execute := False\<rparr>)]"
proof -
  obtain t where t: "brkalloc (dsys c) = Some (n, t)" "c' = c\<lparr>dsys := edit_breakpoint n f t\<rparr>"
    using assms(1) by (auto simp: new_breakpoint_def split: option.splits)
  note a = brkalloc_Some [OF t(1) assms(2)]
  then have "n < length (breaktab (mch (dsys c)))" using assms(2) by (simp add: breaks_ok_def breaks_good_def)
  then show ?thesis using a edit_breakpoint_ok [of t f n] assms(3) by (simp add: t(2)) (simp add: edit_breakpoint_def set_mch_def)
qed

lemma hook_stops:
  assumes "breaks_ok (dsys c)" "\<forall>i < n. br_addr (breaktab (mch (dsys c)) ! i) \<noteq> a"
    and "new_breakpoint (\<lambda>br. br\<lparr>br_addr := a, br_on_execute := True, br_temp := tmp\<rparr>) c = Ret n c'"
    and "same_table (dsys c') s" "trace_offset (mch s) < length (trace_buffer (mch s))"
    and "\<forall>t. busmaps (mch t) = busmaps (mch s) \<longrightarrow> to_absolute (unat (get_pc s)) t = Ret a t"
  shows "\<exists>t. command_insn_hook dbg s = Ret () t \<and> monitor_on t \<and> breaks_ok t \<and> br_used (breaktab (mch t) ! n) = (\<not> tmp)"
proof -
  let ?new = "(breaktab (mch (dsys c)) ! n)\<lparr>br_used := True, br_enabled := True, br_conditional := False, br_threaded := False,
      br_keep_running := False, br_ignore_count := 0, br_addr := a, br_on_execute := True, br_temp := tmp\<rparr>"
  have new: "breaks_ok (dsys c')" "n < MAX_BREAKS" "active_break_count (mch (dsys c')) = active_break_count (mch (dsys c)) + 1"
    "breaktab (mch (dsys c')) = (breaktab (mch (dsys c)))[n := ?new]"
    using new_breakpoint_tab [OF assms(3,1)] by simp_all
  have len: "length (breaktab (mch (dsys c))) = MAX_BREAKS" using assms(1) by (simp add: breaks_ok_def breaks_good_def)
  obtain u where u: "command_trace_insn (get_pc s) s = Ret () u" "same_table s u" "busmaps (mch u) = busmaps (mch s)"
    using assms(5) by (auto simp: command_trace_insn_def same_table_def set_mch_def)
  have tab: "breaktab (mch u) = (breaktab (mch (dsys c)))[n := ?new]" "breaks_ok u"
    using u(2) assms(4) new breaks_ok_same [of s u] breaks_ok_same [of "dsys c'" s] by (simp_all add: same_table_def)
  have count: "active_break_count (mch u) \<noteq> 0"
  proof -
    let ?k = "length (filter br_enabled (breaktab (mch u)))"
    have "?k \<le> 32" using tab(2) unfolding breaks_ok_def breaks_good_def MAX_BREAKS_def
      by (metis length_filter_le)
    moreover have "breaktab (mch u) ! n \<in> set (filter br_enabled (breaktab (mch u)))"
      using tab(1) new(2) len by (simp add: set_update_memI)
    then have "0 < ?k" by (metis length_pos_if_in_set)
    ultimately have "(of_nat ?k :: u32) \<noteq> 0" by (simp add: word_of_nat_eq_0_iff nat_dvd_not_less)
    then show ?thesis using tab(2) by (simp add: breaks_ok_def breaks_good_def)
  qed
  have find: "brkfind_by_addr a u = Some n"
    unfolding brkfind_by_addr_def find_Some_iff using tab(1) new(2) len assms(2) by (auto intro!: exI [of _ n])
  have hit: "breakpoint_hit dbg n u = Ret () (u\<lparr>monitor_on := True\<rparr>)"
    using tab(1) new(2) len by (simp add: breakpoint_hit_def bindE_def Let_def)
  have "command_insn_hook dbg s = Ret () (if tmp then brkfree n (u\<lparr>monitor_on := True\<rparr>) else u\<lparr>monitor_on := True\<rparr>)"
    using u count find hit assms(6) tab(1) new(2) len
    by (simp add: command_insn_hook_def Let_def doif_def bindE_def assign_def)
  moreover have "breaks_ok (u\<lparr>monitor_on := True\<rparr>)" using tab(2) by (simp add: breaks_ok_def)
  moreover have "monitor_on (brkfree n (u\<lparr>monitor_on := True\<rparr>))" by (simp add: brkfree_def brk_enable_def set_mch_def)
  ultimately show ?thesis
    using brkfree_ok [of "u\<lparr>monitor_on := True\<rparr>" n] brkfree_tab(1) [of n "u\<lparr>monitor_on := True\<rparr>"] new(2) len tab(1) by auto
qed

text \<open>(C10) A breakpoint stops the program: after one is set on an address that no earlier entry of the table holds, the
  instruction hook at that address enters the debugger, whatever the program did to the rest of the machine, and a
  temporary breakpoint is free again afterwards.\<close>

theorem breakpoint_stops:
  assumes "breaks_ok (dsys c)" "\<forall>i < n. br_addr (breaktab (mch (dsys c)) ! i) \<noteq> a"
    and "new_breakpoint (\<lambda>br. br\<lparr>br_addr := a, br_on_execute := True, br_temp := tmp\<rparr>) c = Ret n c'"
    and "same_table (dsys c') s" "trace_offset (mch s) < length (trace_buffer (mch s))"
    and "\<forall>t. busmaps (mch t) = busmaps (mch s) \<longrightarrow> to_absolute (unat (get_pc s)) t = Ret a t"
  shows "\<exists>t. command_insn_hook dbg s = Ret () t \<and> monitor_on t \<and> breaks_ok t \<and> br_used (breaktab (mch t) ! n) = (\<not> tmp)"
  by (rule hook_stops [OF assms])

definition sample_console :: console where
  "sample_console = \<lparr>dsys = power_on machine_power_on, denv = sample_env, examine_addr = 0, examine_repeat = 1,
     examine_type = \<lparr>ty_char = CHR ''X'', ty_bytes = 1\<rparr>, print_type = \<lparr>ty_char = CHR ''X'', ty_bytes = 1\<rparr>,
     displaytab = replicate MAX_DISPLAYS \<lparr>ds_used = False, ds_type = \<lparr>ty_char = NUL, ty_bytes = 0\<rparr>, ds_expr = []\<rparr>,
     args = [], command_flags = [], exit_command_loop = 0, cpu_quit = 1, stop_after_ms = 0, dump_every_insn = False, os9call = False,
     tx_trace = False, default_port = None, lastpc = 0, lastaddr = 0, prev_buffer = [], cmd_file = None, cmd_stdin = [],
     files = (\<lambda>_. None), outp = []\<rparr>"

lemma sample_breaks_ok: "breaks_ok (dsys sample_console)"
  by (simp add: sample_console_def power_on_def breaks_ok_def breaks_good_def machine_power_on_def)

theorem breakpoint_stops_witness:
  "\<exists>c' t. new_breakpoint (\<lambda>br. br\<lparr>br_addr := 0, br_on_execute := True, br_temp := True\<rparr>) sample_console = Ret 0 c'
    \<and> command_insn_hook no_debugger (dsys c') = Ret () t \<and> monitor_on t"
proof -
  obtain c' where c': "new_breakpoint (\<lambda>br. br\<lparr>br_addr := 0, br_on_execute := True, br_temp := True\<rparr>) sample_console = Ret 0 c'"
    and pc: "rPC (dsys c') = 0" and rest: "busmaps (mch (dsys c')) = busmaps machine_power_on"
      "trace_offset (mch (dsys c')) < length (trace_buffer (mch (dsys c')))"
    by (simp add: new_breakpoint_def brkalloc_def sample_console_def power_on_def machine_power_on_def MAX_BREAKS_def MAX_TRACE_def
        find_Some_iff brk_enable_def set_mch_def edit_breakpoint_def upt_rec)
  have "to_absolute 0 t = Ret 0 t" if "busmaps (mch t) = busmaps machine_power_on" for t
    using that by (simp add: to_absolute_def bindE_def find_map_def machine_power_on_def bus_sizes absolute_from_reladdr_def)
  then show ?thesis
    using breakpoint_stops [OF sample_breaks_ok _ c', of "dsys c'" no_debugger] c' pc rest by (auto simp: same_table_def get_pc_def)
qed

end
