(* ===== verification/Cpu_Step.thy ===== *)
theory Cpu_Step
  imports Disasm_Laws
begin

text \<open>
  How far an instruction moves the program counter. Over a bus that returns the bytes of the code and leaves the
  processor alone, an instruction without a jump ends exactly as many bytes behind its start as the disassembler
  says it has. The locale \<open>step_bus\<close> is the contract of the bus; every case of the opcode switch is checked
  against the addressing mode in the tables of the disassembler.
\<close>

section \<open>Entries of the disassembler's tables\<close>

definition entry :: "u32 \<Rightarrow> opcode \<times> addr_mode" where "entry k = codes ! unat k"
definition entry10 :: "u32 \<Rightarrow> opcode \<times> addr_mode" where "entry10 k = codes10 ! unat k"
definition entry11 :: "u32 \<Rightarrow> opcode \<times> addr_mode" where "entry11 k = codes11 ! unat k"

text \<open>The instructions that neither set PC nor change the condition code register as a whole, which may let an
  interrupt in.\<close>

definition straight :: "opcode \<times> addr_mode \<Rightarrow> bool" where
  "straight e \<longleftrightarrow> snd e \<noteq> am_illegal \<and> snd e \<noteq> am_rel_byte \<and> snd e \<noteq> am_rel_word
     \<and> fst e \<notin> {op_jmp, op_jsr, op_rts, op_rti, op_swi, op_swi2, op_swi3, op_exg, op_tfr, op_puls, op_pulu, op_cwai, op_andcc, op_orcc, op_reset}"

lemma not_straight:
  "\<not> straight (op, am_rel_byte)" "\<not> straight (op, am_rel_word)" "\<not> straight (op_jmp, am)" "\<not> straight (op_jsr, am)"
  "\<not> straight (op_rts, am)" "\<not> straight (op_rti, am)" "\<not> straight (op_swi, am)" "\<not> straight (op_swi2, am)" "\<not> straight (op_swi3, am)"
  "\<not> straight (op_exg, am)" "\<not> straight (op_tfr, am)" "\<not> straight (op_puls, am)" "\<not> straight (op_pulu, am)" "\<not> straight (op_cwai, am)"
  "\<not> straight (op_andcc, am)" "\<not> straight (op_orcc, am)"
  by (simp_all add: straight_def)

lemma op_00_entries:
  "entry 0x00 = (op_neg, am_direct)" "entry 0x03 = (op_com, am_direct)" "entry 0x04 = (op_lsr, am_direct)"
  "entry 0x06 = (op_ror, am_direct)" "entry 0x07 = (op_asr, am_direct)" "entry 0x08 = (op_asl, am_direct)"
  "entry 0x09 = (op_rol, am_direct)" "entry 0x0a = (op_dec, am_direct)" "entry 0x0c = (op_inc, am_direct)"
  "entry 0x0d = (op_tst, am_direct)" "entry 0x0e = (op_jmp, am_direct)" "entry 0x0f = (op_clr, am_direct)"
  by (simp_all add: entry_def codes_def nth_append half_lengths codes_lo_def)

lemma op_10_entries:
  "entry 0x12 = (op_nop, am_implied)" "entry 0x13 = (op_sync, am_implied)" "entry 0x16 = (op_lbra, am_rel_word)"
  "entry 0x17 = (op_lbsr, am_rel_word)" "entry 0x19 = (op_daa, am_implied)" "entry 0x1a = (op_orcc, am_imm_byte)"
  "entry 0x1c = (op_andcc, am_imm_byte)" "entry 0x1d = (op_sex, am_implied)" "entry 0x1e = (op_exg, am_reg_post)"
  "entry 0x1f = (op_tfr, am_reg_post)"
  by (simp_all add: entry_def codes_def nth_append half_lengths codes_lo_def)

lemma op_20_entries:
  "entry 0x20 = (op_bra, am_rel_byte)" "entry 0x21 = (op_brn, am_rel_byte)" "entry 0x22 = (op_bhi, am_rel_byte)"
  "entry 0x23 = (op_bls, am_rel_byte)" "entry 0x24 = (op_bcc, am_rel_byte)" "entry 0x25 = (op_bcs, am_rel_byte)"
  "entry 0x26 = (op_bne, am_rel_byte)" "entry 0x27 = (op_beq, am_rel_byte)" "entry 0x28 = (op_bvc, am_rel_byte)"
  "entry 0x29 = (op_bvs, am_rel_byte)" "entry 0x2a = (op_bpl, am_rel_byte)" "entry 0x2b = (op_bmi, am_rel_byte)"
  "entry 0x2c = (op_bge, am_rel_byte)" "entry 0x2d = (op_blt, am_rel_byte)" "entry 0x2e = (op_bgt, am_rel_byte)"
  "entry 0x2f = (op_ble, am_rel_byte)"
  by (simp_all add: entry_def codes_def nth_append half_lengths codes_lo_def)

lemma op_30_entries:
  "entry 0x30 = (op_leax, am_indexed)" "entry 0x31 = (op_leay, am_indexed)" "entry 0x32 = (op_leas, am_indexed)"
  "entry 0x33 = (op_leau, am_indexed)" "entry 0x34 = (op_pshs, am_sys_post)" "entry 0x35 = (op_puls, am_sys_post)"
  "entry 0x36 = (op_pshu, am_usr_post)" "entry 0x37 = (op_pulu, am_usr_post)" "entry 0x39 = (op_rts, am_implied)"
  "entry 0x3a = (op_abx, am_implied)" "entry 0x3b = (op_rti, am_implied)" "entry 0x3c = (op_cwai, am_imm_byte)"
  "entry 0x3d = (op_mul, am_implied)" "entry 0x3f = (op_swi, am_implied)"
  by (simp_all add: entry_def codes_def nth_append half_lengths codes_lo_def)

lemma op_40_entries:
  "entry 0x40 = (op_nega, am_implied)" "entry 0x43 = (op_coma, am_implied)" "entry 0x44 = (op_lsra, am_implied)"
  "entry 0x46 = (op_rora, am_implied)" "entry 0x47 = (op_asra, am_implied)" "entry 0x48 = (op_asla, am_implied)"
  "entry 0x49 = (op_rola, am_implied)" "entry 0x4a = (op_deca, am_implied)" "entry 0x4c = (op_inca, am_implied)"
  "entry 0x4d = (op_tsta, am_implied)" "entry 0x4f = (op_clra, am_implied)"
  by (simp_all add: entry_def codes_def nth_append half_lengths codes_lo_def)

lemma op_50_entries:
  "entry 0x50 = (op_negb, am_implied)" "entry 0x53 = (op_comb, am_implied)" "entry 0x54 = (op_lsrb, am_implied)"
  "entry 0x56 = (op_rorb, am_implied)" "entry 0x57 = (op_asrb, am_implied)" "entry 0x58 = (op_aslb, am_implied)"
  "entry 0x59 = (op_rolb, am_implied)" "entry 0x5a = (op_decb, am_implied)" "entry 0x5c = (op_incb, am_implied)"
  "entry 0x5d = (op_tstb, am_implied)" "entry 0x5f = (op_clrb, am_implied)"
  by (simp_all add: entry_def codes_def nth_append half_lengths codes_lo_def)

lemma op_60_entries:
  "entry 0x60 = (op_neg, am_indexed)" "entry 0x63 = (op_com, am_indexed)" "entry 0x64 = (op_lsr, am_indexed)"
  "entry 0x66 = (op_ror, am_indexed)" "entry 0x67 = (op_asr, am_indexed)" "entry 0x68 = (op_asl, am_indexed)"
  "entry 0x69 = (op_rol, am_indexed)" "entry 0x6a = (op_dec, am_indexed)" "entry 0x6c = (op_inc, am_indexed)"
  "entry 0x6d = (op_tst, am_indexed)" "entry 0x6e = (op_jmp, am_indexed)" "entry 0x6f = (op_clr, am_indexed)"
  by (simp_all add: entry_def codes_def nth_append half_lengths codes_lo_def)

lemma op_70_entries:
  "entry 0x70 = (op_neg, am_extended)" "entry 0x73 = (op_com, am_extended)" "entry 0x74 = (op_lsr, am_extended)"
  "entry 0x76 = (op_ror, am_extended)" "entry 0x77 = (op_asr, am_extended)" "entry 0x78 = (op_asl, am_extended)"
  "entry 0x79 = (op_rol, am_extended)" "entry 0x7a = (op_dec, am_extended)" "entry 0x7c = (op_inc, am_extended)"
  "entry 0x7d = (op_tst, am_extended)" "entry 0x7e = (op_jmp, am_extended)" "entry 0x7f = (op_clr, am_extended)"
  by (simp_all add: entry_def codes_def nth_append half_lengths codes_lo_def)

lemma op_80_entries:
  "entry 0x80 = (op_suba, am_imm_byte)" "entry 0x81 = (op_cmpa, am_imm_byte)" "entry 0x82 = (op_sbca, am_imm_byte)"
  "entry 0x83 = (op_subd, am_imm_word)" "entry 0x84 = (op_anda, am_imm_byte)" "entry 0x85 = (op_bita, am_imm_byte)"
  "entry 0x86 = (op_lda, am_imm_byte)" "entry 0x88 = (op_eora, am_imm_byte)" "entry 0x89 = (op_adca, am_imm_byte)"
  "entry 0x8a = (op_ora, am_imm_byte)" "entry 0x8b = (op_adda, am_imm_byte)" "entry 0x8c = (op_cmpx, am_imm_word)"
  "entry 0x8d = (op_bsr, am_rel_byte)" "entry 0x8e = (op_ldx, am_imm_word)"
  by (simp_all add: entry_def codes_def nth_append half_lengths codes_hi_def)

lemma op_90_entries:
  "entry 0x90 = (op_suba, am_direct)" "entry 0x91 = (op_cmpa, am_direct)" "entry 0x92 = (op_sbca, am_direct)"
  "entry 0x93 = (op_subd, am_direct)" "entry 0x94 = (op_anda, am_direct)" "entry 0x95 = (op_bita, am_direct)"
  "entry 0x96 = (op_lda, am_direct)" "entry 0x97 = (op_sta, am_direct)" "entry 0x98 = (op_eora, am_direct)"
  "entry 0x99 = (op_adca, am_direct)" "entry 0x9a = (op_ora, am_direct)" "entry 0x9b = (op_adda, am_direct)"
  "entry 0x9c = (op_cmpx, am_direct)" "entry 0x9d = (op_jsr, am_direct)" "entry 0x9e = (op_ldx, am_direct)"
  "entry 0x9f = (op_stx, am_direct)"
  by (simp_all add: entry_def codes_def nth_append half_lengths codes_hi_def)

lemma op_a0_entries:
  "entry 0xa0 = (op_suba, am_indexed)" "entry 0xa1 = (op_cmpa, am_indexed)" "entry 0xa2 = (op_sbca, am_indexed)"
  "entry 0xa3 = (op_subd, am_indexed)" "entry 0xa4 = (op_anda, am_indexed)" "entry 0xa5 = (op_bita, am_indexed)"
  "entry 0xa6 = (op_lda, am_indexed)" "entry 0xa7 = (op_sta, am_indexed)" "entry 0xa8 = (op_eora, am_indexed)"
  "entry 0xa9 = (op_adca, am_indexed)" "entry 0xaa = (op_ora, am_indexed)" "entry 0xab = (op_adda, am_indexed)"
  "entry 0xac = (op_cmpx, am_indexed)" "entry 0xad = (op_jsr, am_indexed)" "entry 0xae = (op_ldx, am_indexed)"
  "entry 0xaf = (op_stx, am_indexed)"
  by (simp_all add: entry_def codes_def nth_append half_lengths codes_hi_def)

lemma op_b0_entries:
  "entry 0xb0 = (op_suba, am_extended)" "entry 0xb1 = (op_cmpa, am_extended)" "entry 0xb2 = (op_sbca, am_extended)"
  "entry 0xb3 = (op_subd, am_extended)" "entry 0xb4 = (op_anda, am_extended)" "entry 0xb5 = (op_bita, am_extended)"
  "entry 0xb6 = (op_lda, am_extended)" "entry 0xb7 = (op_sta, am_extended)" "entry 0xb8 = (op_eora, am_extended)"
  "entry 0xb9 = (op_adca, am_extended)" "entry 0xba = (op_ora, am_extended)" "entry 0xbb = (op_adda, am_extended)"
  "entry 0xbc = (op_cmpx, am_extended)" "entry 0xbd = (op_jsr, am_extended)" "entry 0xbe = (op_ldx, am_extended)"
  "entry 0xbf = (op_stx, am_extended)"
  by (simp_all add: entry_def codes_def nth_append half_lengths codes_hi_def)

lemma op_c0_entries:
  "entry 0xc0 = (op_subb, am_imm_byte)" "entry 0xc1 = (op_cmpb, am_imm_byte)" "entry 0xc2 = (op_sbcb, am_imm_byte)"
  "entry 0xc3 = (op_addd, am_imm_word)" "entry 0xc4 = (op_andb, am_imm_byte)" "entry 0xc5 = (op_bitb, am_imm_byte)"
  "entry 0xc6 = (op_ldb, am_imm_byte)" "entry 0xc8 = (op_eorb, am_imm_byte)" "entry 0xc9 = (op_adcb, am_imm_byte)"
  "entry 0xca = (op_orb, am_imm_byte)" "entry 0xcb = (op_addb, am_imm_byte)" "entry 0xcc = (op_ldd, am_imm_word)"
  "entry 0xce = (op_ldu, am_imm_word)"
  by (simp_all add: entry_def codes_def nth_append half_lengths codes_hi_def)

lemma op_d0_entries:
  "entry 0xd0 = (op_subb, am_direct)" "entry 0xd1 = (op_cmpb, am_direct)" "entry 0xd2 = (op_sbcb, am_direct)"
  "entry 0xd3 = (op_addd, am_direct)" "entry 0xd4 = (op_andb, am_direct)" "entry 0xd5 = (op_bitb, am_direct)"
  "entry 0xd6 = (op_ldb, am_direct)" "entry 0xd7 = (op_stb, am_direct)" "entry 0xd8 = (op_eorb, am_direct)"
  "entry 0xd9 = (op_adcb, am_direct)" "entry 0xda = (op_orb, am_direct)" "entry 0xdb = (op_addb, am_direct)"
  "entry 0xdc = (op_ldd, am_direct)" "entry 0xdd = (op_std, am_direct)" "entry 0xde = (op_ldu, am_direct)"
  "entry 0xdf = (op_stu, am_direct)"
  by (simp_all add: entry_def codes_def nth_append half_lengths codes_hi_def)

lemma op_e0_entries:
  "entry 0xe0 = (op_subb, am_indexed)" "entry 0xe1 = (op_cmpb, am_indexed)" "entry 0xe2 = (op_sbcb, am_indexed)"
  "entry 0xe3 = (op_addd, am_indexed)" "entry 0xe4 = (op_andb, am_indexed)" "entry 0xe5 = (op_bitb, am_indexed)"
  "entry 0xe6 = (op_ldb, am_indexed)" "entry 0xe7 = (op_stb, am_indexed)" "entry 0xe8 = (op_eorb, am_indexed)"
  "entry 0xe9 = (op_adcb, am_indexed)" "entry 0xea = (op_orb, am_indexed)" "entry 0xeb = (op_addb, am_indexed)"
  "entry 0xec = (op_ldd, am_indexed)" "entry 0xed = (op_std, am_indexed)" "entry 0xee = (op_ldu, am_indexed)"
  "entry 0xef = (op_stu, am_indexed)"
  by (simp_all add: entry_def codes_def nth_append half_lengths codes_hi_def)

lemma op_f0_entries:
  "entry 0xf0 = (op_subb, am_extended)" "entry 0xf1 = (op_cmpb, am_extended)" "entry 0xf2 = (op_sbcb, am_extended)"
  "entry 0xf3 = (op_addd, am_extended)" "entry 0xf4 = (op_andb, am_extended)" "entry 0xf5 = (op_bitb, am_extended)"
  "entry 0xf6 = (op_ldb, am_extended)" "entry 0xf7 = (op_stb, am_extended)" "entry 0xf8 = (op_eorb, am_extended)"
  "entry 0xf9 = (op_adcb, am_extended)" "entry 0xfa = (op_orb, am_extended)" "entry 0xfb = (op_addb, am_extended)"
  "entry 0xfc = (op_ldd, am_extended)" "entry 0xfd = (op_std, am_extended)" "entry 0xfe = (op_ldu, am_extended)"
  "entry 0xff = (op_stu, am_extended)"
  by (simp_all add: entry_def codes_def nth_append half_lengths codes_hi_def)

lemma page2_entries:
  "entry10 0x21 = (op_lbrn, am_rel_word)" "entry10 0x22 = (op_lbhi, am_rel_word)" "entry10 0x23 = (op_lbls, am_rel_word)"
  "entry10 0x24 = (op_lbcc, am_rel_word)" "entry10 0x25 = (op_lbcs, am_rel_word)" "entry10 0x26 = (op_lbne, am_rel_word)"
  "entry10 0x27 = (op_lbeq, am_rel_word)" "entry10 0x28 = (op_lbvc, am_rel_word)" "entry10 0x29 = (op_lbvs, am_rel_word)"
  "entry10 0x2a = (op_lbpl, am_rel_word)" "entry10 0x2b = (op_lbmi, am_rel_word)" "entry10 0x2c = (op_lbge, am_rel_word)"
  "entry10 0x2d = (op_lblt, am_rel_word)" "entry10 0x2e = (op_lbgt, am_rel_word)" "entry10 0x2f = (op_lble, am_rel_word)"
  "entry10 0x3f = (op_swi2, am_implied)" "entry10 0x83 = (op_cmpd, am_imm_word)" "entry10 0x8c = (op_cmpy, am_imm_word)"
  "entry10 0x8e = (op_ldy, am_imm_word)" "entry10 0x93 = (op_cmpd, am_direct)" "entry10 0x9c = (op_cmpy, am_direct)"
  "entry10 0x9e = (op_ldy, am_direct)" "entry10 0x9f = (op_sty, am_direct)" "entry10 0xa3 = (op_cmpd, am_indexed)"
  "entry10 0xac = (op_cmpy, am_indexed)" "entry10 0xae = (op_ldy, am_indexed)" "entry10 0xaf = (op_sty, am_indexed)"
  "entry10 0xb3 = (op_cmpd, am_extended)" "entry10 0xbc = (op_cmpy, am_extended)" "entry10 0xbe = (op_ldy, am_extended)"
  "entry10 0xbf = (op_sty, am_extended)" "entry10 0xce = (op_lds, am_imm_word)" "entry10 0xde = (op_lds, am_direct)"
  "entry10 0xdf = (op_sts, am_direct)" "entry10 0xee = (op_lds, am_indexed)" "entry10 0xef = (op_sts, am_indexed)"
  "entry10 0xfe = (op_lds, am_extended)" "entry10 0xff = (op_sts, am_extended)"
  by (simp_all add: entry10_def codes10_def nth_append half_lengths codes10_lo_def codes10_hi_def)

lemma page3_entries:
  "entry11 0x3f = (op_swi3, am_implied)" "entry11 0x83 = (op_cmpu, am_imm_word)" "entry11 0x8c = (op_cmps, am_imm_word)"
  "entry11 0x93 = (op_cmpu, am_direct)" "entry11 0x9c = (op_cmps, am_direct)" "entry11 0xa3 = (op_cmpu, am_indexed)"
  "entry11 0xac = (op_cmps, am_indexed)" "entry11 0xb3 = (op_cmpu, am_extended)" "entry11 0xbc = (op_cmps, am_extended)"
  by (simp_all add: entry11_def codes11_def nth_append half_lengths codes11_lo_def codes11_hi_def)


section \<open>Contract and rules\<close>

locale step_bus =
  fixes io :: "'x cpu_scheme iface" and ok :: "'x \<Rightarrow> bool" and peek :: "'x \<Rightarrow> u32 \<Rightarrow> u8"
  assumes read8_step: "ok (cpu.more s) \<Longrightarrow> read8 io a s = Ret v t \<Longrightarrow> t = s \<and> v = peek (cpu.more s) a"
    and read16_step: "ok (cpu.more s) \<Longrightarrow> read16 io a s = Ret w t \<Longrightarrow> t = s"
    and write8_step: "ok (cpu.more s) \<Longrightarrow> write8 io a b s = Ret () t \<Longrightarrow> ok (cpu.more t) \<and> rPC t = rPC s \<and> cc_changed t = cc_changed s"
begin

text \<open>The statement advances PC by what the byte at PC says; \<open>moves\<close> is the case of a fixed number, and \<open>still\<close>
  keeps the memory as well.\<close>

definition adv :: "nat \<Rightarrow> 'x cpu_scheme \<Rightarrow> 'x cpu_scheme \<Rightarrow> bool" where
  "adv k s t \<longleftrightarrow> ok (cpu.more t) \<and> rPC t = rPC s + of_nat k \<and> cc_changed t = cc_changed s"

definition same :: "'x cpu_scheme \<Rightarrow> 'x cpu_scheme \<Rightarrow> bool" where
  "same s t \<longleftrightarrow> cpu.more t = cpu.more s \<and> rPC t = rPC s \<and> cc_changed t = cc_changed s"

definition steps :: "(u8 \<Rightarrow> nat) \<Rightarrow> ('x cpu_scheme, 'a) expr \<Rightarrow> bool" where
  "steps f m \<longleftrightarrow> (\<forall>s x t. ok (cpu.more s) \<longrightarrow> m s = Ret x t \<longrightarrow> adv (f (peek (cpu.more s) (rPC s))) s t)"

definition moves :: "nat \<Rightarrow> ('x cpu_scheme, 'a) expr \<Rightarrow> bool" where
  "moves k m \<longleftrightarrow> steps (\<lambda>_. k) m"

definition still :: "('x cpu_scheme, 'a) expr \<Rightarrow> bool" where
  "still m \<longleftrightarrow> (\<forall>s x t. m s = Ret x t \<longrightarrow> same s t)"

lemma stepsI:
  assumes "\<And>s x t. ok (cpu.more s) \<Longrightarrow> m s = Ret x t \<Longrightarrow> adv (f (peek (cpu.more s) (rPC s))) s t"
  shows "steps f m"
  unfolding steps_def by (intro allI impI) (rule assms)

lemma stepsD: "steps f m \<Longrightarrow> ok (cpu.more s) \<Longrightarrow> m s = Ret x t \<Longrightarrow> adv (f (peek (cpu.more s) (rPC s))) s t"
  unfolding steps_def by blast

lemma movesI:
  assumes "\<And>s x t. ok (cpu.more s) \<Longrightarrow> m s = Ret x t \<Longrightarrow> adv k s t"
  shows "moves k m"
  unfolding moves_def by (rule stepsI) (rule assms)

lemma movesD: "moves k m \<Longrightarrow> ok (cpu.more s) \<Longrightarrow> m s = Ret x t \<Longrightarrow> adv k s t"
  unfolding moves_def by (rule stepsD)

lemma stillI:
  assumes "\<And>s x t. m s = Ret x t \<Longrightarrow> same s t"
  shows "still m"
  unfolding still_def by (intro allI impI) (rule assms)

lemma stillD: "still m \<Longrightarrow> m s = Ret x t \<Longrightarrow> same s t"
  unfolding still_def by blast

lemma adv_ok: "adv k s t \<Longrightarrow> ok (cpu.more t)"
  by (simp add: adv_def)

lemma adv_trans: "adv j s u \<Longrightarrow> adv 0 u t \<Longrightarrow> adv j s t" "adv 0 s u \<Longrightarrow> adv k u t \<Longrightarrow> adv k s t"
  by (simp_all add: adv_def)

lemma same_adv: "same s t \<Longrightarrow> ok (cpu.more s) \<Longrightarrow> adv 0 s t"
  by (simp add: adv_def same_def)

lemma still_moves:
  assumes "still m"
  shows "moves 0 m"
  by (rule movesI) (rule same_adv [OF stillD [OF assms]])

lemma moves_bindE:
  assumes "moves k e" "\<And>v. moves 0 (f v)"
  shows "moves k (bindE e f)"
proof (rule movesI, erule bindE_RetE)
  fix s x t v u assume s: "ok (cpu.more s)" "e s = Ret v u" "f v u = Ret x t"
  show "adv k s t" using adv_trans(1) [OF movesD [OF assms(1) s(1,2)]] movesD [OF assms(2) adv_ok s(3)] movesD [OF assms(1) s(1,2)] by blast
qed

lemma moves_bindE':
  assumes "moves 0 e" "\<And>v. moves k (f v)"
  shows "moves k (bindE e f)"
proof (rule movesI, erule bindE_RetE)
  fix s x t v u assume s: "ok (cpu.more s)" "e s = Ret v u" "f v u = Ret x t"
  show "adv k s t" using adv_trans(2) [OF movesD [OF assms(1) s(1,2)]] movesD [OF assms(2) adv_ok s(3)] movesD [OF assms(1) s(1,2)] by blast
qed

lemma steps_Cons:
  assumes "steps f m" "moves 0 (block ms)"
  shows "steps f (block (m # ms))"
proof (rule stepsI, erule block_ConsE)
  fix s x t u assume s: "ok (cpu.more s)" "m s = Ret () u" "block ms u = Ret x t"
  note a = stepsD [OF assms(1) s(1,2)]
  show "adv (f (peek (cpu.more s) (rPC s))) s t" by (rule adv_trans(1) [OF a movesD [OF assms(2) adv_ok [OF a] s(3)]])
qed

lemma steps_still:
  assumes "still m" "steps f (block ms)"
  shows "steps f (block (m # ms))"
proof (rule stepsI, erule block_ConsE)
  fix s x t u assume s: "ok (cpu.more s)" "m s = Ret () u" "block ms u = Ret x t"
  have u: "same s u" by (rule stillD [OF assms(1) s(2)])
  then have "ok (cpu.more u)" using s(1) by (simp add: same_def)
  from stepsD [OF assms(2) this s(3)] u show "adv (f (peek (cpu.more s) (rPC s))) s t" by (simp add: same_def adv_def)
qed

lemma moves_Nil: "moves 0 (block [])"
  by (rule movesI) (simp add: adv_def)

lemma moves_Cons: "moves k m \<Longrightarrow> moves 0 (block ms) \<Longrightarrow> moves k (block (m # ms))"
  unfolding moves_def by (rule steps_Cons) (simp_all add: moves_def)

lemma moves_steps: "moves k m \<Longrightarrow> (\<And>b. f b = k) \<Longrightarrow> steps f m"
  unfolding moves_def steps_def by simp

lemma moves_Ret: "moves 0 (Ret x)"
  by (rule movesI) (simp add: adv_def)

lemma moves_doif:
  assumes "moves 0 m"
  shows "moves 0 (doif b m)"
proof (rule movesI)
  fix s x t assume s: "ok (cpu.more s)" "doif b m s = Ret x t"
  show "adv 0 s t"
  proof (cases b)
    case True
    then have "m s = Ret x t" using s(2) by (simp add: doif_def)
    then show ?thesis by (rule movesD [OF assms s(1)])
  next
    case False
    then show ?thesis using s by (auto simp: doif_def adv_def)
  qed
qed

lemma moves_of_state:
  assumes "\<And>u. moves k (m u)"
  shows "moves k (\<lambda>s. m (f s) s)"
  by (rule movesI) (rule movesD [OF assms])

lemma moves_assign:
  assumes "\<And>s. same s (f s)"
  shows "moves 0 (assign f)"
proof (rule movesI)
  fix s x t assume "ok (cpu.more s)" "assign f s = Ret x t"
  then show "adv 0 s t" using same_adv [OF assms [of s]] unfolding assign_def by blast
qed

lemma still_clk: "still (clk n)"
  by (rule stillI) (auto simp: clk_def same_def)

lemma still_set_ea: "still (set_ea f)"
  by (rule stillI) (auto simp: set_ea_def same_def)

lemma still_step_index: "still (step_index r d)"
  by (rule stillI) (auto simp: step_index_def set_index_reg_def same_def)

lemma still_sim_error: "still sim_error"
  by (rule stillI) (auto simp: sim_error_def same_def split: if_splits)

lemmas moves_leaves = still_moves [OF still_clk] still_moves [OF still_set_ea] still_moves [OF still_step_index] still_moves [OF still_sim_error]

section \<open>Operands\<close>

lemma read_moves: "moves 0 (rd8 io a)" "moves 0 (rd16 io a)" "moves 0 (RDMEM io a)" "moves 0 (RDMEM16 io a)"
proof -
  have r8: "moves 0 (read8 io a)" for a
    by (rule movesI, frule (1) read8_step) (simp add: adv_def)
  have r16: "moves 0 (read16 io a)" for a
    by (rule movesI, frule (1) read16_step) (simp add: adv_def)
  show rd: "moves 0 (rd8 io a)" "moves 0 (rd16 io a)" "moves 0 (RDMEM io a)" for a
    unfolding RDMEM_def rd8_def rd16_def by (rule moves_bindE r8 r16 moves_Ret)+
  show "moves 0 (RDMEM16 io a)" unfolding RDMEM16_def by (rule moves_bindE rd moves_leaves moves_Ret)+
qed

lemma write_moves: "moves 0 (WRMEM io a v)" "moves 0 (WRMEM16 io a v)" "moves 0 (write_stack io a v)" "moves 0 (write_stack16 io a v)"
proof -
  show w: "moves 0 (WRMEM io a v)" "moves 0 (write_stack io a v)" for a v
    unfolding write_stack_def WRMEM_def by (rule movesI, use write8_step in \<open>fastforce simp: adv_def\<close>)+
  show "moves 0 (WRMEM16 io a v)" "moves 0 (write_stack16 io a v)"
    unfolding WRMEM16_def write_stack16_def by (rule moves_Cons moves_Nil w moves_leaves)+
qed

lemma operand_moves: "moves 0 (mem8 io)" "moves 0 (mem16 io)"
  unfolding mem8_def mem16_def by (rule moves_of_state, rule read_moves)+

text \<open>Fetching from PC.\<close>

lemma fetch_moves: "moves 1 (imm_byte io)" "moves 2 (imm_word io)" "moves 1 (direct io)" "moves 2 (extended io)"
proof -
  have a: "adv k s (u\<lparr>rPC := rPC u + of_nat k\<rparr>)" "adv k s (u\<lparr>ea := v, rPC := rPC u + of_nat k\<rparr>)" if "adv 0 s u" for k s u v
    using that by (simp_all add: adv_def)
  show "moves 1 (imm_byte io)"
  proof (rule movesI)
    fix s x t assume s: "ok (cpu.more s)" "imm_byte io s = Ret x t"
    then obtain u where "rd8 io (rPC s) s = Ret x u" "t = u\<lparr>rPC := rPC u + of_nat 1\<rparr>" by (auto simp: imm_byte_def elim!: bindE_RetE)
    then show "adv 1 s t" using a(1) movesD [OF read_moves(1) s(1)] by blast
  qed
  show "moves 2 (imm_word io)"
  proof (rule movesI)
    fix s x t assume s: "ok (cpu.more s)" "imm_word io s = Ret x t"
    then obtain u where "rd16 io (rPC s) s = Ret x u" "t = u\<lparr>rPC := rPC u + of_nat 2\<rparr>" by (auto simp: imm_word_def elim!: bindE_RetE)
    then show "adv 2 s t" using a(1) movesD [OF read_moves(2) s(1)] by blast
  qed
  show "moves 1 (direct io)"
  proof (rule movesI)
    fix s x t assume s: "ok (cpu.more s)" "direct io s = Ret x t"
    then obtain v u where "rd8 io (rPC s) s = Ret v u" "t = u\<lparr>ea := v OR rDP u, rPC := rPC u + of_nat 1\<rparr>"
      by (auto simp: direct_def assign_def elim!: bindE_RetE)
    then show "adv 1 s t" using a(2) movesD [OF read_moves(1) s(1)] by blast
  qed
  show "moves 2 (extended io)"
  proof (rule movesI)
    fix s x t assume s: "ok (cpu.more s)" "extended io s = Ret x t"
    then obtain v u where "rd16 io (rPC s) s = Ret v u" "t = u\<lparr>ea := v, rPC := rPC u + of_nat 2\<rparr>"
      by (auto simp: extended_def assign_def elim!: bindE_RetE)
    then show "adv 2 s t" using a(2) movesD [OF read_moves(2) s(1)] by blast
  qed
qed

lemma imm_byte_peek:
  assumes "ok (cpu.more s)" "imm_byte io s = Ret v t"
  shows "v = ucast (peek (cpu.more s) (rPC s))" "t = s\<lparr>rPC := rPC s + 1\<rparr>"
proof -
  obtain x u where x: "read8 io (rPC s) s = Ret x u" "v = ucast x" "t = u\<lparr>rPC := rPC u + 1\<rparr>"
    using assms(2) by (auto simp: imm_byte_def rd8_def elim!: bindE_RetE)
  then show "v = ucast (peek (cpu.more s) (rPC s))" "t = s\<lparr>rPC := rPC s + 1\<rparr>"
    using read8_step [OF assms(1) x(1)] by simp_all
qed

lemma steps_imm_byte:
  assumes "\<And>b. moves (f b) (g (ucast b))"
  shows "steps (\<lambda>b. 1 + f b) (bindE (imm_byte io) g)"
proof (rule stepsI, erule bindE_RetE)
  fix s x t v u assume s: "ok (cpu.more s)" "imm_byte io s = Ret v u" "g v u = Ret x t"
  note v = imm_byte_peek [OF s(1,2)]
  have "adv (f (peek (cpu.more s) (rPC s))) u t"
    by (rule movesD [OF assms [of "peek (cpu.more s) (rPC s)"]]) (use v s in simp_all)
  then show "adv (1 + f (peek (cpu.more s) (rPC s))) s t" using v(2) by (simp add: adv_def)
qed

text \<open>The postbyte decides how many bytes of offset follow.\<close>

definition offset_size :: "u32 \<Rightarrow> nat" where
  "offset_size k = (if k = 0x08 \<or> k = 0x0c \<or> k = 0x18 \<or> k = 0x1c then 1
     else if k = 0x09 \<or> k = 0x0d \<or> k = 0x19 \<or> k = 0x1d \<or> k = 0x1f then 2 else 0)"

lemma offset_sizes:
  "offset_size 0x00 = 0" "offset_size 0x01 = 0" "offset_size 0x02 = 0" "offset_size 0x03 = 0" "offset_size 0x04 = 0" "offset_size 0x05 = 0" "offset_size 0x06 = 0"
  "offset_size 0x08 = 1" "offset_size 0x09 = 2" "offset_size 0x0b = 0" "offset_size 0x0c = 1" "offset_size 0x0d = 2" "offset_size 0x11 = 0" "offset_size 0x13 = 0"
  "offset_size 0x14 = 0" "offset_size 0x15 = 0" "offset_size 0x16 = 0" "offset_size 0x18 = 1" "offset_size 0x19 = 2" "offset_size 0x1b = 0" "offset_size 0x1c = 1" "offset_size 0x1d = 2" "offset_size 0x1f = 2"
  by (simp_all add: offset_size_def)

lemma index_table_moves: "\<forall>p \<in> set (index_table io r). moves (offset_size (fst p)) (snd p)"
proof -
  have o: "moves 1 (index_offset8 io r)" "moves 2 (index_offset16 io r)" "moves 1 (bindE (imm_byte io) (\<lambda>v. set_ea (\<lambda>s. INT8 v)))"
    "moves 2 (bindE (imm_word io) (\<lambda>v. set_ea (\<lambda>s. v)))" for r
    unfolding index_offset8_def index_offset16_def by (rule moves_bindE [OF fetch_moves(1)] moves_bindE [OF fetch_moves(2)], rule moves_leaves)+
  have p: "moves 1 (index_pc8 io)" "moves 2 (index_pc16 io)"
    unfolding index_pc8_def index_pc16_def by (rule moves_Cons moves_Nil o moves_leaves)+
  have r: "moves 0 (\<lambda>s. bindE (RDMEM16 io (ea s)) (\<lambda>v. set_ea (\<lambda>s. v)) s)"
    by (rule moves_of_state, rule moves_bindE [OF read_moves(4)], rule moves_leaves)
  have i: "moves 0 (indirect io)"
    unfolding indirect_def by (rule moves_Cons moves_Nil moves_leaves r)+
  show ?thesis
    unfolding index_table_def list.set ball_simps fst_conv snd_conv offset_sizes
    by (intro conjI TrueI; (rule moves_Cons moves_Nil o p i moves_leaves)+)
qed

lemma offset_index_size:
  "index_size b = (if (ucast b :: u32) AND 0x80 \<noteq> 0 then offset_size ((ucast b :: u32) AND 0x1f) else 0)"
proof -
  have "(ucast b :: u32) AND ucast (k :: u8) = ucast (b AND k)" for k by (rule bit_eqI) (auto simp: bit_simps)
  from this [of "0x80"] this [of "0x1f"] have a: "(ucast b :: u32) AND 0x80 = ucast (b AND 0x80)" "(ucast b :: u32) AND 0x1f = ucast (b AND 0x1f)"
    by simp_all
  have u: "(ucast x :: u32) = ucast (y :: u8) \<longleftrightarrow> x = y" for x y :: u8 by (metis unat_ucast8 word_unat_eq_iff)
  from u [of _ "0"] u [of _ "0x08"] u [of _ "0x0c"] u [of _ "0x18"] u [of _ "0x1c"] u [of _ "0x09"] u [of _ "0x0d"] u [of _ "0x19"] u [of _ "0x1d"] u [of _ "0x1f"]
  have e: "(ucast x :: u32) = 0 \<longleftrightarrow> x = 0" "(ucast x :: u32) = 0x08 \<longleftrightarrow> x = 0x08" "(ucast x :: u32) = 0x0c \<longleftrightarrow> x = 0x0c"
    "(ucast x :: u32) = 0x18 \<longleftrightarrow> x = 0x18" "(ucast x :: u32) = 0x1c \<longleftrightarrow> x = 0x1c" "(ucast x :: u32) = 0x09 \<longleftrightarrow> x = 0x09"
    "(ucast x :: u32) = 0x0d \<longleftrightarrow> x = 0x0d" "(ucast x :: u32) = 0x19 \<longleftrightarrow> x = 0x19" "(ucast x :: u32) = 0x1d \<longleftrightarrow> x = 0x1d"
    "(ucast x :: u32) = 0x1f \<longleftrightarrow> x = 0x1f" for x :: u8 by simp_all
  show ?thesis unfolding a index_size_def offset_size_def Let_def e by (simp add: Let_def)
qed

lemma indexed_steps: "steps (\<lambda>b. 1 + index_size b) (indexed io)"
proof -
  have "moves (offset_size k) (switch (index_table io r) (block [set_ea (\<lambda>s. 0), sim_error]) k)" for r k
  proof (cases "map_of (index_table io r) k")
    case None
    then have "k \<notin> fst ` set (index_table io r)" by (simp add: map_of_eq_None_iff)
    then have "offset_size k = 0" by (auto simp: index_table_def offset_size_def)
    moreover have "moves 0 (block [set_ea (\<lambda>s. 0), sim_error])" by (rule moves_Cons moves_Nil moves_leaves)+
    ultimately show ?thesis using None by (simp add: switch_def)
  next
    case (Some m)
    then have "moves (offset_size k) m" using index_table_moves [of r] by (force dest: map_of_SomeD)
    then show ?thesis using Some by (simp add: switch_def)
  qed
  moreover have "moves 0 (block [set_ea f, clk 5])" for f by (rule moves_Cons moves_Nil moves_leaves)+
  ultimately show ?thesis
    unfolding indexed_def by (intro steps_imm_byte) (simp add: offset_index_size Let_def)
qed

section \<open>Operations\<close>

lemma same_alu:
  "same s (snd (adc a v s))" "same s (snd (add a v s))" "same s (snd (and8 a v s))" "same s (snd (eor a v s))"
  "same s (snd (or8 a v s))" "same s (snd (sbc a v s))" "same s (snd (sub8 a v s))" "same s (bit8 a v s)" "same s (cmp a v s)"
  "same s (snd (asl v s))" "same s (snd (asr v s))" "same s (snd (clr v s))" "same s (snd (com v s))"
  "same s (snd (dec v s))" "same s (snd (inc v s))" "same s (snd (lsr v s))" "same s (snd (neg v s))"
  "same s (snd (rol v s))" "same s (snd (ror v s))" "same s (snd (ld v s))" "same s (tst v s)"
  "same s (cmp16 b w s)" "same s (addd w s)" "same s (subd w s)" "same s (ldd w s)" "same s (snd (ld16 w s))"
  by (simp_all add: same_def adc_def add_def and8_def eor_def or8_def sbc_def sub8_def bit8_def cmp_def asl_def asr_def clr_def com_def
      dec_def inc_def lsr_def neg_def rol_def ror_def ld_def tst_def cmp16_def addd_def subd_def ldd_def ld16_def Let_def)

lemma same_update: "same s u \<Longrightarrow> same s (u\<lparr>rA := x\<rparr>)" "same s u \<Longrightarrow> same s (u\<lparr>rB := x\<rparr>)" "same s (s\<lparr>rX := x\<rparr>)" "same s (s\<lparr>rY := x\<rparr>)"
  "same s (s\<lparr>rS := x\<rparr>)" "same s (s\<lparr>rU := x\<rparr>)" "same s (s\<lparr>rX := x, fZ := y\<rparr>)" "same s (s\<lparr>rY := x, fZ := y\<rparr>)"
  "same s (s\<lparr>fN := x, fZ := y, fOV := z\<rparr>)" "same s (s\<lparr>fZ := x, fN := y, fOV := z\<rparr>)"
  by (simp_all add: same_def)

lemma still_implied: "still nop" "still daa" "still sex" "still abx" "still mul"
  by (rule stillI, auto simp: nop_def clk_def daa_def sex_def abx_def mul_def same_def Let_def)+

lemma moves_sync: "moves 0 sync"
  unfolding sync_def by (rule moves_Cons moves_Nil moves_leaves)+

lemma still_op1:
  assumes "\<And>v s. same s (snd (f v s))"
  shows "still (op1_A f)" "still (op1_B f)"
  using assms by (auto intro!: stillI same_update simp: op1_A_def op1_B_def split_beta Let_def)

lemma moves_op1:
  assumes "\<And>v s. same s (snd (f v s))"
  shows "moves 0 (op1_A f)" "moves 0 (op1_B f)"
  by (rule still_moves, rule still_op1, rule assms)+

lemma moves_op2:
  assumes "\<And>a v s. same s (snd (f a v s))" "moves k e"
  shows "moves k (op2_A f e)" "moves k (op2_B f e)"
  unfolding op2_A_def op2_B_def by (rule moves_bindE [OF assms(2)], rule moves_op1, rule assms(1))+

lemma moves_ld: assumes "moves k e" shows "moves k (ld_A e)" "moves k (ld_B e)"
  unfolding ld_A_def ld_B_def by (rule moves_bindE [OF assms], rule moves_op1, rule same_alu)+

lemma moves_cmp:
  assumes "\<And>a v s. same s (f a v s)" "moves k e"
  shows "moves k (cmp_A f e)" "moves k (cmp_B f e)"
  unfolding cmp_A_def cmp_B_def by (rule moves_bindE [OF assms(2)], rule moves_assign, rule assms(1))+

lemma moves_16:
  assumes "moves k e"
  shows "moves k (cmp_16 r e)" "(\<And>v s. same s (f v s)) \<Longrightarrow> moves k (op_D f e)"
  unfolding cmp_16_def op_D_def by (rule moves_bindE [OF assms], rule moves_assign, simp add: same_alu)+

lemma same_trans: "same s t \<Longrightarrow> same t u \<Longrightarrow> same s u"
  by (simp add: same_def)

lemma moves_ld_16:
  assumes "\<And>v s. same s (upd v s)" "moves k e"
  shows "moves k (ld_16 upd e)"
proof -
  have "still (\<lambda>s. let (r, t) = ld16 v s in Ret () (upd r t))" for v
    using assms(1) same_trans [OF same_alu(26) assms(1)] by (auto intro!: stillI simp: Let_def split_beta)
  then show ?thesis unfolding ld_16_def by (rule moves_bindE [OF assms(2) still_moves])
qed

lemma moves_store: "moves 0 (\<lambda>s. st io (f s) s)" "moves 0 (\<lambda>s. st16 io (f s) s)" "moves 0 (std io)"
proof -
  have w: "moves 0 (\<lambda>s. WRMEM io (ea s) v s)" "moves 0 (\<lambda>s. WRMEM16 io (ea s) v s)" for v
    by (rule moves_of_state, rule write_moves)+
  have "moves 0 (st io v)" "moves 0 (st16 io v)" for v
    unfolding st_def st16_def by (rule moves_Cons moves_Nil w moves_assign same_update)+
  note st = this
  show "moves 0 (\<lambda>s. st io (f s) s)" "moves 0 (\<lambda>s. st16 io (f s) s)" by (rule moves_of_state, rule st)+
  have "moves 0 (block [assign (\<lambda>s. s\<lparr>fZ := r, fN := rA s, fOV := 0\<rparr>), \<lambda>s. WRMEM16 io (ea s) r s])" for r
    by (rule moves_Cons moves_Nil w moves_assign same_update)+
  then show "moves 0 (std io)" unfolding std_def Let_def by (rule moves_of_state)
qed

lemma moves_rmw:
  assumes "\<And>v s. same s (snd (f v s))"
  shows "moves 0 (rmw io f)"
proof -
  have "moves 0 (\<lambda>s. let (r, t) = f v s in WRMEM io (ea t) r t)" for v
  proof (rule movesI)
    fix s x u assume s: "ok (cpu.more s)" "(let (r, t) = f v s in WRMEM io (ea t) r t) = Ret x u"
    have a: "adv 0 s (snd (f v s))" by (rule same_adv [OF assms s(1)])
    have "WRMEM io (ea (snd (f v s))) (fst (f v s)) (snd (f v s)) = Ret x u" using s(2) by (simp add: split_beta Let_def)
    from movesD [OF write_moves(1) adv_ok [OF a] this] show "adv 0 s u" by (rule adv_trans(1) [OF a])
  qed
  then show ?thesis unfolding rmw_def by (rule moves_bindE [OF operand_moves(1)])
qed

lemma moves_tst: "moves 0 (tst_mem io)"
  unfolding tst_mem_def by (rule moves_bindE [OF operand_moves(1)], rule moves_assign, rule same_alu)

lemma moves_push: "moves 0 (push_s8 io f)" "moves 0 (push_u8 io f)" "moves 0 (push_s16 io f)" "moves 0 (push_u16 io f)"
proof -
  have w: "moves 0 (\<lambda>s. write_stack io (g s) (f s) s)" "moves 0 (\<lambda>s. write_stack16 io (g s) (f s) s)" for g
    by (rule movesI, erule (1) movesD [OF write_moves(3)] movesD [OF write_moves(4)])+
  show "moves 0 (push_s8 io f)" "moves 0 (push_u8 io f)" "moves 0 (push_s16 io f)" "moves 0 (push_u16 io f)"
    unfolding push_s8_def push_u8_def push_s16_def push_u16_def by (rule moves_Cons moves_Nil w moves_assign same_update)+
qed

lemma moves_psh: "moves 1 (pshs io)" "moves 1 (pshu io)"
  unfolding pshs_def pshu_def
  by (rule moves_bindE [OF fetch_moves(1)], (rule moves_Cons moves_Nil moves_doif moves_push moves_leaves)+)+

section \<open>The opcode switch\<close>

text \<open>From the addressing mode of the disassembler to the number of bytes.\<close>

lemma steps_modes:
  "moves 0 m \<Longrightarrow> steps (operand_size am_implied) m" "moves 1 m \<Longrightarrow> steps (operand_size am_imm_byte) m"
  "moves 2 m \<Longrightarrow> steps (operand_size am_imm_word) m" "moves 1 m \<Longrightarrow> steps (operand_size am_direct) m"
  "moves 2 m \<Longrightarrow> steps (operand_size am_extended) m" "moves 1 m \<Longrightarrow> steps (operand_size am_sys_post) m"
  "moves 1 m \<Longrightarrow> steps (operand_size am_usr_post) m"
  by (erule moves_steps, simp)+

lemma steps_indexed:
  "moves 0 (block ms) \<Longrightarrow> steps (operand_size am_indexed) (block (indexed io # ms))"
  "steps (operand_size am_indexed) (block ms) \<Longrightarrow> steps (operand_size am_indexed) (block (clk n # ms))"
proof -
  have "operand_size am_indexed = (\<lambda>b. 1 + index_size b)" by (simp add: fun_eq_iff)
  then show "moves 0 (block ms) \<Longrightarrow> steps (operand_size am_indexed) (block (indexed io # ms))"
    using steps_Cons [OF indexed_steps] by simp
qed (rule steps_still [OF still_clk])

lemma moves_clk_Cons: "moves k (block ms) \<Longrightarrow> moves k (block (clk n # ms))"
  unfolding moves_def by (rule steps_still [OF still_clk])

lemma moves_registers:
  "moves 0 (assign (\<lambda>s. s\<lparr>rX := ea s, fZ := ea s\<rparr>))" "moves 0 (assign (\<lambda>s. s\<lparr>rY := ea s, fZ := ea s\<rparr>))"
  "moves 0 (assign (\<lambda>s. s\<lparr>rS := ea s\<rparr>))" "moves 0 (assign (\<lambda>s. s\<lparr>rU := ea s\<rparr>))"
  "moves 0 (assign (\<lambda>s. tst (rA s) s))" "moves 0 (assign (\<lambda>s. tst (rB s) s))"
  by (rule moves_assign, rule same_update same_alu)+

lemmas step_cases = steps_indexed steps_modes moves_clk_Cons moves_Cons moves_Nil fetch_moves operand_moves still_implied [THEN still_moves] moves_sync
  moves_op1 moves_op2 moves_ld moves_cmp moves_16 moves_ld_16 moves_store moves_rmw moves_tst moves_psh moves_registers moves_leaves
  same_alu same_update


lemma op_table_steps:
  "\<forall>p \<in> set (op_00_table io). straight (entry (fst p)) \<longrightarrow> steps (operand_size (snd (entry (fst p)))) (snd p)"
  "\<forall>p \<in> set (op_10_table io). straight (entry (fst p)) \<longrightarrow> steps (operand_size (snd (entry (fst p)))) (snd p)"
  "\<forall>p \<in> set (op_20_table io). straight (entry (fst p)) \<longrightarrow> steps (operand_size (snd (entry (fst p)))) (snd p)"
  "\<forall>p \<in> set (op_30_table io). straight (entry (fst p)) \<longrightarrow> steps (operand_size (snd (entry (fst p)))) (snd p)"
  "\<forall>p \<in> set (op_40_table io). straight (entry (fst p)) \<longrightarrow> steps (operand_size (snd (entry (fst p)))) (snd p)"
  "\<forall>p \<in> set (op_50_table io). straight (entry (fst p)) \<longrightarrow> steps (operand_size (snd (entry (fst p)))) (snd p)"
  "\<forall>p \<in> set (op_60_table io). straight (entry (fst p)) \<longrightarrow> steps (operand_size (snd (entry (fst p)))) (snd p)"
  "\<forall>p \<in> set (op_70_table io). straight (entry (fst p)) \<longrightarrow> steps (operand_size (snd (entry (fst p)))) (snd p)"
  "\<forall>p \<in> set (op_80_table io). straight (entry (fst p)) \<longrightarrow> steps (operand_size (snd (entry (fst p)))) (snd p)"
  "\<forall>p \<in> set (op_90_table io). straight (entry (fst p)) \<longrightarrow> steps (operand_size (snd (entry (fst p)))) (snd p)"
  "\<forall>p \<in> set (op_a0_table io). straight (entry (fst p)) \<longrightarrow> steps (operand_size (snd (entry (fst p)))) (snd p)"
  "\<forall>p \<in> set (op_b0_table io). straight (entry (fst p)) \<longrightarrow> steps (operand_size (snd (entry (fst p)))) (snd p)"
  "\<forall>p \<in> set (op_c0_table io). straight (entry (fst p)) \<longrightarrow> steps (operand_size (snd (entry (fst p)))) (snd p)"
  "\<forall>p \<in> set (op_d0_table io). straight (entry (fst p)) \<longrightarrow> steps (operand_size (snd (entry (fst p)))) (snd p)"
  "\<forall>p \<in> set (op_e0_table io). straight (entry (fst p)) \<longrightarrow> steps (operand_size (snd (entry (fst p)))) (snd p)"
  "\<forall>p \<in> set (op_f0_table io). straight (entry (fst p)) \<longrightarrow> steps (operand_size (snd (entry (fst p)))) (snd p)"
  unfolding op_00_table_def op_10_table_def op_20_table_def op_30_table_def op_40_table_def op_50_table_def op_60_table_def op_70_table_def op_80_table_def op_90_table_def op_a0_table_def op_b0_table_def op_c0_table_def op_d0_table_def op_e0_table_def op_f0_table_def
    list.set ball_simps fst_conv snd_conv op_00_entries op_10_entries op_20_entries op_30_entries op_40_entries op_50_entries op_60_entries op_70_entries op_80_entries op_90_entries op_a0_entries op_b0_entries op_c0_entries op_d0_entries op_e0_entries op_f0_entries
  by (intro conjI TrueI impI; ((erule not_straight [THEN notE]; fail) | (rule step_cases)+))+

lemma page_table_steps:
  "\<forall>p \<in> set (page2_20_table io @ page2_80_table io). straight (entry10 (fst p)) \<longrightarrow> steps (operand_size (snd (entry10 (fst p)))) (snd p)"
  "\<forall>p \<in> set (page3_table io). straight (entry11 (fst p)) \<longrightarrow> steps (operand_size (snd (entry11 (fst p)))) (snd p)"
  unfolding page2_20_table_def page2_80_table_def page3_table_def list.set append.simps ball_simps fst_conv snd_conv page2_entries page3_entries
  by (intro conjI TrueI impI; ((erule not_straight [THEN notE]; fail) | (rule step_cases)+))+

lemma table_steps: "\<forall>p \<in> set (opcode_table io). straight (entry (fst p)) \<longrightarrow> steps (operand_size (snd (entry (fst p)))) (snd p)"
proof -
  have "\<not> straight (entry 0x10)" "\<not> straight (entry 0x11)" by (simp_all add: straight_def entry_def codes_def nth_append half_lengths codes_lo_def)
  then show ?thesis unfolding opcode_table_def set_append list.set ball_Un ball_simps fst_conv by (intro conjI op_table_steps TrueI impI; blast)
qed

lemma switch_steps:
  assumes "\<forall>p \<in> set tab. straight (e (fst p)) \<longrightarrow> steps (operand_size (snd (e (fst p)))) (snd p)" "k \<in> fst ` set tab" "straight (e k)"
  shows "steps (operand_size (snd (e k))) (switch tab d k)"
proof -
  obtain m where m: "map_of tab k = Some m" using assms(2) by (cases "map_of tab k") (auto simp: map_of_eq_None_iff)
  then show ?thesis using map_of_SomeD [OF m] assms(1,3) by (fastforce simp: switch_def)
qed

lemma defined_opcodes:
  "straight (entry v) \<Longrightarrow> unat v < 256 \<Longrightarrow> v \<in> fst ` set (opcode_table io)"
  "straight (entry10 v) \<Longrightarrow> unat v < 256 \<Longrightarrow> v \<in> fst ` set (page2_20_table io @ page2_80_table io)"
  "straight (entry11 v) \<Longrightarrow> unat v < 256 \<Longrightarrow> v \<in> fst ` set (page3_table io)"
proof -
  note t = tables_agree [of io, THEN conjunct1] tables_agree [of io, THEN conjunct2, THEN conjunct1]
    tables_agree [of io, THEN conjunct2, THEN conjunct2, THEN conjunct2, THEN conjunct1]
    tables_agree [of io, THEN conjunct2, THEN conjunct2, THEN conjunct2, THEN conjunct2]
  have key: "v \<in> fst ` set tab" if h: "unat v \<in> set (map (\<lambda>p. unat (fst p)) tab)" for tab :: "(u32 \<times> 'z) list"
  proof -
    obtain p where p: "p \<in> set tab" "unat v = unat (fst p)" using h by auto
    then have "v = fst p" by (simp add: word_unat_eq_iff)
    then show ?thesis using p(1) by simp
  qed
  show "v \<in> fst ` set (opcode_table io)" if s: "straight (entry v)" "unat v < 256"
  proof (rule key)
    have "snd (codes ! unat v) \<noteq> am_illegal" "unat v \<noteq> 0x3e" using s(1) t(2) by (auto simp: straight_def entry_def)
    then have "unat v \<in> set (filter (\<lambda>n. snd (codes ! n) \<noteq> am_illegal \<and> n \<noteq> 0x3e) [0..<256])" using s(2) unfolding set_filter set_upt by simp
    then show "unat v \<in> set (map (\<lambda>p. unat (fst p)) (opcode_table io))" unfolding t(1) set_filter by blast
  qed
  show "v \<in> fst ` set (page2_20_table io @ page2_80_table io)" if s: "straight (entry10 v)" "unat v < 256"
  proof (rule key)
    have "unat v \<in> set (filter (\<lambda>n. snd (codes10 ! n) \<noteq> am_illegal) [0..<256])"
      using s unfolding set_filter set_upt by (simp add: straight_def entry10_def)
    then show "unat v \<in> set (map (\<lambda>p. unat (fst p)) (page2_20_table io @ page2_80_table io))" unfolding t(3) .
  qed
  show "v \<in> fst ` set (page3_table io)" if s: "straight (entry11 v)" "unat v < 256"
  proof (rule key)
    have "unat v \<in> set (filter (\<lambda>n. snd (codes11 ! n) \<noteq> am_illegal) [0..<256])"
      using s unfolding set_filter set_upt by (simp add: straight_def entry11_def)
    then show "unat v \<in> set (map (\<lambda>p. unat (fst p)) (page3_table io))" unfolding t(4) .
  qed
qed

section \<open>One instruction\<close>

text \<open>Over the bus, the processor advances PC by the size that the disassembler computes from the bytes.\<close>

lemma unat_ucast_byte: "unat (ucast (x :: u8) :: u32) = unat x" "unat (ucast (x :: u8) :: u32) < 256"
  using unat_ucast8 [of x] unat_u8 [of x] by simp_all

lemma map_of_pages: "map_of (opcode_table io) 0x10 = Some (page2 io)" "map_of (opcode_table io) 0x11 = Some (page3 io)"
  by (simp_all add: opcode_table_def opcode_tables)

lemma page_exec:
  assumes "ok (cpu.more s)" "\<forall>i < 3. peek (cpu.more s) (rPC s + of_nat i) = b i" "straight (insn_entry b)"
    and "switch (opcode_table io) invalid_opcode (ucast (b 0)) (s\<lparr>rPC := rPC s + 1\<rparr>) = Ret () t"
  shows "adv (insn_size b) s t"
proof -
  have p: "peek (cpu.more s) (rPC s + 1) = b 1" "peek (cpu.more s) (rPC s + 2) = b 2"
    using assms(2) [rule_format, of 1] assms(2) [rule_format, of 2] by simp_all
  let ?u = "s\<lparr>rPC := rPC s + 1\<rparr>"
  let ?w = "s\<lparr>rPC := rPC s + 2\<rparr>"
  note ok = assms(1)
  have page: "adv (2 + operand_size (snd (e (ucast (b 1)))) (b 2)) s t"
    if h: "bindE (imm_byte io) (switch tab sim_error) ?u = Ret () t"
      "\<forall>p \<in> set tab. straight (e (fst p)) \<longrightarrow> steps (operand_size (snd (e (fst p)))) (snd p)"
      "ucast (b 1) \<in> fst ` set tab" "straight (e (ucast (b 1)))" for e tab
  proof -
    obtain v w where v: "imm_byte io ?u = Ret v w" "switch tab sim_error v w = Ret () t" using h(1) by (rule bindE_RetE)
    from imm_byte_peek [OF _ v(1)] ok p(1) have "v = ucast (b 1)" "w = ?w" by simp_all
    with v(2) have x: "switch tab sim_error (ucast (b 1)) ?w = Ret () t" by simp
    from stepsD [OF switch_steps [OF h(2-4)] _ x] ok p(2) show ?thesis by (simp add: adv_def)
  qed
  show ?thesis
  proof (cases "b 0 = 0x10 \<or> b 0 = 0x11")
    case False
    then have n: "(ucast (b 0) :: u32) \<noteq> 0x10" "(ucast (b 0) :: u32) \<noteq> 0x11"
      using unat_ucast_byte(1) [of "b 0"] by (auto simp: word_unat_eq_iff)
    have e: "entry (ucast (b 0)) = insn_entry b" using False by (simp add: entry_def insn_entry_def unat_ucast_byte)
    have "steps (operand_size (snd (entry (ucast (b 0))))) (switch (opcode_table io) invalid_opcode (ucast (b 0)))"
      by (rule switch_steps [OF table_steps defined_opcodes(1)]) (simp_all add: e assms(3) unat_ucast_byte unat_u8)
    from stepsD [OF this _ assms(4)] ok p(1) False show ?thesis by (simp add: adv_def insn_size_def prefix_size_def e)
  next
    case True
    then consider "b 0 = 0x10" | "b 0 = 0x11" by blast
    then show ?thesis
    proof cases
      case 1
      then have x: "bindE (imm_byte io) (switch (page2_20_table io @ page2_80_table io) sim_error) ?u = Ret () t"
        using assms(4) by (simp add: switch_def map_of_pages page2_def)
      have e: "entry10 (ucast (b 1)) = insn_entry b" using 1 by (simp add: entry10_def insn_entry_def unat_ucast_byte)
      have d: "straight (entry10 (ucast (b 1)))" using assms(3) by (simp only: e)
      show ?thesis using page [OF x page_table_steps(1) defined_opcodes(2) [OF d unat_ucast_byte(2)] d] 1
        unfolding e insn_size_def prefix_size_def by simp
    next
      case 2
      then have x: "bindE (imm_byte io) (switch (page3_table io) sim_error) ?u = Ret () t"
        using assms(4) by (simp add: switch_def map_of_pages page3_def)
      have e: "entry11 (ucast (b 1)) = insn_entry b" using 2 by (simp add: entry11_def insn_entry_def unat_ucast_byte)
      have d: "straight (entry11 (ucast (b 1)))" using assms(3) by (simp only: e)
      show ?thesis using page [OF x page_table_steps(2) defined_opcodes(3) [OF d unat_ucast_byte(2)] d] 2
        unfolding e insn_size_def prefix_size_def by simp
    qed
  qed
qed

lemma exec_size:
  assumes "ok (cpu.more s)" "\<not> cc_changed s" "\<forall>i < 3. peek (cpu.more s) (rPC s + of_nat i) = b i" "straight (insn_entry b)"
    and "exec_insn io s = Ret () t"
  shows "ok (cpu.more t) \<and> rPC t = rPC s + of_nat (insn_size b) \<and> \<not> cc_changed t"
proof -
  let ?s = "s\<lparr>iPC := rPC s\<rparr>"
  obtain v u w where x: "imm_byte io ?s = Ret v u" "switch (opcode_table io) invalid_opcode v u = Ret () w" "doif (cc_changed w) (cc_modified io) w = Ret () t"
    using assms(5) unfolding exec_insn_def by (fastforce elim!: block_ConsE bindE_RetE simp: assign_def)
  have p0: "peek (cpu.more s) (rPC s) = b 0" using assms(3) [rule_format, of 0] by simp
  from imm_byte_peek [OF _ x(1)] assms(1) p0 have "v = ucast (b 0)" "u = ?s\<lparr>rPC := rPC s + 1\<rparr>" by simp_all
  then have "adv (insn_size b) ?s w" using page_exec [of ?s b w] x(2) assms(1,3,4) by simp
  then have w: "ok (cpu.more w)" "rPC w = rPC s + of_nat (insn_size b)" "\<not> cc_changed w" using assms(2) by (simp_all add: adv_def)
  then show ?thesis using x(3) by (auto simp: doif_def)
qed

end

section \<open>The bus of a machine of plain memory\<close>

definition same_debug :: "machine_state \<Rightarrow> machine_state \<Rightarrow> bool" where
  "same_debug m0 m \<longleftrightarrow> breaktab m = breaktab m0 \<and> active_break_count m = active_break_count m0
     \<and> trace_offset m = trace_offset m0 \<and> trace_buffer m = trace_buffer m0"

lemma find_map_half: "ram_machine dv (mch s) \<Longrightarrow> find_map a s = Ret v t \<Longrightarrow> half a"
  by (auto simp: find_map_def ram_machine_def linear_maps_def bus_sizes half_def Let_def split: if_splits)

lemma ram_accesses:
  assumes "ram_machine dv (mch s)"
  shows "cpu_read8 dbg a s = Ret v t \<Longrightarrow> t = s \<and> v = ram_mem dv (mch s) (unat a)"
    "cpu_read16 dbg a s = Ret w t \<Longrightarrow> t = s"
    "cpu_write8 dbg io a b s = Ret () t \<Longrightarrow> t = s\<lparr>cpu.more := ram_put dv (unat a) b (mch s)\<rparr>"
proof -
  have h: "half a" if "bindE (find_map a) f s = Ret y u" for f :: "busmap \<Rightarrow> (sys, 'z) expr" and y u
    using that by (elim bindE_RetE) (rule find_map_half [OF assms])
  show "t = s \<and> v = ram_mem dv (mch s) (unat a)" if x: "cpu_read8 dbg a s = Ret v t"
    using x cpu_read8_ram [OF assms h [OF x [unfolded cpu_read8_def]], of dbg] by auto
  show "t = s\<lparr>cpu.more := ram_put dv (unat a) b (mch s)\<rparr>" if x: "cpu_write8 dbg io a b s = Ret () t"
    using x cpu_write8_ram [OF assms h [OF x [unfolded cpu_write8_def]], of dbg io b] by simp
  have d: "u = s" if "dev_read DEV_FUEL dv i s = Ret y u" for i y u
    using that assms by (auto simp: DEV_FUEL_def dev_of_ram ram_read_def split: if_splits)
  show "t = s" if x: "cpu_read16 dbg a s = Ret w t"
  proof -
    note ha = h [OF x [unfolded cpu_read16_def]]
    show ?thesis using x assms
      by (auto simp: cpu_read16_def bindE_def find_map_ram [OF assms ha] find_device_ram ram_hooks doif_def MAP_READWRITE_def
          MAP_READABLE_def Let_def bindR_Ret_iff dest!: d)
  qed
qed

interpretation ram_step: step_bus "sys_bus dbg (Suc n)" "\<lambda>m. ram_machine dv m \<and> same_debug m0 m" "\<lambda>m a. ram_mem dv m (unat a)"
  for dbg n dv m0
proof (unfold_locales, goal_cases)
  case (1 s a v t)
  then show ?case using ram_accesses(1) [of dv s dbg a v t] by (simp add: sys_bus.simps)
next
  case (2 s a w t)
  then show ?case using ram_accesses(2) [of dv s dbg a w t] by (simp add: sys_bus.simps)
next
  case (3 s a b t)
  then have "t = s\<lparr>cpu.more := ram_put dv (unat a) b (mch s)\<rparr>" using ram_accesses(3) [of dv s dbg "sys_bus dbg n" a b t] by (simp add: sys_bus.simps)
  moreover have "same_debug m0 (ram_put dv (unat a) b (mch s))" using 3(1) by (simp add: same_debug_def ram_put_def)
  ultimately show ?case using ram_put_ok [of dv "mch s" "unat a" b] 3(1) by simp
qed

end
