(* ===== verification/Debugger_Step.thy ===== *)
theory Debugger_Step
  imports Debugger_Laws Cpu_Step
begin

text \<open>
  The disassembler and the processor agree on where the next instruction starts, and with that the \<^verbatim>\<open>next\<close> command
  stops behind the current instruction. What lies outside the tables the processor refuses.
\<close>

section \<open>Size\<close>

lemma half_offset: "unat (rPC s) + 5 \<le> 65536 \<Longrightarrow> i < 5 \<Longrightarrow> unat (rPC s + of_nat i) = unat (rPC s) + i"
  by (simp add: unat_add_lem [THEN iffD1] unsigned_of_nat take_bit_nat_eq_self)

lemma straight_plain: "straight (insn_entry b) \<Longrightarrow> fst (insn_entry b) \<noteq> op_swi2"
  by (auto simp: straight_def)

lemma insn_size_le: "insn_size b \<le> 5"
  using operand_size_le [of "snd (insn_entry b)" "b (prefix_size b)"] prefix_size_range [of b] by (simp add: insn_size_def)

lemma step_ram:
  assumes "ram_machine dv (mch s)" "\<not> cc_changed s" "unat (rPC s) + 5 \<le> 65536" "straight (insn_entry (\<lambda>i. ram_mem dv (mch s) (unat (rPC s) + i)))"
    and "exec_insn (sys_bus dbg (Suc n)) s = Ret () t"
  shows "ram_machine dv (mch t) \<and> same_debug (mch s) (mch t) \<and> \<not> cc_changed t
    \<and> rPC t = rPC s + of_nat (insn_size (\<lambda>i. ram_mem dv (mch s) (unat (rPC s) + i)))"
proof -
  have "\<forall>i < 3. ram_mem dv (mch s) (unat (rPC s + of_nat i)) = ram_mem dv (mch s) (unat (rPC s) + i)"
    using half_offset [OF assms(3)] by simp
  moreover have "same_debug (mch s) (mch s)" by (simp add: same_debug_def)
  ultimately show ?thesis
    using ram_step.exec_size [OF _ assms(2) _ assms(4,5)] assms(1) by simp
qed

text \<open>(C7) The disassembler and the processor agree on the size of an instruction: for every instruction in plain 64 KB
  RAM that neither jumps nor may let an interrupt in, of every addressing mode, PC ends behind it exactly by the size that the
  disassembler returns for its bytes.\<close>

theorem step_matches_dasm:
  assumes "ram_machine dv (mch s)" "\<not> cc_changed s" "unat (rPC s) + 5 \<le> 65536" "straight (insn_entry (\<lambda>i. ram_mem dv (mch s) (unat (rPC s) + i)))"
    and "names_fit K syms" "K \<le> 246" "exec_insn (sys_bus dbg (Suc n)) s = Ret () t"
  shows "\<exists>tx sz. dasm os9 syms (of_nat (absolute_from_reladdr dv (unat (rPC s)))) s = Ret (tx, sz) s \<and> rPC t = rPC s + of_nat sz"
  using dasm_plain [OF code_at_ram [OF assms(1,3)] assms(5,6)] straight_plain [OF assms(4)] step_ram [OF assms(1-4,7)] by blast

theorem step_matches_dasm_witness:
  "\<exists>t tx. exec_insn (sys_bus no_debugger (Suc 0)) (power_on (ram_system (\<lambda>_. 0x12))) = Ret () t
    \<and> dasm False sym_start (of_nat (absolute_from_reladdr 1 0)) (power_on (ram_system (\<lambda>_. 0x12))) = Ret (tx, 1) (power_on (ram_system (\<lambda>_. 0x12)))
    \<and> rPC t = 1"
proof -
  let ?s = "power_on (ram_system (\<lambda>_. 0x12))"
  have e: "insn_entry (\<lambda>_. 0x12) = (op_nop, am_implied)" by (simp add: insn_entry_def codes_def nth_append half_lengths codes_lo_def)
  obtain t where t: "exec_insn (sys_bus no_debugger (Suc 0)) ?s = Ret () t" "rPC t = 1"
    using exec_nop [of 1 ?s no_debugger 0] by (auto simp: half_def)
  obtain tx sz where d: "dasm False sym_start (of_nat (absolute_from_reladdr 1 0)) ?s = Ret (tx, sz) ?s" "rPC t = of_nat sz"
    using step_matches_dasm [OF _ _ _ _ names_fit_start _ t(1), of 1 False] by (auto simp: e straight_def)
  have "sz = 1"
    using dasm_plain [OF code_at_ram [of 1 ?s 0] names_fit_start, of False] d(1) by (simp add: e insn_size_def prefix_size_def)
  then show ?thesis using t d by blast
qed

section \<open>Illegal opcodes\<close>

lemma illegal_no_case:
  "n < 256 \<Longrightarrow> snd (codes ! n) = am_illegal \<Longrightarrow> n \<noteq> 0x10 \<Longrightarrow> n \<noteq> 0x11 \<Longrightarrow> n \<notin> set (map (\<lambda>p. unat (fst p)) (opcode_table io))"
  "n < 256 \<Longrightarrow> snd (codes10 ! n) = am_illegal \<Longrightarrow> n \<notin> set (map (\<lambda>p. unat (fst p)) (page2_20_table io @ page2_80_table io))"
  "n < 256 \<Longrightarrow> snd (codes11 ! n) = am_illegal \<Longrightarrow> n \<notin> set (map (\<lambda>p. unat (fst p)) (page3_table io))"
proof -
  note t = tables_agree [of io]
  have "n \<in> set (filter (\<lambda>n. n \<noteq> 0x10 \<and> n \<noteq> 0x11) (map (\<lambda>p. unat (fst p)) (opcode_table io))) \<Longrightarrow> snd (codes ! n) \<noteq> am_illegal" for n
    unfolding conjunct1 [OF t, symmetric] by simp
  then show "n < 256 \<Longrightarrow> snd (codes ! n) = am_illegal \<Longrightarrow> n \<noteq> 0x10 \<Longrightarrow> n \<noteq> 0x11 \<Longrightarrow> n \<notin> set (map (\<lambda>p. unat (fst p)) (opcode_table io))" by fastforce
  have e: "set (map (\<lambda>p. unat (fst p)) (page2_20_table io @ page2_80_table io)) = set (filter (\<lambda>n. snd (codes10 ! n) \<noteq> am_illegal) [0..<256])"
    "set (map (\<lambda>p. unat (fst p)) (page3_table io)) = set (filter (\<lambda>n. snd (codes11 ! n) \<noteq> am_illegal) [0..<256])"
    by (simp_all only: conjunct1 [OF conjunct2 [OF conjunct2 [OF conjunct2 [OF t]]]] conjunct2 [OF conjunct2 [OF conjunct2 [OF conjunct2 [OF t]]]])
  show "n < 256 \<Longrightarrow> snd (codes10 ! n) = am_illegal \<Longrightarrow> n \<notin> set (map (\<lambda>p. unat (fst p)) (page2_20_table io @ page2_80_table io))"
    "n < 256 \<Longrightarrow> snd (codes11 ! n) = am_illegal \<Longrightarrow> n \<notin> set (map (\<lambda>p. unat (fst p)) (page3_table io))"
    unfolding e set_filter by simp_all
qed

lemma reset_no_case: "0x3e \<notin> set (map (\<lambda>p. unat (fst p)) (opcode_table io))"
  using tables_agree [of io] by simp

lemma switch_default: "unat k \<notin> set (map (\<lambda>p. unat (fst p)) tab) \<Longrightarrow> switch tab dflt k = dflt" for k :: u32
proof -
  assume "unat k \<notin> set (map (\<lambda>p. unat (fst p)) tab)"
  then have "map_of tab k = None" by (force simp: map_of_eq_None_iff)
  then show ?thesis by (simp add: switch_def)
qed

lemma switch_pages: "switch (opcode_table io) d 0x10 = page2 io" "switch (opcode_table io) d 0x11 = page3 io"
  by (simp_all add: switch_def opcode_table_def opcode_tables)

text \<open>(C4) An instruction that the tables of the disassembler do not know, on any of the three pages, and the opcode 0x3e, which
  only they know, is refused by the processor: without the debugger the process ends with status 2, with it the debugger is entered. Then the PC
  stays at a bad opcode of the first page, but behind a prefix the processor goes on after the two bytes, and charges
  no cycles for them.\<close>

theorem illegal_opcode:
  assumes "ram_machine dv (mch s)" "\<not> cc_changed s" "unat (rPC s) + 2 \<le> 65536"
    and "b = (\<lambda>i. ram_mem dv (mch s) (unat (rPC s) + i))" "snd (insn_entry b) = am_illegal \<or> b 0 = 0x3e"
  shows "exec_insn (sys_bus dbg (Suc n)) s =
    (if prefix_size b = 1 then
       if debug_enabled s then Ret () (s\<lparr>iPC := rPC s, cpu_clk := cpu_clk s - 2, monitor_on := True\<rparr>)
       else Exit 2 (s\<lparr>iPC := rPC s, rPC := rPC s + 1, cpu_clk := cpu_clk s - 2\<rparr>)
     else
       if debug_enabled s then Ret () (s\<lparr>iPC := rPC s, rPC := rPC s + 2, monitor_on := True\<rparr>)
       else Exit 2 (s\<lparr>iPC := rPC s, rPC := rPC s + 2\<rparr>))"
proof -
  let ?io = "sys_bus dbg (Suc n)"
  let ?s1 = "s\<lparr>iPC := rPC s, rPC := rPC s + 1\<rparr>"
  have next_pc: "unat (rPC s + 1) = unat (rPC s) + 1" using assms(3) by (simp add: unat_add_lem [THEN iffD1])
  have f: "imm_byte ?io (s\<lparr>iPC := rPC s\<rparr>) = Ret (ucast (b 0)) ?s1" "imm_byte ?io ?s1 = Ret (ucast (b 1)) (s\<lparr>iPC := rPC s, rPC := rPC s + 2\<rparr>)"
    using sys_ram.imm_byte_ram [of dv "s\<lparr>iPC := rPC s\<rparr>" dbg n] sys_ram.imm_byte_ram [of dv ?s1 dbg n] assms(1,3,4) next_pc
    by (simp_all add: half_def add.assoc)
  have lt: "unat (b i) < 256" "unat (ucast (b i) :: u32) = unat (b i)" for i using unat_u8 by (simp_all add: unsigned_ucast_eq take_bit_nat_eq_self)
  consider (plain) "b 0 \<noteq> 0x10" "b 0 \<noteq> 0x11" | (p2) "b 0 = 0x10" | (p3) "b 0 = 0x11" by blast
  then show ?thesis
  proof cases
    case plain
    then have "unat (b 0) \<noteq> 0x10" "unat (b 0) \<noteq> 0x11" by (simp_all add: word_unat_eq_iff)
    then have "unat (b 0) \<notin> set (map (\<lambda>p. unat (fst p)) (opcode_table ?io))"
      using illegal_no_case(1) [of "unat (b 0)" ?io] reset_no_case [of ?io] assms(5) plain lt(1) [of 0]
      by (cases "b 0 = 0x3e") (simp_all add: insn_entry_def del: set_map)
    then have "switch (opcode_table ?io) invalid_opcode (ucast (b 0)) = invalid_opcode"
      using lt(2) [of 0] by (intro switch_default) (simp del: set_map)
    then show ?thesis using f(1) plain assms(2)
      by (auto simp: exec_insn_def bindE_def assign_def invalid_opcode_def clk_def sim_error_def prefix_size_def doif_def)
  next
    case p2
    then have "switch (page2_20_table ?io @ page2_80_table ?io) sim_error (ucast (b 1)) = sim_error"
      using illegal_no_case(2) [of "unat (b 1)" ?io] assms(5) lt p2 by (intro switch_default) (simp add: insn_entry_def)
    then show ?thesis using f p2 assms(2)
      by (auto simp: exec_insn_def bindE_def assign_def switch_pages page2_def sim_error_def prefix_size_def doif_def)
  next
    case p3
    then have "switch (page3_table ?io) sim_error (ucast (b 1)) = sim_error"
      using illegal_no_case(3) [of "unat (b 1)" ?io] assms(5) lt p3 by (intro switch_default) (simp add: insn_entry_def)
    then show ?thesis using f p3 assms(2)
      by (auto simp: exec_insn_def bindE_def assign_def switch_pages page3_def sim_error_def prefix_size_def doif_def)
  qed
qed

theorem illegal_opcode_witness:
  "exec_insn (sys_bus no_debugger (Suc 0)) ((power_on (ram_system (\<lambda>_. 0x10)))\<lparr>debug_enabled := True\<rparr>)
     = Ret () ((power_on (ram_system (\<lambda>_. 0x10)))\<lparr>debug_enabled := True, iPC := 0, rPC := 2, monitor_on := True\<rparr>)"
proof -
  let ?s = "(power_on (ram_system (\<lambda>_. 0x10)))\<lparr>debug_enabled := True\<rparr>"
  have "snd (codes10 ! 0x10) = am_illegal" by (simp add: codes10_def nth_append half_lengths codes10_lo_def)
  then have "snd (insn_entry (\<lambda>_. 0x10)) = am_illegal" by (simp add: insn_entry_def)
  then show ?thesis
    using illegal_opcode [of 1 ?s "\<lambda>_. 0x10" no_debugger 0] by (simp add: prefix_size_def)
qed

section \<open>The next command\<close>

lemma new_breakpoint_free:
  assumes "\<exists>br \<in> set (breaktab (mch (dsys c))). \<not> br_used br"
  shows "\<exists>n c'. new_breakpoint f c = Ret n c' \<and> (\<exists>tab k. c' = c\<lparr>dsys := set_mch (\<lambda>m. m\<lparr>active_break_count := k, breaktab := tab\<rparr>) (dsys c)\<rparr>)"
proof -
  let ?s = "dsys c"
  obtain n where n: "find (\<lambda>n. \<not> br_used (breaktab (mch ?s) ! n)) [0..<length (breaktab (mch ?s))] = Some n"
    using assms by (cases "find (\<lambda>n. \<not> br_used (breaktab (mch ?s) ! n)) [0..<length (breaktab (mch ?s))]")
      (auto simp: find_None_iff in_set_conv_nth)
  have e: "\<exists>tab k. c\<lparr>dsys := edit_breakpoint n f (brk_enable n True (set_mch (\<lambda>m. m\<lparr>breaktab := g m\<rparr>) ?s))\<rparr>
      = c\<lparr>dsys := set_mch (\<lambda>m. m\<lparr>active_break_count := k, breaktab := tab\<rparr>) ?s\<rparr>" for g
  proof (cases "br_enabled (g (mch ?s) ! n)")
    case True
    then show ?thesis
      by (intro exI [of _ "(g (mch ?s))[n := f ((g (mch ?s)) ! n)]"] exI [of _ "active_break_count (mch ?s)"]) (simp add: edit_breakpoint_def brk_enable_def set_mch_def)
  next
    case False
    then show ?thesis
      by (intro exI [of _ "((g (mch ?s))[n := ((g (mch ?s)) ! n)\<lparr>br_enabled := True\<rparr>])[n := f ((g (mch ?s))[n := ((g (mch ?s)) ! n)\<lparr>br_enabled := True\<rparr>] ! n)]"] exI [of _ "active_break_count (mch ?s) + 1"])
        (simp add: edit_breakpoint_def brk_enable_def set_mch_def)
  qed
  show ?thesis using n e by (simp add: new_breakpoint_def brkalloc_def)
qed

lemma to_absolute_maps:
  assumes "busmaps (mch t) = linear_maps dv" "p < 65536"
  shows "to_absolute p t = Ret (absolute_from_reladdr dv p) t"
proof -
  have "unat (of_nat p :: u32) = p" "p div 128 < 512" using assms(2) by (simp_all add: unsigned_of_nat take_bit_nat_eq_self less_mult_imp_div_less)
  then show ?thesis using assms div_mult_mod_eq [of p 128]
    by (simp add: to_absolute_def bindE_def find_map_def linear_maps_def bus_sizes absolute_from_reladdr_def Let_def)
qed

lemma watchless_ram:
  assumes "ram_machine dv m" "\<forall>br \<in> set (breaktab m). \<not> br_on_read br \<and> \<not> br_on_write br"
    and "\<not> br_on_read x \<and> \<not> br_on_write x" "tab = (breaktab m)[n := x]"
  shows "ram_machine dv (m\<lparr>active_break_count := k, breaktab := tab\<rparr>)"
proof -
  have "\<forall>br \<in> set tab. \<not> br_on_read br \<and> \<not> br_on_write br"
    using assms(2,3) set_update_subset_insert [of "breaktab m" n x] by (auto simp: assms(4))
  then show ?thesis using assms(1) by (simp add: ram_machine_def no_watch_def)
qed

lemma next_target:
  assumes "dv < 255" "p + k < 65536"
  shows "unat (of_nat (absolute_from_reladdr dv p) + of_nat k :: u64) = absolute_from_reladdr dv (p + k)"
proof -
  have "of_nat (absolute_from_reladdr dv p) + of_nat k = (of_nat (absolute_from_reladdr dv (p + k)) :: u64)"
    by (simp add: absolute_from_reladdr_def)
  then show ?thesis using unat_absolute [OF assms(1), of "p + k"] assms(2) by simp
qed

lemma get_pc_half: "unat (rPC s) < 65536 \<Longrightarrow> unat (get_pc s) = unat (rPC s)"
  by (simp add: get_pc_def unsigned_ucast_eq take_bit_nat_eq_self)

text \<open>The size the disassembler gives, with the byte of an OS-9 call.\<close>

definition listed_size :: "bool \<Rightarrow> (nat \<Rightarrow> u8) \<Rightarrow> nat" where
  "listed_size os9 b = insn_size b + (if os9 \<and> fst (insn_entry b) = op_swi2 then 1 else 0)"

lemma listed_size_le: "listed_size os9 b \<le> 6"
  using insn_size_le [of b] by (simp add: listed_size_def)

lemma cmd_next_sets:
  assumes "code_at (of_nat a) b (dsys c)" "to_absolute (unat (get_pc (dsys c))) (dsys c) = Ret a (dsys c)" "a + 6 < 2 ^ 64"
    and "names_fit K (the_symbols (denv c))" "K \<le> 110" "\<exists>br \<in> set (breaktab (mch (dsys c))). \<not> br_used br"
  shows "\<exists>n c1 tab k. new_breakpoint (\<lambda>br. br\<lparr>br_addr := a + listed_size (os9call c) b, br_on_execute := True, br_temp := True\<rparr>) c = Ret n c1
    \<and> c1 = c\<lparr>dsys := set_mch (\<lambda>m. m\<lparr>active_break_count := k, breaktab := tab\<rparr>) (dsys c)\<rparr>
    \<and> cmd_next c = Ret () (c1\<lparr>exit_command_loop := 0\<rparr>)"
proof -
  let ?sz = "listed_size (os9call c) b"
  have 1: "on_sys (\<lambda>s. to_absolute (unat (get_pc s)) s) c = Ret a c" using assms(2) by (simp add: on_sys_def)
  have "\<exists>tx. dasm (os9call c) (the_symbols (denv c)) (of_nat a) (dsys c) = Ret (tx, ?sz) (dsys c) \<and> length tx < 128"
  proof (cases "fst (insn_entry b) = op_swi2 \<and> os9call c")
    case True
    then show ?thesis using dasm_os9 [OF assms(1), of "the_symbols (denv c)"] by (force simp: listed_size_def)
  next
    case False
    from dasm_plain [OF assms(1,4) _ this] assms(5) False show ?thesis by (force simp: listed_size_def)
  qed
  then obtain tx where "dasm (os9call c) (the_symbols (denv c)) (of_nat a) (dsys c) = Ret (tx, ?sz) (dsys c)" and tx: "length tx < 128" by blast
  then have 2: "on_sys (dasm (os9call c) (the_symbols (denv c)) (of_nat a)) c = Ret (tx, ?sz) c" by (simp add: on_sys_def)
  have "a + ?sz < 2 ^ 64" using listed_size_le [of "os9call c" b] assms(3) by linarith
  then have "unat (of_nat (a + ?sz) :: u64) = a + ?sz" by (simp add: unsigned_of_nat take_bit_nat_eq_self del: of_nat_add)
  then have 3: "unat (of_nat a + of_nat ?sz :: u64) = a + ?sz" by (simp only: of_nat_add)
  obtain n c1 tab k where n: "new_breakpoint (\<lambda>br. br\<lparr>br_addr := a + ?sz, br_on_execute := True, br_temp := True\<rparr>) c = Ret n c1"
      "c1 = c\<lparr>dsys := set_mch (\<lambda>m. m\<lparr>active_break_count := k, breaktab := tab\<rparr>) (dsys c)\<rparr>"
    using new_breakpoint_free [OF assms(6)] by blast
  have "cmd_next c = Ret () (c1\<lparr>exit_command_loop := 0\<rparr>)"
    using tx by (simp add: cmd_next_def bindE_def 1 2 3 n(1) leave_def)
  with n show ?thesis by blast
qed

text \<open>The straight instruction that a machine of plain memory runs next ends where the table is as the command left it.\<close>

lemma straight_arrives:
  assumes "ram_machine dv (mch s)" "\<not> cc_changed s" "unat (rPC s) + 6 \<le> 65536" "straight (insn_entry b)"
    and "b = (\<lambda>i. ram_mem dv (mch s) (unat (rPC s) + i))" "exec_insn (sys_bus dbg (Suc m)) s = Ret () t"
  shows "same_table s t \<and> trace_offset (mch t) = trace_offset (mch s) \<and> trace_buffer (mch t) = trace_buffer (mch s)
    \<and> rPC t = rPC s + of_nat (insn_size b)
    \<and> (\<forall>u. busmaps (mch u) = busmaps (mch t) \<longrightarrow>
         to_absolute (unat (get_pc t)) u = Ret (absolute_from_reladdr dv (unat (rPC s)) + insn_size b) u)"
proof -
  have r: "ram_machine dv (mch t)" "same_debug (mch s) (mch t)" "rPC t = rPC s + of_nat (insn_size b)"
    using step_ram [OF assms(1,2) _ _ assms(6)] assms(3,4) by (simp_all add: assms(5))
  have q: "unat (rPC s) + insn_size b < 65536" using insn_size_le [of b] assms(3) by simp
  then have "unat (get_pc t) = unat (rPC s) + insn_size b"
    using get_pc_half [of t] r(3) by (simp add: unat_add_lem [THEN iffD1] unsigned_of_nat take_bit_nat_eq_self)
  then have "to_absolute (unat (get_pc t)) u = Ret (absolute_from_reladdr dv (unat (rPC s)) + insn_size b) u" if "busmaps (mch u) = busmaps (mch t)" for u
    using to_absolute_maps [OF _ q, of u] r(1) that by (simp add: ram_machine_def absolute_from_reladdr_def)
  then show ?thesis using r(2,3) by (simp add: same_table_def same_debug_def)
qed

text \<open>(C34) The \<^verbatim>\<open>next\<close> command, at any instruction: it sets a temporary breakpoint behind the instruction, by the
  size the disassembler gives, and leaves the command loop without another change to the machine. Whenever the processor
  arrives there, at once or on the return from a subroutine, with the breakpoint table still as it was, the
  instruction hook enters the debugger and frees the entry. On a machine of plain memory without watchpoints this is the very
  next instruction when the current one neither jumps nor may let an interrupt in.\<close>

theorem next_stops_behind:
  assumes "code_at (of_nat a) b (dsys c)" "to_absolute (unat (get_pc (dsys c))) (dsys c) = Ret a (dsys c)" "a + 6 < 2 ^ 64"
    and "names_fit K (the_symbols (denv c))" "K \<le> 110" "breaks_ok (dsys c)" "\<exists>br \<in> set (breaktab (mch (dsys c))). \<not> br_used br"
    and "\<forall>br \<in> set (breaktab (mch (dsys c))). br_addr br \<noteq> a + listed_size (os9call c) b"
  shows "\<exists>c' n tab k. cmd_next c = Ret () c' \<and> exit_command_loop c' = 0 \<and> br_used (breaktab (mch (dsys c')) ! n)
    \<and> dsys c' = set_mch (\<lambda>m. m\<lparr>active_break_count := k, breaktab := tab\<rparr>) (dsys c)
    \<and> (\<forall>t. same_table (dsys c') t \<longrightarrow> trace_offset (mch t) < length (trace_buffer (mch t)) \<longrightarrow>
         (\<forall>u. busmaps (mch u) = busmaps (mch t) \<longrightarrow> to_absolute (unat (get_pc t)) u = Ret (a + listed_size (os9call c) b) u) \<longrightarrow>
         (\<exists>u. command_insn_hook dbg t = Ret () u \<and> monitor_on u \<and> breaks_ok u \<and> \<not> br_used (breaktab (mch u) ! n)))
    \<and> (ram_machine dv (mch (dsys c)) \<and> (\<forall>br \<in> set (breaktab (mch (dsys c))). \<not> br_on_read br \<and> \<not> br_on_write br)
        \<and> unat (rPC (dsys c)) + 6 \<le> 65536 \<and> b = (\<lambda>i. ram_mem dv (mch (dsys c)) (unat (rPC (dsys c)) + i)) \<and> straight (insn_entry b)
        \<and> \<not> cc_changed (dsys c) \<and> trace_offset (mch (dsys c)) < length (trace_buffer (mch (dsys c))) \<longrightarrow>
         ram_machine dv (mch (dsys c')) \<and>
         (\<forall>t. exec_insn (sys_bus dbg (Suc m)) ((dsys c')\<lparr>monitor_on := False\<rparr>) = Ret () t \<longrightarrow>
           rPC t = rPC (dsys c) + of_nat (listed_size (os9call c) b)
           \<and> (\<exists>u. command_insn_hook dbg t = Ret () u \<and> monitor_on u \<and> breaks_ok u \<and> \<not> br_used (breaktab (mch u) ! n))))"
proof -
  let ?s = "dsys c" and ?tab = "breaktab (mch (dsys c))" and ?a = "a + listed_size (os9call c) b"
  let ?f = "\<lambda>br. br\<lparr>br_addr := ?a, br_on_execute := True, br_temp := True\<rparr>"
  obtain n c1 tab k where n: "new_breakpoint ?f c = Ret n c1"
      "c1 = c\<lparr>dsys := set_mch (\<lambda>m. m\<lparr>active_break_count := k, breaktab := tab\<rparr>) ?s\<rparr>" "cmd_next c = Ret () (c1\<lparr>exit_command_loop := 0\<rparr>)"
    using cmd_next_sets [OF assms(1-5,7)] by blast
  have m: "mch (dsys c1) = (mch ?s)\<lparr>active_break_count := k, breaktab := tab\<rparr>" "rPC (dsys c1) = rPC ?s" "cc_changed (dsys c1) = cc_changed ?s"
    by (simp_all add: n(2) set_mch_def)
  let ?new = "?f ((?tab ! n)\<lparr>br_used := True, br_enabled := True, br_conditional := False, br_threaded := False, br_keep_running := False,
      br_ignore_count := 0, br_temp := False, br_on_execute := False\<rparr>)"
  have new: "n < length ?tab" "tab = ?tab[n := ?new]"
    using new_breakpoint_tab [OF n(1) assms(6)] assms(6) m(1) by (simp_all add: breaks_ok_def breaks_good_def)
  have stop: "\<exists>u. command_insn_hook dbg t = Ret () u \<and> monitor_on u \<and> breaks_ok u \<and> \<not> br_used (breaktab (mch u) ! n)"
    if "same_table (dsys c1) t" "trace_offset (mch t) < length (trace_buffer (mch t))"
      "\<forall>u. busmaps (mch u) = busmaps (mch t) \<longrightarrow> to_absolute (unat (get_pc t)) u = Ret ?a u" for t
    using hook_stops [OF assms(6) _ n(1) that] assms(8) new(1) by auto
  have ram: "ram_machine dv (mch (dsys c1))" if h: "ram_machine dv (mch ?s)" "\<forall>br \<in> set ?tab. \<not> br_on_read br \<and> \<not> br_on_write br"
  proof -
    have "\<not> br_on_read (?tab ! n) \<and> \<not> br_on_write (?tab ! n)" using h(2) new(1) by simp
    then show ?thesis unfolding m(1) by (intro watchless_ram [OF h _ new(2)]) simp
  qed
  have step: "rPC t = rPC ?s + of_nat (listed_size (os9call c) b)
      \<and> (\<exists>u. command_insn_hook dbg t = Ret () u \<and> monitor_on u \<and> breaks_ok u \<and> \<not> br_used (breaktab (mch u) ! n))"
    if h: "ram_machine dv (mch ?s)" "\<forall>br \<in> set ?tab. \<not> br_on_read br \<and> \<not> br_on_write br" "unat (rPC ?s) + 6 \<le> 65536"
        "b = (\<lambda>i. ram_mem dv (mch ?s) (unat (rPC ?s) + i))" "straight (insn_entry b)" "\<not> cc_changed ?s"
        "trace_offset (mch ?s) < length (trace_buffer (mch ?s))"
      and t: "exec_insn (sys_bus dbg (Suc m)) ((dsys c1)\<lparr>monitor_on := False\<rparr>) = Ret () t" for t
  proof -
    let ?u = "(dsys c1)\<lparr>monitor_on := False\<rparr>"
    have mem: "b = (\<lambda>i. ram_mem dv (mch ?u) (unat (rPC ?u) + i))" by (simp add: m h(4) ram_mem_def)
    have size: "listed_size (os9call c) b = insn_size b" using straight_plain [OF h(5)] by (simp add: listed_size_def)
    have "unat (get_pc ?s) = unat (rPC ?s)" using h(3) by (intro get_pc_half) simp
    then have a: "a = absolute_from_reladdr dv (unat (rPC ?s))"
      using to_absolute_maps [of ?s dv "unat (rPC ?s)"] h(1,3) assms(2) by (simp add: ram_machine_def)
    note r = straight_arrives [OF _ _ _ h(5) mem t, simplified, unfolded m(2), folded a, folded size]
    show ?thesis using r ram [OF h(1,2)] m h(3,6,7) stop [of t] by (simp add: same_table_def)
  qed
  have "br_used (breaktab (mch (dsys c1)) ! n)" using new by (simp add: m(1))
  moreover have "dsys (c1\<lparr>exit_command_loop := 0\<rparr>) = dsys c1" "exit_command_loop (c1\<lparr>exit_command_loop := 0\<rparr>) = 0"
    "dsys c1 = set_mch (\<lambda>m. m\<lparr>active_break_count := k, breaktab := tab\<rparr>) ?s" by (simp_all add: n(2))
  ultimately show ?thesis using n(3) stop step ram
    by (intro exI [of _ "c1\<lparr>exit_command_loop := 0\<rparr>"] exI [of _ n] exI [of _ tab] exI [of _ k]) (simp only: simp_thms, blast)
qed

definition next_console :: console where
  "next_console = sample_console\<lparr>dsys := power_on (ram_system (\<lambda>_. 0x12)), denv := sample_env\<lparr>the_symbols := sym_start\<rparr>\<rparr>"

theorem next_stops_behind_witness:
  "\<exists>c' t u. cmd_next next_console = Ret () c' \<and> exec_insn (sys_bus no_debugger (Suc 0)) ((dsys c')\<lparr>monitor_on := False\<rparr>) = Ret () t
    \<and> rPC t = 1 \<and> command_insn_hook no_debugger t = Ret () u \<and> monitor_on u"
proof -
  let ?b = "\<lambda>_ :: nat. 0x12 :: u8"
  have e: "insn_entry ?b = (op_nop, am_implied)" by (simp add: insn_entry_def codes_def nth_append half_lengths codes_lo_def)
  have size: "insn_size ?b = 1" by (simp add: insn_size_def prefix_size_def e)
  have s: "dsys next_console = power_on (ram_system ?b)" "the_symbols (denv next_console) = sym_start" by (simp_all add: next_console_def)
  have tab: "breaktab (ram_system ?b) = breaktab machine_power_on" "active_break_count (ram_system ?b) = active_break_count machine_power_on"
      "trace_offset (ram_system ?b) < length (trace_buffer (ram_system ?b))"
    by (simp_all add: ram_system_def machine_power_on_def MAX_TRACE_def)
  have ok: "breaks_ok (dsys next_console)" using sample_breaks_ok by (simp add: s tab breaks_ok_def sample_console_def power_on_def)
  have size9: "listed_size (os9call next_console) ?b = 1" by (simp add: listed_size_def size e )
  have ram: "ram_machine 1 (mch (dsys next_console))" by (simp add: s)
  have pc: "unat (rPC (dsys next_console)) = 0" "get_pc (dsys next_console) = 0" by (simp_all add: s get_pc_def)
  have code: "code_at (of_nat (absolute_from_reladdr 1 0)) ?b (dsys next_console)"
    using code_at_ram [OF ram, of 0] by (simp add: s)
  have at: "to_absolute (unat (get_pc (dsys next_console))) (dsys next_console) = Ret (absolute_from_reladdr 1 0) (dsys next_console)"
    using to_absolute_maps [of "dsys next_console" 1 0] ram pc by (simp add: ram_machine_def)
  have h: "absolute_from_reladdr 1 0 + 6 < 2 ^ 64" "names_fit 0 (the_symbols (denv next_console))"
      "\<exists>br \<in> set (breaktab (mch (dsys next_console))). \<not> br_used br"
      "\<forall>br \<in> set (breaktab (mch (dsys next_console))). br_addr br \<noteq> absolute_from_reladdr 1 0 + listed_size (os9call next_console) ?b"
      "(\<forall>br \<in> set (breaktab (mch (dsys next_console))). \<not> br_on_read br \<and> \<not> br_on_write br)
        \<and> unat (rPC (dsys next_console)) + 6 \<le> 65536 \<and> ?b = (\<lambda>i. ram_mem 1 (mch (dsys next_console)) (unat (rPC (dsys next_console)) + i))
        \<and> straight (insn_entry ?b) \<and> \<not> cc_changed (dsys next_console)
        \<and> trace_offset (mch (dsys next_console)) < length (trace_buffer (mch (dsys next_console)))"
    unfolding s size9 using names_fit_start tab
    by (simp_all add: e straight_def machine_power_on_def MAX_BREAKS_def absolute_from_reladdr_def)
  obtain c' n tab k where c: "cmd_next next_console = Ret () c'"
      "dsys c' = set_mch (\<lambda>m. m\<lparr>active_break_count := k, breaktab := tab\<rparr>) (dsys next_console)"
    and ram': "ram_machine 1 (mch (dsys c'))"
    and stop: "\<And>t. exec_insn (sys_bus no_debugger (Suc 0)) ((dsys c')\<lparr>monitor_on := False\<rparr>) = Ret () t \<Longrightarrow>
      \<exists>u. command_insn_hook no_debugger t = Ret () u \<and> monitor_on u"
    using next_stops_behind [OF code at h(1,2) _ ok h(3,4), of no_debugger 1 0] ram h(5) by blast
  have "ram_mem 1 (mch (dsys c')) 0 = 0x12" by (simp add: c(2) s set_mch_def ram_mem_def power_on_def ram_system_def)
  with ram' obtain t where "exec_insn (sys_bus no_debugger (Suc 0)) ((dsys c')\<lparr>monitor_on := False\<rparr>) = Ret () t" "rPC t = 1"
    using exec_nop [of 1 "(dsys c')\<lparr>monitor_on := False\<rparr>" no_debugger 0] by (auto simp: c(2) s set_mch_def power_on_def half_def)
  then show ?thesis using c(1) stop by blast
qed

end
