(* ===== verification/Debugger_Invariant.thy ===== *)
theory Debugger_Invariant
  imports Debugger_Laws
begin

text \<open>
  The breakpoint table under everything that happens to it. The conditions of breakpoints are evaluated by the real
  evaluator: an assignment in a condition writes through the bus, the write may fire a watchpoint or make a device
  interrupt the processor, whose stacking writes to the bus again. \<open>table_bus\<close> is the interface such code works
  on, and the buses of all depths of nesting are instances of it.
\<close>

section \<open>Steps that leave the table alone\<close>

definition quietly :: "(sys, 'a) expr \<Rightarrow> bool" where
  "quietly m \<longleftrightarrow> (\<forall>s v t. m s = Ret v t \<longrightarrow> same_table s t)"

lemma same_table_simps [simp]:
  "same_table s s" "same_table s (set_priv dv p u) = same_table s u" "same_table s (put_host fd c u) = same_table s u"
  "same_table s (u\<lparr>monitor_on := b\<rparr>) = same_table s u" "same_table s (set_wpc w u) = same_table s u"
  "same_table s (set_mch (\<lambda>m. m\<lparr>host_in := h m\<rparr>) u) = same_table s u" "same_table s (set_mch (\<lambda>m. m\<lparr>host_sel := hs m\<rparr>) u) = same_table s u"
  "same_table s (set_mch (\<lambda>m. m\<lparr>mmu_regs := r m\<rparr>) u) = same_table s u" "same_table s (set_mch (\<lambda>m. m\<lparr>busmaps := bm m\<rparr>) u) = same_table s u"
  "same_table s (set_mch (\<lambda>m. m\<lparr>wpc_statics := ws m\<rparr>) u) = same_table s u"
  "same_table s (set_mch (\<lambda>m. m\<lparr>wpc := w', wpc_statics := v\<rparr>) u) = same_table s u"
  "same_table s (set_mch (\<lambda>m. m\<lparr>thread_id := n\<rparr>) u) = same_table s u" "same_table s (set_mch (\<lambda>m. m\<lparr>thread_current := n\<rparr>) u) = same_table s u"
  "same_table s (set_mch (\<lambda>m. m\<lparr>et_last_cycles := cy\<rparr>) u) = same_table s u"
  by (simp_all add: same_table_def set_priv_def put_host_def set_mch_def set_wpc_def)

lemma same_table_trans: "same_table s t \<Longrightarrow> same_table t u \<Longrightarrow> same_table s u"
  by (simp add: same_table_def)

lemma quietlyI: "(\<And>s v t. m s = Ret v t \<Longrightarrow> same_table s t) \<Longrightarrow> quietly m"
  by (simp add: quietly_def)

lemma quietlyD: "quietly m \<Longrightarrow> m s = Ret v t \<Longrightarrow> same_table s t"
  by (simp add: quietly_def)

lemma quietly_bindE: "quietly e \<Longrightarrow> (\<And>v. quietly (f v)) \<Longrightarrow> quietly (bindE e f)"
  unfolding quietly_def by (blast elim: bindE_RetE intro: same_table_trans)

lemma quietly_Cons: "quietly m \<Longrightarrow> quietly (block ms) \<Longrightarrow> quietly (block (m # ms))"
  unfolding quietly_def by (blast elim: block_ConsE intro: same_table_trans)

lemma quietly_Nil: "quietly (block [])"
  by (rule quietlyI) simp

lemma quietly_basic: "quietly (Ret x)" "quietly (\<lambda>_. UB)" "quietly sim_error" "quietly (sim_exit c)"
  by (rule quietlyI, auto simp: sim_error_def sim_exit_def split: if_splits)+

lemma quietly_if: "quietly m1 \<Longrightarrow> quietly m2 \<Longrightarrow> quietly (\<lambda>s. if b s then m1 s else m2 s)"
  by (simp add: quietly_def)

lemma quietly_doif: "quietly m \<Longrightarrow> quietly (doif b m)" "quietly m \<Longrightarrow> quietly (\<lambda>s. doif (g s) m s)"
  by (auto simp: quietly_def doif_def split: if_splits)

lemma quietly_with_wpc: "(\<And>w. quietly (f w)) \<Longrightarrow> quietly (with_wpc f)"
  by (auto simp: quietly_def with_wpc_def split: option.splits)

lemmas quietly_rules = quietly_bindE quietly_Cons quietly_Nil quietly_basic quietly_if quietly_doif quietly_with_wpc

section \<open>Devices\<close>

lemma quietly_bus_map: "quietly (bus_map a d off len fl)"
  by (rule quietlyI) (auto simp: bus_map_def Let_def split: option.splits)

lemma quietly_access:
  "quietly (find_map a)" "quietly (fault a n)" "quietly (machine_fault a n)" "quietly (do_fault a n)" "quietly (find_device a d)" "quietly (to_absolute k)"
proof -
  show m: "quietly (find_map a)" for a by (rule quietlyI) (auto simp: find_map_def Let_def split: if_splits)
  show f: "quietly (fault a n)" by (rule quietlyI) (auto simp: fault_def sim_error_def split: if_splits)
  show mf: "quietly (machine_fault a n)" for n
    by (rule quietlyI) (auto simp: machine_fault_def wpc_fault_def fault_def sim_error_def split: if_splits option.splits)
  show df: "quietly (do_fault a n)" for n unfolding do_fault_def [abs_def] by (intro quietly_rules mf)
  have "quietly (\<lambda>s. case null_device (mch s) of Some d \<Rightarrow> Ret d s | None \<Rightarrow> UB)"
    by (rule quietlyI) (auto split: option.splits)
  then show "quietly (find_device a d)" unfolding find_device_def Let_def by (intro quietly_rules df)
  show "quietly (to_absolute k)" unfolding to_absolute_def by (simp add: quietly_rules m)
qed

text \<open>The ASIC of WPC.\<close>

lemma quietly_wpc_parts:
  "quietly (wpc_read_switch_column col)" "quietly wpc_update_ram" "quietly (wpc_dmd_set_visible v)" "quietly (wpc_set_rom_page v)"
  "quietly (wpc_set_dmd_page k v)" "quietly wpc_console_read" "quietly (wpc_console_write v)"
proof -
  have r: "quietly (wpc_read_switch k)" for k
    unfolding wpc_read_switch_def by (intro quietly_rules)
  have "quietly (switch_rows col rows v)" for rows v
    by (induction rows arbitrary: v) (simp_all add: quietly_rules r)
  then show "quietly (wpc_read_switch_column col)" by (simp add: wpc_read_switch_column_def)
  show "quietly wpc_update_ram" unfolding wpc_update_ram_def
    by (rule quietly_with_wpc) (auto intro!: quietly_rules quietly_bus_map split: option.split)
  show "quietly (wpc_dmd_set_visible v)" unfolding wpc_dmd_set_visible_def
    by (rule quietly_with_wpc, rule quietlyI) (auto simp: Let_def split: option.splits if_splits)
  have s: "quietly (\<lambda>s. Ret () (set_wpc w s))" for w by (rule quietlyI) auto
  show "quietly (wpc_set_rom_page v)" "quietly (wpc_set_dmd_page k v)" unfolding wpc_set_rom_page_def wpc_set_dmd_page_def
    by (intro quietly_rules quietly_bus_map s)+
  show "quietly wpc_console_read" "quietly (wpc_console_write v)"
    by (rule quietlyI, auto simp: wpc_console_read_def wpc_console_write_def split: if_splits list.splits)+
qed

lemma quietly_wpc_asic: "quietly (wpc_asic_read a)" "quietly (wpc_asic_write a v)"
proof -
  note p = quietly_wpc_parts [THEN quietlyD] quietly_bindE [OF _ quietly_wpc_parts(2), THEN quietlyD] quietly_bindE [OF _ quietly_wpc_parts(4), THEN quietlyD]
  have s: "quietly (assign (set_wpc w))" for w by (rule quietlyI) (auto simp: assign_def)
  show "quietly (wpc_asic_read a)" unfolding wpc_asic_read_def Let_def
    by (rule quietly_with_wpc, rule quietlyI) (auto split: if_splits dest: p)
  show "quietly (wpc_asic_write a v)" unfolding wpc_asic_write_def Let_def
    by (rule quietly_with_wpc, rule quietlyI) (auto split: if_splits option.splits dest: p intro: p(8) [OF s] p(9) [OF s])
qed

lemma quietly_devices:
  "quietly (ram_read sz buf a)" "quietly (ram_write dv sz mk buf a v)" "quietly (console_read a)" "quietly (console_write a v)"
  "quietly (mmu_read a)" "quietly (mmu_write a v)" "quietly (small_mmu_read mmu a)" "quietly (small_mmu_write dv mmu a v)"
  "quietly (imux_read mux a)" "quietly (hwtimer_read tm a)" "quietly (hwtimer_write dv tm a v)" "quietly (serial_read dv port a)"
  "quietly (serial_write dv port a v)" "quietly (disk_write dv disk a v)"
proof -
  have b: "same_table s t" if "bus_map x d off len fl u = Ret w t" "same_table s u" for x d off len fl u w s t
    using that quietlyD [OF quietly_bus_map] same_table_trans by blast
  show "quietly (mmu_write a v)" "quietly (small_mmu_write dv mmu a v)"
    by (rule quietlyI, auto simp: mmu_write_def small_mmu_write_def Let_def intro: b split: if_splits)+
  show "quietly (disk_write dv disk a v)"
    by (rule quietlyI) (auto simp: disk_write_def disk_ctrl_def disk_fread_def disk_fwrite_def Let_def split: if_splits option.splits prod.splits)
  show "quietly (serial_read dv port a)"
    by (rule quietlyI) (auto simp: serial_read_def serial_poll_def bindE_def bindR_Ret_iff Let_def split: if_splits option.splits prod.splits list.splits)
qed (rule quietlyI, auto simp: ram_read_def ram_write_def console_read_def console_write_def sim_exit_def mmu_read_def small_mmu_read_def
    imux_read_def hwtimer_read_def hwtimer_write_def serial_write_def assign_def Let_def split: if_splits list.splits)+

lemma quietly_dev_read: "quietly (dev_read n dv a)"
proof (induction n arbitrary: dv a)
  case (Suc n)
  have x: "quietly (ioexpand_read (dev_read n) iom a)" for iom
  proof (rule quietlyI)
    fix s v t assume "ioexpand_read (dev_read n) iom a s = Ret v t"
    then show "same_table s t" using quietlyD [OF Suc.IH]
      by (auto simp: ioexpand_read_def Let_def bindE_def bindR_Ret_iff split: if_splits option.splits)
  qed
  show ?case
    by (rule quietlyI) (auto split: option.splits priv.splits dest: quietlyD [OF x] quietly_devices [THEN quietlyD] quietly_wpc_asic [THEN quietlyD])
qed (simp add: quietly_def)

section \<open>The interface\<close>

lemma quietly_safe: "quietly m \<Longrightarrow> table_safe m"
  by (rule table_safeI) (blast dest: quietlyD breaks_ok_same)

lemma safe_bindE: "table_safe e \<Longrightarrow> (\<And>v. table_safe (f v)) \<Longrightarrow> table_safe (bindE e f)"
  unfolding table_safe_def bindE_def [abs_def] by (rule triple_bind)

lemma safe_Cons: "table_safe m \<Longrightarrow> table_safe (block ms) \<Longrightarrow> table_safe (block (m # ms))"
  unfolding table_safe_def by (rule triple_block_Cons)

lemma safe_Nil: "table_safe (block [])"
  by (rule quietly_safe [OF quietly_Nil])

lemma safe_if: "table_safe m1 \<Longrightarrow> table_safe m2 \<Longrightarrow> table_safe (\<lambda>s. if b s then m1 s else m2 s)"
  unfolding table_safe_def by (rule triple_if)

lemma safe_doif: "table_safe m \<Longrightarrow> table_safe (doif b m)" "table_safe m \<Longrightarrow> table_safe (\<lambda>s. doif (g s) m s)"
  by (auto simp: table_safe_def triple_def doif_def)

lemma safe_of_state: "(\<And>u. table_safe (m u)) \<Longrightarrow> table_safe (\<lambda>s. m (f s) s)"
  unfolding table_safe_def by (rule triple_of_state)

lemma safe_processor: "(\<And>s. mch (f s) = mch s) \<Longrightarrow> table_safe (assign f)" "(\<And>s. mch (f s) = mch s) \<Longrightarrow> table_safe (\<lambda>s. Ret v (f s))"
  by (auto simp: table_safe_def triple_def assign_def breaks_ok_def)

lemma safe_basic: "table_safe (Ret x)" "table_safe (\<lambda>_. UB)" "table_safe (clk n)" "table_safe (change_pc p)" "table_safe sim_error"
  by (simp_all add: quietly_safe quietly_basic) (simp_all add: table_safe_def triple_def clk_def change_pc_def breaks_ok_def)

lemmas safe_rules = safe_Cons safe_Nil safe_basic safe_bindE safe_if safe_doif

locale table_bus =
  fixes io :: "sys iface"
  assumes read8_safe: "table_safe (read8 io a)"
    and read16_safe: "table_safe (read16 io a)"
    and write8_safe: "table_safe (write8 io a v)"
begin

lemma push_safe: "table_safe (push_s8 io f)" "table_safe (push_s16 io f)"
proof -
  have w: "table_safe (write_stack io a v)" "table_safe (write_stack16 io a v)" for a v
    unfolding write_stack_def WRMEM_def write_stack16_def by (intro safe_rules write8_safe)+
  have s: "table_safe (\<lambda>s. write_stack io (g s) (h s) s)" "table_safe (\<lambda>s. write_stack16 io (g s) (h s) s)" for g h
    using table_safeD [OF w(1)] table_safeD [OF w(2)] by (blast intro: table_safeI)+
  show "table_safe (push_s8 io f)" "table_safe (push_s16 io f)"
    unfolding push_s8_def push_s16_def by (rule safe_Cons, rule safe_processor, simp, rule safe_Cons, rule s, rule safe_Nil)+
qed

lemma interrupt_safe: "table_safe (irq io)" "table_safe (firq io)"
proof -
  have st: "table_safe (stack_machine_state io full)" for full
    unfolding stack_machine_state_def by (auto intro!: safe_rules push_safe safe_processor)
  have v: "table_safe (goto_vector io a)" for a
    unfolding goto_vector_def rd16_def by (intro safe_rules read16_safe)
  show "table_safe (irq io)" "table_safe (firq io)"
    unfolding irq_def firq_def by (intro safe_rules st v safe_processor; simp)+
qed

lemma refresh_safe: "table_safe (imux_refresh io mux)"
proof -
  have "table_safe (request_irq io k)" "table_safe (request_firq io k)" "table_safe (release_irq k)" "table_safe (release_firq k)" for k
    unfolding request_irq_def request_firq_def release_irq_def [abs_def] release_firq_def [abs_def]
    by (intro safe_rules safe_processor interrupt_safe; simp)+
  then show ?thesis by (simp add: imux_refresh_def)
qed

lemma dev_write_safe: "table_safe (dev_write n io dv a v)"
proof (induction n arbitrary: dv a)
  case (Suc n)
  have x: "table_safe (ioexpand_write (dev_write n io) iom a v)" for iom
  proof (rule table_safeI)
    fix s w t assume "breaks_ok s" "ioexpand_write (dev_write n io) iom a v s = Ret w t"
    then show "breaks_ok t" using table_safeD [OF Suc.IH]
      by (auto simp: ioexpand_write_def Let_def bindE_def bindR_Ret_iff split: if_splits option.splits)
  qed
  have m: "table_safe (imux_write io dv mux a v)" for mux
  proof -
    have "table_safe (assign (set_priv dv p))" for p by (rule quietly_safe, rule quietlyI) (auto simp: assign_def)
    then show ?thesis unfolding imux_write_def Let_def by (intro safe_rules refresh_safe)
  qed
  show ?case
    by (rule table_safeI) (auto split: option.splits priv.splits dest: table_safeD [OF x] table_safeD [OF m]
        quietly_devices [THEN quietly_safe, THEN table_safeD] quietly_wpc_asic [THEN quietly_safe, THEN table_safeD])
qed (simp add: table_safe_def triple_def)

lemma abs_write8_safe: "table_safe (abs_write8 io a v)"
  unfolding abs_write8_def by (rule dev_write_safe)

end

section \<open>The evaluator\<close>

lemma quietly_symbols: "quietly (find_symbol env tab name)"
  by (rule quietlyI) (auto simp: find_symbol_def bindE_def bindR_Ret_iff on_symbols_def split: outcome.splits prod.splits)

lemma quietly_reads: "quietly (abs_read8 a)" "quietly (target_read a n)"
proof -
  show r: "quietly (abs_read8 a)" for a
    unfolding abs_read8_def by (intro quietly_rules quietly_access quietly_dev_read)
  show "quietly (target_read a n)" unfolding target_read_def by (simp add: quietly_rules r)
qed

lemma quietly_virtual:
  "quietly (virtual_get v x)" "quietly (virtual_set v x)" "quietly (eval_dollar env e f)" "quietly (assign_virtual env name x f)"
proof -
  show g: "quietly (virtual_get v x)" for v x
    by (rule quietlyI) (auto simp: virtual_get_def split: virtual.splits)
  show s: "quietly (virtual_set v x)" for v x
    by (rule quietlyI, cases v) (auto simp: virtual_set_def set_pc_def set_x_def set_y_def set_u_def set_s_def set_d_def set_a_def set_b_def set_dp_def
        set_cc_def same_table_def set_mch_def)
  have c: "quietly (call_virtual env p h)" if "\<And>v. quietly (h v)" for p and h :: "virtual \<Rightarrow> (sys, 'b) expr"
    by (rule quietlyI) (auto simp: call_virtual_def dest: quietlyD [OF that] split: option.splits)
  have h: "quietly (eval_historical env n)" for n
    by (rule quietlyI) (auto simp: eval_historical_def Let_def split: if_splits)
  have t: "quietly (\<lambda>s. Ret w (set_mch (\<lambda>m. m\<lparr>thread_current := k\<rparr>) s))" for w k by (rule quietlyI) auto
  have "quietly (eval_virtual env nm f)" for nm
    unfolding eval_virtual_def by (auto intro!: quietly_rules quietly_symbols c g split: option.split)
  then show "quietly (eval_dollar env e f)" unfolding eval_dollar_def by (auto intro!: quietly_rules h)
  show "quietly (assign_virtual env name x f)"
    unfolding assign_virtual_def by (auto intro!: quietly_rules quietly_symbols c s t split: option.split)
qed

lemma safe_operands: "(\<And>f. table_safe (m1 f)) \<Longrightarrow> (\<And>f. table_safe (m2 f)) \<Longrightarrow> table_safe (operands b m1 m2 e)"
  unfolding operands_def by (auto intro!: safe_rules split: prod.split)

lemma safe_fold_op: "(\<And>f. table_safe (m1 f)) \<Longrightarrow> (\<And>f. table_safe (m2 f)) \<Longrightarrow> table_safe (fold_op c m1 m2 e)"
  unfolding fold_op_def by (auto intro!: safe_rules safe_operands split: prod.split)

lemma safe_deref: "table_safe (deref mode x)"
  unfolding deref_def by (auto intro!: quietly_safe quietly_rules quietly_reads split: prod.split)

lemma safe_assign:
  assumes "table_bus io" "\<And>f. table_safe (lv f)"
  shows "table_safe (eval_assign io env e lv x)"
  unfolding eval_assign_def
  by (auto intro!: safe_rules assms(2) table_bus.abs_write8_safe [OF assms(1)] quietly_safe [OF quietly_virtual(4)] split: prod.split)

text \<open>The branches of the evaluator, each with what its test found.\<close>

lemma safe_case: "(x = None \<Longrightarrow> table_safe m) \<Longrightarrow> (\<And>l r. x = Some (l, r) \<Longrightarrow> table_safe (h l r)) \<Longrightarrow>
    table_safe (case x of Some (l, r) \<Rightarrow> h l r | None \<Rightarrow> m)"
  by (cases x) auto

lemma safe_cond: "(b \<Longrightarrow> table_safe m1) \<Longrightarrow> (\<not> b \<Longrightarrow> table_safe m2) \<Longrightarrow> table_safe (if b then m1 else m2)"
  by simp

lemma safe_symbol_address: "table_safe (symbol_address env e f)"
  unfolding symbol_address_def by (intro quietly_safe) (auto intro!: quietly_rules quietly_symbols split: option.split)

lemma safe_pairs:
  "table_safe (case x of (p, f) \<Rightarrow> (case p of (a, b) \<Rightarrow> \<lambda>f. Ret (g a b, f)) f)"
  "table_safe (case x of (p, f) \<Rightarrow> (case p of (a, b) \<Rightarrow> \<lambda>f. deref mode (k a b, f)) f)" "table_safe (literal e f)"
  by (auto simp: literal_def Let_def safe_deref safe_basic split: prod.split)

lemma eval_safe:
  assumes "table_bus io"
  shows "table_safe (eval io env e f)" "table_safe (eval_mem io env e mode f)"
  using assms
proof (induction io env e and io env e arbitrary: f and mode f rule: eval_eval_mem.induct)
  case (1 io env e)
  show ?case unfolding eval.simps [of io env e]
    by (rule safe_case safe_cond safe_bindE safe_operands safe_fold_op safe_assign [OF \<open>table_bus io\<close>] quietly_safe [OF quietly_virtual(3)] safe_pairs
        | (rule 1; (assumption | rule refl \<open>table_bus io\<close>)))+
next
  case (2 io env e)
  have a: "table_safe (case x of (v, g) \<Rightarrow> bindE (to_absolute (unat (v :: u64))) (\<lambda>a. deref mode (of_nat a, g)))" for x
    by (cases x) (auto intro!: safe_bindE safe_deref quietly_safe [OF quietly_access(6)])
  show ?case unfolding eval_mem.simps [of io env e]
    by (rule safe_case safe_cond safe_bindE safe_operands safe_pairs safe_symbol_address safe_deref a
        | (rule 2; (assumption | rule refl \<open>table_bus io\<close>)))+
qed

section \<open>The hooks and the bus\<close>

text \<open>The debugger of the program: the conditions of breakpoints are evaluated over the bus that the processor works
  on, whose hooks may evaluate further conditions. \<open>n\<close> bounds the levels of such nesting; at the bottom the
  evaluation does not return.\<close>

primrec nested_debugger :: "eval_env \<Rightarrow> (sys, int) expr \<Rightarrow> nat \<Rightarrow> debugger" where
  "nested_debugger env mon 0 = \<lparr>dbg_eval = (\<lambda>_ _. NoFuel), dbg_monitor = mon\<rparr>"
| "nested_debugger env mon (Suc n) = eval_debugger (sys_bus (nested_debugger env mon n) n) env mon"

lemma hooks_safe:
  assumes "\<forall>e. table_safe (dbg_eval dbg e)"
  shows "table_safe (command_read_hook dbg a)" "table_safe (command_write_hook dbg a v)" "table_safe (command_insn_hook dbg)"
proof -
  have hit: "table_safe (breakpoint_hit dbg n)" for n
    using breakpoint_hit_ok [OF assms] by (auto intro: table_safeI)
  show "table_safe (command_insn_hook dbg)"
    using insn_hook_ok [OF assms] by (auto intro: table_safeI)
  show "table_safe (command_read_hook dbg a)"
    by (rule table_safeI) (auto simp: command_read_hook_def doif_def dest: table_safeD [OF hit] split: if_splits option.splits)
  have "quietly command_change_thread"
  proof (rule quietlyI)
    fix s v t
    assume r: "command_change_thread s = Ret v t"
    have "quietly (assign (set_mch (\<lambda>m. m\<lparr>thread_id := th\<rparr>)))" for th by (rule quietlyI) (auto simp: assign_def)
    then have "quietly (bindE (target_read x k) (\<lambda>addr. bindE (to_absolute (unat addr)) (\<lambda>th. assign (set_mch (\<lambda>m. m\<lparr>thread_id := th\<rparr>)))))" for x k
      by (intro quietly_rules quietly_reads quietly_access)
    from quietlyD [OF this] r show "same_table s t" unfolding command_change_thread_def by blast
  qed
  then have th: "table_safe (\<lambda>s. doif (g s) command_change_thread s)" for g by (intro safe_rules quietly_safe)
  have edit: "breaks_ok (set_mch (\<lambda>m. m\<lparr>breaktab := (breaktab m)[n := (breaktab (mch s) ! n)\<lparr>br_last_write := w\<rparr>]\<rparr>) s)" if "breaks_ok s" for n w s
    using edit_breakpoint_ok [OF that, of "\<lambda>br. br\<lparr>br_last_write := w\<rparr>" n] by (simp add: edit_breakpoint_def set_mch_def)
  have both: "table_safe (block [breakpoint_hit dbg n, \<lambda>s. doif (g s) command_change_thread s])" for n g
    by (intro safe_Cons safe_Nil hit th)
  show "table_safe (command_write_hook dbg a v)"
  proof (rule table_safeI)
    fix s u t
    assume "breaks_ok s" "command_write_hook dbg a v s = Ret u t"
    then show "breaks_ok t"
      by (auto simp: command_write_hook_def Let_def simp del: block.simps split: if_splits option.splits
          dest: table_safeD [OF th] table_safeD [OF both] intro: edit table_safeD [OF both, OF _ edit])
  qed
qed

lemma accesses_safe:
  assumes "\<forall>e. table_safe (dbg_eval dbg e)"
  shows "table_safe (cpu_read8 dbg a)" "table_safe (cpu_read16 dbg a)" "table_bus io \<Longrightarrow> table_safe (cpu_write8 dbg io a v)"
proof -
  have d: "table_safe (dev_read n dv a)" for n dv a by (rule quietly_safe [OF quietly_dev_read])
  note q = quietly_access [THEN quietly_safe]
  show "table_safe (cpu_read8 dbg a)" "table_safe (cpu_read16 dbg a)"
    unfolding cpu_read8_def cpu_read16_def Let_def by (intro safe_rules q d hooks_safe assms)+
  assume "table_bus io"
  then show "table_safe (cpu_write8 dbg io a v)"
    unfolding cpu_write8_def Let_def by (intro safe_rules q hooks_safe assms table_bus.dev_write_safe)
qed

lemma sys_table_bus: "\<forall>e. table_safe (dbg_eval dbg e) \<Longrightarrow> table_bus (sys_bus dbg n)"
proof (induction n)
  case 0
  then show ?case
    by unfold_locales (auto simp: sys_bus.simps accesses_safe table_safe_def [where m = "\<lambda>_. NoFuel"] triple_def)
next
  case (Suc n)
  then show ?case by unfold_locales (auto simp: sys_bus.simps accesses_safe)
qed

lemma nested_safe: "table_safe (dbg_eval (nested_debugger env mon n) e)"
proof (induction n arbitrary: e)
  case 0
  then show ?case by (simp add: table_safe_def triple_def)
next
  case (Suc n)
  have "table_safe (eval (sys_bus (nested_debugger env mon n) n) env e 0)"
    by (rule eval_safe [OF sys_table_bus]) (simp add: Suc)
  then show ?case by (auto simp: eval_debugger_def intro!: safe_rules split: prod.split)
qed

interpretation nested: table_bus "sys_bus (nested_debugger env mon k) n" for env mon k n
  by (rule sys_table_bus) (simp add: nested_safe)

section \<open>The invariant\<close>

text \<open>(C9) The breakpoint table: the number of active breakpoints, with which the hooks of every access and instruction
  skip the table, stays the number of enabled entries, and only entries in use are enabled. This holds when
  breakpoints are set, deleted by number or all together, when temporary ones are dropped, at the instruction hook, at
  every read and write of the processor with its watchpoints, and when an expression is evaluated. The conditions of
  breakpoints may be any expressions, also assignments that write to devices, fire further watchpoints or let an
  interrupt in. A new breakpoint takes an entry that was free, and setting one fails only when all entries are used.\<close>

theorem breakpoint_table_invariant:
  assumes "breaks_ok (dsys c)"
  shows "breaks_ok (brkfree_temps (dsys c))
    \<and> (\<forall>c'. cmd_delete c = Ret () c' \<longrightarrow> breaks_ok (dsys c'))
    \<and> (\<forall>f n c'. (\<forall>br. br_enabled (f br) = br_enabled br \<and> br_used (f br) = br_used br) \<longrightarrow> new_breakpoint f c = Ret n c' \<longrightarrow>
         breaks_ok (dsys c') \<and> \<not> br_used (breaktab (mch (dsys c)) ! n))
    \<and> (\<forall>f. new_breakpoint f c = UB \<longrightarrow> (\<forall>br \<in> set (breaktab (mch (dsys c))). br_used br))
    \<and> (\<forall>t. command_insn_hook (nested_debugger env mon n) (dsys c) = Ret () t \<longrightarrow> breaks_ok t)
    \<and> (\<forall>a v t. cpu_read8 (nested_debugger env mon n) a (dsys c) = Ret v t \<longrightarrow> breaks_ok t)
    \<and> (\<forall>a v t. cpu_read16 (nested_debugger env mon n) a (dsys c) = Ret v t \<longrightarrow> breaks_ok t)
    \<and> (\<forall>a v t. cpu_write8 (nested_debugger env mon n) (sys_bus (nested_debugger env mon n) k) a v (dsys c) = Ret () t \<longrightarrow> breaks_ok t)
    \<and> (\<forall>e r t. eval (sys_bus (nested_debugger env mon n) k) env e f (dsys c) = Ret r t \<longrightarrow> breaks_ok t)"
proof (intro conjI allI impI ballI)
  have dbg: "\<forall>e. table_safe (dbg_eval (nested_debugger env mon n) e)" by (simp add: nested_safe)
  note safe = hooks_safe(3) [OF dbg] accesses_safe [OF dbg] nested.table_bus_axioms
  show "breaks_ok (brkfree_temps (dsys c))" using assms by (rule brkfree_temps_ok)
  show "breaks_ok (dsys c')" if "cmd_delete c = Ret () c'" for c'
    using that assms brkfree_ok [OF assms] delete_all_ok [OF assms]
    by (auto simp: cmd_delete_def getarg_def bindE_def print_def assign_def doif_def Let_def breaks_ok_def breaks_good_def split: list.splits if_splits)
  show "breaks_ok (dsys c')" "\<not> br_used (breaktab (mch (dsys c)) ! n)"
    if "\<forall>br. br_enabled (f br) = br_enabled br \<and> br_used (f br) = br_used br" "new_breakpoint f c = Ret n c'" for f n c'
    using that new_breakpoint_tab [of f c n c'] assms by simp_all
  show "br_used br" if "new_breakpoint f c = UB" "br \<in> set (breaktab (mch (dsys c)))" for f br
    using that by (auto simp: new_breakpoint_def brkalloc_def find_None_iff in_set_conv_nth split: option.splits)
  show "breaks_ok t" if "command_insn_hook (nested_debugger env mon n) (dsys c) = Ret () t" for t
    by (rule table_safeD [OF safe(1) that assms])
  show "breaks_ok t" if "cpu_read8 (nested_debugger env mon n) a (dsys c) = Ret v t" for a v t
    by (rule table_safeD [OF safe(2) that assms])
  show "breaks_ok t" if "cpu_read16 (nested_debugger env mon n) a (dsys c) = Ret v t" for a v t
    by (rule table_safeD [OF safe(3) that assms])
  show "breaks_ok t" if "cpu_write8 (nested_debugger env mon n) (sys_bus (nested_debugger env mon n) k) a v (dsys c) = Ret () t" for a v t
    by (rule table_safeD [OF safe(4) that assms]) (rule safe(5))
  show "breaks_ok t" if "eval (sys_bus (nested_debugger env mon n) k) env e f (dsys c) = Ret r t" for e r t
    by (rule table_safeD [OF eval_safe(1) that assms]) (rule safe(5))
qed

text \<open>A breakpoint at the first address whose condition is an assignment to memory.\<close>

definition armed_machine :: sys where
  "armed_machine = set_mch (\<lambda>m. m\<lparr>active_break_count := 1, breaktab := (breaktab m)[0 := (breaktab m ! 0)\<lparr>br_used := True, br_enabled := True,
     br_conditional := True, br_on_execute := True, br_condition := ''var=0x12345''\<rparr>]\<rparr>) memory_machine"

lemma armed_ok: "breaks_ok armed_machine"
  by (simp add: armed_machine_def set_mch_def memory_machine_def breaks_ok_def breaks_good_def machine_power_on_def MAX_BREAKS_def
      numeral_eq_Suc nth_Cons')

lemma armed_stops:
  "\<exists>t. command_insn_hook (nested_debugger (sample_env\<lparr>the_symbols := one_symbol\<rparr>) mon (Suc 0)) armed_machine = Ret () t \<and> monitor_on t"
proof -
  let ?env = "sample_env\<lparr>the_symbols := one_symbol\<rparr>" and ?dbg = "nested_debugger (sample_env\<lparr>the_symbols := one_symbol\<rparr>) mon (Suc 0)"
  obtain u where u: "command_trace_insn (get_pc armed_machine) armed_machine = Ret () u" "get_pc armed_machine = 0"
      "mch u = (mch armed_machine)\<lparr>trace_buffer := trace_buffer (mch u), trace_offset := trace_offset (mch u)\<rparr>"
    by (simp add: command_trace_insn_def armed_machine_def memory_machine_def machine_power_on_def set_mch_def MAX_TRACE_def get_pc_def)
  have m: "mch armed_machine = machine_power_on\<lparr>device_table := [\<lparr>dev_size = 256, dev_priv = Ram_dev (\<lambda>_. 0)\<rparr>], active_break_count := 1,
      breaktab := (breaktab machine_power_on)[0 := (breaktab machine_power_on ! 0)\<lparr>br_used := True, br_enabled := True,
        br_conditional := True, br_on_execute := True, br_condition := ''var=0x12345''\<rparr>]\<rparr>"
    by (simp add: armed_machine_def memory_machine_def set_mch_def)
  have tab: "breaktab (mch u) ! 0 = (breaktab machine_power_on ! 0)\<lparr>br_used := True, br_enabled := True,
        br_conditional := True, br_on_execute := True, br_condition := ''var=0x12345''\<rparr>" "length (breaktab (mch u)) = 32"
      "active_break_count (mch u) = 1" "device_table (mch u) = [\<lparr>dev_size = 256, dev_priv = Ram_dev (\<lambda>_. 0)\<rparr>]" "busmaps (mch u) = busmaps machine_power_on"
    by (subst u(3), simp add: m machine_power_on_def MAX_BREAKS_def)+
  have entry: "breaktab machine_power_on ! 0 = \<lparr>br_used = False, br_enabled = False, br_conditional = False, br_threaded = False,
       br_on_read = False, br_on_write = False, br_on_execute = False, br_keep_running = False, br_temp = False,
       br_last_write = 0, br_write_mask = 0, br_addr = 0, br_condition = [], br_tid = 0, br_ignore_count = 0\<rparr>"
    by (simp add: machine_power_on_def MAX_BREAKS_def)
  have "eval io ?env (''var'' @ CHR ''='' # ''0x12345'') 0 u = Ret (0x12345, 0) (set_priv 0 (Ram_dev ((\<lambda>_. 0)(0x10 := ucast (0x12345 :: u64)))) u)" for io
    by (rule assignment_stores [where a = "0x10"]) (simp_all add: is_symbol_def isalpha_def one_symbol_find eval_literals ram_cell_def tab)
  then have ev: "dbg_eval ?dbg ''var=0x12345'' u = Ret 0x12345 (set_priv 0 (Ram_dev ((\<lambda>_. 0)(0x10 := ucast (0x12345 :: u64)))) u)"
    by (simp add: eval_debugger_def bindE_def)
  obtain w where hit: "breakpoint_hit ?dbg 0 u = Ret () w" "monitor_on w" "\<not> br_temp (breaktab (mch w) ! 0)"
    using ev tab(1,2) entry by (simp add: breakpoint_hit_def bindE_def Let_def set_priv_def set_mch_def del: nested_debugger.simps)
  have "to_absolute 0 u = Ret 0 u"
    by (simp add: to_absolute_def bindE_def find_map_def tab(5) machine_power_on_def bus_sizes absolute_from_reladdr_def)
  moreover have "brkfind_by_addr 0 u = Some 0"
    unfolding brkfind_by_addr_def find_Some_iff using tab(1,2) entry by (auto intro!: exI [of _ 0])
  ultimately show ?thesis
    using u(1,2) hit tab(1,3) entry by (simp add: command_insn_hook_def Let_def doif_def bindE_def del: nested_debugger.simps)
qed

theorem breakpoint_table_invariant_witness:
  "\<forall>mon. \<exists>t. command_insn_hook (nested_debugger (sample_env\<lparr>the_symbols := one_symbol\<rparr>) mon (Suc 0)) armed_machine = Ret () t
    \<and> monitor_on t \<and> breaks_ok t"
proof
  fix mon
  obtain t where t: "command_insn_hook (nested_debugger (sample_env\<lparr>the_symbols := one_symbol\<rparr>) mon (Suc 0)) armed_machine = Ret () t" "monitor_on t"
    using armed_stops by blast
  have "breaks_ok t"
    using breakpoint_table_invariant [of "sample_console\<lparr>dsys := armed_machine\<rparr>" "sample_env\<lparr>the_symbols := one_symbol\<rparr>" mon "Suc 0"] armed_ok t(1)
    by simp
  with t show "\<exists>t. command_insn_hook (nested_debugger (sample_env\<lparr>the_symbols := one_symbol\<rparr>) mon (Suc 0)) armed_machine = Ret () t
    \<and> monitor_on t \<and> breaks_ok t" by blast
qed

end
