(* ===== verification/Sbc.thy ===== *)
theory Sbc
  imports Debugger_Eval
begin

text \<open>
  The boards of \<^verbatim>\<open>miscsbc.c\<close>: Scroungemaster II, Multicomp 09 and KIPPER1. The variables of the file and the
  machine of \<^verbatim>\<open>machine.c\<close> together are the record \<open>sbc_state\<close>, which extends the state of the processor; what other
  files do works on its part \<open>sb_mach\<close>. The initialisers set the functions of \<^verbatim>\<open>console_class\<close>, which the bus of
  the boards, \<open>sbc_bus\<close>, follows. Files are lists of bytes; the log file and the diagnostics on the terminal are
  output that no code reads back.
\<close>

section \<open>State\<close>

definition CharFIFO_SIZE :: nat where "CharFIFO_SIZE = 8"

record char_fifo =
  cf_wr :: nat
  cf_rd :: nat
  cf_empty :: bool
  cf_data :: "u8 list"

datatype console_ops = Plain_console | Smii_console | Multicomp_console | Kipper1_console

record sbc_state =
  sb_mach :: machine_state
  sb_syms :: symstate
  console_class :: console_ops
  smii_i_avail :: u32
  smii_o_busy :: u32
  mc_mmuadr :: u8
  mc_mmufrt :: u8
  mc_mmudat :: u8
  mc_timer :: u8
  mc_pblk :: "u8 list"
  mc_sdlba2 :: u8
  mc_sdlba1 :: u8
  mc_sdlba0 :: u8
  mc_data :: "u8 list"
  mc_addr :: u32
  mc_state :: nat
  mc_poll :: nat
  mc_dindex :: nat
  uart0_rx_fifo :: char_fifo
  uart0_wr_status :: u8
  mc_romdev :: nat
  mc_ramdev :: nat
  mc_iodev :: nat
  mc_consoledev :: nat
  mc_sdmapperdev :: nat
  sd_file :: "u8 list option"
  batch_file :: "u8 list option"

type_synonym sbcsys = "sbc_state cpu_scheme"

definition set_sbc :: "(sbc_state \<Rightarrow> sbc_state) \<Rightarrow> sbcsys \<Rightarrow> sbcsys" where
  "set_sbc f s = s\<lparr>cpu.more := f (cpu.more s)\<rparr>"

text \<open>A step of the other files, on the processor and the machine.\<close>

definition low :: "sbcsys \<Rightarrow> sys" where
  "low s = cpu.extend (cpu.truncate s) (sb_mach (cpu.more s))"

definition raise :: "sys \<Rightarrow> sbcsys \<Rightarrow> sbcsys" where
  "raise t s = cpu.extend (cpu.truncate t) ((cpu.more s)\<lparr>sb_mach := mch t\<rparr>)"

definition on_low :: "(sys, 'a) expr \<Rightarrow> (sbcsys, 'a) expr" where
  "on_low m s = (case m (low s) of
     Ret v t \<Rightarrow> Ret v (raise t s) | Exit n t \<Rightarrow> Exit n (raise t s) | UB \<Rightarrow> UB | NoFuel \<Rightarrow> NoFuel)"

section \<open>Terminal\<close>

text \<open>\<^verbatim>\<open>kbhit\<close> asks the host, \<^verbatim>\<open>kbchar\<close> reads one character; at the end of input its result is indeterminate.
  \<^verbatim>\<open>getchar\<close> returns EOF there, cut to 0xff.\<close>

definition kbhit :: "(sys, bool) expr" where
  "kbhit s = (case host_sel (mch s) of
     [] \<Rightarrow> Ret False s | x # xs \<Rightarrow> Ret (fst x) (set_mch (\<lambda>m. m\<lparr>host_sel := xs\<rparr>) s))"

definition kbchar :: "(sys, u8) expr" where
  "kbchar s = (case host_in (mch s) 0 of
     [] \<Rightarrow> UB | c # cs \<Rightarrow> Ret c (set_mch (\<lambda>m. m\<lparr>host_in := (host_in m)(0 := cs)\<rparr>) s))"

definition getchar :: "(sys, u8) expr" where
  "getchar s = (case host_in (mch s) 0 of
     [] \<Rightarrow> Ret 0xff s | c # cs \<Rightarrow> Ret c (set_mch (\<lambda>m. m\<lparr>host_in := (host_in m)(0 := cs)\<rparr>) s))"

definition putchar :: "u8 \<Rightarrow> sys stmt" where
  "putchar c s = Ret () (put_host 1 c s)"

text \<open>The blocking consoles take the batch file first and the keyboard when it is exhausted.\<close>

definition batch_char :: "(sbcsys, u8) expr" where
  "batch_char s = (case batch_file (cpu.more s) of
     Some (c # cs) \<Rightarrow> Ret c (set_sbc (\<lambda>b. b\<lparr>batch_file := Some cs\<rparr>) s)
   | _ \<Rightarrow> on_low getchar s)"

text \<open>Key conversions to make the keyboard look DOS-like.\<close>

definition dos_key :: "u8 \<Rightarrow> u8" where
  "dos_key ch = (if ch = 127 then 8 else if ch = 10 then 13 else ch)"

section \<open>Scroungemaster II\<close>

definition smii_console_read :: "nat \<Rightarrow> (sbcsys, u8) expr" where
  "smii_console_read addr s =
     (if addr = 2 then
        let busy = (if smii_o_busy (cpu.more s) = 0 then 0 else (smii_o_busy (cpu.more s) + 1) mod 4)
        in Ret (ucast (smii_i_avail (cpu.more s) AND 1) OR (if busy = 0 then 4 else 0)) (set_sbc (\<lambda>b. b\<lparr>smii_o_busy := busy\<rparr>) s)
      else if addr = 3 then bindE batch_char (\<lambda>ch. Ret (dos_key ch)) s
      else Ret 0x42 s)"

definition smii_console_write :: "nat \<Rightarrow> u8 \<Rightarrow> sbcsys stmt" where
  "smii_console_write addr val s =
     (if addr = 3 then block [assign (set_sbc (\<lambda>b. b\<lparr>smii_o_busy := 1\<rparr>)), on_low (putchar val)] s else Ret () s)"

definition on_syms :: "(symstate, 'a) expr \<Rightarrow> (sbcsys, 'a) expr" where
  "on_syms m s = (case m (sb_syms (cpu.more s)) of
     Ret v t \<Rightarrow> Ret v (set_sbc (\<lambda>b. b\<lparr>sb_syms := t\<rparr>) s) | Exit n t \<Rightarrow> Exit n s | UB \<Rightarrow> UB | NoFuel \<Rightarrow> NoFuel)"

definition name_port :: "string \<Rightarrow> nat \<Rightarrow> sbcsys stmt" where
  "name_port name addr = bindE (on_low (to_absolute addr)) (\<lambda>a.
     bindE (on_syms (sym_add internal_symtab name (of_nat a) 0)) (\<lambda>_. Ret ()))"

definition smii_init :: "u8 list option \<Rightarrow> u8 list option \<Rightarrow> sbcsys stmt" where
  "smii_init boot_rom batch = block [
     on_low (bindE (ram_create 0x7c00) (\<lambda>ram. device_define ram 0 0 0x7c00 MAP_READWRITE)),
     bindE (on_low (rom_create boot_rom 0x2000)) (\<lambda>rom. block ([
       on_low (device_define rom 0 0xe000 0x2000 MAP_READABLE),
       on_low (bindE null_create (\<lambda>quiet. block (map (\<lambda>a. device_define quiet 0 a BUS_MAP_SIZE MAP_IGNOREWRITE)
         [0x8000, 0x9000, 0xa000, 0xb000, 0xc000, 0xd000]))),
       on_low (device_define rom 0 0xe000 BUS_MAP_SIZE (MAP_IGNOREWRITE OR MAP_READABLE)),
       on_low (device_define rom 0x1000 0xf000 BUS_MAP_SIZE (MAP_IGNOREWRITE OR MAP_READABLE))])),
     name_port ''SCCACMD'' 0x7c02,
     name_port ''SCCADTA'' 0x7c03,
     bindE (on_low console_create) (\<lambda>con. block [
       assign (set_sbc (\<lambda>b. b\<lparr>console_class := Smii_console\<rparr>)),
       on_low (device_define con 0 0x7c00 BUS_MAP_SIZE MAP_READWRITE)]),
     assign (set_sbc (\<lambda>b. b\<lparr>batch_file := batch\<rparr>))]"

section \<open>KIPPER1\<close>

definition kipper1_console_read :: "nat \<Rightarrow> (sbcsys, u8) expr" where
  "kipper1_console_read addr =
     (if addr = 0 then Ret 3 else if addr = 1 then bindE batch_char (\<lambda>ch. Ret (dos_key ch)) else Ret 0x42)"

definition kipper1_console_write :: "nat \<Rightarrow> u8 \<Rightarrow> sbcsys stmt" where
  "kipper1_console_write addr val = (if addr = 1 then on_low (putchar val) else Ret ())"

definition kipper1_init :: "u8 list option \<Rightarrow> u8 list option \<Rightarrow> sbcsys stmt" where
  "kipper1_init boot_rom batch = block [
     on_low (bindE (ram_create 0x8000) (\<lambda>ram. device_define ram 0 0 0x8000 MAP_READWRITE)),
     on_low (bindE (rom_create boot_rom 0x4000) (\<lambda>rom. device_define rom 0 0xc000 0x4000 MAP_READABLE)),
     bindE (on_low console_create) (\<lambda>con. block [
       assign (set_sbc (\<lambda>b. b\<lparr>console_class := Kipper1_console\<rparr>)),
       on_low (device_define con 0 0xa000 BUS_MAP_SIZE MAP_READWRITE)]),
     assign (set_sbc (\<lambda>b. b\<lparr>batch_file := batch\<rparr>))]"

section \<open>Multicomp 09: the UART\<close>

definition fifo_put :: "u8 \<Rightarrow> char_fifo \<Rightarrow> char_fifo" where
  "fifo_put ch f = f\<lparr>cf_empty := False, cf_data := (cf_data f)[cf_wr f := ch], cf_wr := (cf_wr f + 1) mod CharFIFO_SIZE\<rparr>"

definition fifo_full :: "char_fifo \<Rightarrow> bool" where
  "fifo_full f \<longleftrightarrow> cf_wr f = cf_rd f \<and> \<not> cf_empty f"

definition fifo_get :: "char_fifo \<Rightarrow> u8 \<times> char_fifo" where
  "fifo_get f = (let rd = (cf_rd f + 1) mod CharFIFO_SIZE
     in (cf_data f ! cf_rd f, f\<lparr>cf_rd := rd, cf_empty := (cf_empty f \<or> rd = cf_wr f)\<rparr>))"

definition set_fifo :: "(char_fifo \<Rightarrow> char_fifo) \<Rightarrow> sbcsys \<Rightarrow> sbcsys" where
  "set_fifo f = set_sbc (\<lambda>b. b\<lparr>uart0_rx_fifo := f (uart0_rx_fifo b)\<rparr>)"

text \<open>The batch file comes first and does not overflow the ring; at its end the character that \<^verbatim>\<open>fread\<close> did not
  deliver is an indeterminate value. From the keyboard, a character that finds the ring full is lost.\<close>

definition multicomp_console_rxpoll :: "sbcsys stmt" where
  "multicomp_console_rxpoll s =
     (let f = uart0_rx_fifo (cpu.more s) in
      case batch_file (cpu.more s) of
        Some bytes \<Rightarrow>
          if cf_empty f \<or> cf_rd f \<noteq> cf_wr f then
            (case bytes of
               [] \<Rightarrow> UB
             | ch # rest \<Rightarrow> Ret () (set_fifo (fifo_put ch) (set_sbc (\<lambda>b. b\<lparr>batch_file := Some rest\<rparr>) s)))
          else Ret () s
      | None \<Rightarrow> bindE (on_low kbhit) (\<lambda>hit. doif hit (bindE (on_low kbchar) (\<lambda>ch.
          doif (\<not> fifo_full f) (assign (set_fifo (fifo_put ch)))))) s)"

definition multicomp09_console_read :: "nat \<Rightarrow> (sbcsys, u8) expr" where
  "multicomp09_console_read addr =
     (if addr = 0 then bindE multicomp_console_rxpoll (\<lambda>_ s.
        if cf_empty (uart0_rx_fifo (cpu.more s)) then Ret 2 s
        else Ret ((uart0_wr_status (cpu.more s) AND 0x80) OR 3) s)
      else if addr = 1 then bindE multicomp_console_rxpoll (\<lambda>_ s.
        if cf_empty (uart0_rx_fifo (cpu.more s)) then Ret 0xff s
        else let (ch, f) = fifo_get (uart0_rx_fifo (cpu.more s))
          in bindE (block [assign (set_fifo (\<lambda>_. f)), doif (cf_rd f = cf_wr f) (release_irq 1)]) (\<lambda>_. Ret (dos_key ch)) s)
      else if addr = 2 \<or> addr = 4 then Ret 3
      else Ret 0x42)"

text \<open>A master reset clears the write index twice and leaves the read index.\<close>

definition multicomp09_console_write :: "nat \<Rightarrow> u8 \<Rightarrow> sbcsys stmt" where
  "multicomp09_console_write addr val =
     (if addr = 0 then
        (if val = 3 then block [
           assign (set_fifo (\<lambda>f. f\<lparr>cf_wr := 0\<rparr>)),
           assign (set_fifo (\<lambda>f. f\<lparr>cf_wr := 0\<rparr>)),
           assign (set_fifo (\<lambda>f. f\<lparr>cf_empty := True\<rparr>)),
           assign (set_sbc (\<lambda>b. b\<lparr>uart0_wr_status := 0\<rparr>)),
           release_irq 1]
         else assign (set_sbc (\<lambda>b. b\<lparr>uart0_wr_status := val\<rparr>)))
      else if addr = 1 then on_low (putchar val)
      else Ret ())"

definition multicomp09_console_update :: "sbcsys iface \<Rightarrow> sbcsys stmt" where
  "multicomp09_console_update io = block [
     multicomp_console_rxpoll,
     \<lambda>s. doif (\<not> cf_empty (uart0_rx_fifo (cpu.more s)) \<and> uart0_wr_status (cpu.more s) AND 0x80 \<noteq> 0) (request_irq io 1) s]"

section \<open>Multicomp 09: the memory mapper\<close>

definition MULTICOMP09_RAMMAX :: nat where "MULTICOMP09_RAMMAX = 0x80000"
definition FRT_BLOCK :: nat where "FRT_BLOCK = 7"

text \<open>\<^verbatim>\<open>mmu_offset\<close> and \<^verbatim>\<open>mmu_flags\<close> of a block of 8 KB: with the mapper on, bit 6 of MMUADR selects the
  upper eight of the sixteen registers.\<close>

definition mmu_block :: "sbc_state \<Rightarrow> nat \<Rightarrow> u8" where
  "mmu_block b blk = mc_pblk b ! (blk OR unat (drop_bit 3 (mc_mmuadr b AND 0x40)))"

definition mmu_offset :: "nat \<Rightarrow> sbc_state \<Rightarrow> nat" where
  "mmu_offset blk b = (if mc_mmuadr b AND 0x20 \<noteq> 0 then unat (mmu_block b blk AND 0x7f) * 0x2000 else blk * 0x2000)"

definition mmu_flags :: "nat \<Rightarrow> sbc_state \<Rightarrow> u8" where
  "mmu_flags blk b =
     (if mc_mmuadr b AND 0x20 \<noteq> 0 then (if drop_bit 7 (mmu_block b blk) = 1 then MAP_READABLE else MAP_READWRITE) else MAP_READWRITE)"

text \<open>\<^verbatim>\<open>sdmapper_remap\<close>: the register that was written, then the whole map again. The device numbers are those of
  the source.\<close>

definition remap_load :: "nat \<Rightarrow> u8 \<Rightarrow> sbc_state \<Rightarrow> sbc_state" where
  "remap_load op val b =
     (if op = 1 then b\<lparr>mc_pblk := (mc_pblk b)[unat (mc_mmuadr b AND 0xf) := val], mc_mmudat := val\<rparr>
      else if op = 2 then
        let frt = mc_mmuadr b AND 0xa0 = 0xa0 \<and> val AND 0xa0 = 0x20;
            v = (if frt then val OR 0x80 else val)
        in b\<lparr>mc_mmufrt := (if v AND 0x20 = 0 then 0 else if frt then 1 else mc_mmufrt b), mc_mmuadr := v\<rparr>
      else b)"

definition remap_bus :: "sbc_state \<Rightarrow> sys stmt" where
  "remap_bus b = block (map (\<lambda>blk. bus_map (blk * 0x2000) 1 (mmu_offset blk b) 0x2000 (mmu_flags blk b)) [0..<7] @ [
     (if mc_mmuadr b AND 0x80 \<noteq> 0 then bus_map 0xe000 1 (mmu_offset 7 b) 0x1e00 (mmu_flags 7 b)
      else bus_map 0xe000 2 0 0x1e00 MAP_READABLE),
     (if mc_mmuadr b AND 0x80 \<noteq> 0 then
        (if mc_mmufrt b \<noteq> 0 then bus_map 0xfe00 1 (0x1e00 + FRT_BLOCK * 0x2000) 0x180 (mmu_flags 7 b)
         else bus_map 0xfe00 1 (0x1e00 + mmu_offset 7 b) 0x180 MAP_READWRITE)
      else bus_map 0xfe00 2 0x1e00 0x180 MAP_READABLE),
     bus_map 0xff80 5 0 128 MAP_READWRITE])"

definition remap_slot :: "sbc_state \<Rightarrow> nat \<Rightarrow> nat \<times> nat" where
  "remap_slot b i =
     (if i = 10 then (0, mc_consoledev b)
      else if i = 11 then (0, mc_sdmapperdev b)
      else if mc_mmuadr b AND 0x80 \<noteq> 0 then
        (if mc_mmufrt b \<noteq> 0 then (FRT_BLOCK * 0x2000 + 0x1f80 + i * 8, mc_ramdev b)
         else (mmu_offset 7 b + 0x1f80 + i * 8, mc_ramdev b))
      else (0x1f80 + i * 8, mc_romdev b))"

definition sdmapper_remap :: "nat \<Rightarrow> u8 \<Rightarrow> sbcsys stmt" where
  "sdmapper_remap op val = block [
     assign (set_sbc (remap_load op val)),
     \<lambda>s. on_low (remap_bus (cpu.more s)) s,
     \<lambda>s. on_low (block (map (\<lambda>i. case remap_slot (cpu.more s) i of (off, dev) \<Rightarrow> ioexpand_attach (mc_iodev (cpu.more s)) i off dev) [0..<16])) s]"

section \<open>Multicomp 09: the SD card\<close>

definition SDDATA :: nat where "SDDATA = 0"
definition SDCONTROL :: nat where "SDCONTROL = 1"
definition SDLBA0 :: nat where "SDLBA0 = 2"
definition SDLBA1 :: nat where "SDLBA1 = 3"
definition SDLBA2 :: nat where "SDLBA2 = 4"

definition sd_status :: "sbc_state \<Rightarrow> u8 \<times> sbc_state" where
  "sd_status b =
     (let n = mc_state b; poll = (if mc_poll b < 3 then mc_poll b + 1 else mc_poll b) in
      if n = 0 then (0x90, b)
      else if n = 1 then (0x90, b\<lparr>mc_poll := mc_poll b + 1, mc_state := (if mc_poll b + 1 = 16 then 2 else 1)\<rparr>)
      else if n = 2 then (0x80, b)
      else if n = 3 then ((if poll = 3 then 0xe0 else 0xa0), b\<lparr>mc_poll := poll\<rparr>)
      else if n = 4 then ((if poll = 3 then 0xa0 else 0x20), b\<lparr>mc_poll := poll\<rparr>)
      else (0x42, b))"

definition sd_get :: "sbc_state \<Rightarrow> u8 \<times> sbc_state" where
  "sd_get b =
     (if mc_state b = 3 then
        (if mc_poll b = 3 then
           let b' = b\<lparr>mc_poll := 0, mc_state := (if mc_dindex b = 511 then 2 else 3)\<rparr>
           in if mc_dindex b < 512 then (mc_data b ! mc_dindex b, b'\<lparr>mc_dindex := mc_dindex b + 1\<rparr>) else (0xff, b')
         else (0xff, b))
      else if mc_state b \<le> 4 then (0xff, b) else (0x42, b))"

text \<open>Reading the other registers reads the instruction first, which may be a CLR.\<close>

definition sdmapper_read :: "sbcsys iface \<Rightarrow> nat \<Rightarrow> (sbcsys, u8) expr" where
  "sdmapper_read io addr s =
     (if addr = SDDATA then let (v, b) = sd_get (cpu.more s) in Ret v (set_sbc (\<lambda>_. b) s)
      else if addr = SDCONTROL then let (v, b) = sd_status (cpu.more s) in Ret v (set_sbc (\<lambda>_. b) s)
      else if addr = 5 then Ret (mc_timer (cpu.more s)) s
      else bindE (read8 io (get_pc s - 3)) (\<lambda>_. Ret 0x42) s)"

definition fseek_fails :: "u32 \<Rightarrow> bool" where "fseek_fails addr \<longleftrightarrow> sint addr < 0"

definition sd_put :: "u8 \<Rightarrow> sbc_state \<Rightarrow> sbc_state option" where
  "sd_put val b =
     (if mc_state b = 4 \<and> mc_poll b = 3 then
        let b' = b\<lparr>mc_poll := 0\<rparr> in
        if mc_dindex b < 512 then
          let d = (mc_data b)[mc_dindex b := val]; b'' = b'\<lparr>mc_data := d, mc_dindex := mc_dindex b + 1\<rparr> in
          if mc_dindex b + 1 = 512 then
            if fseek_fails (mc_addr b) then Some (b''\<lparr>mc_state := 2\<rparr>)
            else map_option (\<lambda>f. b''\<lparr>sd_file := Some (file_write f (unat (mc_addr b)) d), mc_state := 2\<rparr>) (sd_file b)
          else Some b''
        else Some b'
      else Some b)"

text \<open>The loop after a failed seek sets its own counter back.\<close>

fun seek_fail_loop :: "nat \<Rightarrow> nat \<Rightarrow> sbc_state \<Rightarrow> sbc_state option" where
  "seek_fail_loop 0 i b = None"
| "seek_fail_loop (Suc n) i b =
     (if i < 512 then (let b' = b\<lparr>mc_data := (mc_data b)[i := 0xff], mc_dindex := 0\<rparr> in seek_fail_loop n (mc_dindex b' + 1) b')
      else Some (b\<lparr>mc_dindex := i\<rparr>))"

definition sd_address :: "sbc_state \<Rightarrow> u32" where
  "sd_address b = push_bit 25 (ucast (mc_sdlba2 b AND 0x7f)) OR push_bit 17 (ucast (mc_sdlba1 b)) OR push_bit 9 (ucast (mc_sdlba0 b))"

definition sd_command :: "nat \<Rightarrow> u8 \<Rightarrow> sbcsys stmt" where
  "sd_command fuel val s =
     (let b = (cpu.more s)\<lparr>mc_addr := sd_address (cpu.more s), mc_poll := 0\<rparr> in
      if val = 0 then
        let b' = b\<lparr>mc_dindex := 0, mc_state := 3\<rparr> in
        if fseek_fails (mc_addr b') then
          (case seek_fail_loop fuel 0 b' of Some c \<Rightarrow> Ret () (set_sbc (\<lambda>_. c) s) | None \<Rightarrow> NoFuel)
        else (case sd_file b' of
            Some f \<Rightarrow> Ret () (set_sbc (\<lambda>_. b'\<lparr>mc_data := map (\<lambda>i. let p = unat (mc_addr b') + i in
                if p < length f then f ! p else mc_data b' ! i) [0..<512]\<rparr>) s)
          | None \<Rightarrow> UB)
      else if val = 1 then Ret () (set_sbc (\<lambda>_. b\<lparr>mc_dindex := 0, mc_state := 4\<rparr>) s)
      else Ret () (set_sbc (\<lambda>_. b) s))"

text \<open>The case of SDCONTROL runs on into that of SDLBA0.\<close>

definition sdmapper_write :: "nat \<Rightarrow> nat \<Rightarrow> u8 \<Rightarrow> sbcsys stmt" where
  "sdmapper_write fuel addr val s =
     (if addr = SDDATA then
        (case sd_put val (cpu.more s) of Some b \<Rightarrow> Ret () (set_sbc (\<lambda>_. b) s) | None \<Rightarrow> UB)
      else if addr = SDCONTROL then block [
        doif (mc_state (cpu.more s) = 2) (sd_command fuel val),
        assign (set_sbc (\<lambda>b. b\<lparr>mc_sdlba0 := val\<rparr>))] s
      else if addr = SDLBA0 then Ret () (set_sbc (\<lambda>b. b\<lparr>mc_sdlba0 := val\<rparr>) s)
      else if addr = SDLBA1 then Ret () (set_sbc (\<lambda>b. b\<lparr>mc_sdlba1 := val\<rparr>) s)
      else if addr = SDLBA2 then Ret () (set_sbc (\<lambda>b. b\<lparr>mc_sdlba2 := val\<rparr>) s)
      else if addr = 5 then block [
        assign (set_sbc (\<lambda>b. b\<lparr>mc_timer := (mc_timer b AND 0xfd) OR (val AND 2)\<rparr>)),
        doif (val AND 0x80 \<noteq> 0) (block [release_irq 0, assign (set_sbc (\<lambda>b. b\<lparr>mc_timer := mc_timer b AND 0x7f\<rparr>))])] s
      else if addr = 6 then doif (val AND 0x10 = 0) (sdmapper_remap 2 val) s
      else if addr = 7 then sdmapper_remap 1 val s
      else Ret () s)"

definition sdmapper_create :: "(sys, nat) expr" where
  "sdmapper_create = device_attach Sdmapper_dev BUS_MAP_SIZE"

definition multicomp09_tick :: "sbcsys iface \<Rightarrow> sbcsys stmt" where
  "multicomp09_tick io = (\<lambda>s. doif (mc_timer (cpu.more s) AND 2 \<noteq> 0) (block [
     assign (set_sbc (\<lambda>b. b\<lparr>mc_timer := mc_timer b OR 0x80\<rparr>)), request_irq io 0]) s)"

definition multicomp09_init :: "u8 list option \<Rightarrow> u8 list option \<Rightarrow> u8 list option \<Rightarrow> sbcsys stmt" where
  "multicomp09_init boot_rom batch sd =
     bindE (on_low (ram_create MULTICOMP09_RAMMAX)) (\<lambda>ram.
     bindE (on_low (rom_create boot_rom 0x2000)) (\<lambda>rom.
     bindE (on_low console_create) (\<lambda>con.
     bindE (on_low sdmapper_create) (\<lambda>sdm.
     bindE (on_low ioexpand_create) (\<lambda>iod. block [
       assign (set_sbc (\<lambda>b. b\<lparr>console_class := Multicomp_console, mc_ramdev := ram, mc_romdev := rom, mc_consoledev := con,
         mc_sdmapperdev := sdm, mc_iodev := iod\<rparr>)),
       sdmapper_remap 0 0,
       assign (set_sbc (\<lambda>b. b\<lparr>uart0_rx_fifo := (uart0_rx_fifo b)\<lparr>cf_wr := 0, cf_rd := 0, cf_empty := True\<rparr>, uart0_wr_status := 0\<rparr>)),
       release_irq 1,
       assign (set_sbc (\<lambda>b. b\<lparr>batch_file := batch, sd_file := sd, mc_poll := 0, mc_state := (if sd = None then 0 else 1)\<rparr>))])))))"

section \<open>The bus of the boards\<close>

text \<open>Dispatch on the hardware class: consoles by the functions in \<^verbatim>\<open>console_class\<close>, the SD controller, and what
  an expander holds; the other classes are those of the machine.\<close>

definition console_class_read :: "nat \<Rightarrow> (sbcsys, u8) expr" where
  "console_class_read addr s = (case console_class (cpu.more s) of
     Plain_console \<Rightarrow> on_low (console_read addr) s
   | Smii_console \<Rightarrow> smii_console_read addr s
   | Multicomp_console \<Rightarrow> multicomp09_console_read addr s
   | Kipper1_console \<Rightarrow> kipper1_console_read addr s)"

definition console_class_write :: "nat \<Rightarrow> u8 \<Rightarrow> sbcsys stmt" where
  "console_class_write addr val s = (case console_class (cpu.more s) of
     Plain_console \<Rightarrow> on_low (console_write addr val) s
   | Smii_console \<Rightarrow> smii_console_write addr val s
   | Multicomp_console \<Rightarrow> multicomp09_console_write addr val s
   | Kipper1_console \<Rightarrow> kipper1_console_write addr val s)"

primrec sbc_dev_read :: "sbcsys iface \<Rightarrow> nat \<Rightarrow> nat \<Rightarrow> nat \<Rightarrow> (sbcsys, u8) expr" where
  "sbc_dev_read io 0 dv addr = (\<lambda>s. NoFuel)"
| "sbc_dev_read io (Suc n) dv addr = (\<lambda>s.
     case map_option dev_priv (dev_of dv (low s)) of
       Some Console_dev \<Rightarrow> console_class_read addr s
     | Some Sdmapper_dev \<Rightarrow> sdmapper_read io addr s
     | Some (Ioexpand_dev iom) \<Rightarrow> ioexpand_read (sbc_dev_read io n) iom addr s
     | _ \<Rightarrow> on_low (dev_read 1 dv addr) s)"

text \<open>The interface passed on to the other classes is that of the machine alone: no device of the boards uses it.\<close>

primrec sbc_dev_write :: "sys iface \<Rightarrow> nat \<Rightarrow> nat \<Rightarrow> nat \<Rightarrow> u8 \<Rightarrow> sbcsys stmt" where
  "sbc_dev_write dio 0 dv addr val = (\<lambda>s. NoFuel)"
| "sbc_dev_write dio (Suc n) dv addr val = (\<lambda>s.
     case map_option dev_priv (dev_of dv (low s)) of
       Some Console_dev \<Rightarrow> console_class_write addr val s
     | Some Sdmapper_dev \<Rightarrow> sdmapper_write 512 addr val s
     | Some (Ioexpand_dev iom) \<Rightarrow> ioexpand_write (sbc_dev_write dio n) iom addr val s
     | _ \<Rightarrow> on_low (dev_write 1 dio dv addr val) s)"

definition sbc_read8 :: "debugger \<Rightarrow> sbcsys iface \<Rightarrow> u32 \<Rightarrow> (sbcsys, u8) expr" where
  "sbc_read8 dbg io addr =
     bindE (on_low (find_map addr)) (\<lambda>map.
     bindE (on_low (find_device addr (bm_devid map))) (\<lambda>dev.
     let phy_addr = bm_offset map + unat addr mod BUS_MAP_SIZE in
     bindE (on_low (\<lambda>s. doif (cpu_running (mch s) \<and> bm_flags map AND MAP_READABLE = 0) (machine_fault addr FAULT_NOT_READABLE) s)) (\<lambda>_.
     bindE (on_low (command_read_hook dbg (absolute_from_reladdr (bm_devid map) phy_addr))) (\<lambda>_.
     sbc_dev_read io DEV_FUEL dev phy_addr))))"

definition sbc_read16 :: "debugger \<Rightarrow> sbcsys iface \<Rightarrow> u32 \<Rightarrow> (sbcsys, u16) expr" where
  "sbc_read16 dbg io addr =
     bindE (on_low (find_map addr)) (\<lambda>map.
     bindE (on_low (find_device addr (bm_devid map))) (\<lambda>dev.
     let phy_addr = bm_offset map + unat addr mod BUS_MAP_SIZE in
     bindE (on_low (\<lambda>s. doif (cpu_running (mch s) \<and> bm_flags map AND MAP_READABLE = 0) (do_fault addr FAULT_NOT_READABLE) s)) (\<lambda>_.
     bindE (on_low (command_read_hook dbg (absolute_from_reladdr (bm_devid map) phy_addr))) (\<lambda>_.
     bindE (sbc_dev_read io DEV_FUEL dev phy_addr) (\<lambda>hi.
     bindE (sbc_dev_read io DEV_FUEL dev (phy_addr + 1)) (\<lambda>lo.
     Ret (push_bit 8 (ucast hi) OR ucast lo)))))))"

definition sbc_write8 :: "debugger \<Rightarrow> u32 \<Rightarrow> u8 \<Rightarrow> sbcsys stmt" where
  "sbc_write8 dbg addr val =
     bindE (on_low (find_map addr)) (\<lambda>map.
     bindE (on_low (find_device addr (bm_devid map))) (\<lambda>dev.
     let phy_addr = bm_offset map + unat addr mod BUS_MAP_SIZE in block [
       \<lambda>s. if \<not> cpu_running (sb_mach (cpu.more s)) \<or> bm_flags map AND MAP_WRITABLE \<noteq> 0
           then sbc_dev_write (sys_bus dbg 0) DEV_FUEL dev phy_addr val s
           else if bm_flags map AND MAP_IGNOREWRITE \<noteq> 0 then Ret () s
           else on_low (do_fault addr FAULT_NOT_WRITABLE) s,
       on_low (command_write_hook dbg (absolute_from_reladdr (bm_devid map) phy_addr) val)]))"

text \<open>A read of the SD controller may read the bus once more; \<open>n\<close> bounds how often.\<close>

definition sbc_ports :: "debugger \<Rightarrow> sbcsys iface" where
  "sbc_ports dbg = \<lparr>read8 = (\<lambda>_ _. NoFuel), read16 = (\<lambda>_ _. NoFuel), write8 = sbc_write8 dbg,
     insn_hook = on_low (command_insn_hook dbg), check_break = on_low check_break_insn, monitor6809 = on_low (dbg_monitor dbg),
     cpu_is_running = on_low (assign (set_mch (\<lambda>m. m\<lparr>cpu_running := True\<rparr>)))\<rparr>"

primrec sbc_bus :: "debugger \<Rightarrow> nat \<Rightarrow> sbcsys iface" where
  "sbc_bus dbg 0 = sbc_ports dbg"
| "sbc_bus dbg (Suc n) = (sbc_ports dbg)\<lparr>read8 := sbc_read8 dbg (sbc_bus dbg n), read16 := sbc_read16 dbg (sbc_bus dbg n)\<rparr>"

text \<open>\<^verbatim>\<open>machine_update\<close> on the boards, where the UART is the only device with an update function.\<close>

definition sbc_update :: "sbcsys iface \<Rightarrow> sbcsys stmt" where
  "sbc_update io = (\<lambda>s. block (map (\<lambda>dv s.
     if map_option dev_priv (dev_of dv (low s)) = Some Console_dev \<and> console_class (cpu.more s) = Multicomp_console
     then multicomp09_console_update io s else Ret () s) [0..<length (device_table (sb_mach (cpu.more s)))]) s)"

end
