(* ===== verification/Wpc.thy ===== *)
theory Wpc
  imports Sbc
begin

text \<open>
  The WPC board as \<^verbatim>\<open>wpc_init\<close> of \<^verbatim>\<open>wpc.c\<close> builds it, with the names of its registers in the symbol table.
\<close>

definition io_sym_add :: "string \<Rightarrow> nat \<Rightarrow> sbcsys stmt" where
  "io_sym_add name cpuaddr = bindE (on_low (to_absolute cpuaddr)) (\<lambda>a.
     bindE (on_syms (sym_add program_symtab name (of_nat a) 0)) (\<lambda>_. Ret ()))"

definition wpc_registers :: "(string \<times> nat) list" where
  "wpc_registers = [
     (''WPC_DMD_LOW_BASE'', 0x3800), (''WPC_DMD_HIGH_BASE'', 0x3a00), (''WPC_DMD_HIGH_PAGE'', 0x3fbc),
     (''WPC_DMD_FIRQ_ROW_VALUE'', 0x3fbd), (''WPC_DMD_LOW_PAGE'', 0x3fbe), (''WPC_DMD_ACTIVE_PAGE'', 0x3fbf),
     (''WPC_SERIAL_STATUS_PORT'', 0x3fc0), (''WPC_PARALLEL_DATA_PORT'', 0x3fc1),
     (''WPC_PARALLEL_STROBE_PORT'', 0x3fc2), (''WPC_SERIAL_DATA_OUTPUT'', 0x3fc3),
     (''WPC_SERIAL_CONTROL_OUTPUT'', 0x3fc4), (''WPC_SERIAL_BAUD_SELECT'', 0x3fc5), (''WPC_TICKET_DISPENSE'', 0x3fc6),
     (''WPC_DCS_SOUND_DATA_OUT'', 0x3fd0), (''WPC_DCS_SOUND_DATA_IN'', 0x3fd1), (''WPC_DCS_SOUND_RESET'', 0x3fd2),
     (''WPC_DCS_SOUND_DATA_READY'', 0x3fd3), (''WPC_FLIPTRONIC_PORT_A'', 0x3fd4), (''WPC_FLIPTRONIC_PORT_B'', 0x3fd5),
     (''WPCS_DATA'', 0x3fdc), (''WPCS_CONTROL_STATUS'', 0x3fdd), (''WPC_SOL_FLASH2_OUTPUT'', 0x3fe0),
     (''WPC_SOL_HIGHPOWER_OUTPUT'', 0x3fe1), (''WPC_SOL_FLASH1_OUTPUT'', 0x3fe2),
     (''WPC_SOL_LOWPOWER_OUTPUT'', 0x3fe3), (''WPC_LAMP_ROW_OUTPUT'', 0x3fe4), (''WPC_LAMP_COL_STROBE'', 0x3fe5),
     (''WPC_GI_TRIAC'', 0x3fe6), (''WPC_SW_JUMPER_INPUT'', 0x3fe7), (''WPC_SW_CABINET_INPUT'', 0x3fe8),
     (''WPC_SW_ROW_INPUT'', 0x3fe9), (''WPC_SW_COL_STROBE'', 0x3fea), (''WPC_LEDS'', 0x3ff2),
     (''WPC_RAM_BANK'', 0x3ff3), (''WPC_SHIFTADDR'', 0x3ff4), (''WPC_SHIFTBIT'', 0x3ff6), (''WPC_SHIFTBIT2'', 0x3ff7),
     (''WPC_PERIPHERAL_TIMER_FIRQ_CLEAR'', 0x3ff8), (''WPC_ROM_LOCK'', 0x3ff9), (''WPC_CLK_HOURS_DAYS'', 0x3ffa),
     (''WPC_CLK_MINS'', 0x3ffb), (''WPC_ROM_BANK'', 0x3ffc), (''WPC_RAM_LOCK'', 0x3ffd),
     (''WPC_RAM_LOCKSIZE'', 0x3ffe)]"

text \<open>There is only one ASIC: a second attempt returns NULL.\<close>

definition wpc_asic_create :: "(sys, nat option) expr" where
  "wpc_asic_create s =
     (if wpc (mch s) \<noteq> None then Ret None s
      else bindE (assign (set_wpc wpc_cleared)) (\<lambda>_. bindE (device_attach Wpc_asic_dev 0x800) (\<lambda>dv. Ret (Some dv))) s)"

definition wpc_devices :: "u8 list option \<Rightarrow> sys stmt" where
  "wpc_devices boot_rom =
     bindE wpc_asic_create (\<lambda>asic. case asic of None \<Rightarrow> (\<lambda>s. UB) | Some asic \<Rightarrow>
     bindE (device_define asic 0 WPC_ASIC_BASE (WPC_PAGED_REGION - WPC_ASIC_BASE) MAP_READWRITE) (\<lambda>_.
     bindE (ram_create WPC_RAM_SIZE) (\<lambda>ram.
     bindE (device_define ram 0 WPC_RAM_BASE WPC_RAM_SIZE MAP_READWRITE) (\<lambda>_.
     bindE (with_wpc (\<lambda>w. assign (set_wpc (w\<lparr>wa_ram_dev := Some ram\<rparr>)))) (\<lambda>_.
     bindE (rom_create boot_rom WPC_ROM_SIZE) (\<lambda>rom.
     bindE (device_define rom 0 WPC_PAGED_REGION WPC_PAGED_SIZE MAP_READABLE) (\<lambda>_.
     bindE (device_define rom (WPC_ROM_SIZE - WPC_FIXED_SIZE) WPC_FIXED_REGION WPC_FIXED_SIZE MAP_READABLE) (\<lambda>_.
     bindE (with_wpc (\<lambda>w. assign (set_wpc (w\<lparr>wa_rom_dev := Some rom\<rparr>)))) (\<lambda>_.
     bindE (ram_create (16 * 512)) (\<lambda>dmd.
     bindE (device_define dmd 0 0x3800 (0x200 * 2) MAP_READWRITE) (\<lambda>_.
     bindE (with_wpc (\<lambda>w. assign (set_wpc (w\<lparr>wa_dmd_dev := Some dmd\<rparr>)))) (\<lambda>_.
     wpc_update_ram))))))))))))"

definition wpc_init :: "u8 list option \<Rightarrow> sbcsys stmt" where
  "wpc_init boot_rom = block (on_low (wpc_devices boot_rom) # map (\<lambda>(name, addr). io_sym_add name addr) wpc_registers)"

end
