(* ===== verification/Sbc_Laws.thy ===== *)
theory Sbc_Laws
  imports Sbc Bus_Laws
begin

text \<open>
  The boards: the UART of Multicomp 09 as a bounded queue and its reset, the protocol of the SD controller, the memory
  mapper, the timer, and the registers of the processor on these boards.
\<close>

(*BEGIN*)
section \<open>Parts of the state\<close>

lemma low_raise [simp]: "low (raise t s) = t"
  by (cases t) (simp add: low_def raise_def cpu.defs)

lemma raise_low [simp]: "raise (low s) s = s"
  by (cases s) (simp add: low_def raise_def cpu.defs)

lemma low_simps [simp]:
  "mch (low s) = sb_mach (cpu.more s)" "cpu.more (raise t s) = (cpu.more s)\<lparr>sb_mach := mch t\<rparr>"
  "raise t (raise u s) = raise t s"
  by (simp_all add: low_def raise_def cpu.defs)

lemma low_set_mch: "raise (set_mch f (low s)) s = set_sbc (\<lambda>b. b\<lparr>sb_mach := f (sb_mach b)\<rparr>) s"
  by (cases s) (simp add: low_def raise_def set_mch_def set_sbc_def cpu.defs)

lemma set_sbc_simps [simp]:
  "cpu.more (set_sbc f s) = f (cpu.more s)" "set_sbc f (set_sbc g s) = set_sbc (\<lambda>b. f (g b)) s"
  by (simp_all add: set_sbc_def)

lemma on_low_Ret: "m (low s) = Ret v (low s) \<Longrightarrow> on_low m s = Ret v s"
  by (simp add: on_low_def)

section \<open>The ring of the UART\<close>

definition fifo_ok :: "char_fifo \<Rightarrow> bool" where
  "fifo_ok f \<longleftrightarrow> length (cf_data f) = CharFIFO_SIZE \<and> cf_rd f < CharFIFO_SIZE \<and> cf_wr f < CharFIFO_SIZE \<and> (cf_empty f \<longrightarrow> cf_rd f = cf_wr f)"

definition fifo_count :: "char_fifo \<Rightarrow> nat" where
  "fifo_count f = (if cf_empty f then 0 else if cf_rd f < cf_wr f then cf_wr f - cf_rd f else cf_wr f + CharFIFO_SIZE - cf_rd f)"

definition fifo_items :: "char_fifo \<Rightarrow> u8 list" where
  "fifo_items f = map (\<lambda>i. cf_data f ! ((cf_rd f + i) mod CharFIFO_SIZE)) [0..<fifo_count f]"

definition uart_push :: "char_fifo \<Rightarrow> u8 \<Rightarrow> char_fifo option" where
  "uart_push f c = (if fifo_full f then None else Some (fifo_put c f))"

definition uart_pop :: "char_fifo \<Rightarrow> (u8 \<times> char_fifo) option" where
  "uart_pop f = (if cf_empty f then None else Some (fifo_get f))"

lemma fifo_count_bounds:
  assumes "fifo_ok f"
  shows "fifo_count f \<le> CharFIFO_SIZE" "fifo_count f = CharFIFO_SIZE \<longleftrightarrow> fifo_full f" "fifo_count f = 0 \<longleftrightarrow> cf_empty f"
    "cf_wr f = (cf_rd f + fifo_count f) mod CharFIFO_SIZE"
proof -
  have n: "cf_rd f < 8" "cf_wr f < 8" "cf_empty f \<Longrightarrow> cf_rd f = cf_wr f" using assms by (simp_all add: fifo_ok_def CharFIFO_SIZE_def)
  show "fifo_count f \<le> CharFIFO_SIZE" "fifo_count f = CharFIFO_SIZE \<longleftrightarrow> fifo_full f" "fifo_count f = 0 \<longleftrightarrow> cf_empty f"
    using n unfolding fifo_count_def fifo_full_def CharFIFO_SIZE_def by (simp_all split: if_split) linarith+
  have "cf_rd f + fifo_count f = cf_wr f \<or> cf_rd f + fifo_count f = cf_wr f + 8"
    using n unfolding fifo_count_def CharFIFO_SIZE_def by (simp split: if_split)
  then show "cf_wr f = (cf_rd f + fifo_count f) mod CharFIFO_SIZE" using n(2) by (auto simp: CharFIFO_SIZE_def)
qed

lemma fifo_put_laws:
  assumes "fifo_ok f" "\<not> fifo_full f"
  shows "fifo_ok (fifo_put c f)" "fifo_items (fifo_put c f) = fifo_items f @ [c]"
proof -
  note ok = assms(1) [unfolded fifo_ok_def]
  show "fifo_ok (fifo_put c f)" using ok by (simp add: fifo_ok_def fifo_put_def CharFIFO_SIZE_def)
  have n: "fifo_count (fifo_put c f) = fifo_count f + 1"
    using ok assms(2) by (auto simp: fifo_count_def fifo_put_def fifo_full_def CharFIFO_SIZE_def mod_Suc)
  have less: "fifo_count f < CharFIFO_SIZE" using fifo_count_bounds(1,2) [OF assms(1)] assms(2) by linarith
  have "cf_wr f \<noteq> (cf_rd f + i) mod CharFIFO_SIZE" if "i < fifo_count f" for i
    using ring_index_distinct [of i "fifo_count f" CharFIFO_SIZE "cf_rd f"] that less fifo_count_bounds(4) [OF assms(1)] by simp
  moreover have "cf_data (fifo_put c f) ! ((cf_rd f + fifo_count f) mod CharFIFO_SIZE) = c"
    using ok fifo_count_bounds(4) [OF assms(1)] by (simp add: fifo_put_def)
  ultimately show "fifo_items (fifo_put c f) = fifo_items f @ [c]"
    unfolding fifo_items_def n by (simp add: fifo_put_def)
qed

lemma fifo_get_laws:
  assumes "fifo_ok f" "fifo_items f = c # cs"
  shows "fst (fifo_get f) = c" "fifo_ok (snd (fifo_get f))" "fifo_items (snd (fifo_get f)) = cs"
proof -
  note ok = assms(1) [unfolded fifo_ok_def]
  let ?f = "snd (fifo_get f)"
  obtain n where n: "fifo_count f = Suc n" using assms(2) by (cases "fifo_count f") (auto simp: fifo_items_def)
  have e: "\<not> cf_empty f" using n by (auto simp: fifo_count_def)
  have "fifo_items f = cf_data f ! (cf_rd f mod CharFIFO_SIZE) # map (\<lambda>i. cf_data f ! ((cf_rd f + Suc i) mod CharFIFO_SIZE)) [0..<n]"
    unfolding fifo_items_def n upt_rec [of 0 "Suc n"] by (simp add: map_Suc_upt [symmetric] del: upt_Suc)
  then have c: "c = cf_data f ! cf_rd f" "cs = map (\<lambda>i. cf_data f ! ((cf_rd f + Suc i) mod CharFIFO_SIZE)) [0..<n]"
    using assms(2) ok by simp_all
  show "fst (fifo_get f) = c" by (simp add: fifo_get_def Let_def c)
  show "fifo_ok ?f" using ok e by (auto simp: fifo_ok_def fifo_get_def Let_def CharFIFO_SIZE_def)
  have "fifo_count ?f = n" using ok e n by (auto simp: fifo_count_def fifo_get_def Let_def CharFIFO_SIZE_def mod_Suc split: if_splits)
  then show "fifo_items ?f = cs" by (simp add: fifo_items_def c fifo_get_def Let_def mod_add_left_eq)
qed

interpretation uart: fifo uart_push uart_pop fifo_ok fifo_items CharFIFO_SIZE
proof (unfold_locales, goal_cases)
  case (1 q x)
  then show ?case using fifo_count_bounds(2) [of q] by (simp add: uart_push_def fifo_items_def)
next
  case (2 q x)
  then have "\<not> fifo_full q" using fifo_count_bounds(2) [of q] by (simp add: fifo_items_def)
  then show ?case using fifo_put_laws [OF 2(1), of x] by (simp add: uart_push_def)
next
  case (3 q)
  then show ?case using fifo_count_bounds(3) [of q] by (simp add: uart_pop_def fifo_items_def)
next
  case (4 q x xs)
  then have "\<not> cf_empty q" by (auto simp: fifo_items_def fifo_count_def)
  then show ?case using fifo_get_laws [OF 4] by (cases "fifo_get q") (simp add: uart_pop_def)
qed

text \<open>One poll, and one read of the data register without a new key.\<close>

lemma fifo_put_take:
  assumes "fifo_ok f"
  shows "fifo_ok (if fifo_full f then f else fifo_put c f)"
    "fifo_items (if fifo_full f then f else fifo_put c f) = take CharFIFO_SIZE (fifo_items f @ [c])"
  using assms fifo_put_laws [OF assms] fifo_count_bounds(1,2) [OF assms] by (auto simp: fifo_items_def)

lemma poll_key:
  assumes "batch_file (cpu.more s) = None" "host_sel (sb_mach (cpu.more s)) = (True, w) # sel" "host_in (sb_mach (cpu.more s)) 0 = c # cs"
  shows "\<exists>t. multicomp_console_rxpoll s = Ret () t \<and> batch_file (cpu.more t) = None \<and> host_sel (sb_mach (cpu.more t)) = sel
    \<and> host_in (sb_mach (cpu.more t)) 0 = cs
    \<and> uart0_rx_fifo (cpu.more t) = (let f = uart0_rx_fifo (cpu.more s) in if fifo_full f then f else fifo_put c f)"
  using assms
  by (simp add: multicomp_console_rxpoll_def Let_def bindE_def on_low_def kbhit_def kbchar_def low_set_mch set_mch_def doif_def assign_def set_fifo_def)

lemma poll_idle:
  assumes "batch_file (cpu.more s) = None" "host_sel (sb_mach (cpu.more s)) = []"
  shows "multicomp_console_rxpoll s = Ret () s"
  using assms by (simp add: multicomp_console_rxpoll_def Let_def bindE_def on_low_def kbhit_def doif_def)

definition uart_polls :: "nat \<Rightarrow> sbcsys stmt" where
  "uart_polls n = block (replicate n multicomp_console_rxpoll)"

primrec uart_reads :: "nat \<Rightarrow> (sbcsys, u8 list) expr" where
  "uart_reads 0 = Ret []"
| "uart_reads (Suc n) = bindE (multicomp09_console_read 1) (\<lambda>v. bindE (uart_reads n) (\<lambda>vs. Ret (v # vs)))"

lemma uart_polls_items:
  assumes "fifo_ok (uart0_rx_fifo (cpu.more s))" "batch_file (cpu.more s) = None"
    and "host_sel (sb_mach (cpu.more s)) = replicate (length vs) (True, w)" "host_in (sb_mach (cpu.more s)) 0 = vs @ rest"
  shows "\<exists>t. uart_polls (length vs) s = Ret () t \<and> fifo_ok (uart0_rx_fifo (cpu.more t))
    \<and> fifo_items (uart0_rx_fifo (cpu.more t)) = take CharFIFO_SIZE (fifo_items (uart0_rx_fifo (cpu.more s)) @ vs)
    \<and> batch_file (cpu.more t) = None \<and> host_sel (sb_mach (cpu.more t)) = [] \<and> host_in (sb_mach (cpu.more t)) 0 = rest"
  using assms
proof (induction vs arbitrary: s)
  case Nil
  then show ?case using fifo_count_bounds(1) [of "uart0_rx_fifo (cpu.more s)"] by (simp add: uart_polls_def fifo_items_def)
next
  case (Cons v vs)
  let ?f = "uart0_rx_fifo (cpu.more s)"
  obtain u where u: "multicomp_console_rxpoll s = Ret () u" "batch_file (cpu.more u) = None" "host_sel (sb_mach (cpu.more u)) = replicate (length vs) (True, w)"
      "host_in (sb_mach (cpu.more u)) 0 = vs @ rest" "uart0_rx_fifo (cpu.more u) = (if fifo_full ?f then ?f else fifo_put v ?f)"
    using poll_key [OF Cons.prems(2), of w "replicate (length vs) (True, w)" v "vs @ rest"] Cons.prems by (auto simp: Let_def)
  note put = fifo_put_take [OF Cons.prems(1), of v, folded u(5)]
  obtain t where "uart_polls (length vs) u = Ret () t" "fifo_ok (uart0_rx_fifo (cpu.more t))"
      "fifo_items (uart0_rx_fifo (cpu.more t)) = take CharFIFO_SIZE (fifo_items (uart0_rx_fifo (cpu.more u)) @ vs)"
      "batch_file (cpu.more t) = None" "host_sel (sb_mach (cpu.more t)) = []" "host_in (sb_mach (cpu.more t)) 0 = rest"
    using Cons.IH [OF put(1) u(2-4)] by blast
  moreover have "take CharFIFO_SIZE (fifo_items (uart0_rx_fifo (cpu.more u)) @ vs) = take CharFIFO_SIZE (fifo_items ?f @ v # vs)"
    unfolding put(2) by (simp add: take_Cons')
  ultimately show ?case using u(1) by (auto simp: uart_polls_def bindE_def)
qed

lemma data_read:
  assumes "fifo_ok (uart0_rx_fifo (cpu.more s))" "batch_file (cpu.more s) = None" "host_sel (sb_mach (cpu.more s)) = []"
    and "fifo_items (uart0_rx_fifo (cpu.more s)) = c # cs"
  shows "\<exists>t. multicomp09_console_read 1 s = Ret (dos_key c) t \<and> fifo_ok (uart0_rx_fifo (cpu.more t)) \<and> fifo_items (uart0_rx_fifo (cpu.more t)) = cs
    \<and> batch_file (cpu.more t) = None \<and> host_sel (sb_mach (cpu.more t)) = [] \<and> host_in (sb_mach (cpu.more t)) = host_in (sb_mach (cpu.more s))
    \<and> (cs = [] \<longrightarrow> \<not> bit (irqs_pending t) 1)"
proof -
  let ?f = "uart0_rx_fifo (cpu.more s)"
  obtain f where f: "fifo_get ?f = (c, f)" "fifo_ok f" "fifo_items f = cs" using fifo_get_laws [OF assms(1,4)] by (cases "fifo_get ?f") auto
  have e: "\<not> cf_empty ?f" using assms(4) by (auto simp: fifo_items_def fifo_count_def)
  have last: "cf_rd f = cf_wr f" if "cs = []"
    using fifo_count_bounds(3) [OF f(2)] f(2,3) that by (simp add: fifo_items_def fifo_ok_def)
  show ?thesis
    using f e last by (auto simp: multicomp09_console_read_def bindE_def poll_idle [OF assms(2,3)] assign_def doif_def set_fifo_def release_irq_def
        set_sbc_def assms(2,3) bit_simps)
qed

lemma uart_reads_items:
  assumes "fifo_ok (uart0_rx_fifo (cpu.more s))" "batch_file (cpu.more s) = None" "host_sel (sb_mach (cpu.more s)) = []"
  shows "\<exists>t. uart_reads (length (fifo_items (uart0_rx_fifo (cpu.more s)))) s = Ret (map dos_key (fifo_items (uart0_rx_fifo (cpu.more s)))) t
    \<and> cf_empty (uart0_rx_fifo (cpu.more t)) \<and> host_in (sb_mach (cpu.more t)) = host_in (sb_mach (cpu.more s))
    \<and> (fifo_items (uart0_rx_fifo (cpu.more s)) \<noteq> [] \<longrightarrow> \<not> bit (irqs_pending t) 1)"
  using assms
proof (induction "fifo_items (uart0_rx_fifo (cpu.more s))" arbitrary: s)
  case Nil
  then show ?case using fifo_count_bounds(3) [OF Nil.prems(1)] by (simp add: fifo_items_def)
next
  case (Cons c cs)
  obtain u where u: "multicomp09_console_read 1 s = Ret (dos_key c) u" "fifo_ok (uart0_rx_fifo (cpu.more u))" "fifo_items (uart0_rx_fifo (cpu.more u)) = cs"
      "batch_file (cpu.more u) = None" "host_sel (sb_mach (cpu.more u)) = []" "host_in (sb_mach (cpu.more u)) = host_in (sb_mach (cpu.more s))"
      "cs = [] \<Longrightarrow> \<not> bit (irqs_pending u) 1"
    using data_read [OF Cons.prems Cons.hyps(2) [symmetric]] by blast
  obtain t where "uart_reads (length cs) u = Ret (map dos_key cs) t" "cf_empty (uart0_rx_fifo (cpu.more t))"
      "host_in (sb_mach (cpu.more t)) = host_in (sb_mach (cpu.more u))" "cs \<noteq> [] \<Longrightarrow> \<not> bit (irqs_pending t) 1"
    using Cons.hyps(1) [OF u(3) [symmetric] u(2,4,5)] u(3) by auto
  moreover have "t = u" if "cs = []" using calculation(1) that by simp
  ultimately show ?case using u by (cases "cs = []") (auto simp: bindE_def Cons.hyps(2) [symmetric])
qed

text \<open>(C22) The UART of Multicomp 09 is a bounded queue between the keyboard and the program: polls take the keys typed,
  in order, until the ring of eight is full and lose the rest, and reads of the data register hand them over in that
  order, with the key conversions; when the last one is read, the ring is empty and the interrupt is withdrawn.\<close>

theorem uart_keys_in_order:
  assumes "fifo_ok (uart0_rx_fifo (cpu.more s))" "batch_file (cpu.more s) = None"
    and "host_sel (sb_mach (cpu.more s)) = replicate (length vs) (True, w)" "host_in (sb_mach (cpu.more s)) 0 = vs @ rest"
    and "keys = take CharFIFO_SIZE (fifo_items (uart0_rx_fifo (cpu.more s)) @ vs)"
  shows "\<exists>t u. uart_polls (length vs) s = Ret () t \<and> uart_reads (length keys) t = Ret (map dos_key keys) u
    \<and> cf_empty (uart0_rx_fifo (cpu.more u)) \<and> host_in (sb_mach (cpu.more u)) 0 = rest \<and> (keys \<noteq> [] \<longrightarrow> \<not> bit (irqs_pending u) 1)"
proof -
  obtain t where t: "uart_polls (length vs) s = Ret () t" "fifo_ok (uart0_rx_fifo (cpu.more t))" "fifo_items (uart0_rx_fifo (cpu.more t)) = keys"
      "batch_file (cpu.more t) = None" "host_sel (sb_mach (cpu.more t)) = []" "host_in (sb_mach (cpu.more t)) 0 = rest"
    using uart_polls_items [OF assms(1-4)] assms(5) by blast
  show ?thesis using uart_reads_items [OF t(2,4,5)] t by auto
qed

text \<open>The boards when the process starts.\<close>

definition sbc_power_on :: sbc_state where
  "sbc_power_on = \<lparr>sb_mach = machine_power_on, sb_syms = sym_start, console_class = Plain_console, smii_i_avail = 1, smii_o_busy = 0,
     mc_mmuadr = 0, mc_mmufrt = 0, mc_mmudat = 0, mc_timer = 0, mc_pblk = replicate 16 0, mc_sdlba2 = 0, mc_sdlba1 = 0, mc_sdlba0 = 0,
     mc_data = replicate 512 0, mc_addr = 0, mc_state = 0, mc_poll = 0, mc_dindex = 0,
     uart0_rx_fifo = \<lparr>cf_wr = 0, cf_rd = 0, cf_empty = True, cf_data = replicate CharFIFO_SIZE 0\<rparr>, uart0_wr_status = 0,
     mc_romdev = 0, mc_ramdev = 0, mc_iodev = 0, mc_consoledev = 0, mc_sdmapperdev = 0, sd_file = None, batch_file = None\<rparr>"

theorem uart_keys_in_order_witness:
  "\<exists>t u. uart_polls 2 (power_on (sbc_power_on\<lparr>sb_mach := machine_power_on\<lparr>host_sel := [(True, False), (True, False)], host_in := (\<lambda>_. [65, 10])\<rparr>\<rparr>)) = Ret () t
    \<and> uart_reads 2 t = Ret [65, 13] u"
proof -
  let ?s = "power_on (sbc_power_on\<lparr>sb_mach := machine_power_on\<lparr>host_sel := [(True, False), (True, False)], host_in := (\<lambda>_. [65, 10])\<rparr>\<rparr>)"
  have m: "cpu.more ?s = sbc_power_on\<lparr>sb_mach := machine_power_on\<lparr>host_sel := [(True, False), (True, False)], host_in := (\<lambda>_. [65, 10])\<rparr>\<rparr>" by simp
  have "\<exists>t u. uart_polls (length [65, 10 :: u8]) ?s = Ret () t \<and> uart_reads (length [65, 10 :: u8]) t = Ret (map dos_key [65, 10]) u
      \<and> cf_empty (uart0_rx_fifo (cpu.more u)) \<and> host_in (sb_mach (cpu.more u)) 0 = [] \<and> ([65, 10 :: u8] \<noteq> [] \<longrightarrow> \<not> bit (irqs_pending u) 1)"
    by (rule uart_keys_in_order [where w = False])
      (simp_all add: m sbc_power_on_def fifo_ok_def CharFIFO_SIZE_def fifo_items_def fifo_count_def numeral_2_eq_2)
  moreover have "length [65, 10 :: u8] = 2" "map dos_key [65, 10] = [65, 13]" by (simp_all add: dos_key_def)
  ultimately show ?thesis by metis
qed

text \<open>(C25) A master reset of the UART does not empty the ring properly: it leaves the read index, so that unless that
  index happened to be 0, the next read of the data register delivers a byte from before the reset, whatever key was
  typed since.\<close>

theorem uart_reset_stale:
  assumes "fifo_ok (uart0_rx_fifo (cpu.more s))" "0 < cf_rd (uart0_rx_fifo (cpu.more s))" "batch_file (cpu.more s) = None"
    and "host_sel (sb_mach (cpu.more s)) = [(True, w)]" "host_in (sb_mach (cpu.more s)) 0 = key # keys"
  shows "\<exists>t u. multicomp09_console_write 0 3 s = Ret () t \<and> cf_empty (uart0_rx_fifo (cpu.more t))
    \<and> multicomp09_console_read 1 t = Ret (dos_key (cf_data (uart0_rx_fifo (cpu.more s)) ! cf_rd (uart0_rx_fifo (cpu.more s)))) u
    \<and> host_in (sb_mach (cpu.more u)) 0 = keys"
proof -
  let ?f = "uart0_rx_fifo (cpu.more s)"
  obtain t where t: "multicomp09_console_write 0 3 s = Ret () t" "uart0_rx_fifo (cpu.more t) = ?f\<lparr>cf_wr := 0, cf_empty := True\<rparr>"
      "batch_file (cpu.more t) = None" "host_sel (sb_mach (cpu.more t)) = [(True, w)]" "host_in (sb_mach (cpu.more t)) 0 = key # keys"
    using assms(3-5) by (simp add: multicomp09_console_write_def bindE_def assign_def set_fifo_def release_irq_def set_sbc_def)
  obtain v where v: "multicomp_console_rxpoll t = Ret () v" "batch_file (cpu.more v) = None" "host_in (sb_mach (cpu.more v)) 0 = keys"
      "uart0_rx_fifo (cpu.more v) = fifo_put key (?f\<lparr>cf_wr := 0, cf_empty := True\<rparr>)"
    using poll_key [OF t(3-5)] by (auto simp: Let_def t(2) fifo_full_def)
  have "\<not> cf_empty (uart0_rx_fifo (cpu.more v))" "cf_data (uart0_rx_fifo (cpu.more v)) ! cf_rd ?f = cf_data ?f ! cf_rd ?f"
      "cf_rd (uart0_rx_fifo (cpu.more v)) = cf_rd ?f"
    using assms(2) by (simp_all add: v(4) fifo_put_def)
  then have "\<exists>u. multicomp09_console_read 1 t = Ret (dos_key (cf_data ?f ! cf_rd ?f)) u \<and> host_in (sb_mach (cpu.more u)) 0 = keys"
    using v(1,3) by (auto simp: multicomp09_console_read_def bindE_def fifo_get_def Let_def assign_def set_fifo_def doif_def release_irq_def set_sbc_def)
  then show ?thesis using t(1,2) by auto
qed

definition used_ring :: sbc_state where
  "used_ring = sbc_power_on\<lparr>sb_mach := machine_power_on\<lparr>host_sel := [(True, False)], host_in := (\<lambda>_. [66])\<rparr>,
     uart0_rx_fifo := \<lparr>cf_wr = 1, cf_rd = 1, cf_empty = True, cf_data = [65, 67, 0, 0, 0, 0, 0, 0]\<rparr>\<rparr>"

theorem uart_reset_stale_witness:
  "\<exists>t u. multicomp09_console_write 0 3 (power_on used_ring) = Ret () t \<and> multicomp09_console_read 1 t = Ret 67 u"
proof -
  have "dos_key (cf_data (uart0_rx_fifo used_ring) ! cf_rd (uart0_rx_fifo used_ring)) = 67" by (simp add: used_ring_def dos_key_def)
  moreover have "fifo_ok (uart0_rx_fifo used_ring)" "0 < cf_rd (uart0_rx_fifo used_ring)" "batch_file used_ring = None"
      "host_sel (sb_mach used_ring) = [(True, False)]" "host_in (sb_mach used_ring) 0 = 66 # []"
    by (simp_all add: used_ring_def sbc_power_on_def fifo_ok_def CharFIFO_SIZE_def)
  ultimately show ?thesis using uart_reset_stale [of "power_on used_ring" False 66 "[]"] by auto
qed

section \<open>The SD card\<close>

text \<open>What a driver does: poll the status three times and move a byte.\<close>

definition sd_wait :: "sbcsys iface \<Rightarrow> sbcsys stmt" where
  "sd_wait io = block (replicate 3 (bindE (sdmapper_read io SDCONTROL) (\<lambda>_. Ret ())))"

primrec sd_read_bytes :: "sbcsys iface \<Rightarrow> nat \<Rightarrow> (sbcsys, u8 list) expr" where
  "sd_read_bytes io 0 = Ret []"
| "sd_read_bytes io (Suc n) = bindE (sd_wait io) (\<lambda>_. bindE (sdmapper_read io SDDATA) (\<lambda>v. bindE (sd_read_bytes io n) (\<lambda>vs. Ret (v # vs))))"

primrec sd_write_bytes :: "sbcsys iface \<Rightarrow> nat \<Rightarrow> u8 list \<Rightarrow> sbcsys stmt" where
  "sd_write_bytes io n [] = Ret ()"
| "sd_write_bytes io n (v # vs) = bindE (sd_wait io) (\<lambda>_. bindE (sdmapper_write n SDDATA v) (\<lambda>_. sd_write_bytes io n vs))"

lemma set_sbc_same: "f (cpu.more s) = cpu.more s \<Longrightarrow> set_sbc f s = s"
  by (cases s) (simp add: set_sbc_def)

lemma sd_wait_ready:
  assumes "mc_state (cpu.more s) = 3 \<or> mc_state (cpu.more s) = 4" "mc_poll (cpu.more s) = 0"
  shows "sd_wait io s = Ret () (set_sbc (\<lambda>b. b\<lparr>mc_poll := 3\<rparr>) s)"
  using assms by (auto simp: sd_wait_def numeral_3_eq_3 bindE_def sdmapper_read_def SDCONTROL_def SDDATA_def sd_status_def Let_def set_sbc_def)

lemma sd_order: "b\<lparr>mc_poll := x, mc_state := y, mc_dindex := z\<rparr> = b\<lparr>mc_poll := x, mc_dindex := z, mc_state := y\<rparr>"
  by (cases b) simp

lemma sd_read_tail:
  assumes "mc_state (cpu.more s) = 3" "mc_poll (cpu.more s) = 0" "mc_dindex (cpu.more s) + k \<le> 512" "mc_dindex (cpu.more s) < 512"
    and "length (mc_data (cpu.more s)) = 512"
  shows "sd_read_bytes io k s = Ret (take k (drop (mc_dindex (cpu.more s)) (mc_data (cpu.more s))))
    (set_sbc (\<lambda>b. b\<lparr>mc_poll := 0, mc_dindex := mc_dindex b + k, mc_state := (if mc_dindex b + k = 512 then 2 else 3)\<rparr>) s)"
  using assms
proof (induction k arbitrary: s)
  case 0
  then have "(cpu.more s)\<lparr>mc_poll := 0, mc_dindex := mc_dindex (cpu.more s) + 0, mc_state := (if mc_dindex (cpu.more s) + 0 = 512 then 2 else 3)\<rparr> = cpu.more s"
    by (cases "cpu.more s") simp
  then show ?case using set_sbc_same by simp
next
  case (Suc k)
  let ?b = "cpu.more s"
  let ?i = "mc_dindex ?b"
  let ?u = "set_sbc (\<lambda>b. b\<lparr>mc_poll := 0, mc_dindex := mc_dindex b + 1, mc_state := (if mc_dindex b + 1 = 512 then 2 else 3)\<rparr>) s"
  have "sdmapper_read io SDDATA (set_sbc (\<lambda>b. b\<lparr>mc_poll := 3\<rparr>) s) = Ret (mc_data ?b ! ?i) ?u"
    using Suc.prems by (simp add: sdmapper_read_def SDDATA_def sd_get_def Let_def set_sbc_def sd_order)
  then have one: "sd_read_bytes io (Suc k) s = bindR (sd_read_bytes io k ?u) (\<lambda>vs. Ret (mc_data ?b ! ?i # vs))"
    using Suc.prems by (simp add: bindE_def sd_wait_ready)
  show ?case
  proof (cases "k = 0")
    case True
    then show ?thesis using one Suc.prems by (simp add: take_Suc_conv_app_nth Cons_nth_drop_Suc [symmetric])
  next
    case False
    then show ?thesis
      using one Suc.IH [of ?u] Suc.prems by (simp add: set_sbc_def Cons_nth_drop_Suc [symmetric])
  qed
qed

definition sd_stored :: "u8 list \<Rightarrow> sbc_state \<Rightarrow> sbc_state" where
  "sd_stored vs b =
     (let i = mc_dindex b + length vs; d = take (mc_dindex b) (mc_data b) @ vs @ drop i (mc_data b)
      in b\<lparr>mc_data := d, mc_poll := 0, mc_dindex := i, mc_state := (if i = 512 then 2 else 4),
           sd_file := (if i = 512 then map_option (\<lambda>f. file_write f (unat (mc_addr b)) d) (sd_file b) else sd_file b)\<rparr>)"

lemma sd_put_stored:
  assumes "mc_state b = 4" "mc_dindex b < 512" "length (mc_data b) = 512" "\<not> fseek_fails (mc_addr b)" "sd_file b = Some f"
  shows "sd_put v (b\<lparr>mc_poll := 3\<rparr>) = Some (sd_stored [v] b)"
proof -
  have "(mc_data b)[mc_dindex b := v] = take (mc_dindex b) (mc_data b) @ v # drop (Suc (mc_dindex b)) (mc_data b)"
    using assms(2,3) by (simp add: upd_conv_take_nth_drop)
  then show ?thesis using assms by (cases b) (simp add: sd_put_def sd_stored_def Let_def)
qed

lemma sd_stored_Cons:
  assumes "mc_dindex b + length (v # vs) \<le> 512" "length (mc_data b) = 512" "vs \<noteq> []"
  shows "sd_stored vs (sd_stored [v] b) = sd_stored (v # vs) b"
proof -
  have "mc_dindex b + 1 < 512" "length vs > 0" using assms by (cases vs; simp)+
  then show ?thesis using assms by (cases b) (simp add: sd_stored_def Let_def add.commute)
qed

lemma sd_write_tail:
  assumes "mc_state (cpu.more s) = 4" "mc_poll (cpu.more s) = 0" "mc_dindex (cpu.more s) + length vs \<le> 512" "vs \<noteq> []"
    and "length (mc_data (cpu.more s)) = 512" "\<not> fseek_fails (mc_addr (cpu.more s))" "sd_file (cpu.more s) = Some f"
  shows "sd_write_bytes io n vs s = Ret () (set_sbc (sd_stored vs) s)"
  using assms
proof (induction vs arbitrary: s)
  case (Cons v vs)
  let ?b = "cpu.more s"
  let ?u = "set_sbc (sd_stored [v]) s"
  have "sdmapper_write n SDDATA v (set_sbc (\<lambda>b. b\<lparr>mc_poll := 3\<rparr>) s) = Ret () ?u"
    using sd_put_stored [of ?b f v] Cons.prems by (simp add: sdmapper_write_def SDDATA_def) (simp add: set_sbc_def)
  then have one: "sd_write_bytes io n (v # vs) s = sd_write_bytes io n vs ?u"
    using Cons.prems by (simp add: bindE_def sd_wait_ready)
  show ?case
  proof (cases "vs = []")
    case True
    then show ?thesis using one by simp
  next
    case False
    then have "mc_dindex ?b + 1 < 512" using Cons.prems(3) by (cases vs) auto
    then have "sd_write_bytes io n vs ?u = Ret () (set_sbc (sd_stored vs) ?u)"
      using Cons.prems False by (intro Cons.IH) (simp_all add: sd_stored_def Let_def)
    moreover have "set_sbc (sd_stored vs) ?u = set_sbc (sd_stored (v # vs)) s"
      using sd_stored_Cons [OF Cons.prems(3,5) False] by (simp add: set_sbc_def)
    ultimately show ?thesis using one by simp
  qed
qed simp

text \<open>A command, by the state it leaves.\<close>

lemma sd_command_write:
  assumes "mc_state (cpu.more s) = 2"
  shows "sdmapper_write n SDCONTROL 1 s = Ret () (set_sbc (\<lambda>b. b\<lparr>mc_addr := sd_address b, mc_poll := 0, mc_dindex := 0, mc_state := 4, mc_sdlba0 := 1\<rparr>) s)"
  using assms by (simp add: sdmapper_write_def SDCONTROL_def SDDATA_def doif_def bindE_def sd_command_def Let_def assign_def set_sbc_def)

definition sector :: "u8 list \<Rightarrow> nat \<Rightarrow> u8 list \<Rightarrow> u8 list" where
  "sector f a d = map (\<lambda>i. if a + i < length f then f ! (a + i) else d ! i) [0..<512]"

lemma sd_command_read:
  assumes "mc_state (cpu.more s) = 2" "\<not> fseek_fails (sd_address (cpu.more s))" "sd_file (cpu.more s) = Some f"
  shows "sdmapper_write n SDCONTROL 0 s = Ret () (set_sbc (\<lambda>b. b\<lparr>mc_addr := sd_address b, mc_poll := 0, mc_dindex := 0, mc_state := 3,
    mc_data := sector f (unat (sd_address b)) (mc_data b), mc_sdlba0 := 0\<rparr>) s)"
  using assms by (simp add: sdmapper_write_def SDCONTROL_def SDDATA_def doif_def bindE_def sd_command_def Let_def assign_def set_sbc_def sector_def cong: if_cong)

lemma sector_in: "a + 512 \<le> length f \<Longrightarrow> sector f a d = take 512 (drop a f)"
  by (rule nth_equalityI) (simp_all add: sector_def)

lemma sector_written: "length bs = 512 \<Longrightarrow> sector (file_write f a bs) a d = bs"
  by (subst sector_in) (simp_all add: file_write_def)

text \<open>A command to read and the 512 bytes.\<close>

definition sd_fetch :: "sbcsys iface \<Rightarrow> nat \<Rightarrow> (sbcsys, u8 list) expr" where
  "sd_fetch io n = bindE (sdmapper_write n SDCONTROL 0) (\<lambda>_. sd_read_bytes io 512)"

lemma sd_fetch_sector:
  assumes "mc_state (cpu.more s) = 2" "\<not> fseek_fails (sd_address (cpu.more s))" "sd_file (cpu.more s) = Some f"
  shows "\<exists>t. sd_fetch io n s = Ret (sector f (unat (sd_address (cpu.more s))) (mc_data (cpu.more s))) t
    \<and> t = set_sbc (\<lambda>_. cpu.more t) s \<and> mc_state (cpu.more t) = 2 \<and> mc_sdlba0 (cpu.more t) = 0 \<and> mc_sdlba1 (cpu.more t) = mc_sdlba1 (cpu.more s)
    \<and> mc_sdlba2 (cpu.more t) = mc_sdlba2 (cpu.more s) \<and> sd_file (cpu.more t) = Some f \<and> sb_mach (cpu.more t) = sb_mach (cpu.more s)
    \<and> length (mc_data (cpu.more t)) = 512"
proof -
  let ?b = "cpu.more s"
  let ?d = "sector f (unat (sd_address ?b)) (mc_data ?b)"
  let ?u = "set_sbc (\<lambda>b. b\<lparr>mc_addr := sd_address b, mc_poll := 0, mc_dindex := 0, mc_state := 3, mc_data := sector f (unat (sd_address b)) (mc_data b), mc_sdlba0 := 0\<rparr>) s"
  have "length ?d = 512" by (simp add: sector_def)
  then have "sd_read_bytes io 512 ?u = Ret ?d (set_sbc (\<lambda>b. b\<lparr>mc_poll := 0, mc_dindex := mc_dindex b + 512, mc_state := (if mc_dindex b + 512 = 512 then 2 else 3)\<rparr>) ?u)"
    using sd_read_tail [of ?u 512 io] by simp
  then have "sd_fetch io n s = Ret ?d (set_sbc (\<lambda>b. b\<lparr>mc_poll := 0, mc_dindex := mc_dindex b + 512, mc_state := (if mc_dindex b + 512 = 512 then 2 else 3)\<rparr>) ?u)"
    by (simp only: sd_fetch_def bindE_def sd_command_read [OF assms] bindR.simps)
  then show ?thesis using \<open>length ?d = 512\<close> assms(3) by (auto simp: set_sbc_def)
qed

text \<open>(C23) A sector written to the SD card reads back: a write command, 512 bytes each after three polls of the status
  register, and then, with the low address register set again, a read command and 512 bytes deliver what was written.
  The image holds the sector at the address of the registers and is unchanged elsewhere, and the controller is idle.\<close>

theorem sd_sector_roundtrip:
  assumes "mc_state (cpu.more s) = 2" "length (mc_data (cpu.more s)) = 512" "sd_file (cpu.more s) = Some f"
    and "\<not> fseek_fails (sd_address (cpu.more s))" "length bs = 512"
  shows "\<exists>t. bindE (sdmapper_write n SDCONTROL 1) (\<lambda>_. bindE (sd_write_bytes io n bs) (\<lambda>_.
        bindE (sdmapper_write n SDLBA0 (mc_sdlba0 (cpu.more s))) (\<lambda>_. sd_fetch io n))) s = Ret bs t
    \<and> sd_file (cpu.more t) = Some (file_write f (unat (sd_address (cpu.more s))) bs) \<and> mc_state (cpu.more t) = 2
    \<and> low t = low s"
proof -
  let ?b = "cpu.more s"
  let ?u = "set_sbc (\<lambda>b. b\<lparr>mc_addr := sd_address b, mc_poll := 0, mc_dindex := 0, mc_state := 4, mc_sdlba0 := 1\<rparr>) s"
  have "bs \<noteq> []" using assms(5) by auto
  then have w: "sd_write_bytes io n bs ?u = Ret () (set_sbc (sd_stored bs) ?u)"
    using assms by (intro sd_write_tail) simp_all
  let ?v = "set_sbc (\<lambda>b. b\<lparr>mc_sdlba0 := mc_sdlba0 ?b\<rparr>) (set_sbc (sd_stored bs) ?u)"
  have lba: "sdmapper_write n SDLBA0 (mc_sdlba0 ?b) (set_sbc (sd_stored bs) ?u) = Ret () ?v"
    by (simp add: sdmapper_write_def SDDATA_def SDCONTROL_def SDLBA0_def)
  have v: "mc_state (cpu.more ?v) = 2" "sd_file (cpu.more ?v) = Some (file_write f (unat (sd_address ?b)) bs)" "sb_mach (cpu.more ?v) = sb_mach ?b"
      "sd_address (cpu.more ?v) = sd_address ?b"
    using assms(2,3,5) by (simp_all add: sd_stored_def Let_def sd_address_def)
  obtain t where t: "sd_fetch io n ?v = Ret bs t" "t = set_sbc (\<lambda>_. cpu.more t) ?v" "mc_state (cpu.more t) = 2"
      "sd_file (cpu.more t) = Some (file_write f (unat (sd_address ?b)) bs)" "sb_mach (cpu.more t) = sb_mach ?b"
    using sd_fetch_sector [of ?v "file_write f (unat (sd_address ?b)) bs" io n] v assms(4) sector_written [OF assms(5)] by auto
  have "low t = low s" by (subst t(2)) (simp add: low_def set_sbc_def cpu.defs t(5))
  then show ?thesis using t unfolding bindE_def sd_command_write [OF assms(1)] bindR.simps w lba by blast
qed

definition sd_idle :: "u8 list \<Rightarrow> sbc_state" where
  "sd_idle f = sbc_power_on\<lparr>mc_state := 2, sd_file := Some f\<rparr>"

lemma sd_idle_simps [simp]:
  "mc_state (sd_idle f) = 2" "length (mc_data (sd_idle f)) = 512" "sd_file (sd_idle f) = Some f" "mc_sdlba0 (sd_idle f) = 0" "sd_address (sd_idle f) = 0"
  by (simp_all add: sd_idle_def sbc_power_on_def sd_address_def)

theorem sd_sector_roundtrip_witness:
  "\<forall>io. \<exists>t. bindE (sdmapper_write 1 SDCONTROL 1) (\<lambda>_. bindE (sd_write_bytes io 1 (replicate 512 7)) (\<lambda>_.
    bindE (sdmapper_write 1 SDLBA0 0) (\<lambda>_. sd_fetch io 1))) (power_on (sd_idle [])) = Ret (replicate 512 7) t"
proof
  fix io
  show "\<exists>t. bindE (sdmapper_write 1 SDCONTROL 1) (\<lambda>_. bindE (sd_write_bytes io 1 (replicate 512 7)) (\<lambda>_.
      bindE (sdmapper_write 1 SDLBA0 0) (\<lambda>_. sd_fetch io 1))) (power_on (sd_idle [])) = Ret (replicate 512 7) t"
    using sd_sector_roundtrip [of "power_on (sd_idle [])" "[]" "replicate 512 7" 1 io] by (auto simp: fseek_fails_def)
qed

lemma fseek_fails_bit: "fseek_fails (sd_address b) \<longleftrightarrow> bit (mc_sdlba2 b) 6"
proof -
  have "fseek_fails (sd_address b) \<longleftrightarrow> bit (sd_address b) 31" using bit_last_iff [of "sd_address b"] by (simp add: fseek_fails_def)
  also have "\<dots> \<longleftrightarrow> bit (mc_sdlba2 b) 6"
    by (auto simp: sd_address_def bit_simps dest: bit_imp_le_length)
  finally show ?thesis .
qed

text \<open>(C24) The case of the control register runs on into that of the low address register, so a command overwrites it:
  a second read command without setting it again does not read the same sector, but the one whose low address byte
  is 0.\<close>

theorem sd_address_lost:
  assumes "mc_state (cpu.more s) = 2" "sd_file (cpu.more s) = Some f" "\<not> bit (mc_sdlba2 (cpu.more s)) 6"
    and "unat (sd_address (cpu.more s)) + 512 \<le> length f"
  shows "\<exists>t u. sd_fetch io n s = Ret (take 512 (drop (unat (sd_address (cpu.more s))) f)) t
    \<and> sd_fetch io n t = Ret (take 512 (drop (unat (sd_address ((cpu.more s)\<lparr>mc_sdlba0 := 0\<rparr>))) f)) u"
proof -
  let ?b = "cpu.more s"
  obtain t where t: "sd_fetch io n s = Ret (take 512 (drop (unat (sd_address ?b)) f)) t" "mc_state (cpu.more t) = 2" "mc_sdlba0 (cpu.more t) = 0"
      "mc_sdlba1 (cpu.more t) = mc_sdlba1 ?b" "mc_sdlba2 (cpu.more t) = mc_sdlba2 ?b" "sd_file (cpu.more t) = Some f"
    using sd_fetch_sector [OF assms(1) _ assms(2), of io n] assms(3,4) sector_in by (auto simp: fseek_fails_bit)
  have a: "sd_address (cpu.more t) = sd_address (?b\<lparr>mc_sdlba0 := 0\<rparr>)" using t(3-5) by (simp add: sd_address_def)
  have "sd_address (?b\<lparr>mc_sdlba0 := 0\<rparr>) = sd_address ?b AND sd_address (?b\<lparr>mc_sdlba0 := 0\<rparr>)"
    by (rule bit_eqI) (auto simp: sd_address_def bit_simps)
  then have "sd_address (?b\<lparr>mc_sdlba0 := 0\<rparr>) \<le> sd_address ?b" by (metis word_and_le2)
  then have "unat (sd_address (?b\<lparr>mc_sdlba0 := 0\<rparr>)) + 512 \<le> length f" using assms(4) by (simp add: word_le_nat_alt)
  then show ?thesis using t(1) sd_fetch_sector [OF t(2) _ t(6), of io n] assms(3) t(5) by (auto simp: fseek_fails_bit a sector_in)
qed

theorem sd_address_lost_witness:
  "\<forall>io. \<exists>t u. sd_fetch io 1 (power_on ((sd_idle (replicate 512 1 @ replicate 512 2))\<lparr>mc_sdlba0 := 1\<rparr>)) = Ret (replicate 512 2) t
    \<and> sd_fetch io 1 t = Ret (replicate 512 1) u"
proof
  fix io
  let ?s = "power_on ((sd_idle (replicate 512 1 @ replicate 512 2))\<lparr>mc_sdlba0 := 1\<rparr>)"
  have a: "unat (sd_address (cpu.more ?s)) = 512" "unat (sd_address ((cpu.more ?s)\<lparr>mc_sdlba0 := 0\<rparr>)) = 0" "\<not> bit (mc_sdlba2 (cpu.more ?s)) 6"
    by (simp_all add: sd_address_def sd_idle_def sbc_power_on_def)
  show "\<exists>t u. sd_fetch io 1 ?s = Ret (replicate 512 2) t \<and> sd_fetch io 1 t = Ret (replicate 512 1) u"
    using sd_address_lost [of ?s "replicate 512 1 @ replicate 512 2" io 1] a by simp
qed

lemma seek_loop_stuck: "i < 512 \<Longrightarrow> seek_fail_loop n i b = None"
  by (induction n arbitrary: i b) (simp_all add: Let_def)

text \<open>A read command for an address that the host cannot seek to never returns: the loop meant to fill the buffer
  sets its own counter back.\<close>

theorem sd_seek_hangs:
  assumes "mc_state (cpu.more s) = 2" "bit (mc_sdlba2 (cpu.more s)) 6"
  shows "sdmapper_write n SDCONTROL 0 s = NoFuel"
proof -
  have "fseek_fails (sd_address (cpu.more s))" using assms(2) by (simp add: fseek_fails_bit)
  then show ?thesis
    using assms(1) by (simp add: sdmapper_write_def SDCONTROL_def SDDATA_def doif_def bindE_def sd_command_def Let_def seek_loop_stuck)
qed

theorem sd_seek_hangs_witness: "\<forall>n. sdmapper_write n SDCONTROL 0 (power_on ((sd_idle [])\<lparr>mc_sdlba2 := 0x40\<rparr>)) = NoFuel"
proof
  fix n
  show "sdmapper_write n SDCONTROL 0 (power_on ((sd_idle [])\<lparr>mc_sdlba2 := 0x40\<rparr>)) = NoFuel"
    by (rule sd_seek_hangs) (simp_all add: sd_idle_def)
qed

section \<open>The memory mapper\<close>

definition no_fixed :: "busmap list \<Rightarrow> bool" where
  "no_fixed maps \<longleftrightarrow> length maps = NUM_BUS_MAPS \<and> (\<forall>m \<in> set maps. bm_flags m AND MAP_FIXED = 0)"

lemma remapped_nth:
  assumes "no_fixed maps" "i < NUM_BUS_MAPS"
  shows "remapped a k d off fl maps ! i =
    (if a \<le> i \<and> i < a + k then \<lparr>bm_devid = d, bm_offset = off + (i - a) * BUS_MAP_SIZE, bm_flags = fl\<rparr> else maps ! i)"
  using assms by (simp add: remapped_def no_fixed_def)

lemma no_fixed_remapped:
  assumes "no_fixed maps" "fl AND MAP_FIXED = 0"
  shows "no_fixed (remapped a k d off fl maps)"
proof -
  have "bm_flags (remapped a k d off fl maps ! i) AND MAP_FIXED = 0" if "i < NUM_BUS_MAPS" for i
    unfolding remapped_nth [OF assms(1) that] using assms that by (simp add: no_fixed_def)
  moreover have "length (remapped a k d off fl maps) = NUM_BUS_MAPS" using assms(1) by (simp add: remapped_def no_fixed_def)
  ultimately show ?thesis by (auto simp: no_fixed_def in_set_conv_nth)
qed

lemma bus_map_free:
  assumes "no_fixed (busmaps (mch s))" "a + k \<le> NUM_BUS_MAPS"
  shows "bus_map (a * 128) d (x * 128) (k * 128) fl s = Ret () (set_mch (\<lambda>m. m\<lparr>busmaps := remapped a k d (x * 128) fl (busmaps m)\<rparr>) s)"
  using bus_map_units [of s a k d x fl] assms by (simp add: no_fixed_def BUS_MAP_SIZE_def)

text \<open>The memory map that the registers describe.\<close>

definition mc_map :: "sbc_state \<Rightarrow> nat \<Rightarrow> busmap" where
  "mc_map b a =
     (let off = \<lambda>base. base + a mod 0x2000 div 128 * 128 in
      if a < 0xe000 then \<lparr>bm_devid = 1, bm_offset = off (mmu_offset (a div 0x2000) b), bm_flags = mmu_flags (a div 0x2000) b\<rparr>
      else if 0xff80 \<le> a then \<lparr>bm_devid = 5, bm_offset = 0, bm_flags = MAP_READWRITE\<rparr>
      else if mc_mmuadr b AND 0x80 = 0 then \<lparr>bm_devid = 2, bm_offset = off 0, bm_flags = MAP_READABLE\<rparr>
      else if a < 0xfe00 then \<lparr>bm_devid = 1, bm_offset = off (mmu_offset 7 b), bm_flags = mmu_flags 7 b\<rparr>
      else if mc_mmufrt b \<noteq> 0 then \<lparr>bm_devid = 1, bm_offset = off (FRT_BLOCK * 0x2000), bm_flags = mmu_flags 7 b\<rparr>
      else \<lparr>bm_devid = 1, bm_offset = off (mmu_offset 7 b), bm_flags = MAP_READWRITE\<rparr>)"

lemma mmu_offset_units: "\<exists>x. mmu_offset blk b = x * 128 \<and> mmu_offset blk b + 0x1e00 = (x + 60) * 128"
  by (cases "mc_mmuadr b AND 0x20 = 0") (auto simp: mmu_offset_def intro: exI [of _ "blk * 64"] exI [of _ "unat (mmu_block b blk AND 0x7f) * 64"])

lemma mmu_flags_free: "mmu_flags blk b AND MAP_FIXED = 0"
  by (simp add: mmu_flags_def map_flags)

definition remaps :: "nat \<Rightarrow> nat \<Rightarrow> (nat \<Rightarrow> busmap) \<Rightarrow> sys stmt \<Rightarrow> bool" where
  "remaps a k f m \<longleftrightarrow> (\<forall>s. no_fixed (busmaps (mch s)) \<longrightarrow>
     (\<exists>maps. m s = Ret () (set_mch (\<lambda>m. m\<lparr>busmaps := maps\<rparr>) s) \<and> no_fixed maps
       \<and> (\<forall>i < NUM_BUS_MAPS. maps ! i = (if a \<le> i \<and> i < a + k then f i else busmaps (mch s) ! i))))"

lemma remapsD:
  assumes "remaps a k f m" "no_fixed (busmaps (mch s))"
  obtains maps where "m s = Ret () (set_mch (\<lambda>m. m\<lparr>busmaps := maps\<rparr>) s)" "no_fixed maps"
    "\<And>i. i < NUM_BUS_MAPS \<Longrightarrow> maps ! i = (if a \<le> i \<and> i < a + k then f i else busmaps (mch s) ! i)"
  using assms unfolding remaps_def by blast

lemma remaps_bus_map:
  assumes "a + k \<le> NUM_BUS_MAPS" "fl AND MAP_FIXED = 0" "addr = a * 128" "off = x * 128" "len = k * 128"
    and "\<And>i. a \<le> i \<Longrightarrow> i < a + k \<Longrightarrow> f i = \<lparr>bm_devid = d, bm_offset = off + (i - a) * 128, bm_flags = fl\<rparr>"
  shows "remaps a k f (bus_map addr d off len fl)"
  unfolding remaps_def
proof (intro allI impI)
  fix s assume s: "no_fixed (busmaps (mch s))"
  let ?maps = "remapped a k d off fl (busmaps (mch s))"
  have "bus_map addr d off len fl s = Ret () (set_mch (\<lambda>m. m\<lparr>busmaps := ?maps\<rparr>) s)"
    using bus_map_free [OF s assms(1), of d x fl] by (simp add: assms(3-5) set_mch_def)
  then show "\<exists>maps. bus_map addr d off len fl s = Ret () (set_mch (\<lambda>m. m\<lparr>busmaps := maps\<rparr>) s) \<and> no_fixed maps
      \<and> (\<forall>i < NUM_BUS_MAPS. maps ! i = (if a \<le> i \<and> i < a + k then f i else busmaps (mch s) ! i))"
    using no_fixed_remapped [OF s assms(2)] remapped_nth [OF s] assms(6) by (intro exI [of _ ?maps]) (auto simp: BUS_MAP_SIZE_def)
qed

lemma remaps_Nil: "remaps a 0 f (block [])"
  unfolding remaps_def
proof (intro allI impI)
  fix s :: sys assume "no_fixed (busmaps (mch s))"
  then show "\<exists>maps. block [] s = Ret () (set_mch (\<lambda>m. m\<lparr>busmaps := maps\<rparr>) s) \<and> no_fixed maps
      \<and> (\<forall>i < NUM_BUS_MAPS. maps ! i = (if a \<le> i \<and> i < a + 0 then f i else busmaps (mch s) ! i))"
    by (intro exI [of _ "busmaps (mch s)"]) (auto simp: set_mch_def)
qed

lemma remaps_Cons:
  assumes "remaps a j f m" "remaps (a + j) k f (block ms)"
  shows "remaps a (j + k) f (block (m # ms))"
  unfolding remaps_def
proof (intro allI impI)
  fix s assume s: "no_fixed (busmaps (mch s))"
  obtain maps1 where 1: "m s = Ret () (set_mch (\<lambda>m. m\<lparr>busmaps := maps1\<rparr>) s)" "no_fixed maps1"
      "\<And>i. i < NUM_BUS_MAPS \<Longrightarrow> maps1 ! i = (if a \<le> i \<and> i < a + j then f i else busmaps (mch s) ! i)"
    using remapsD [OF assms(1) s] by blast
  let ?u = "set_mch (\<lambda>m. m\<lparr>busmaps := maps1\<rparr>) s"
  have "no_fixed (busmaps (mch ?u))" using 1(2) by (simp add: set_mch_def)
  then obtain maps where 2: "block ms ?u = Ret () (set_mch (\<lambda>m. m\<lparr>busmaps := maps\<rparr>) ?u)" "no_fixed maps"
      "\<And>i. i < NUM_BUS_MAPS \<Longrightarrow> maps ! i = (if a + j \<le> i \<and> i < a + j + k then f i else busmaps (mch ?u) ! i)"
    using remapsD [OF assms(2)] by blast
  have "block (m # ms) s = Ret () (set_mch (\<lambda>m. m\<lparr>busmaps := maps\<rparr>) s)"
    using 1(1) 2(1) by (simp add: bindE_def set_mch_def)
  then show "\<exists>maps. block (m # ms) s = Ret () (set_mch (\<lambda>m. m\<lparr>busmaps := maps\<rparr>) s) \<and> no_fixed maps
      \<and> (\<forall>i < NUM_BUS_MAPS. maps ! i = (if a \<le> i \<and> i < a + (j + k) then f i else busmaps (mch s) ! i))"
    using 1(3) 2(2,3) by (intro exI [of _ maps]) (auto simp: set_mch_def)
qed

lemma unit_page: "(i * 128) div 0x2000 = i div (64 :: nat)" "(i * 128) mod 0x2000 div 128 * 128 = (i mod 64) * (128 :: nat)"
  using div_mult_mult2 [of 128 i 64] mod_mult_mult2 [of i 128 64] by simp_all

lemma mc_map_unit:
  "mc_map b (i * 128) =
     (let off = \<lambda>base. base + (i mod 64) * 128 in
      if i < 448 then \<lparr>bm_devid = 1, bm_offset = off (mmu_offset (i div 64) b), bm_flags = mmu_flags (i div 64) b\<rparr>
      else if 511 \<le> i then \<lparr>bm_devid = 5, bm_offset = 0, bm_flags = MAP_READWRITE\<rparr>
      else if mc_mmuadr b AND 0x80 = 0 then \<lparr>bm_devid = 2, bm_offset = off 0, bm_flags = MAP_READABLE\<rparr>
      else if i < 508 then \<lparr>bm_devid = 1, bm_offset = off (mmu_offset 7 b), bm_flags = mmu_flags 7 b\<rparr>
      else if mc_mmufrt b \<noteq> 0 then \<lparr>bm_devid = 1, bm_offset = off (FRT_BLOCK * 0x2000), bm_flags = mmu_flags 7 b\<rparr>
      else \<lparr>bm_devid = 1, bm_offset = off (mmu_offset 7 b), bm_flags = MAP_READWRITE\<rparr>)"
proof -
  have c: "i * 128 < 0xe000 \<longleftrightarrow> i < 448" "0xff80 \<le> i * 128 \<longleftrightarrow> 511 \<le> i" "i * 128 < 0xfe00 \<longleftrightarrow> i < 508" by simp_all
  show ?thesis unfolding mc_map_def Let_def unit_page c by (rule refl)
qed

lemma remaps_block:
  assumes "k < 7"
  shows "remaps (k * 64) 64 (\<lambda>i. mc_map b (i * 128)) (bus_map (k * 0x2000) 1 (mmu_offset k b) 0x2000 (mmu_flags k b))"
proof -
  obtain x where x: "mmu_offset k b = x * 128" using mmu_offset_units by blast
  show ?thesis
  proof (rule remaps_bus_map [OF _ mmu_flags_free _ x])
    fix i assume i: "k * 64 \<le> i" "i < k * 64 + 64"
    then have d: "i div 64 = k" by (intro div_nat_eqI) simp_all
    then have "i mod 64 = i - k * 64" "i < 448" using i assms by (simp_all add: modulo_nat_def) 
    then show "mc_map b (i * 128) = \<lparr>bm_devid = 1, bm_offset = mmu_offset k b + (i - k * 64) * 128, bm_flags = mmu_flags k b\<rparr>"
      by (simp add: mc_map_unit d)
  qed (use assms in \<open>simp_all add: NUM_BUS_MAPS_def\<close>)
qed

lemma remaps_top:
  "remaps 448 60 (\<lambda>i. mc_map b (i * 128)) (if mc_mmuadr b AND 0x80 \<noteq> 0 then bus_map 0xe000 1 (mmu_offset 7 b) 0x1e00 (mmu_flags 7 b)
     else bus_map 0xe000 2 0 0x1e00 MAP_READABLE)"
  "remaps 508 3 (\<lambda>i. mc_map b (i * 128)) (if mc_mmuadr b AND 0x80 \<noteq> 0 then
        (if mc_mmufrt b \<noteq> 0 then bus_map 0xfe00 1 (0x1e00 + FRT_BLOCK * 0x2000) 0x180 (mmu_flags 7 b)
         else bus_map 0xfe00 1 (0x1e00 + mmu_offset 7 b) 0x180 MAP_READWRITE)
      else bus_map 0xfe00 2 0x1e00 0x180 MAP_READABLE)"
  "remaps 511 1 (\<lambda>i. mc_map b (i * 128)) (bus_map 0xff80 5 0 128 MAP_READWRITE)"
proof -
  obtain x where x: "mmu_offset 7 b = x * 128" "0x1e00 + mmu_offset 7 b = (x + 60) * 128" using mmu_offset_units [of 7 b] by (auto simp: add.commute)
  have m: "i mod 64 = i - 448" if "448 \<le> i" "i < 512" for i :: nat
  proof -
    have "i div 64 = 7" using that by (intro div_nat_eqI) simp_all
    then show ?thesis by (simp add: modulo_nat_def)
  qed
  have m60: "(i mod 64) * 128 = 0x1e00 + (i - 508) * 128" if "508 \<le> i" "i < 511" for i :: nat using m [of i] that by simp
  have free: "MAP_READABLE AND MAP_FIXED = 0" "MAP_READWRITE AND MAP_FIXED = 0" by (simp_all add: map_flags)
  note r = remaps_bus_map [OF _ mmu_flags_free] remaps_bus_map [OF _ free(1)] remaps_bus_map [OF _ free(2)]
  show "remaps 448 60 (\<lambda>i. mc_map b (i * 128)) (if mc_mmuadr b AND 0x80 \<noteq> 0 then bus_map 0xe000 1 (mmu_offset 7 b) 0x1e00 (mmu_flags 7 b)
     else bus_map 0xe000 2 0 0x1e00 MAP_READABLE)"
    by (cases "mc_mmuadr b AND 0x80 = 0")
      (simp, rule r(2) [where x = 0], (simp add: NUM_BUS_MAPS_def mc_map_unit m)+, rule r(1) [where x = x], (simp add: NUM_BUS_MAPS_def mc_map_unit m x(1))+)
  show "remaps 511 1 (\<lambda>i. mc_map b (i * 128)) (bus_map 0xff80 5 0 128 MAP_READWRITE)"
    by (rule r(3) [where x = 0]) (simp_all add: NUM_BUS_MAPS_def mc_map_unit)
  show "remaps 508 3 (\<lambda>i. mc_map b (i * 128)) (if mc_mmuadr b AND 0x80 \<noteq> 0 then
        (if mc_mmufrt b \<noteq> 0 then bus_map 0xfe00 1 (0x1e00 + FRT_BLOCK * 0x2000) 0x180 (mmu_flags 7 b)
         else bus_map 0xfe00 1 (0x1e00 + mmu_offset 7 b) 0x180 MAP_READWRITE)
      else bus_map 0xfe00 2 0x1e00 0x180 MAP_READABLE)"
  proof (cases "mc_mmuadr b AND 0x80 = 0")
    case True
    then show ?thesis by simp (rule r(2) [where x = 60], simp_all add: NUM_BUS_MAPS_def mc_map_unit m60)
  next
    case rom: False
    show ?thesis
    proof (cases "mc_mmufrt b = 0")
      case True
      then show ?thesis using rom by simp (rule r(3) [OF _ _ x(2)], simp_all add: NUM_BUS_MAPS_def mc_map_unit m60)
    next
      case False
      then show ?thesis using rom by simp (rule r(1) [where x = "508"], simp_all add: NUM_BUS_MAPS_def mc_map_unit m60 FRT_BLOCK_def)
    qed
  qed
qed

lemma remap_bus_map: "remaps 0 512 (\<lambda>i. mc_map b (i * 128)) (remap_bus b)"
proof -
  have l: "[0..<7] = [0, 1, 2, 3, 4, 5, 6 :: nat]" by (simp add: upt_rec)
  note c = remaps_block [of 0 b] remaps_block [of 1 b] remaps_block [of 2 b] remaps_block [of 3 b] remaps_block [of 4 b] remaps_block [of 5 b] remaps_block [of 6 b]
  have "remaps 0 (64 + (64 + (64 + (64 + (64 + (64 + (64 + (60 + (3 + (1 + 0)))))))))) (\<lambda>i. mc_map b (i * 128)) (remap_bus b)"
    unfolding remap_bus_def l list.map append.simps
    by (intro remaps_Cons; use c remaps_top [of b] remaps_Nil [of _ "\<lambda>i. mc_map b (i * 128)"] in simp)
  then show ?thesis by simp
qed

section \<open>The expander\<close>

definition expander :: "nat \<Rightarrow> sys \<Rightarrow> ioexpand \<Rightarrow> bool" where
  "expander dv s iom \<longleftrightarrow> dv < length (device_table (mch s)) \<and> dev_priv (device_table (mch s) ! dv) = Ioexpand_dev iom
     \<and> length (ios iom) = NR_IOEXPAND \<and> length (io_offset iom) = NR_IOEXPAND"

lemma expander_set: "expander dv s iom \<Longrightarrow> length (ios iom') = NR_IOEXPAND \<Longrightarrow> length (io_offset iom') = NR_IOEXPAND \<Longrightarrow>
    expander dv (set_priv dv (Ioexpand_dev iom') s) iom'"
  by (simp add: expander_def set_priv_def set_mch_def)

lemma set_priv_same:
  assumes "dev_priv (device_table (mch s) ! dv) = p"
  shows "set_priv dv p s = s"
proof -
  have "(device_table (mch s) ! dv)\<lparr>dev_priv := p\<rparr> = device_table (mch s) ! dv"
    using assms by (cases "device_table (mch s) ! dv") simp
  then show ?thesis by (cases s) (simp add: set_priv_def set_mch_def)
qed

lemma set_priv_twice: "dv < length (device_table (mch s)) \<Longrightarrow> set_priv dv p (set_priv dv q s) = set_priv dv p s"
  by (simp add: set_priv_def set_mch_def)

lemma attach_slots:
  assumes "expander dv s iom" "n \<le> NR_IOEXPAND"
  shows "\<exists>iom'. block (map (\<lambda>i. case slot i of (off, dev) \<Rightarrow> ioexpand_attach dv i off dev) [0..<n]) s = Ret () (set_priv dv (Ioexpand_dev iom') s)
    \<and> length (ios iom') = NR_IOEXPAND \<and> length (io_offset iom') = NR_IOEXPAND
    \<and> (\<forall>i < n. ios iom' ! i = Some (snd (slot i)) \<and> io_offset iom' ! i = fst (slot i))"
  using assms(2)
proof (induction n)
  case 0
  have "set_priv dv (Ioexpand_dev iom) s = s" by (rule set_priv_same) (use assms(1) in \<open>simp add: expander_def\<close>)
  then show ?case using assms(1) by (intro exI [of _ iom]) (simp add: expander_def)
next
  case (Suc n)
  then obtain iom1 where 1: "block (map (\<lambda>i. case slot i of (off, dev) \<Rightarrow> ioexpand_attach dv i off dev) [0..<n]) s = Ret () (set_priv dv (Ioexpand_dev iom1) s)"
      "length (ios iom1) = NR_IOEXPAND" "length (io_offset iom1) = NR_IOEXPAND"
      "\<forall>i < n. ios iom1 ! i = Some (snd (slot i)) \<and> io_offset iom1 ! i = fst (slot i)" by auto
  let ?u = "set_priv dv (Ioexpand_dev iom1) s"
  let ?iom = "iom1\<lparr>ios := (ios iom1)[n := Some (snd (slot n))], io_offset := (io_offset iom1)[n := fst (slot n)]\<rparr>"
  have "expander dv ?u iom1" by (rule expander_set [OF assms(1) 1(2,3)])
  then have "(case slot n of (off, dev) \<Rightarrow> ioexpand_attach dv n off dev) ?u = Ret () (set_priv dv (Ioexpand_dev ?iom) ?u)"
    using Suc.prems 1(2) by (simp add: ioexpand_attach_def dev_of_def expander_def split_beta)
  also have "set_priv dv (Ioexpand_dev ?iom) ?u = set_priv dv (Ioexpand_dev ?iom) s"
    using assms(1) by (intro set_priv_twice) (simp add: expander_def)
  finally have "block (map (\<lambda>i. case slot i of (off, dev) \<Rightarrow> ioexpand_attach dv i off dev) [0..<Suc n]) s = Ret () (set_priv dv (Ioexpand_dev ?iom) s)"
    using 1(1) by (simp add: block_append bindE_def)
  moreover have "ios ?iom ! i = Some (snd (slot i)) \<and> io_offset ?iom ! i = fst (slot i)" if "i < Suc n" for i
    using that 1(2-4) Suc.prems by (cases "i = n") simp_all
  ultimately show ?case using 1(2,3) by (intro exI [of _ ?iom]) simp
qed

lemma mc_map_page: "mc_map b (a div 128 * 128) = mc_map b a"
proof -
  have d: "a div 0x2000 = a div 128 div 64" "a mod 0x2000 div 128 = a div 128 mod 64"
    using div_mult2_eq [of a 128 64] mod_mult2_eq [of a 128 64] by simp_all
  have c: "a < 0xe000 \<longleftrightarrow> a div 128 < 448" "0xff80 \<le> a \<longleftrightarrow> 511 \<le> a div 128" "a < 0xfe00 \<longleftrightarrow> a div 128 < 508"
    by (simp_all add: div_less_iff_less_mult less_eq_div_iff_mult_less_eq)
  show ?thesis unfolding mc_map_unit Let_def unfolding mc_map_def Let_def d c by (rule refl)
qed

lemma remap_load_mach [simp]: "sb_mach (remap_load op val b) = sb_mach b" "mc_iodev (remap_load op val b) = mc_iodev b"
  by (simp_all add: remap_load_def Let_def)

lemma remap_slot_mach: "remap_slot (b\<lparr>sb_mach := m\<rparr>) i = remap_slot b i"
  by (simp add: remap_slot_def mmu_offset_def mmu_block_def)

lemma low_set_sbc: "sb_mach (f (cpu.more s)) = sb_mach (cpu.more s) \<Longrightarrow> low (set_sbc f s) = low s"
  by (simp add: low_def set_sbc_def cpu.defs)

lemma remap_effect:
  assumes "no_fixed (busmaps (sb_mach (cpu.more s)))" "expander (mc_iodev (cpu.more s)) (low s) iom"
  shows "\<exists>t iom'. sdmapper_remap op val s = Ret () t \<and> (\<forall>a < 0x10000. find_map (of_nat a) (low t) = Ret (mc_map (remap_load op val (cpu.more s)) a) (low t))
    \<and> expander (mc_iodev (cpu.more s)) (low t) iom'
    \<and> (\<forall>i < NR_IOEXPAND. (io_offset iom' ! i, ios iom' ! i) = (case remap_slot (remap_load op val (cpu.more s)) i of (off, dev) \<Rightarrow> (off, Some dev)))
    \<and> no_fixed (busmaps (sb_mach (cpu.more t))) \<and> cpu.more t = (remap_load op val (cpu.more s))\<lparr>sb_mach := sb_mach (cpu.more t)\<rparr>
    \<and> (\<exists>maps. low t = set_priv (mc_iodev (cpu.more s)) (Ioexpand_dev iom') (set_mch (\<lambda>m. m\<lparr>busmaps := maps\<rparr>) (low s)))"
proof -
  let ?c = "remap_load op val (cpu.more s)"
  let ?dv = "mc_iodev (cpu.more s)"
  let ?u = "set_sbc (remap_load op val) s"
  have lu: "low ?u = low s" by (rule low_set_sbc) simp
  obtain maps where maps: "remap_bus ?c (low s) = Ret () (set_mch (\<lambda>m. m\<lparr>busmaps := maps\<rparr>) (low s))" "no_fixed maps"
      "\<And>i. i < NUM_BUS_MAPS \<Longrightarrow> maps ! i = (if 0 \<le> i \<and> i < 0 + 512 then mc_map ?c (i * 128) else busmaps (mch (low s)) ! i)"
    using remapsD [OF remap_bus_map, of "low s" ?c] assms(1) by auto
  let ?v = "set_mch (\<lambda>m. m\<lparr>busmaps := maps\<rparr>) (low s)"
  have "expander ?dv ?v iom" using assms(2) by (simp add: expander_def set_mch_def)
  then obtain iom' where slots: "block (map (\<lambda>i. case remap_slot ?c i of (off, dev) \<Rightarrow> ioexpand_attach ?dv i off dev) [0..<16]) ?v = Ret () (set_priv ?dv (Ioexpand_dev iom') ?v)"
      "length (ios iom') = NR_IOEXPAND" "length (io_offset iom') = NR_IOEXPAND"
      "\<forall>i < 16. ios iom' ! i = Some (snd (remap_slot ?c i)) \<and> io_offset iom' ! i = fst (remap_slot ?c i)"
    using attach_slots [of ?dv ?v iom 16 "remap_slot ?c"] by (auto simp: NR_IOEXPAND_def)
  let ?w = "set_priv ?dv (Ioexpand_dev iom') ?v"
  have run: "sdmapper_remap op val s = Ret () (raise ?w ?u)"
    using maps(1) slots(1) by (simp add: sdmapper_remap_def bindE_def assign_def on_low_def lu remap_slot_mach)
  have w: "busmaps (mch ?w) = maps" by (simp add: set_priv_def set_mch_def)
  have "find_map (of_nat a) ?w = Ret (mc_map ?c a) ?w" if "a < 0x10000" for a
  proof -
    have u: "unat (of_nat a :: u32) = a" using that by (simp add: unsigned_of_nat take_bit_nat_eq_self)
    have i: "a div 128 < 512" using that by (simp add: less_mult_imp_div_less)
    have "length maps = 512" using maps(2) by (simp add: no_fixed_def NUM_BUS_MAPS_def)
    then show ?thesis using i maps(3) [of "a div 128"] by (simp add: find_map_def w u BUS_MAP_SIZE_def NUM_BUS_MAPS_def mc_map_page)
  qed
  moreover have "expander ?dv ?w iom'" by (rule expander_set [OF \<open>expander ?dv ?v iom\<close> slots(2,3)])
  ultimately show ?thesis
    using run slots(4) maps(2) w by (intro exI [of _ "raise ?w ?u"] exI [of _ iom']) (auto simp: NR_IOEXPAND_def split_beta)
qed

text \<open>The same map read off the registers: bit 5 of MMUADR turns the mapper on, bit 6 selects the upper registers,
  bit 7 turns the ROM off; of a register, the low seven bits are the block and the top bit protects it.\<close>

definition block_of :: "sbc_state \<Rightarrow> nat \<Rightarrow> nat \<times> u8" where
  "block_of b blk =
     (if bit (mc_mmuadr b) 5 then
        let r = mc_pblk b ! (if bit (mc_mmuadr b) 6 then blk + 8 else blk)
        in (unat r mod 128, if bit r 7 then MAP_READABLE else MAP_READWRITE)
      else (blk, MAP_READWRITE))"

definition registers_map :: "sbc_state \<Rightarrow> nat \<Rightarrow> busmap" where
  "registers_map b a =
     (let (blk, fl) = block_of b (a div 0x2000);
          unit = \<lambda>dv n. busmap.fields dv (n * 0x2000 + a mod 0x2000 div 128 * 128) in
      if 0xff80 \<le> a then busmap.fields 5 0 MAP_READWRITE
      else if 0xe000 \<le> a \<and> \<not> bit (mc_mmuadr b) 7 then unit 2 0 MAP_READABLE
      else if 0xfe00 \<le> a then (if mc_mmufrt b \<noteq> 0 then unit 1 FRT_BLOCK fl else unit 1 blk MAP_READWRITE)
      else unit 1 blk fl)"

lemma register_bits:
  "(x :: u8) AND 0x20 = 0 \<longleftrightarrow> \<not> bit x 5" "x AND 0x80 = 0 \<longleftrightarrow> \<not> bit x 7" "drop_bit 7 x = 1 \<longleftrightarrow> bit x 7"
  "unat (x AND 0x7f) = unat x mod 128"
proof -
  show "x AND 0x20 = 0 \<longleftrightarrow> \<not> bit x 5" "x AND 0x80 = 0 \<longleftrightarrow> \<not> bit x 7" by (simp_all add: bit_iff_and_push_bit_not_eq_0)
  have "bit (drop_bit 7 x) n = bit (of_bool (bit x 7) :: u8) n" for n by (cases n) (auto simp: bit_simps dest: bit_imp_le_length)
  then have "drop_bit 7 x = of_bool (bit x 7)" by (rule bit_eqI)
  then show "drop_bit 7 x = 1 \<longleftrightarrow> bit x 7" by simp
  have "unat x AND mask 7 = unat x mod 128" by (simp flip: take_bit_eq_mask add: take_bit_eq_mod)
  then show "unat (x AND 0x7f) = unat x mod 128" by (simp add: unsigned_and_eq mask_eq_exp_minus_1)
qed

lemma mmu_block_register: "mmu_block b blk = mc_pblk b ! (if bit (mc_mmuadr b) 6 then blk + 8 else blk)" if "blk < 8"
proof -
  have "drop_bit 3 (mc_mmuadr b AND 0x40) = (if bit (mc_mmuadr b) 6 then 8 else 0)"
    by (rule bit_word_eqI) (auto simp: bit_simps bit_numeral_rec less_Suc_eq numeral_eq_Suc)
  moreover have "\<forall>x \<in> {0, 1, 2, 3, 4, 5, 6, 7 :: nat}. x OR 8 = x + 8" by simp
  then have "blk OR 8 = blk + 8" using that by (auto simp: numeral_eq_Suc less_Suc_eq)
  ultimately show ?thesis by (simp add: mmu_block_def)
qed

lemma block_of_mmu: "mmu_offset blk b = fst (block_of b blk) * 0x2000" "mmu_flags blk b = snd (block_of b blk)" if "blk < 8"
  using that by (simp_all add: mmu_offset_def mmu_flags_def block_of_def mmu_block_register register_bits Let_def)

lemma registers_map_mc: "registers_map b a = mc_map b a" if "a < 0x10000"
proof -
  have 1: "a div 0x2000 < 8" "0xe000 \<le> a \<Longrightarrow> a div 0x2000 = 7" using that by auto
  then have 2: "block_of b (a div 0x2000) = block_of b 7" if "0xe000 \<le> a" using that by simp
  show ?thesis
    using 1 2 by (simp add: registers_map_def mc_map_def Let_def block_of_mmu register_bits busmap.defs split: prod.split)
qed

text \<open>(C21) The memory mapper of Multicomp 09: after a write to its data register, or to its address register without the
  single-step bit, every address of the processor leads to the device, offset and access flags that the registers
  describe (blocks of 8 KB through the selected eight of sixteen registers, the ROM or RAM at the top, the fixed block),
  and the expander at the top holds the I/O devices in slots 10 and 11 and the memory below it in the others.\<close>

theorem mapper_translates:
  assumes "no_fixed (busmaps (sb_mach (cpu.more s)))" "expander (mc_iodev (cpu.more s)) (low s) iom"
    and "op = 1 \<and> addr = 7 \<or> op = 2 \<and> addr = 6 \<and> val AND 0x10 = 0" "b = remap_load op val (cpu.more s)"
  shows "\<exists>t iom'. sdmapper_write n addr val s = Ret () t \<and> (\<forall>a < 0x10000. find_map (of_nat a) (low t) = Ret (registers_map b a) (low t))
    \<and> expander (mc_iodev (cpu.more s)) (low t) iom'
    \<and> (\<forall>i < NR_IOEXPAND. (io_offset iom' ! i, ios iom' ! i) = (case remap_slot b i of (off, dev) \<Rightarrow> (off, Some dev)))
    \<and> cpu.more t = b\<lparr>sb_mach := sb_mach (cpu.more t)\<rparr>"
proof -
  have "sdmapper_write n addr val s = sdmapper_remap op val s"
    using assms(3) by (auto simp: sdmapper_write_def SDDATA_def SDCONTROL_def SDLBA0_def SDLBA1_def SDLBA2_def doif_def)
  then show ?thesis using remap_effect [OF assms(1,2), of op val] unfolding assms(4) by (auto simp: registers_map_mc)
qed

definition mapper_board :: sbc_state where
  "mapper_board = sbc_power_on\<lparr>mc_pblk := [3] @ replicate 15 0,
     sb_mach := machine_power_on\<lparr>device_table := [\<lparr>dev_size = 128, dev_priv = Ioexpand_dev \<lparr>ios = replicate 16 None, io_offset = replicate 16 0\<rparr>\<rparr>]\<rparr>\<rparr>"

lemma no_fixed_power_on: "no_fixed (busmaps machine_power_on)" "no_fixed (replicate NUM_BUS_MAPS \<lparr>bm_devid = d, bm_offset = x, bm_flags = 0\<rparr>)"
  by (simp_all add: no_fixed_def machine_power_on_def)

theorem mapper_translates_witness:
  "\<exists>t. sdmapper_write 1 6 0x20 (power_on mapper_board) = Ret () t
    \<and> find_map 0x10 (low t) = Ret \<lparr>bm_devid = 1, bm_offset = 0x6000, bm_flags = MAP_READWRITE\<rparr> (low t)"
proof -
  let ?b = "remap_load 2 0x20 mapper_board"
  have m: "registers_map ?b 0x10 = \<lparr>bm_devid = 1, bm_offset = 0x6000, bm_flags = MAP_READWRITE\<rparr>"
    by (simp add: registers_map_def block_of_def remap_load_def Let_def mapper_board_def sbc_power_on_def busmap.defs)
  have nf: "no_fixed (busmaps (sb_mach (cpu.more (power_on mapper_board))))" using no_fixed_power_on by (simp add: mapper_board_def)
  have ex: "expander (mc_iodev (cpu.more (power_on mapper_board))) (low (power_on mapper_board)) \<lparr>ios = replicate 16 None, io_offset = replicate 16 0\<rparr>"
    by (simp add: expander_def mapper_board_def sbc_power_on_def NR_IOEXPAND_def)
  obtain t where t: "sdmapper_write 1 6 0x20 (power_on mapper_board) = Ret () t"
      "\<forall>a < 0x10000. find_map (of_nat a) (low t) = Ret (registers_map ?b a) (low t)"
    using mapper_translates [OF nf ex, of 2 6 "0x20" ?b 1] by fastforce
  from t(2) [rule_format, of "0x10"] m have "find_map 0x10 (low t) = Ret \<lparr>bm_devid = 1, bm_offset = 0x6000, bm_flags = MAP_READWRITE\<rparr> (low t)" by simp
  with t(1) show ?thesis by blast
qed

section \<open>Starting the board\<close>

definition attached :: "priv \<Rightarrow> nat \<Rightarrow> sys \<Rightarrow> sys" where
  "attached p sz = set_mch (\<lambda>m. m\<lparr>device_table := device_table m @ [\<lparr>dev_size = sz, dev_priv = p\<rparr>]\<rparr>)"

lemma attach_kinds:
  assumes "length (device_table (mch s)) < MAX_BUS_DEVICES"
    and "p = Ram_dev (\<lambda>_. 0) \<or> p = Rom_dev buf \<or> p = Console_dev \<or> p = Sdmapper_dev \<or> p = Ioexpand_dev \<lparr>ios = replicate k None, io_offset = offs\<rparr>"
  shows "device_attach p sz s = Ret (length (device_table (mch s))) (attached p sz s)"
proof -
  let ?dv = "length (device_table (mch s))"
  have d: "dev_of ?dv (attached p sz s) = Some \<lparr>dev_size = sz, dev_priv = p\<rparr>" by (simp add: dev_of_def attached_def set_mch_def)
  have same: "set_priv ?dv p (attached p sz s) = attached p sz s" by (rule set_priv_same) (simp add: attached_def set_mch_def)
  have "block (map (\<lambda>x. case x of Some d \<Rightarrow> rs d | None \<Rightarrow> Ret ()) (replicate k None)) u = Ret () u" for rs :: "nat \<Rightarrow> sys stmt" and u
    by (induction k) (simp_all add: bindE_def)
  then have "dev_reset DEV_FUEL ?dv (attached p sz s) = Ret () (attached p sz s)"
    using assms(2) same by (auto simp: DEV_FUEL_def d ioexpand_reset_def)
  then show ?thesis using assms(1) by (simp add: device_attach_def Let_def bindE_def assign_def attached_def)
qed

text \<open>The machine as \<^verbatim>\<open>machine_init\<close> hands it to the initialiser.\<close>

definition board_start :: sbc_state where
  "board_start = sbc_power_on\<lparr>sb_mach := machine_power_on\<lparr>device_table := [\<lparr>dev_size = 0, dev_priv = Null_dev\<rparr>], null_device := Some 0,
     busmaps := replicate NUM_BUS_MAPS \<lparr>bm_devid = INVALID_DEVID, bm_offset = 0, bm_flags = 0\<rparr>\<rparr>\<rparr>"

definition board_devices :: "(nat \<Rightarrow> u8) \<Rightarrow> ioexpand \<Rightarrow> hw_device list" where
  "board_devices rom iom = [\<lparr>dev_size = 0, dev_priv = Null_dev\<rparr>, \<lparr>dev_size = MULTICOMP09_RAMMAX, dev_priv = Ram_dev (\<lambda>_. 0)\<rparr>,
     \<lparr>dev_size = 0x2000, dev_priv = Rom_dev rom\<rparr>, \<lparr>dev_size = BUS_MAP_SIZE, dev_priv = Console_dev\<rparr>,
     \<lparr>dev_size = BUS_MAP_SIZE, dev_priv = Sdmapper_dev\<rparr>, \<lparr>dev_size = BUS_MAP_SIZE, dev_priv = Ioexpand_dev iom\<rparr>]"

definition rom_of :: "u8 list \<Rightarrow> nat \<Rightarrow> u8" where
  "rom_of img a = (if a < length img then img ! a else 0)"

definition with_devices :: "hw_device list \<Rightarrow> sbcsys \<Rightarrow> sbcsys" where
  "with_devices ds = set_sbc (\<lambda>b. b\<lparr>sb_mach := (sb_mach b)\<lparr>device_table := ds\<rparr>\<rparr>)"

lemma on_low_attach:
  assumes "device_table (sb_mach (cpu.more s)) = ds" "length ds < MAX_BUS_DEVICES"
    and "p = Ram_dev (\<lambda>_. 0) \<or> p = Rom_dev buf \<or> p = Console_dev \<or> p = Sdmapper_dev \<or> p = Ioexpand_dev \<lparr>ios = replicate k None, io_offset = offs\<rparr>"
  shows "on_low (device_attach p sz) s = Ret (length ds) (with_devices (ds @ [\<lparr>dev_size = sz, dev_priv = p\<rparr>]) s)"
proof -
  have "length (device_table (mch (low s))) < MAX_BUS_DEVICES" using assms(1,2) by simp
  from attach_kinds [OF this assms(3), of sz] show ?thesis using assms(1)
    by (simp add: on_low_def attached_def low_set_mch with_devices_def set_sbc_def)
qed

lemma board_creates:
  assumes "length img = 0x2000" "s = power_on board_start"
  shows "on_low (ram_create MULTICOMP09_RAMMAX) s = Ret 1 (with_devices (take 2 (board_devices (rom_of img) iom)) s)"
    "on_low (rom_create (Some img) 0x2000) (with_devices (take 2 (board_devices (rom_of img) iom)) s) = Ret 2 (with_devices (take 3 (board_devices (rom_of img) iom)) s)"
    "on_low console_create (with_devices (take 3 (board_devices (rom_of img) iom)) s) = Ret 3 (with_devices (take 4 (board_devices (rom_of img) iom)) s)"
    "on_low sdmapper_create (with_devices (take 4 (board_devices (rom_of img) iom)) s) = Ret 4 (with_devices (take 5 (board_devices (rom_of img) iom)) s)"
    "iom = \<lparr>ios = replicate NR_IOEXPAND None, io_offset = replicate NR_IOEXPAND 0\<rparr> \<Longrightarrow>
      on_low ioexpand_create (with_devices (take 5 (board_devices (rom_of img) iom)) s) = Ret 5 (with_devices (board_devices (rom_of img) iom) s)"
proof -
  have w: "with_devices ds (with_devices es s) = with_devices ds s" "device_table (sb_mach (cpu.more (with_devices ds s))) = ds" for ds es
    by (simp_all add: with_devices_def)
  have s0: "device_table (sb_mach (cpu.more s)) = take 1 (board_devices (rom_of img) iom)" by (simp add: assms(2) board_start_def board_devices_def)
  have rom: "rom_create (Some img) 0x2000 = device_attach (Rom_dev (rom_of img)) 0x2000"
    using assms(1) by (simp add: rom_create_def rom_of_def [abs_def])
  show "on_low (ram_create MULTICOMP09_RAMMAX) s = Ret 1 (with_devices (take 2 (board_devices (rom_of img) iom)) s)"
    unfolding ram_create_def by (subst on_low_attach [OF s0]) (simp_all add: board_devices_def MAX_BUS_DEVICES_def numeral_2_eq_2)
  show "on_low (rom_create (Some img) 0x2000) (with_devices (take 2 (board_devices (rom_of img) iom)) s) = Ret 2 (with_devices (take 3 (board_devices (rom_of img) iom)) s)"
    unfolding rom by (subst on_low_attach [OF w(2)]) (simp_all add: board_devices_def MAX_BUS_DEVICES_def w(1))
  show "on_low console_create (with_devices (take 3 (board_devices (rom_of img) iom)) s) = Ret 3 (with_devices (take 4 (board_devices (rom_of img) iom)) s)"
    unfolding console_create_def by (subst on_low_attach [OF w(2)]) (simp_all add: board_devices_def MAX_BUS_DEVICES_def w(1))
  show "on_low sdmapper_create (with_devices (take 4 (board_devices (rom_of img) iom)) s) = Ret 4 (with_devices (take 5 (board_devices (rom_of img) iom)) s)"
    unfolding sdmapper_create_def by (subst on_low_attach [OF w(2)]) (simp_all add: board_devices_def MAX_BUS_DEVICES_def w(1))
  show "iom = \<lparr>ios = replicate NR_IOEXPAND None, io_offset = replicate NR_IOEXPAND 0\<rparr> \<Longrightarrow>
      on_low ioexpand_create (with_devices (take 5 (board_devices (rom_of img) iom)) s) = Ret 5 (with_devices (board_devices (rom_of img) iom) s)"
    unfolding ioexpand_create_def by (subst on_low_attach [OF w(2)]) (simp_all add: board_devices_def MAX_BUS_DEVICES_def w(1))
qed

text \<open>A word read at the reset vector goes through the expander to the end of the ROM.\<close>

lemma vector_read:
  assumes "length (busmaps (sb_mach (cpu.more s))) = NUM_BUS_MAPS" "busmaps (sb_mach (cpu.more s)) ! 511 = \<lparr>bm_devid = 5, bm_offset = 0, bm_flags = MAP_READWRITE\<rparr>"
    and "device_table (sb_mach (cpu.more s)) = board_devices rom iom" "active_break_count (sb_mach (cpu.more s)) = 0"
    and "length (ios iom) = NR_IOEXPAND" "ios iom ! 15 = Some 2" "io_offset iom ! 15 = 0x1ff8"
  shows "sbc_read16 dbg io 0xfffe s = Ret (push_bit 8 (ucast (rom 0x1ffe)) OR ucast (rom 0x1fff)) s"
proof -
  have map: "on_low (find_map 0xfffe) s = Ret \<lparr>bm_devid = 5, bm_offset = 0, bm_flags = MAP_READWRITE\<rparr> s"
    using assms(1,2) by (simp add: on_low_def find_map_def BUS_MAP_SIZE_def NUM_BUS_MAPS_def)
  have dev: "on_low (find_device 0xfffe 5) s = Ret 5 s"
    using assms(3) by (simp add: on_low_def find_device_def INVALID_DEVID_def board_devices_def)
  have readable: "on_low (\<lambda>s. doif (cpu_running (mch s) \<and> MAP_READWRITE AND MAP_READABLE = 0) (do_fault a x) s) s = Ret () s" for a x
    by (simp add: on_low_def doif_def MAP_READABLE_def MAP_READWRITE_def)
  have hook: "on_low (command_read_hook dbg a) s = Ret () s" for a using assms(4) by (simp add: on_low_def command_read_hook_def)
  have rom: "sbc_dev_read io (Suc k) 2 a s = Ret (rom a) s" if "a < 0x2000" for a k
    using that assms(3) by (simp add: dev_of_def board_devices_def on_low_def ram_read_def)
  have d: "dev_of 5 (low s) = Some \<lparr>dev_size = BUS_MAP_SIZE, dev_priv = Ioexpand_dev iom\<rparr>"
    using assms(3) by (simp add: dev_of_def board_devices_def)
  have slot: "sbc_dev_read io DEV_FUEL 5 (120 + k) s = Ret (rom (0x1ff8 + k)) s" if "k < 8" for k
  proof -
    have "(120 + k) div 8 = 15" "(120 + k) mod 8 = k" using that by presburger+
    moreover have fuel: "DEV_FUEL = Suc (Suc 31)" by (simp add: DEV_FUEL_def MAX_BUS_DEVICES_def)
    have "sbc_dev_read io DEV_FUEL 5 (120 + k) s = ioexpand_read (sbc_dev_read io (Suc 31)) iom (120 + k) s"
      unfolding fuel sbc_dev_read.simps(2) [of io "Suc 31" 5] d by simp
    ultimately show ?thesis
      using rom [of "0x1ff8 + k" 31] that assms(5-7) by (simp only: ioexpand_read_def Let_def IO_WINDOW_def NR_IOEXPAND_def option.case) (simp add: add.commute)
  qed
  show ?thesis
    using slot [of 6] slot [of 7]
    by (simp add: sbc_read16_def bindE_def map dev hook BUS_MAP_SIZE_def Let_def readable)
qed

lemma mask_u16: "(ucast (w :: u16) :: u32) AND 0xffff = ucast w"
proof -
  have "(ucast w :: u32) AND mask 16 = ucast w" by (rule bit_eqI) (auto simp: bit_simps dest: bit_imp_le_length)
  then show ?thesis by (simp add: mask_eq_exp_minus_1)
qed

text \<open>(C20) Multicomp 09 starts: with a ROM image of 8 KB, whatever the batch file and the card image, the initialiser
  builds the machine, and the reset of the processor then finds its first address in the last two bytes of the image,
  through the mapper and the expander, with interrupts masked.\<close>

theorem multicomp_boots:
  assumes "length img = 0x2000"
  shows "\<exists>t u. multicomp09_init (Some img) batch sd (power_on board_start) = Ret () t \<and> cpu_reset (sbc_bus dbg (Suc n)) t = Ret () u
    \<and> rPC u = ucast (push_bit 8 (ucast (img ! 0x1ffe)) OR ucast (img ! 0x1fff) :: u16)
    \<and> EFI u AND (F_FLAG OR I_FLAG) = F_FLAG OR I_FLAG \<and> cpu_running (sb_mach (cpu.more u)) \<and> mc_state (cpu.more u) = (if sd = None then 0 else 1)"
proof -
  let ?iom = "\<lparr>ios = replicate NR_IOEXPAND None, io_offset = replicate NR_IOEXPAND 0\<rparr>"
  let ?s = "power_on board_start"
  note creates = board_creates [OF assms refl, where iom = ?iom]
  let ?v = "set_sbc (\<lambda>b. b\<lparr>console_class := Multicomp_console, mc_ramdev := 1, mc_romdev := 2, mc_consoledev := 3, mc_sdmapperdev := 4, mc_iodev := 5\<rparr>)
      (with_devices (board_devices (rom_of img) ?iom) ?s)"
  have v: "busmaps (sb_mach (cpu.more ?v)) = replicate NUM_BUS_MAPS \<lparr>bm_devid = INVALID_DEVID, bm_offset = 0, bm_flags = 0\<rparr>"
      "device_table (sb_mach (cpu.more ?v)) = board_devices (rom_of img) ?iom" "mc_iodev (cpu.more ?v) = 5" "mc_mmuadr (cpu.more ?v) = 0"
      "mc_romdev (cpu.more ?v) = 2" "active_break_count (sb_mach (cpu.more ?v)) = 0"
    by (simp_all add: with_devices_def board_start_def sbc_power_on_def machine_power_on_def)
  have ex: "expander (mc_iodev (cpu.more ?v)) (low ?v) ?iom" by (simp only: expander_def low_simps v(2,3)) (simp add: board_devices_def)
  have nf: "no_fixed (busmaps (sb_mach (cpu.more ?v)))" unfolding v(1) by (rule no_fixed_power_on(2))
  obtain t iom' maps where t: "sdmapper_remap 0 0 ?v = Ret () t" "\<forall>a < 0x10000. find_map (of_nat a) (low t) = Ret (mc_map (remap_load 0 0 (cpu.more ?v)) a) (low t)"
      "expander 5 (low t) iom'" "no_fixed (busmaps (sb_mach (cpu.more t)))"
      "\<forall>i < NR_IOEXPAND. (io_offset iom' ! i, ios iom' ! i) = (case remap_slot (remap_load 0 0 (cpu.more ?v)) i of (off, dev) \<Rightarrow> (off, Some dev))"
      "low t = set_priv 5 (Ioexpand_dev iom') (set_mch (\<lambda>m. m\<lparr>busmaps := maps\<rparr>) (low ?v))"
    using remap_effect [OF nf ex, of 0 0] unfolding v(3) by blast
  have load: "remap_load 0 0 (cpu.more ?v) = cpu.more ?v" by (simp add: remap_load_def)
  have "find_map 0xff80 (low t) = Ret (mc_map (cpu.more ?v) 0xff80) (low t)" using t(2) [rule_format, of "0xff80"] by (simp only: load) simp
  then have maps: "busmaps (sb_mach (cpu.more t)) ! 511 = \<lparr>bm_devid = 5, bm_offset = 0, bm_flags = MAP_READWRITE\<rparr>"
    by (simp add: find_map_def BUS_MAP_SIZE_def mc_map_def Let_def split: if_splits)
  have slot: "ios iom' ! 15 = Some 2" "io_offset iom' ! 15 = 0x1ff8"
    using t(5) [rule_format, of 15, unfolded load remap_slot_def v(4,5)] by (simp_all add: NR_IOEXPAND_def)
  have mach: "device_table (sb_mach (cpu.more t)) = board_devices (rom_of img) iom'" "active_break_count (sb_mach (cpu.more t)) = 0"
    using arg_cong [OF t(6), of mch] v(2,6) by (simp_all add: set_priv_def set_mch_def board_devices_def)
  let ?f = "\<lambda>b. b\<lparr>uart0_rx_fifo := (uart0_rx_fifo b)\<lparr>cf_wr := 0, cf_rd := 0, cf_empty := True\<rparr>, uart0_wr_status := 0,
      batch_file := batch, sd_file := sd, mc_poll := 0, mc_state := (if sd = None then 0 else 1)\<rparr>"
  obtain w where w: "multicomp09_init (Some img) batch sd ?s = Ret () w" "cpu.more w = ?f (cpu.more t)"
    using creates t(1) by (simp add: multicomp09_init_def bindE_def assign_def release_irq_def set_sbc_def)
  let ?x = "w\<lparr>rX := 0, rY := 0, rS := 0, rU := 0, rA := 0, rB := 0, rDP := 0, fH := 0, fN := 0, fOV := 0, fC := 0, fZ := 1, EFI := F_FLAG OR I_FLAG\<rparr>"
  have "sbc_read16 dbg (sbc_bus dbg n) 0xfffe ?x = Ret (push_bit 8 (ucast (rom_of img 0x1ffe)) OR ucast (rom_of img 0x1fff)) ?x"
    by (rule vector_read) (use w(2) maps mach slot t(3,4) in \<open>simp_all add: no_fixed_def expander_def\<close>)
  moreover define y where "y = set_sbc (\<lambda>b. b\<lparr>sb_mach := (sb_mach b)\<lparr>cpu_running := True\<rparr>\<rparr>)
      (?x\<lparr>rPC := ucast (push_bit 8 (ucast (img ! 0x1ffe)) OR ucast (img ! 0x1fff) :: u16)\<rparr>)"
  ultimately have "cpu_reset (sbc_bus dbg (Suc n)) w = Ret () y"
    using assms by (simp add: cpu_reset_def bindE_def assign_def goto_vector_def rd16_def change_pc_def mask_u16 sbc_ports_def on_low_def low_set_mch rom_of_def)
  moreover have "rPC y = ucast (push_bit 8 (ucast (img ! 0x1ffe)) OR ucast (img ! 0x1fff) :: u16)" "EFI y = F_FLAG OR I_FLAG"
      "cpu_running (sb_mach (cpu.more y))" "mc_state (cpu.more y) = (if sd = None then 0 else 1)"
    using w(2) by (simp_all add: y_def set_sbc_def)
  ultimately show ?thesis using w(1) by (intro exI [of _ w] exI [of _ y]) simp
qed

theorem multicomp_boots_witness:
  "\<exists>t u. multicomp09_init (Some (replicate 0x2000 0xe0)) None None (power_on board_start) = Ret () t
    \<and> cpu_reset (sbc_bus no_debugger 1) t = Ret () u \<and> rPC u = 0xe0e0"
proof -
  have n: "replicate 0x2000 (0xe0 :: u8) ! 0x1ffe = 0xe0" "replicate 0x2000 (0xe0 :: u8) ! 0x1fff = 0xe0" by (simp_all only: nth_replicate)
  have "length (replicate 0x2000 (0xe0 :: u8)) = 0x2000" by (rule length_replicate)
  from multicomp_boots [OF this, of None None no_debugger 0] show ?thesis unfolding n by auto
qed
(*END*)

end
