(* ===== verification/Wpc_Laws.thy ===== *)
theory Wpc_Laws
  imports Wpc Sbc_Laws
begin

text \<open>
  The WPC board: the lock on its RAM, its buttons, and where its pages lead.
\<close>

section \<open>The RAM lock\<close>

definition locked_bytes :: "wpc_asic \<Rightarrow> nat" where
  "locked_bytes w = (if wa_ram_unlocked w \<noteq> 0 then 0
     else case map_of [(0x0f, 256), (0x07, 1536), (0x03, 1024), (0x01, 2048), (0x00, 4096)] (wa_ram_lock_size w) of
       Some n \<Rightarrow> n | None \<Rightarrow> 0)"

definition ram_unit :: "nat \<Rightarrow> wpc_asic \<Rightarrow> nat \<Rightarrow> busmap" where
  "ram_unit ram w a = \<lparr>bm_devid = ram, bm_offset = a div 128 * 128, bm_flags = (if a + locked_bytes w < 0x2000 then MAP_READWRITE else MAP_READABLE)\<rparr>"

lemma writable_units:
  obtains k where "size_writable w = k * 128" "locked_bytes w = (64 - k) * 128" "32 \<le> k" "k \<le> 64" "size_writable w < WPC_RAM_SIZE \<longleftrightarrow> k < 64"
proof -
  have "\<exists>k \<in> {32, 48, 52, 56, 62, 64}. size_writable w = k * 128 \<and> locked_bytes w = (64 - k) * 128"
    by (simp add: size_writable_def locked_bytes_def WPC_RAM_SIZE_def)
  then show thesis using that unfolding WPC_RAM_SIZE_def by fastforce
qed

lemma update_ram_remaps:
  assumes "wa_ram_dev w = Some ram" "no_fixed (busmaps (mch s))" "wpc (mch s) = Some w"
  shows "\<exists>maps. wpc_update_ram s = Ret () (set_mch (\<lambda>m. m\<lparr>busmaps := maps\<rparr>) s) \<and> no_fixed maps
    \<and> (\<forall>i < NUM_BUS_MAPS. maps ! i = (if i < 64 then ram_unit ram w (i * 128) else busmaps (mch s) ! i))"
proof -
  obtain k where k: "size_writable w = k * 128" "locked_bytes w = (64 - k) * 128" "32 \<le> k" "k \<le> 64" "size_writable w < WPC_RAM_SIZE \<longleftrightarrow> k < 64"
    by (rule writable_units)
  have unit: "ram_unit ram w (i * 128) = \<lparr>bm_devid = ram, bm_offset = i * 128, bm_flags = (if i < k then MAP_READWRITE else MAP_READABLE)\<rparr>" for i
  proof -
    obtain j where "64 = k + j" using k(4) le_Suc_ex by blast
    then have "i * 128 + (64 - k) * 128 < 0x2000 \<longleftrightarrow> i < k" by auto
    then show ?thesis using k(2) by (simp add: ram_unit_def)
  qed
  have 1: "remaps 0 k (\<lambda>i. ram_unit ram w (i * 128)) (bus_map WPC_RAM_BASE ram 0 (size_writable w) MAP_READWRITE)"
    by (rule remaps_bus_map [where x = 0]) (use k in \<open>simp_all add: WPC_RAM_BASE_def NUM_BUS_MAPS_def map_flags unit\<close>)
  have 2: "remaps k (64 - k) (\<lambda>i. ram_unit ram w (i * 128)) (doif (size_writable w < WPC_RAM_SIZE)
      (bus_map (WPC_RAM_BASE + size_writable w) ram (size_writable w) (WPC_RAM_SIZE - size_writable w) MAP_READABLE))"
  proof (cases "k < 64")
    case True
    have "remaps k (64 - k) (\<lambda>i. ram_unit ram w (i * 128)) (bus_map (WPC_RAM_BASE + size_writable w) ram (size_writable w) (WPC_RAM_SIZE - size_writable w) MAP_READABLE)"
      by (rule remaps_bus_map [where x = k])
        (use k True in \<open>simp_all add: WPC_RAM_BASE_def WPC_RAM_SIZE_def NUM_BUS_MAPS_def map_flags unit diff_mult_distrib\<close>)
    then show ?thesis using k(5) True by (simp add: doif_def [abs_def])
  next
    case False
    have "remaps k 0 (\<lambda>i. ram_unit ram w (i * 128)) (Ret ())"
      using remaps_Nil [of k "\<lambda>i. ram_unit ram w (i * 128)"] unfolding remaps_def by simp
    then show ?thesis using k(4,5) False by (simp add: doif_def [abs_def])
  qed
  let ?m = "block [bus_map WPC_RAM_BASE ram 0 (size_writable w) MAP_READWRITE, doif (size_writable w < WPC_RAM_SIZE)
      (bus_map (WPC_RAM_BASE + size_writable w) ram (size_writable w) (WPC_RAM_SIZE - size_writable w) MAP_READABLE)]"
  have "remaps 0 (k + ((64 - k) + 0)) (\<lambda>i. ram_unit ram w (i * 128)) ?m"
    using 1 2 by (intro remaps_Cons remaps_Nil) simp_all
  moreover have "k + ((64 - k) + 0) = 64" using k(4) by simp
  ultimately have "remaps 0 64 (\<lambda>i. ram_unit ram w (i * 128)) ?m" by metis
  moreover have "wpc_update_ram s = ?m s" unfolding wpc_update_ram_def with_wpc_def assms option.case ..
  ultimately show ?thesis using assms(2) unfolding remaps_def by simp
qed

text \<open>(C27) The RAM lock of WPC: after a write to the lock or its size, the first 8 KB lead to the RAM, the part the two
  registers describe is readable only and the rest writable, all other addresses lead where they did. A write of the running
  processor to the protected part never reaches the RAM: all it does is to be shown to the debugger's write hook, and unless a
  breakpoint is enabled or the byte is the last of the current thread's identifier it has no effect at all.\<close>

theorem wpc_ram_lock:
  assumes "no_fixed (busmaps (mch s))" "wpc (mch s) = Some w" "wa_ram_dev w = Some ram" "present ram s"
    and "addr = 0x3fd \<and> w' = w\<lparr>wa_ram_unlocked := v\<rparr> \<or> addr = 0x3fe \<and> w' = w\<lparr>wa_ram_lock_size := v\<rparr>"
    and "cur_machine (mch s) = Some Wpc_machine" "cpu_running (mch s)"
  shows "\<exists>t. wpc_asic_write addr v s = Ret () t \<and> wpc (mch t) = Some w' \<and> device_table (mch t) = device_table (mch s)
    \<and> (\<forall>a < 0x10000. find_map (of_nat a) t = Ret (if a < 0x2000 then ram_unit ram w' a else busmaps (mch s) ! (a div 128)) t)
    \<and> (\<forall>a < 0x2000. 0x2000 \<le> a + locked_bytes w' \<longrightarrow>
         cpu_write8 dbg io (of_nat a) c t = command_write_hook dbg (absolute_from_reladdr ram a) c t
         \<and> (unwatched (absolute_from_reladdr ram a) s \<longrightarrow> cpu_write8 dbg io (of_nat a) c t = Ret () t))"
proof -
  let ?u = "set_wpc w' s"
  have w: "wpc_asic_write addr v s = wpc_update_ram ?u"
    using assms(2,5) by (auto simp: wpc_asic_write_def WPC_ASIC_BASE_def with_wpc_def bindE_def assign_def)
  have r: "wa_ram_dev w' = Some ram" using assms(3,5) by auto
  have u: "wpc (mch ?u) = Some w'" "busmaps (mch ?u) = busmaps (mch s)" by (simp_all add: set_wpc_def set_mch_def)
  obtain maps where m: "wpc_update_ram ?u = Ret () (set_mch (\<lambda>m. m\<lparr>busmaps := maps\<rparr>) ?u)" "no_fixed maps"
      "\<forall>i < NUM_BUS_MAPS. maps ! i = (if i < 64 then ram_unit ram w' (i * 128) else busmaps (mch s) ! i)"
    using update_ram_remaps [OF r _ u(1)] assms(1) u(2) by auto
  obtain t where t: "wpc_update_ram ?u = Ret () t" "busmaps (mch t) = maps" "device_table (mch t) = device_table (mch s)" "wpc (mch t) = Some w'"
      "cpu_running (mch t)" "cur_machine (mch t) = Some Wpc_machine" "\<forall>x. unwatched x t = unwatched x s"
    using m(1) assms(6,7) by (simp add: set_wpc_def set_mch_def unwatched_def)
  have same: "ram_unit ram w' (a div 128 * 128) = ram_unit ram w' a" for a
  proof -
    obtain k where k: "locked_bytes w' = k * 128" by (rule writable_units)
    have "(a + k * 128) div 128 < 64 \<longleftrightarrow> a + k * 128 < 64 * 128" by (rule div_less_iff_less_mult) simp
    moreover have "(a div 128 * 128 + k * 128) div 128 < 64 \<longleftrightarrow> a div 128 * 128 + k * 128 < 64 * 128" by (rule div_less_iff_less_mult) simp
    ultimately have "a div 128 * 128 + locked_bytes w' < 0x2000 \<longleftrightarrow> a + locked_bytes w' < 0x2000" unfolding k by (simp add: add.commute)
    then show ?thesis by (simp add: ram_unit_def)
  qed
  have f: "find_map (of_nat a) t = Ret (if a < 0x2000 then ram_unit ram w' a else busmaps (mch s) ! (a div 128)) t" if "a < 0x10000" for a
  proof -
    have "unat (of_nat a :: u32) = a" using that by (simp add: unat_of_nat)
    moreover have "a div 128 < 512" "a div 128 < 64 \<longleftrightarrow> a < 0x2000" using that by auto
    ultimately show ?thesis using m(2,3) same [of a] t(2) by (simp add: find_map_def BUS_MAP_SIZE_def NUM_BUS_MAPS_def no_fixed_def)
  qed
  have d: "find_device x ram t = Ret ram t" for x
    by (rule find_device_present) (use assms(4) t(3) in \<open>simp add: present_def\<close>)
  have guard: "cpu_write8 dbg io (of_nat a) c t = command_write_hook dbg (absolute_from_reladdr ram a) c t" if a: "a < 0x2000" "0x2000 \<le> a + locked_bytes w'" for a
  proof -
    have m: "find_map (of_nat a) t = Ret \<lparr>bm_devid = ram, bm_offset = a div 128 * 128, bm_flags = MAP_READABLE\<rparr> t"
      using f [of a] a by (simp add: ram_unit_def)
    have "do_fault x y t = Ret () t" for x y using t(6) by (simp add: do_fault_def machine_fault_def wpc_fault_def)
    moreover have "a div 128 * 128 + unat (of_nat a :: u32) mod 128 = a" using a by (simp add: unat_of_nat)
    ultimately show ?thesis using t(5)
      by (cases "command_write_hook dbg (absolute_from_reladdr ram a) c t") (simp_all add: cpu_write8_def bindE_def m d Let_def map_flags BUS_MAP_SIZE_def)
  qed
  moreover have "command_write_hook dbg x c t = Ret () t" if "unwatched x s" for x
    using that t(7) by (simp add: unwatched_hooks)
  ultimately show ?thesis using w t(1,3,4) f by (intro exI [of _ t]) simp
qed

definition lock_board :: sys where
  "lock_board = power_on (machine_power_on\<lparr>device_table := [\<lparr>dev_size = 0, dev_priv = Null_dev\<rparr>, \<lparr>dev_size = 0x2000, dev_priv = Ram_dev (\<lambda>_. 0)\<rparr>],
     cur_machine := Some Wpc_machine, wpc := Some (wpc_cleared\<lparr>wa_ram_dev := Some 1\<rparr>), cpu_running := True\<rparr>)"

theorem wpc_ram_lock_witness:
  "\<forall>io. \<exists>t. wpc_asic_write 0x3fd 0 lock_board = Ret () t \<and> cpu_write8 no_debugger io (of_nat 0x1800) 5 t = Ret () t
    \<and> find_map (of_nat 0x800) t = Ret \<lparr>bm_devid = 1, bm_offset = 0x800, bm_flags = MAP_READWRITE\<rparr> t"
proof
  fix io
  let ?w = "wpc_cleared\<lparr>wa_ram_dev := Some 1\<rparr>"
  let ?w' = "?w\<lparr>wa_ram_unlocked := 0\<rparr>"
  have lock: "locked_bytes ?w' = 0x1000" by (simp add: locked_bytes_def wpc_cleared_def)
  have s: "no_fixed (busmaps (mch lock_board))" "wpc (mch lock_board) = Some ?w" "wa_ram_dev ?w = Some 1" "present 1 lock_board"
      "cur_machine (mch lock_board) = Some Wpc_machine" "cpu_running (mch lock_board)"
      "\<forall>a < 0x2000. unwatched (absolute_from_reladdr 1 a) lock_board"
    using no_fixed_power_on(1) by (simp_all add: lock_board_def present_def INVALID_DEVID_def machine_power_on_def unwatched_def absolute_from_reladdr_def)
  obtain t where t: "wpc_asic_write 0x3fd 0 lock_board = Ret () t"
      "\<forall>a < 0x10000. find_map (of_nat a) t = Ret (if a < 0x2000 then ram_unit 1 ?w' a else busmaps (mch lock_board) ! (a div 128)) t"
      "\<forall>a < 0x2000. 0x2000 \<le> a + locked_bytes ?w' \<longrightarrow> cpu_write8 no_debugger io (of_nat a) 5 t = Ret () t"
    using wpc_ram_lock [OF s(1-4) _ s(5,6), of "0x3fd" ?w' 0 no_debugger io 5] s(7) by blast
  have "cpu_write8 no_debugger io (of_nat 0x1800) 5 t = Ret () t" by (rule t(3) [rule_format]) (simp_all add: lock [unfolded One_nat_def])
  moreover have "find_map (of_nat 0x800) t = Ret (ram_unit 1 ?w' 0x800) t" using t(2) [rule_format, of "0x800"] by (simp del: of_nat_numeral)
  ultimately show "\<exists>t. wpc_asic_write 0x3fd 0 lock_board = Ret () t \<and> cpu_write8 no_debugger io (of_nat 0x1800) 5 t = Ret () t
    \<and> find_map (of_nat 0x800) t = Ret \<lparr>bm_devid = 1, bm_offset = 0x800, bm_flags = MAP_READWRITE\<rparr> t"
    using t(1) by (intro exI [of _ t]) (simp add: ram_unit_def lock [unfolded One_nat_def] del: of_nat_numeral)
qed

section \<open>Switches\<close>

text \<open>Switch \<open>k\<close> of the matrix, and the matrix with one switch set.\<close>

definition closed_in :: "u8 list \<Rightarrow> nat \<Rightarrow> bool" where
  "closed_in mx k \<longleftrightarrow> bit (mx ! (k div 8)) (k mod 8)"

definition set_switch :: "nat \<Rightarrow> bool \<Rightarrow> u8 list \<Rightarrow> u8 list" where
  "set_switch num flag mx = (let x = mx ! (num div 8); v = push_bit (num mod 8) 1
     in mx[num div 8 := (if flag then (x AND NOT v) OR v else x AND NOT v)])"

lemma closed_set_switch:
  assumes "length mx = 10" "num < 80" "k < 80"
  shows "closed_in (set_switch num flag mx) k \<longleftrightarrow> (if k = num then flag else closed_in mx k)"
proof (cases "k div 8 = num div 8")
  case True
  have "k = num \<longleftrightarrow> k mod 8 = num mod 8" using True by (metis div_mult_mod_eq)
  moreover have "num div 8 < 10" using assms(2) by simp
  moreover have "k mod 8 < 8" by simp
  ultimately show ?thesis
    using True assms(1) by (auto simp: closed_in_def set_switch_def Let_def bit_simps)
qed (use assms in \<open>auto simp: closed_in_def set_switch_def Let_def\<close>)

lemma set_switch_length [simp]: "length (set_switch num flag mx) = length mx"
  by (simp add: set_switch_def Let_def)

lemma write_switch_set:
  assumes "wpc (mch s) = Some w" "length (wa_switch_mx w) = 10" "num < 80"
  shows "wpc_write_switch num flag s = Ret () (set_wpc (w\<lparr>wa_switch_mx := set_switch num flag (wa_switch_mx w)\<rparr>) s)"
proof -
  have "num div 8 < 10" using assms(3) by simp
  then show ?thesis using assms(1,2) by (simp add: wpc_write_switch_def with_wpc_def Let_def set_switch_def)
qed

text \<open>A column is read bit by bit and comes out as stored.\<close>

lemma switch_rows_bits:
  assumes "wpc (mch s) = Some w" "length (wa_switch_mx w) = 10" "col < 10" "set rows \<subseteq> {..<8}"
  shows "\<exists>v. switch_rows col rows v0 s = Ret v s \<and> (\<forall>n. bit v n \<longleftrightarrow> bit v0 n \<or> n \<in> set rows \<and> bit (wa_switch_mx w ! col) n)"
  using assms(4)
proof (induction rows arbitrary: v0)
  case (Cons row rows)
  have r: "row < 8" using Cons.prems by simp
  then have "(col * 8 + row) div 8 = col" "(col * 8 + row) mod 8 = row" by simp_all
  then have "wpc_read_switch (col * 8 + row) s = Ret (bit (wa_switch_mx w ! col) row) s"
    using assms(1-3) by (simp add: wpc_read_switch_def with_wpc_def bit_iff_and_push_bit_not_eq_0)
  moreover obtain v where "switch_rows col rows (if bit (wa_switch_mx w ! col) row then v0 OR push_bit row 1 else v0) s = Ret v s"
      "\<forall>n. bit v n \<longleftrightarrow> bit (if bit (wa_switch_mx w ! col) row then v0 OR push_bit row 1 else v0) n \<or> n \<in> set rows \<and> bit (wa_switch_mx w ! col) n"
    using Cons by fastforce
  ultimately show ?case using r by (auto simp: bindE_def bit_simps)
qed simp

lemma switch_column:
  assumes "wpc (mch s) = Some w" "length (wa_switch_mx w) = 10" "col < 10"
  shows "wpc_read_switch_column col s = Ret (wa_switch_mx w ! col) s"
proof -
  obtain v where v: "switch_rows col [0..<8] 0 s = Ret v s" "\<forall>n. bit v n \<longleftrightarrow> n \<in> set [0..<8] \<and> bit (wa_switch_mx w ! col) n"
    using switch_rows_bits [OF assms, of "[0..<8]" 0] by (auto simp: lessThan_atLeast0)
  have "v = wa_switch_mx w ! col" by (rule bit_eqI) (use v(2) in \<open>auto dest: bit_imp_le_length\<close>)
  then show ?thesis using v(1) by (simp add: wpc_read_switch_column_def)
qed

section \<open>Buttons\<close>

definition press :: "nat \<Rightarrow> wpc_asic \<Rightarrow> wpc_asic" where
  "press num w = w\<lparr>wa_switch_mx := set_switch num True (wa_switch_mx w), wa_curr_sw := num, wa_curr_sw_time := BUTTON_DURATION\<rparr>"

definition pass_time :: "wpc_asic \<Rightarrow> wpc_asic" where
  "pass_time w = (let w = w\<lparr>wa_wdog_timer := wa_wdog_timer w - 50\<rparr>; time = wa_curr_sw_time w - 100 in
     if wa_curr_sw_time w \<le> 0 then w
     else if time \<le> 0 then w\<lparr>wa_curr_sw_time := 0, wa_switch_mx := set_switch (wa_curr_sw w) False (wa_switch_mx w)\<rparr>
     else w\<lparr>wa_curr_sw_time := time\<rparr>)"

definition no_key :: "sys \<Rightarrow> bool" where
  "no_key s \<longleftrightarrow> (case host_sel (mch s) of [] \<Rightarrow> True | x # _ \<Rightarrow> \<not> fst x)"

text \<open>The board between two calls: its structure, and a button that is down is one of the matrix.\<close>

definition board_at :: "wpc_asic \<Rightarrow> sys \<Rightarrow> bool" where
  "board_at w s \<longleftrightarrow> wpc (mch s) = Some w \<and> length (wa_switch_mx w) = 10 \<and> (0 < wa_curr_sw_time w \<longrightarrow> wa_curr_sw w < 80)"

lemma set_wpc_simps [simp]:
  "wpc (mch (set_wpc w s)) = Some w" "host_sel (mch (set_wpc w s)) = host_sel (mch s)" "host_in (mch (set_wpc w s)) = host_in (mch s)"
  "set_wpc w (set_wpc v s) = set_wpc w s"
  by (simp_all add: set_wpc_def set_mch_def)

lemma pass_time_step:
  assumes "board_at w s" "wpc_keypoll s0 = Ret () s"
  shows "wpc_periodic s0 = Ret () (set_wpc (pass_time w) s)"
proof -
  let ?w = "w\<lparr>wa_wdog_timer := wa_wdog_timer w - 50\<rparr>"
  have "wpc_write_switch (wa_curr_sw w) False (set_wpc (?w\<lparr>wa_curr_sw_time := 0\<rparr>) s) =
      Ret () (set_wpc (?w\<lparr>wa_curr_sw_time := 0, wa_switch_mx := set_switch (wa_curr_sw w) False (wa_switch_mx w)\<rparr>) s)" if "0 < wa_curr_sw_time w"
    using write_switch_set [of "set_wpc (?w\<lparr>wa_curr_sw_time := 0\<rparr>) s" "?w\<lparr>wa_curr_sw_time := 0\<rparr>" "wa_curr_sw w" False] assms(1) that
    by (simp add: board_at_def)
  then show ?thesis
    using assms by (auto simp: wpc_periodic_def bindE_def with_wpc_def board_at_def pass_time_def Let_def assign_def)
qed

lemma periodic_idle:
  assumes "board_at w s" "no_key s"
  shows "\<exists>t. wpc_periodic s = Ret () t \<and> board_at (pass_time w) t \<and> host_sel (mch t) = tl (host_sel (mch s)) \<and> host_in (mch t) = host_in (mch s)"
proof -
  obtain u where u: "wpc_keypoll s = Ret () u" "board_at w u" "host_sel (mch u) = tl (host_sel (mch s))" "host_in (mch u) = host_in (mch s)"
    using assms by (cases "host_sel (mch s)") (auto simp: wpc_keypoll_def no_key_def Let_def set_mch_def board_at_def)
  have "board_at (pass_time w) (set_wpc (pass_time w) u)"
    using assms(1) by (simp add: board_at_def pass_time_def Let_def)
  then show ?thesis using pass_time_step [OF u(2,1)] u(3,4) by auto
qed

lemma key_switch_range: "key_switch c = Some num \<Longrightarrow> num < 8 \<or> 72 \<le> num \<and> num < 80"
  by (auto simp: key_switch_def split: if_splits)

lemma periodic_key:
  assumes "board_at w s" "host_sel (mch s) = (True, b) # sel" "host_in (mch s) 0 = key # keys" "key_switch key = Some num"
  shows "\<exists>t. wpc_periodic s = Ret () t \<and> board_at (pass_time (press num w)) t \<and> host_sel (mch t) = sel \<and> host_in (mch t) 0 = keys"
proof -
  have n: "num < 80" using key_switch_range [OF assms(4)] by auto
  let ?u = "set_mch (\<lambda>m. m\<lparr>host_sel := sel, host_in := (host_in m)(0 := keys)\<rparr>) s"
  have u: "wpc (mch ?u) = Some w" "length (wa_switch_mx w) = 10" using assms(1) by (simp_all add: board_at_def set_mch_def)
  have "wpc_keypoll s = wpc_press_switch num BUTTON_DURATION ?u"
    using assms(2-4) by (simp add: wpc_keypoll_def Let_def set_mch_def)
  also have "\<dots> = Ret () (set_wpc (press num w) ?u)"
    using write_switch_set [OF u n, of True] by (simp add: wpc_press_switch_def bindE_def with_wpc_def press_def)
  finally have k: "wpc_keypoll s = Ret () (set_wpc (press num w) ?u)" .
  have p: "board_at (press num w) (set_wpc (press num w) ?u)" using u(2) n by (simp add: board_at_def press_def)
  have "board_at (pass_time (press num w)) (set_wpc (pass_time (press num w)) ?u)"
    using u(2) n by (simp add: board_at_def pass_time_def press_def Let_def)
  then show ?thesis using pass_time_step [OF p k] by (auto simp: set_mch_def)
qed

text \<open>(C28) A button of WPC: the key closes its switch for the next call of the periodic function and the call after it, if
  no other key comes, opens it again; in between, the register of its column reads it as closed. Every other switch
  stays as it was.\<close>

theorem wpc_button:
  assumes "board_at w s" "wa_curr_sw_time w = 0" "host_sel (mch s) = (True, b) # sel" "host_in (mch s) 0 = key # keys" "key_switch key = Some num"
    and "sel = [] \<or> \<not> fst (hd sel)"
  shows "\<exists>t u wt wu. wpc_periodic s = Ret () t \<and> wpc (mch t) = Some wt \<and> wpc_periodic t = Ret () u \<and> wpc (mch u) = Some wu
    \<and> (\<forall>k < 80. closed_in (wa_switch_mx wt) k = (k = num \<or> closed_in (wa_switch_mx w) k))
    \<and> (\<exists>v. wpc_asic_read (if num < 8 then 0x3e8 else 0x3d4) t = Ret v t \<and> bit v (num mod 8))
    \<and> (\<forall>k < 80. closed_in (wa_switch_mx wu) k = (k \<noteq> num \<and> closed_in (wa_switch_mx w) k))"
proof -
  obtain t where t: "wpc_periodic s = Ret () t" "board_at (pass_time (press num w)) t" "host_sel (mch t) = sel"
    using periodic_key [OF assms(1,3,4,5)] by blast
  have "no_key t" using t(3) assms(6) by (cases sel) (auto simp: no_key_def)
  from periodic_idle [OF t(2) this] obtain u where u: "wpc_periodic t = Ret () u" "board_at (pass_time (pass_time (press num w))) u" by blast
  have n: "num < 80" "num < 8 \<Longrightarrow> num div 8 = 0" "\<not> num < 8 \<Longrightarrow> num div 8 = 9" using key_switch_range [OF assms(5)] by auto
  have mx: "length (wa_switch_mx w) = 10" using assms(1) by (simp add: board_at_def)
  have mt: "wa_switch_mx (pass_time (press num w)) = set_switch num True (wa_switch_mx w)"
    and mu: "wa_switch_mx (pass_time (pass_time (press num w))) = set_switch num False (set_switch num True (wa_switch_mx w))"
    by (simp_all add: pass_time_def press_def BUTTON_DURATION_def Let_def)
  have "wpc_read_switch_column (num div 8) t = Ret (set_switch num True (wa_switch_mx w) ! (num div 8)) t"
    using switch_column [of t "pass_time (press num w)" "num div 8"] t(2) n(1) mt by (simp add: board_at_def)
  moreover have "wpc_asic_read (if num < 8 then 0x3e8 else 0x3d4) t = wpc_read_switch_column (num div 8) t"
    using t(2) n by (auto simp: board_at_def wpc_asic_read_def WPC_ASIC_BASE_def with_wpc_def)
  moreover have "bit (set_switch num True (wa_switch_mx w) ! (num div 8)) (num mod 8)"
    using closed_set_switch [OF mx n(1) n(1), of True] by (simp add: closed_in_def)
  ultimately show ?thesis
    using t(1,2) u n(1) mx mt mu by (intro exI [of _ t] exI [of _ u]) (auto simp: board_at_def closed_set_switch)
qed

definition key_board :: "(bool \<times> bool) list \<Rightarrow> u8 list \<Rightarrow> sys" where
  "key_board sel keys = power_on (machine_power_on\<lparr>wpc := Some wpc_cleared, host_sel := sel, host_in := (\<lambda>_. keys)\<rparr>)"

lemma key_board_at: "board_at wpc_cleared (key_board sel keys)" "wa_curr_sw_time wpc_cleared = 0"
    "host_sel (mch (key_board sel keys)) = sel" "host_in (mch (key_board sel keys)) 0 = keys"
  by (simp_all add: board_at_def key_board_def wpc_cleared_def)

theorem wpc_button_witness:
  "\<exists>t u v. wpc_periodic (key_board [(True, False)] [0x37]) = Ret () t \<and> wpc_asic_read 0x3e8 t = Ret v t \<and> bit v 4 \<and> wpc_periodic t = Ret () u"
  using wpc_button [OF key_board_at(1,2), of "[(True, False)]" "[0x37]" False "[]" "0x37" "[]" 4]
  by (auto simp: key_board_at key_switch_def)

primrec periodics :: "nat \<Rightarrow> sys stmt" where
  "periodics 0 = Ret ()"
| "periodics (Suc n) = bindE wpc_periodic (\<lambda>_. periodics n)"

lemma idle_forever:
  assumes "board_at w s" "wa_curr_sw_time w = 0" "host_sel (mch s) = []"
  shows "\<exists>t wt. periodics n s = Ret () t \<and> wpc (mch t) = Some wt \<and> wa_switch_mx wt = wa_switch_mx w"
  using assms
proof (induction n arbitrary: w s)
  case (Suc n)
  obtain t where t: "wpc_periodic s = Ret () t" "board_at (pass_time w) t" "host_sel (mch t) = []"
    using periodic_idle [OF Suc.prems(1)] Suc.prems(3) by (auto simp: no_key_def)
  have "wa_curr_sw_time (pass_time w) = 0" "wa_switch_mx (pass_time w) = wa_switch_mx w"
    using Suc.prems(2) by (simp_all add: pass_time_def Let_def)
  then show ?case using Suc.IH [OF t(2) _ t(3)] t(1) by (auto simp: bindE_def)
qed (auto simp: board_at_def)

text \<open>(C29) A second key while the first button is still down leaves the first switch closed for good: only the button
  pressed last is released.\<close>

theorem wpc_button_stuck:
  assumes "board_at w s" "wa_curr_sw_time w = 0" "host_sel (mch s) = [(True, b), (True, c)]" "host_in (mch s) 0 = k1 # k2 # keys"
    and "key_switch k1 = Some n1" "key_switch k2 = Some n2" "n1 \<noteq> n2"
  shows "\<exists>t wt. periodics (Suc (Suc (Suc n))) s = Ret () t \<and> wpc (mch t) = Some wt
    \<and> (\<forall>k < 80. closed_in (wa_switch_mx wt) k = (k = n1 \<or> k \<noteq> n2 \<and> closed_in (wa_switch_mx w) k))"
proof -
  obtain t where t: "wpc_periodic s = Ret () t" "board_at (pass_time (press n1 w)) t" "host_sel (mch t) = [(True, c)]" "host_in (mch t) 0 = k2 # keys"
    using periodic_key [OF assms(1,3,4,5)] by blast
  obtain u where u: "wpc_periodic t = Ret () u" "board_at (pass_time (press n2 (pass_time (press n1 w)))) u" "host_sel (mch u) = []"
    using periodic_key [OF t(2-4) assms(6)] by blast
  let ?w = "pass_time (pass_time (press n2 (pass_time (press n1 w))))"
  obtain v where v: "wpc_periodic u = Ret () v" "board_at ?w v" "host_sel (mch v) = []"
    using periodic_idle [OF u(2)] u(3) by (auto simp: no_key_def)
  have mx: "length (wa_switch_mx w) = 10" using assms(1) by (simp add: board_at_def)
  have w: "wa_curr_sw_time ?w = 0" "wa_switch_mx ?w = set_switch n2 False (set_switch n2 True (set_switch n1 True (wa_switch_mx w)))"
    by (simp_all add: pass_time_def press_def BUTTON_DURATION_def Let_def)
  obtain x wx where x: "periodics n v = Ret () x" "wpc (mch x) = Some wx" "wa_switch_mx wx = wa_switch_mx ?w"
    using idle_forever [OF v(2) w(1) v(3)] by blast
  have r: "n1 < 80" "n2 < 80" using key_switch_range [OF assms(5)] key_switch_range [OF assms(6)] by auto
  have "periodics (Suc (Suc (Suc n))) s = Ret () x" using t(1) u(1) v(1) x(1) by (simp add: bindE_def)
  moreover have "\<forall>k < 80. closed_in (wa_switch_mx wx) k = (k = n1 \<or> k \<noteq> n2 \<and> closed_in (wa_switch_mx w) k)"
    using mx r assms(7) by (auto simp: x(3) w(2) closed_set_switch)
  ultimately show ?thesis using x(2) by blast
qed

theorem wpc_button_stuck_witness:
  "\<exists>t wt. periodics (Suc (Suc (Suc 100))) (key_board [(True, False), (True, False)] [0x37, 0x38]) = Ret () t \<and> wpc (mch t) = Some wt
    \<and> closed_in (wa_switch_mx wt) 4"
  using wpc_button_stuck [OF key_board_at(1,2), of "[(True, False), (True, False)]" "[0x37, 0x38]" False False "0x37" "0x38" "[]" 4 5 100]
  by (auto simp: key_board_at key_switch_def simp del: periodics.simps)

section \<open>The pages\<close>

text \<open>The machine while the initialiser builds it.\<close>

definition wpc_built :: "hw_device list \<Rightarrow> busmap list \<Rightarrow> wpc_asic option \<Rightarrow> sys" where
  "wpc_built ds maps w = power_on (machine_power_on\<lparr>device_table := \<lparr>dev_size = 0, dev_priv = Null_dev\<rparr> # ds, null_device := Some 0,
     busmaps := maps, cur_machine := Some Wpc_machine, wpc := w\<rparr>)"

definition no_maps :: "busmap list" where
  "no_maps = replicate NUM_BUS_MAPS \<lparr>bm_devid = INVALID_DEVID, bm_offset = 0, bm_flags = 0\<rparr>"

lemma power_on_more: "(power_on m)\<lparr>cpu.more := m'\<rparr> = power_on m'"
  by (simp add: power_on_def)

lemma built_update:
  "set_mch (\<lambda>m. m\<lparr>busmaps := maps'\<rparr>) (wpc_built ds maps w) = wpc_built ds maps' w"
  "set_wpc w' (wpc_built ds maps w) = wpc_built ds maps (Some w')"
  "set_mch (\<lambda>m. m\<lparr>busmaps := f (busmaps m)\<rparr>) (wpc_built ds maps w) = wpc_built ds (f maps) w"
  "set_mch (\<lambda>m. m\<lparr>device_table := device_table m @ es\<rparr>) (wpc_built ds maps w) = wpc_built (ds @ es) maps w"
  by (simp_all add: wpc_built_def set_wpc_def set_mch_def power_on_more machine_power_on_def)

lemma built_parts [simp]:
  "wpc (mch (wpc_built ds maps w)) = w" "busmaps (mch (wpc_built ds maps w)) = maps"
  "device_table (mch (wpc_built ds maps w)) = \<lparr>dev_size = 0, dev_priv = Null_dev\<rparr> # ds"
  "active_break_count (mch (wpc_built ds maps w)) = 0" "cpu_running (mch (wpc_built ds maps w)) = False"
  by (simp_all add: wpc_built_def machine_power_on_def)

lemma built_maps:
  assumes "no_fixed maps" "addr = a * 128" "off = x * 128" "len = k * 128" "a + k \<le> NUM_BUS_MAPS"
  shows "bus_map addr d off len fl (wpc_built ds maps w) = Ret () (wpc_built ds (remapped a k d off fl maps) w)"
  using bus_map_free [of "wpc_built ds maps w" a k d x fl] assms by (simp add: built_update)

lemma built_attach:
  assumes "length ds < 31" "p = Ram_dev (\<lambda>_. 0) \<or> p = Rom_dev buf"
  shows "device_attach p sz (wpc_built ds maps w) = Ret (Suc (length ds)) (wpc_built (ds @ [\<lparr>dev_size = sz, dev_priv = p\<rparr>]) maps w)"
  using attach_kinds [of "wpc_built ds maps w" p buf] assms by (auto simp: MAX_BUS_DEVICES_def attached_def built_update)

definition fresh_asic :: wpc_asic where
  "fresh_asic = wpc_cleared\<lparr>wa_switch_mx := set_switch 19 True (replicate 10 0)\<rparr>"

lemma built_asic: "wpc_asic_create (wpc_built [] maps None) = Ret (Some 1) (wpc_built [\<lparr>dev_size = 0x800, dev_priv = Wpc_asic_dev\<rparr>] maps (Some fresh_asic))"
proof -
  let ?d = "\<lparr>dev_size = 0x800, dev_priv = Wpc_asic_dev\<rparr>"
  have "dev_of 1 (wpc_built [?d] maps v) = Some ?d" for v by (simp add: dev_of_def wpc_built_def)
  moreover have "wpc_asic_reset (wpc_built [?d] maps (Some w)) = Ret () (wpc_built [?d] maps (Some fresh_asic))" for w
  proof -
    have mx: "wa_switch_mx wpc_cleared = replicate 10 0" by (simp add: wpc_cleared_def)
    have "wpc_write_switch 19 True (wpc_built [?d] maps (Some wpc_cleared)) = Ret () (wpc_built [?d] maps (Some fresh_asic))"
      by (subst write_switch_set [where w = wpc_cleared]) (simp_all add: mx fresh_asic_def built_update)
    then show ?thesis by (simp add: wpc_asic_reset_def bindE_def with_wpc_def built_update)
  qed
  ultimately have "dev_reset DEV_FUEL (Suc 0) (wpc_built [?d] maps (Some w)) = Ret () (wpc_built [?d] maps (Some fresh_asic))" for w
    by (simp add: DEV_FUEL_def)
  then show ?thesis by (simp add: wpc_asic_create_def device_attach_def bindE_def assign_def built_update MAX_BUS_DEVICES_def)
qed

lemmas wpc_sizes = WPC_ASIC_BASE_def WPC_PAGED_REGION_def WPC_PAGED_SIZE_def WPC_RAM_BASE_def WPC_RAM_SIZE_def
  WPC_ROM_SIZE_def WPC_FIXED_REGION_def WPC_FIXED_SIZE_def

text \<open>The map the initialiser leaves: 4 KB of the RAM writable, 4 KB locked, display pages, ASIC, the first and the last
  pages of the ROM.\<close>

definition wpc_map :: "nat \<Rightarrow> nat \<times> nat \<times> u8" where
  "wpc_map a =
     (if a < 0x1000 then (2, a, MAP_READWRITE) else if a < 0x2000 then (2, a, MAP_READABLE)
      else if a < 0x3800 then (INVALID_DEVID, a mod BUS_MAP_SIZE, 0)
      else if a < 0x3c00 then (4, a - 0x3800, MAP_READWRITE) else if a < 0x4000 then (1, a - 0x3c00, MAP_READWRITE)
      else if a < 0x8000 then (3, a - 0x4000, MAP_READABLE) else (3, 0xf8000 + (a - 0x8000), MAP_READABLE))"

definition built_asic :: wpc_asic where
  "built_asic = fresh_asic\<lparr>wa_ram_dev := Some 2, wa_rom_dev := Some 3, wa_dmd_dev := Some 4\<rparr>"

definition wpc_board :: "u8 list \<Rightarrow> hw_device list" where
  "wpc_board img = [\<lparr>dev_size = 0x800, dev_priv = Wpc_asic_dev\<rparr>, \<lparr>dev_size = WPC_RAM_SIZE, dev_priv = Ram_dev (\<lambda>_. 0)\<rparr>,
     \<lparr>dev_size = WPC_ROM_SIZE, dev_priv = Rom_dev (rom_of img)\<rparr>, \<lparr>dev_size = 16 * 512, dev_priv = Ram_dev (\<lambda>_. 0)\<rparr>]"

lemma wpc_devices_built:
  assumes "length img = 0x100000"
  obtains maps where "wpc_devices (Some img) (wpc_built [] no_maps None) = Ret () (wpc_built (wpc_board img) maps (Some built_asic))"
    "no_fixed maps" "\<And>a. a < 0x10000 \<Longrightarrow> translate (of_nat a) (wpc_built (wpc_board img) maps (Some built_asic)) = wpc_map a"
proof -
  define m1 where "m1 = remapped 120 8 1 0 MAP_READWRITE no_maps"
  define m2 where "m2 = remapped 0 64 2 0 MAP_READWRITE m1"
  define m3 where "m3 = remapped 128 128 3 0 MAP_READABLE m2"
  define m4 where "m4 = remapped 256 256 3 (WPC_ROM_SIZE - WPC_FIXED_SIZE) MAP_READABLE m3"
  define m5 where "m5 = remapped 112 8 4 0 MAP_READWRITE m4"
  have nf: "no_fixed no_maps" "no_fixed m1" "no_fixed m2" "no_fixed m3" "no_fixed m4" "no_fixed m5"
    using no_fixed_power_on(2) [of INVALID_DEVID 0]
    by (simp_all add: no_maps_def m1_def m2_def m3_def m4_def m5_def no_fixed_remapped map_flags)
  have rom: "rom_create (Some img) WPC_ROM_SIZE = device_attach (Rom_dev (rom_of img)) WPC_ROM_SIZE"
    using assms by (simp add: rom_create_def rom_of_def [abs_def] WPC_ROM_SIZE_def)
  have d1: "device_define 1 0 WPC_ASIC_BASE (WPC_PAGED_REGION - WPC_ASIC_BASE) MAP_READWRITE (wpc_built ds no_maps w) = Ret () (wpc_built ds m1 w)" for ds w
    unfolding device_define_def m1_def by (rule built_maps [OF nf(1), where a = 120 and x = 0 and k = 8]) (simp_all add: wpc_sizes NUM_BUS_MAPS_def)
  have d2: "device_define 2 0 WPC_RAM_BASE WPC_RAM_SIZE MAP_READWRITE (wpc_built ds m1 w) = Ret () (wpc_built ds m2 w)" for ds w
    unfolding device_define_def m2_def by (rule built_maps [OF nf(2), where a = 0 and x = 0 and k = 64]) (simp_all add: wpc_sizes NUM_BUS_MAPS_def)
  have d3: "device_define 3 0 WPC_PAGED_REGION WPC_PAGED_SIZE MAP_READABLE (wpc_built ds m2 w) = Ret () (wpc_built ds m3 w)" for ds w
    unfolding device_define_def m3_def by (rule built_maps [OF nf(3), where a = 128 and x = 0 and k = 128]) (simp_all add: wpc_sizes NUM_BUS_MAPS_def)
  have d4: "device_define 3 (WPC_ROM_SIZE - WPC_FIXED_SIZE) WPC_FIXED_REGION WPC_FIXED_SIZE MAP_READABLE (wpc_built ds m3 w) = Ret () (wpc_built ds m4 w)" for ds w
    unfolding device_define_def m4_def by (rule built_maps [OF nf(4), where a = 256 and x = 7936 and k = 256]) (simp_all add: wpc_sizes NUM_BUS_MAPS_def)
  have d5: "device_define 4 0 0x3800 (0x200 * 2) MAP_READWRITE (wpc_built ds m4 w) = Ret () (wpc_built ds m5 w)" for ds w
    unfolding device_define_def m5_def by (rule built_maps [OF nf(5), where a = 112 and x = 0 and k = 8]) (simp_all add: wpc_sizes NUM_BUS_MAPS_def)
  have c: "ram_create WPC_RAM_SIZE (wpc_built (take 1 (wpc_board img)) m w) = Ret 2 (wpc_built (take 2 (wpc_board img)) m w)"
    "device_attach (Rom_dev (rom_of img)) WPC_ROM_SIZE (wpc_built (take 2 (wpc_board img)) m w) = Ret 3 (wpc_built (take 3 (wpc_board img)) m w)"
    "ram_create (16 * 512) (wpc_built (take 3 (wpc_board img)) m w) = Ret 4 (wpc_built (wpc_board img) m w)" for m w
    unfolding ram_create_def by (subst built_attach; simp add: wpc_board_def)+
  have a: "wpc_asic_create (wpc_built [] no_maps None) = Ret (Some 1) (wpc_built (take 1 (wpc_board img)) no_maps (Some fresh_asic))"
    using built_asic by (simp add: wpc_board_def)
  have ram: "wa_ram_dev built_asic = Some 2" by (simp add: built_asic_def)
  obtain maps where u: "wpc_update_ram (wpc_built (wpc_board img) m5 (Some built_asic)) = Ret () (wpc_built (wpc_board img) maps (Some built_asic))"
      "no_fixed maps" "\<forall>i < NUM_BUS_MAPS. maps ! i = (if i < 64 then ram_unit 2 built_asic (i * 128) else m5 ! i)"
    using update_ram_remaps [OF ram, of "wpc_built (wpc_board img) m5 (Some built_asic)"] nf(6) by (auto simp: built_update)
  have "wpc_devices (Some img) (wpc_built [] no_maps None) = Ret () (wpc_built (wpc_board img) maps (Some built_asic))"
    using u(1) by (simp add: wpc_devices_def bindE_def a [unfolded One_nat_def] d1 [unfolded One_nat_def] d2 d3 d4 d5 [simplified]
      c(1) [unfolded One_nat_def] c(2) c(3) [simplified] rom with_wpc_def assign_def built_update built_asic_def)
  moreover have "translate (of_nat a) (wpc_built (wpc_board img) maps (Some built_asic)) = wpc_map a" if "a < 0x10000" for a
  proof -
    define i r where "i = a div 128" and "r = a mod 128"
    then have a: "a = i * 128 + r" "r < 128" "i < 512" using that by auto
    have "unat (of_nat a :: u32) = a" using that by (simp add: unat_of_nat)
    then have t: "translate (of_nat a) (wpc_built (wpc_board img) maps (Some built_asic)) = (bm_devid (maps ! i), bm_offset (maps ! i) + r, bm_flags (maps ! i))"
      using a by (simp add: translate_def unit_at_def BUS_MAP_SIZE_def)
    have lock: "locked_bytes built_asic = 0x1000" by (simp add: locked_bytes_def built_asic_def fresh_asic_def wpc_cleared_def)
    have "m5 ! i = (if 112 \<le> i \<and> i < 120 then \<lparr>bm_devid = 4, bm_offset = (i - 112) * 128, bm_flags = MAP_READWRITE\<rparr>
        else if 256 \<le> i then \<lparr>bm_devid = 3, bm_offset = 0xf8000 + (i - 256) * 128, bm_flags = MAP_READABLE\<rparr>
        else if 128 \<le> i then \<lparr>bm_devid = 3, bm_offset = (i - 128) * 128, bm_flags = MAP_READABLE\<rparr>
        else if 120 \<le> i then \<lparr>bm_devid = 1, bm_offset = (i - 120) * 128, bm_flags = MAP_READWRITE\<rparr>
        else \<lparr>bm_devid = INVALID_DEVID, bm_offset = 0, bm_flags = 0\<rparr>)" if "64 \<le> i"
      using a(3) that nf by (simp add: m5_def m4_def m3_def m2_def m1_def remapped_nth no_maps_def NUM_BUS_MAPS_def BUS_MAP_SIZE_def WPC_ROM_SIZE_def WPC_FIXED_SIZE_def)
    moreover have "maps ! i = (if i < 64 then ram_unit 2 built_asic (i * 128) else m5 ! i)" using u(3) a(3) by (simp add: NUM_BUS_MAPS_def)
    moreover have "a < 0x1000 \<longleftrightarrow> i < 32" "a < 0x2000 \<longleftrightarrow> i < 64" "a < 0x3800 \<longleftrightarrow> i < 112" "a < 0x3c00 \<longleftrightarrow> i < 120" "a < 0x4000 \<longleftrightarrow> i < 128" "a < 0x8000 \<longleftrightarrow> i < 256"
      using a(1,2) by auto
    ultimately show ?thesis
      unfolding t wpc_map_def using a by (auto simp: ram_unit_def lock BUS_MAP_SIZE_def)
  qed
  ultimately show thesis using that u(2) by blast
qed

lemma read_translated:
  assumes "translate x s = (d, p, fl)" "length (busmaps (mch s)) = NUM_BUS_MAPS" "half x" "present d s"
    and "\<not> cpu_running (mch s)" "active_break_count (mch s) = 0"
  shows "cpu_read8 dbg x s = dev_read DEV_FUEL d p s"
proof -
  have "bm_devid (unit_at x s) = d" "bm_offset (unit_at x s) + unat x mod BUS_MAP_SIZE = p" using assms(1) by (simp_all add: translate_def)
  then show ?thesis
    using assms(4-6) by (simp add: cpu_read8_def bindE_def find_map_unit [OF assms(2,3)] find_device_present doif_def Let_def command_read_hook_def)
qed

lemma half_of_nat: "a < 0x10000 \<Longrightarrow> half (of_nat a :: u32)"
  by (simp add: half_def unat_of_nat)

lemma built_rom:
  assumes "no_fixed maps" "translate (of_nat x) (wpc_built (wpc_board img) maps w) = (3, p, fl)" "x < 0x10000" "p < length img" "length img = 0x100000"
  shows "cpu_read8 dbg (of_nat x) (wpc_built (wpc_board img) maps w) = Ret (img ! p) (wpc_built (wpc_board img) maps w)"
proof -
  have "present 3 (wpc_built (wpc_board img) maps w)" by (simp add: present_def INVALID_DEVID_def wpc_board_def)
  then show ?thesis
    using assms by (subst read_translated [OF assms(2) _ half_of_nat])
      (simp_all add: no_fixed_def DEV_FUEL_def dev_of_def wpc_board_def ram_read_def WPC_ROM_SIZE_def rom_of_def)
qed

text \<open>(C26) WPC starts: with a ROM image of 1 MB the initialiser maps 4 KB of RAM for writing and 4 KB locked, the display,
  the ASIC, and the first and last pages of the ROM, so that the reset vector is in the last bytes of the image.\<close>

theorem wpc_builds:
  assumes "length img = 0x100000"
  shows "\<exists>t. wpc_devices (Some img) (wpc_built [] no_maps None) = Ret () t \<and> (\<forall>a < 0x10000. translate (of_nat a) t = wpc_map a)
    \<and> (\<forall>a < 0x8000. cpu_read8 dbg (of_nat (0x8000 + a)) t = Ret (img ! (0xf8000 + a)) t)
    \<and> (\<forall>a < 0x4000. cpu_read8 dbg (of_nat (0x4000 + a)) t = Ret (img ! a) t)"
proof -
  obtain maps where t: "wpc_devices (Some img) (wpc_built [] no_maps None) = Ret () (wpc_built (wpc_board img) maps (Some built_asic))"
      "no_fixed maps" "\<And>a. a < 0x10000 \<Longrightarrow> translate (of_nat a) (wpc_built (wpc_board img) maps (Some built_asic)) = wpc_map a"
    by (rule wpc_devices_built [OF assms]) blast
  let ?t = "wpc_built (wpc_board img) maps (Some built_asic)"
  have "cpu_read8 dbg (of_nat (0x8000 + a)) ?t = Ret (img ! (0xf8000 + a)) ?t" if "a < 0x8000" for a
    by (rule built_rom [OF t(2), where fl = MAP_READABLE]) (use that assms t(3) [of "0x8000 + a"] in \<open>simp_all add: wpc_map_def del: of_nat_add\<close>)
  moreover have "cpu_read8 dbg (of_nat (0x4000 + a)) ?t = Ret (img ! a) ?t" if "a < 0x4000" for a
    by (rule built_rom [OF t(2), where fl = MAP_READABLE]) (use that assms t(3) [of "0x4000 + a"] in \<open>simp_all add: wpc_map_def del: of_nat_add\<close>)
  ultimately show ?thesis using t(1,3) by blast
qed

theorem wpc_builds_witness:
  "\<exists>t. wpc_devices (Some (replicate 0x100000 7)) (wpc_built [] no_maps None) = Ret () t \<and> cpu_read8 no_debugger (of_nat (0x8000 + 0x7ffe)) t = Ret 7 t"
proof -
  have len: "length (replicate 0x100000 (7 :: u8)) = 0x100000" by (rule length_replicate)
  have n: "replicate 0x100000 (7 :: u8) ! (0xf8000 + 0x7ffe) = 7" by (rule nth_replicate) simp
  obtain t where t: "wpc_devices (Some (replicate 0x100000 7)) (wpc_built [] no_maps None) = Ret () t"
      "\<forall>a < 0x8000. cpu_read8 no_debugger (of_nat (0x8000 + a)) t = Ret (replicate 0x100000 7 ! (0xf8000 + a)) t"
    using wpc_builds [OF len] by blast
  have "cpu_read8 no_debugger (of_nat (0x8000 + 0x7ffe)) t = Ret (replicate 0x100000 7 ! (0xf8000 + 0x7ffe)) t"
    by (rule t(2) [rule_format]) simp
  then show ?thesis using t(1) unfolding n by blast
qed

text \<open>(C30) The ROM of WPC cannot be paged: selecting a page through the bank register maps device 2, which is the RAM, so
  that a read of the paged region, which showed the ROM before, leaves the memory of that device.\<close>

theorem wpc_rom_bank_lost:
  assumes "length img = 0x100000" "a < 0x4000" "v \<noteq> 0"
  shows "\<exists>t u. wpc_devices (Some img) (wpc_built [] no_maps None) = Ret () t \<and> cpu_read8 dbg (of_nat (0x4000 + a)) t = Ret (img ! a) t
    \<and> wpc_asic_write 0x3fc v t = Ret () u \<and> cpu_read8 dbg (of_nat (0x4000 + a)) u = UB"
proof -
  obtain maps where t: "wpc_devices (Some img) (wpc_built [] no_maps None) = Ret () (wpc_built (wpc_board img) maps (Some built_asic))"
      "no_fixed maps" "\<And>a. a < 0x10000 \<Longrightarrow> translate (of_nat a) (wpc_built (wpc_board img) maps (Some built_asic)) = wpc_map a"
    by (rule wpc_devices_built [OF assms(1)]) blast
  let ?t = "wpc_built (wpc_board img) maps (Some built_asic)"
  let ?maps = "remapped 128 128 2 (unat v * WPC_PAGED_SIZE) MAP_READABLE maps"
  let ?u = "wpc_built (wpc_board img) ?maps (Some (built_asic\<lparr>wa_rombank := v\<rparr>))"
  have rom: "cpu_read8 dbg (of_nat (0x4000 + a)) ?t = Ret (img ! a) ?t"
    by (rule built_rom [OF t(2), where fl = MAP_READABLE]) (use assms t(3) [of "0x4000 + a"] in \<open>simp_all add: wpc_map_def del: of_nat_add\<close>)
  have "wpc_set_rom_page v (wpc_built (wpc_board img) maps w) = Ret () (wpc_built (wpc_board img) ?maps w)" for w
    unfolding wpc_set_rom_page_def by (rule built_maps [OF t(2), where x = "unat v * 128"]) (simp_all add: wpc_sizes NUM_BUS_MAPS_def)
  then have w: "wpc_asic_write 0x3fc v ?t = Ret () ?u"
    by (simp add: wpc_asic_write_def WPC_ASIC_BASE_def with_wpc_def bindE_def assign_def built_update)
  have nf: "no_fixed ?maps" by (rule no_fixed_remapped [OF t(2)]) (simp add: map_flags)
  have x: "unat (of_nat (0x4000 + a) :: u32) = 0x4000 + a" using assms(2) by (simp add: unat_of_nat del: of_nat_add)
  have "translate (of_nat (0x4000 + a)) ?u = (2, unat v * 0x4000 + a, MAP_READABLE)"
  proof -
    have "(0x4000 + a) div 128 = 128 + a div 128" "a div 128 < 128" using assms(2) by auto
    moreover have "(0x4000 + a) mod 128 = a mod 128" using mod_mult_self4 [of 128 128 a] by simp
    moreover from this have "a div 128 * 128 + (0x4000 + a) mod 128 = a" by simp
    ultimately show ?thesis using t(2) by (simp add: translate_def unit_at_def x remapped_nth WPC_PAGED_SIZE_def BUS_MAP_SIZE_def NUM_BUS_MAPS_def del: of_nat_add)
  qed
  moreover have "present 2 ?u" by (simp add: present_def INVALID_DEVID_def wpc_board_def)
  ultimately have "cpu_read8 dbg (of_nat (0x4000 + a)) ?u = dev_read DEV_FUEL 2 (unat v * 0x4000 + a) ?u"
    using nf assms(2) half_of_nat [of "0x4000 + a"] by (intro read_translated [where fl = MAP_READABLE]) (simp_all add: no_fixed_def del: of_nat_add)
  moreover have "0x2000 \<le> unat v * 0x4000 + a"
  proof -
    have "1 \<le> unat v" using assms(3) by (simp add: Suc_le_eq unat_gt_0)
    then show ?thesis by simp
  qed
  ultimately have "cpu_read8 dbg (of_nat (0x4000 + a)) ?u = UB"
    by (simp add: DEV_FUEL_def dev_of_def wpc_board_def ram_read_def WPC_RAM_SIZE_def)
  then show ?thesis using t(1) rom w by blast
qed

theorem wpc_rom_bank_lost_witness:
  "\<exists>t u. wpc_devices (Some (replicate 0x100000 7)) (wpc_built [] no_maps None) = Ret () t \<and> wpc_asic_write 0x3fc 1 t = Ret () u
    \<and> cpu_read8 no_debugger (of_nat (0x4000 + 0)) u = UB"
proof -
  have len: "length (replicate 0x100000 (7 :: u8)) = 0x100000" by (rule length_replicate)
  have av: "(0 :: nat) < 0x4000" "(1 :: u8) \<noteq> 0" by simp_all
  from wpc_rom_bank_lost [OF len av, of no_debugger] show ?thesis
    by (elim exE conjE, intro exI conjI)
qed

end
