(* ===== verification/Spec2Isabelle.thy ===== *)
theory Spec2Isabelle
  imports System_Ram Bus_Laws Device_Laws Disasm_Laws Map_File Debugger_Step Debugger_Invariant Wpc_Laws
begin

text \<open>
  A verification development of the M6809 emulator \<^verbatim>\<open>m6809-run\<close> (\<^verbatim>\<open>src/src\<close>), for the build without
  the H6309 extensions and without \<^verbatim>\<open>CALL_STACK\<close>.

  \<^bold>\<open>The program.\<close> \<^verbatim>\<open>6809.c\<close> interprets instructions over global registers. Every access goes through
  \<^verbatim>\<open>machine.c\<close>, which maps the 64 KB of the processor in units of 128 bytes to offsets in devices and calls the
  read and write functions of the device: memory, console, memory management units, timers, the interrupt
  multiplexer, the I/O expander, the serial port, the disk. Devices call back into the processor by requesting
  interrupts, which may stack registers and so write to the bus again. The debugger (\<^verbatim>\<open>command.c\<close>,
  \<^verbatim>\<open>monitor.c\<close>, \<^verbatim>\<open>symtab.c\<close>) sees every access and instruction through hooks.

  \<^bold>\<open>The model.\<close> C code is a function from a state to an \<open>outcome\<close>: it returns a value and a state, it ends the
  process with a status, it reaches undefined behaviour (an index outside an array, a NULL device), or a bounded
  model of a loop runs out of fuel. The globals of \<^verbatim>\<open>6809.c\<close> are the record \<open>cpu\<close>, which the state of the
  machine extends; \<^verbatim>\<open>unsigned\<close> registers are 32-bit words, with the masks of the source.

  \<^item> \<open>Prelude\<close>: machine integers, outcomes, sequencing, Hoare triples and relational contracts, bit lemmas.
  \<^item> \<open>Cpu_State\<close>, \<open>Cpu_Alu\<close>, \<open>Cpu_Memory\<close>, \<open>Cpu_Stack\<close>, \<open>Cpu_Exec\<close>: \<^verbatim>\<open>6809.c\<close> in its order: registers and
    lazily kept flags, arithmetic, addressing modes, stack and interrupts, the opcode switch as tables, the main
    loop. The bus is the parameter \<open>io\<close>, a record of the accesses and hooks the processor calls.
  \<^item> \<open>Cpu_Progress\<close>, \<open>Cpu_Invariant\<close>, \<open>Cpu_Ram\<close>: the processor over any bus that meets a contract, stated as
    locales: every instruction costs at least a cycle, registers stay in range, pushes and pulls are inverse.
  \<^item> \<open>Machine_State\<close>, \<open>Serial\<close>, \<open>Io_Devices\<close>, \<open>System\<close>: \<^verbatim>\<open>machine.c\<close>, \<^verbatim>\<open>serial.c\<close>, \<^verbatim>\<open>imux.c\<close>,
    \<^verbatim>\<open>timer.c\<close>, \<^verbatim>\<open>mmu.c\<close>, \<^verbatim>\<open>ioexpand.c\<close>, \<^verbatim>\<open>disk.c\<close>, \<^verbatim>\<open>eon.c\<close>, and the hooks and breakpoints of
    \<^verbatim>\<open>command.c\<close>; \<open>sys_bus\<close> is the bus of the whole machine.
  \<^item> \<open>System_Contract\<close>, \<open>System_Ram\<close>: the machine's bus meets the contracts (the interpretations), so the results
    on the processor hold for the system.
  \<^item> \<open>Bus_Laws\<close>, \<open>Device_Laws\<close>: protection in every case of the flags, the machine and the debugger, unmapped addresses,
    translation by the memory management unit, fixed units included; ROM, disk, interrupt multiplexer and timer.
  \<^item> \<open>Symtab\<close>: \<^verbatim>\<open>symtab.c\<close>, hash tables on a heap, refined to maps.
  \<^item> \<open>Disasm\<close>, \<open>Disasm_Laws\<close>: the disassembler of \<^verbatim>\<open>monitor.c\<close>.
  \<^item> \<open>Loader\<close>, \<open>Map_File\<close>: the loaders of S-record, Intel hex and map files in \<^verbatim>\<open>monitor.c\<close>.
    The locale \<open>image_bus\<close> is what an image needs of the bus; the machine meets it wherever RAM or, before the processor
    runs, ROM is mapped. Map files may hold lines of any words, of which only the symbol lines count.
  \<^item> \<open>Expr_Syntax\<close>, \<open>Debugger_Eval\<close>: the evaluator of \<^verbatim>\<open>command.c\<close> (\<^verbatim>\<open>eval\<close>, \<^verbatim>\<open>eval_mem\<close>, virtual
    symbols) over the machine, and how it cuts its text. \<open>Debugger\<close>, \<open>Debugger_Shell\<close>: the commands, their table, the
    command lines and the command loop over the record \<open>console\<close>.
  \<^item> \<open>Debugger_Laws\<close>: the grammar of expressions, what is shown reads back, registers and memory read back what was
    assigned, a breakpoint stops the program. \<open>Debugger_Invariant\<close>: the breakpoint table keeps its count of enabled
    entries, over a contract \<open>table_bus\<close> that the bus meets with the evaluator behind the conditions of breakpoints.
  \<^item> \<open>Cpu_Step\<close>, \<open>Debugger_Step\<close>: how far an instruction moves PC, over any bus that meets the contract \<open>step_bus\<close>, checked
    case by case against the disassembler's tables, what an opcode outside the tables does, and the \<^verbatim>\<open>next\<close> command of
    the debugger.
  \<^item> \<open>Sbc\<close>: the boards of \<^verbatim>\<open>miscsbc.c\<close>, whose variables and the machine are the record \<open>sbc_state\<close>; \<open>sbc_bus\<close> is
    their bus. \<open>Sbc_Laws\<close>: the UART is a bounded queue, sectors of the SD card read back, the memory mapper
    translates as its registers say, Multicomp 09 reaches the first instruction of its ROM.
  \<^item> \<open>Wpc_Asic\<close>, \<open>Wpc\<close>: the board of \<^verbatim>\<open>wpc.c\<close>; its ASIC is a device of the machine like the others.
    \<open>Wpc_Laws\<close>: how the board starts, the lock on its RAM, its buttons, and the ROM pages that its bank register
    fails to select.

  \<^bold>\<open>Bounds.\<close> The main loop takes one unit of fuel per instruction; a slice of \<open>k\<close> cycles never needs more than
  \<open>max 1 k\<close>. \<open>sys_bus dbg n\<close> allows \<open>n\<close> levels of bus accesses nested through interrupts, \<open>DEV_FUEL\<close> levels of I/O
  expanders. The walks along hash chains take the number of symbols, which suffices because a chain has no
  repetitions. The record loops of the loaders take the length of the file, since each record consumes a character.

  The evaluator recurses on shorter texts and needs no fuel; the command loop takes a number of lines and of command
  files.

  \<^bold>\<open>The debugger as a parameter.\<close> The hooks of the bus take the evaluator as an argument \<open>dbg\<close>, since it reads memory
  through the same bus; \<open>eval_debugger\<close> is the instance that stands for \<^verbatim>\<open>command.c\<close>, and \<open>nested_debugger\<close> the one
  whose own accesses may hit \<open>n\<close> levels of further watchpoints with conditions. The addresses of the C
  functions behind the automatic symbols are a parameter too; the theorems that need it assume they are distinct.

  \<^bold>\<open>Plain memory.\<close> The round trips of the stack and of interrupts, and the step by an instruction, are stated for a
  machine whose 64 KB are one RAM (\<open>ram_machine\<close>), so that no device can react to an access; the loaders, the bus, the
  boards and the breakpoint table are not restricted in this way.

  \<^bold>\<open>Not modelled.\<close> Terminal setup, sockets and file access, the text of listings that no other code reads, option
  parsing, the log and dump files of Multicomp 09, and the thread dump that a change of the current thread may print.
\<close>

end
